(* ===== verification/Go_Prelude.thy ===== *)
theory Go_Prelude
  imports Main "HOL-Library.Char_ord" "HOL-Library.List_Lexorder" "HOL-Library.Product_Lexorder"
    "HOL-Library.Sublist"
begin

text \<open>
  Shared vocabulary of the development: Go strings and the functions of the Go package
  \<^verbatim>\<open>strings\<close> the sources call, the error values of the gRPC status package, pointers to
  strings and look-ups in Go maps, and the generic lemmas on lists the components share.

  A Go string is a byte string, here a \<open>string\<close> (list of characters). A pointer
  \<^verbatim>\<open>*T\<close> is an \<open>option\<close>, \<^verbatim>\<open>nil\<close> is \<open>None\<close>. A Go function that returns a value and
  an error is a function into a sum, \<open>Inl\<close> being the error; a function that returns only
  an error is a function into an \<open>option\<close>, \<open>None\<close> being \<^verbatim>\<open>nil\<close>.
  A nil interface is \<open>None\<close> as well.
\<close>

named_theorems policy_defs \<open>definitions of the role predicates\<close>
named_theorems status_defs \<open>definitions of the gRPC status constructors\<close>
named_theorems dao_defs \<open>definitions of the data access operations\<close>

section \<open>Strings\<close>

abbreviation strings_HasPrefix :: "string \<Rightarrow> string \<Rightarrow> bool" where
  "strings_HasPrefix s p \<equiv> prefix p s"

abbreviation strings_HasSuffix :: "string \<Rightarrow> string \<Rightarrow> bool" where
  "strings_HasSuffix s p \<equiv> suffix p s"

fun strings_Contains :: "string \<Rightarrow> string \<Rightarrow> bool" where
  "strings_Contains [] p = (p = [])"
| "strings_Contains (c # cs) p = (prefix p (c # cs) \<or> strings_Contains cs p)"

definition strings_TrimPrefix :: "string \<Rightarrow> string \<Rightarrow> string" where
  "strings_TrimPrefix s p = (if prefix p s then drop (length p) s else s)"

text \<open>\<^verbatim>\<open>strings.Trim\<close> with a cutset of one character.\<close>

definition strings_Trim :: "string \<Rightarrow> char \<Rightarrow> string" where
  "strings_Trim s c = rev (dropWhile (\<lambda>x. x = c) (rev (dropWhile (\<lambda>x. x = c) s)))"

text \<open>White space as \<^verbatim>\<open>strings.TrimSpace\<close> knows it in the ASCII range.\<close>

definition go_space :: "char \<Rightarrow> bool" where
  "go_space c \<longleftrightarrow> c \<in> {CHR 0x09, CHR 0x0A, CHR 0x0B, CHR 0x0C, CHR 0x0D, CHR 0x20}"

definition strings_TrimSpace :: "string \<Rightarrow> string" where
  "strings_TrimSpace s = rev (dropWhile go_space (rev (dropWhile go_space s)))"

text \<open>\<^verbatim>\<open>strings.ToLower\<close> and \<^verbatim>\<open>strings.EqualFold\<close>, in the ASCII range.\<close>

definition lowerChar :: "char \<Rightarrow> char" where
  "lowerChar c = (if of_char c \<ge> (65::nat) \<and> of_char c \<le> (90::nat) then char_of (of_char c + 32 :: nat) else c)"

definition strings_ToLower :: "string \<Rightarrow> string" where
  "strings_ToLower s = map lowerChar s"

definition strings_EqualFold :: "string \<Rightarrow> string \<Rightarrow> bool" where
  "strings_EqualFold s t \<longleftrightarrow> strings_ToLower s = strings_ToLower t"

text \<open>\<^verbatim>\<open>strings.Split\<close> with a separator of one character; never an empty list.\<close>

fun strings_Split :: "string \<Rightarrow> char \<Rightarrow> string list" where
  "strings_Split [] c = [[]]"
| "strings_Split (x # xs) c =
     (if x = c then [] # strings_Split xs c
      else (case strings_Split xs c of [] \<Rightarrow> [[x]] | y # ys \<Rightarrow> (x # y) # ys))"

text \<open>\<^verbatim>\<open>strings.Cut\<close> with a separator of one character.\<close>

fun strings_Cut :: "string \<Rightarrow> char \<Rightarrow> string \<times> string \<times> bool" where
  "strings_Cut [] c = ([], [], False)"
| "strings_Cut (x # xs) c =
     (if x = c then ([], xs, True)
      else (case strings_Cut xs c of (a, b, ok) \<Rightarrow> (x # a, b, ok)))"

text \<open>A look-up in a Go map with string values: the zero value when the key is absent.\<close>

definition map_get :: "('k \<rightharpoonup> string) \<Rightarrow> 'k \<Rightarrow> string" where
  "map_get m k = (case m k of None \<Rightarrow> [] | Some v \<Rightarrow> v)"

section \<open>Error values\<close>

text \<open>The codes of \<^verbatim>\<open>google.golang.org/grpc/codes\<close>.\<close>

datatype grpc_code =
    OK | Canceled | Unknown | InvalidArgument | DeadlineExceeded | NotFound | AlreadyExists
  | PermissionDenied | ResourceExhausted | FailedPrecondition | Aborted | OutOfRange
  | Unimplemented | Internal | Unavailable | DataLoss | Unauthenticated

text \<open>
  A non-nil Go error is a gRPC status (\<^verbatim>\<open>status.Error\<close>), or any other error with its text.
\<close>

datatype go_error = StatusError grpc_code string | PlainError string

text \<open>\<^verbatim>\<open>status.FromError\<close>: the status an error carries, if it carries one.\<close>

fun status_FromError :: "go_error \<Rightarrow> (grpc_code \<times> string) option" where
  "status_FromError (StatusError c m) = Some (c, m)"
| "status_FromError (PlainError m) = None"

text \<open>\<^verbatim>\<open>Error()\<close> of an error.\<close>

fun code_String :: "grpc_code \<Rightarrow> string" where
  "code_String OK = ''OK''"
| "code_String Canceled = ''Canceled''"
| "code_String Unknown = ''Unknown''"
| "code_String InvalidArgument = ''InvalidArgument''"
| "code_String DeadlineExceeded = ''DeadlineExceeded''"
| "code_String NotFound = ''NotFound''"
| "code_String AlreadyExists = ''AlreadyExists''"
| "code_String PermissionDenied = ''PermissionDenied''"
| "code_String ResourceExhausted = ''ResourceExhausted''"
| "code_String FailedPrecondition = ''FailedPrecondition''"
| "code_String Aborted = ''Aborted''"
| "code_String OutOfRange = ''OutOfRange''"
| "code_String Unimplemented = ''Unimplemented''"
| "code_String Internal = ''Internal''"
| "code_String Unavailable = ''Unavailable''"
| "code_String DataLoss = ''DataLoss''"
| "code_String Unauthenticated = ''Unauthenticated''"

fun error_text :: "go_error \<Rightarrow> string" where
  "error_text (PlainError m) = m"
| "error_text (StatusError code m) = ''rpc error: code = '' @ code_String code @ '' desc = '' @ m"

section \<open>Shared lemmas\<close>

lemma strings_Contains_iff: "strings_Contains s p \<longleftrightarrow> (\<exists>a b. s = a @ p @ b)"
proof (induction s)
  case Nil
  then show ?case by auto
next
  case (Cons c cs)
  show ?case
  proof
    assume "strings_Contains (c # cs) p"
    then consider "prefix p (c # cs)" | "strings_Contains cs p" by auto
    then show "\<exists>a b. c # cs = a @ p @ b"
    proof cases
      case 1
      then obtain b where "c # cs = [] @ p @ b" by (auto elim: prefixE)
      then show ?thesis by blast
    next
      case 2
      with Cons.IH obtain a b where "c # cs = (c # a) @ p @ b" by auto
      then show ?thesis by blast
    qed
  next
    assume "\<exists>a b. c # cs = a @ p @ b"
    then obtain a b where ab: "c # cs = a @ p @ b" by blast
    show "strings_Contains (c # cs) p"
    proof (cases a)
      case Nil
      with ab have "prefix p (c # cs)" by auto
      then show ?thesis by simp
    next
      case (Cons x a')
      with ab have "cs = a' @ p @ b" by simp
      with Cons.IH show ?thesis by auto
    qed
  qed
qed

lemma strings_Split_not_Nil [simp]: "strings_Split s c \<noteq> []"
  by (induction s) (auto split: list.splits)

lemma strings_Split_noSep: "c \<notin> set s \<Longrightarrow> strings_Split s c = [s]"
  by (induction s) auto

lemma strings_Split_append:
  "c \<notin> set s \<Longrightarrow> strings_Split (s @ c # t) c = s # strings_Split t c"
  by (induction s) auto

lemma strings_Split_parts: "p \<in> set (strings_Split s c) \<Longrightarrow> c \<notin> set p"
proof (induction s arbitrary: p)
  case Nil
  then show ?case by simp
next
  case (Cons x xs)
  then show ?case
    by (cases "strings_Split xs c") (auto split: if_splits)
qed

lemma strings_Trim_clean:
  assumes "s \<noteq> []" "hd s \<noteq> c" "last s \<noteq> c"
  shows "strings_Trim s c = s"
proof -
  from assms(1,2) have "dropWhile (\<lambda>x. x = c) s = s" by (cases s) auto
  moreover from assms(1,3) have "dropWhile (\<lambda>x. x = c) (rev s) = rev s"
    by (cases "rev s") (auto simp: hd_rev [symmetric])
  ultimately show ?thesis by (simp add: strings_Trim_def)
qed

lemma strings_TrimPrefix_append [simp]: "strings_TrimPrefix (p @ s) p = s"
  by (simp add: strings_TrimPrefix_def)

lemma strings_Cut_append:
  "c \<notin> set s \<Longrightarrow> strings_Cut (s @ c # t) c = (s, t, True)"
  by (induction s) auto

lemma strings_Cut_True: "strings_Cut s c = (a, b, True) \<Longrightarrow> s = a @ c # b \<and> c \<notin> set a"
proof (induction s arbitrary: a)
  case Nil
  then show ?case by simp
next
  case (Cons x xs)
  show ?case
  proof (cases "x = c")
    case True
    with Cons.prems show ?thesis by simp
  next
    case False
    obtain a' b' ok where cut: "strings_Cut xs c = (a', b', ok)" by (cases "strings_Cut xs c")
    with Cons.prems False have "a = x # a'" "b = b'" "ok" by auto
    with cut Cons.IH [of a'] False show ?thesis by auto
  qed
qed

lemma map_get_simps [simp]:
  "map_get Map.empty k = []"
  "map_get (m(k \<mapsto> v)) k = v"
  "k \<noteq> k' \<Longrightarrow> map_get (m(k' \<mapsto> v)) k = map_get m k"
  by (simp_all add: map_get_def)

text \<open>Two conditionals on the same test, compared branch by branch.\<close>

lemma if_mono:
  "(if c then a else b) \<Longrightarrow> (a \<Longrightarrow> a') \<Longrightarrow> (b \<Longrightarrow> b') \<Longrightarrow> (if c then a' else b')"
  by (cases c) simp_all

lemma list_ex_subset: "set xs \<subseteq> set ys \<Longrightarrow> list_ex P xs \<Longrightarrow> list_ex P ys"
  by (auto simp: list_ex_iff)

lemma list_ex_cong_filter:
  "(\<And>x. P x \<Longrightarrow> Q x) \<Longrightarrow> list_ex P (filter Q xs) = list_ex P xs"
  by (auto simp: list_ex_iff)

end
