(* ===== verification/Rbac_Policy.thy ===== *)
theory Rbac_Policy
  imports Go_Prelude
begin

text \<open>
  The role policy of the API server, \<^verbatim>\<open>components/api-server/pkg/rbac/authorization.go\<close>:
  the role predicates over a caller's binding summaries, the classification of a request by
  its route template or path, and the decision tables \<open>isAuthorized\<close> and
  \<open>isGatewayAuthorized\<close>. The role names are those of \<^verbatim>\<open>plugins/roles/model.go\<close>.

  The locale \<open>binding_policy\<close> is the contract the decisions share: a decision depends
  on the set of bindings only, and more bindings never take a permission away.
\<close>

section \<open>Roles\<close>

abbreviation RolePlatformAdmin :: string where
  "RolePlatformAdmin \<equiv> ''platform:admin''"

abbreviation RoleGatewayCreator :: string where
  "RoleGatewayCreator \<equiv> ''gateway:creator''"

abbreviation RoleGatewayDedicatedRouteCreator :: string where
  "RoleGatewayDedicatedRouteCreator \<equiv> ''gateway:dedicated-route-creator''"

abbreviation RoleGatewayOwner :: string where
  "RoleGatewayOwner \<equiv> ''gateway:owner''"

abbreviation RoleGatewayAdmin :: string where
  "RoleGatewayAdmin \<equiv> ''gateway:admin''"

abbreviation RoleGatewayViewer :: string where
  "RoleGatewayViewer \<equiv> ''gateway:viewer''"

abbreviation RoleManagedClusterRegistrar :: string where
  "RoleManagedClusterRegistrar \<equiv> ''managed-cluster-registrar''"

abbreviation RoleCIFederationAdmin :: string where
  "RoleCIFederationAdmin \<equiv> ''ci-federation:admin''"

abbreviation RoleCIFederationGrantor :: string where
  "RoleCIFederationGrantor \<equiv> ''ci-federation:grantor''"

definition JWTSyncedRoles :: "string list" where
  "JWTSyncedRoles = [RolePlatformAdmin, RoleGatewayCreator,
     RoleGatewayDedicatedRouteCreator, RoleCIFederationGrantor]"

abbreviation MethodGet :: string where "MethodGet \<equiv> ''GET''"
abbreviation MethodPost :: string where "MethodPost \<equiv> ''POST''"
abbreviation MethodPatch :: string where "MethodPatch \<equiv> ''PATCH''"
abbreviation MethodDelete :: string where "MethodDelete \<equiv> ''DELETE''"

section \<open>Binding summaries and role predicates\<close>

record BindingSummary =
  bsRoleName :: string
  bsScope :: string
  bsGatewayID :: "string option"

text \<open>The allowlist of \<^verbatim>\<open>RBAC_SERVICE_ACCOUNTS\<close>, from the value of the variable.\<close>

definition ServiceAccountsFromEnv :: "string \<Rightarrow> string list" where
  "ServiceAccountsFromEnv env =
     (if env = [] then []
      else filter (\<lambda>e. e \<noteq> []) (map strings_TrimSpace (strings_Split env (CHR '',''))))"

text \<open>
  The test the loops of the policy repeat: a gateway-scoped binding on one gateway.
\<close>

definition onGateway :: "string \<Rightarrow> BindingSummary \<Rightarrow> bool" where
  "onGateway gatewayID b \<longleftrightarrow> bsScope b = ''gateway'' \<and> bsGatewayID b = Some gatewayID"

definition hasManagedClusterRegistrar :: "string list \<Rightarrow> bool" where [policy_defs]:
  "hasManagedClusterRegistrar jwtRoles = list_ex (\<lambda>r. r = RoleManagedClusterRegistrar) jwtRoles"

definition hasGatewayCreator :: "BindingSummary list \<Rightarrow> bool" where [policy_defs]:
  "hasGatewayCreator bindings = list_ex (\<lambda>b. bsRoleName b = RoleGatewayCreator) bindings"

definition hasGatewayDedicatedRouteCreator :: "BindingSummary list \<Rightarrow> bool" where [policy_defs]:
  "hasGatewayDedicatedRouteCreator bindings =
     list_ex (\<lambda>b. bsRoleName b = RoleGatewayDedicatedRouteCreator) bindings"

definition hasPlatformAdmin :: "BindingSummary list \<Rightarrow> bool" where [policy_defs]:
  "hasPlatformAdmin bindings = list_ex (\<lambda>b. bsRoleName b = RolePlatformAdmin) bindings"

definition CanRequestGatewayDedicatedRoute :: "BindingSummary list \<Rightarrow> bool" where [policy_defs]:
  "CanRequestGatewayDedicatedRoute bindings =
     (hasPlatformAdmin bindings \<or> hasGatewayDedicatedRouteCreator bindings)"

definition hasCIFederationAdmin :: "BindingSummary list \<Rightarrow> bool" where [policy_defs]:
  "hasCIFederationAdmin bindings = list_ex (\<lambda>b. bsRoleName b = RoleCIFederationAdmin) bindings"

definition hasAnyGatewayBinding :: "BindingSummary list \<Rightarrow> bool" where [policy_defs]:
  "hasAnyGatewayBinding bindings =
     list_ex (\<lambda>b. bsScope b = ''gateway'' \<and> bsGatewayID b \<noteq> None) bindings"

definition hasUsersInventoryAccess :: "BindingSummary list \<Rightarrow> string list \<Rightarrow> bool" where [policy_defs]:
  "hasUsersInventoryAccess bindings jwtRoles = hasPlatformAdmin bindings"

definition hasDashboardInventoryAccess :: "BindingSummary list \<Rightarrow> string list \<Rightarrow> bool" where
  [policy_defs]:
  "hasDashboardInventoryAccess bindings jwtRoles =
     (hasUsersInventoryAccess bindings jwtRoles \<or> hasGatewayCreator bindings)"

text \<open>The keys of the Go map \<open>extKinds\<close>, every one of which maps to true.\<close>

definition extKinds :: "string list" where
  "extKinds = [''agent_runtimes'', ''agent_workspaces'', ''ci_providers'', ''ci_trusts'',
     ''inference_routes'', ''provider_bindings'', ''provider_specs'', ''repositories'',
     ''sandbox_templates'', ''secret_sources'', ''workspace_memberships'']"

text \<open>
  \<open>ExtKinds\<close> ranges over the map, in an order the Go runtime picks (\<open>rangeOrder\<close>), and
  sorts what it collected.
\<close>

definition ExtKinds :: "(string list \<Rightarrow> string list) \<Rightarrow> string list" where
  "ExtKinds rangeOrder = sort (rangeOrder extKinds)"

definition extRequestSurface :: "string \<Rightarrow> bool" where
  "extRequestSurface path = strings_HasPrefix path ''/api/hypershell/ext/''"

definition CanManageGatewayResources :: "BindingSummary list \<Rightarrow> string \<Rightarrow> bool" where [policy_defs]:
  "CanManageGatewayResources bindings gatewayID =
     (if gatewayID = [] then False
      else if hasPlatformAdmin bindings then True
      else list_ex (\<lambda>b. if \<not> onGateway gatewayID b then False
                         else bsRoleName b = RoleGatewayOwner \<or> bsRoleName b = RoleGatewayAdmin)
             bindings)"

definition CanReadGatewayResources :: "BindingSummary list \<Rightarrow> string \<Rightarrow> bool" where [policy_defs]:
  "CanReadGatewayResources bindings gatewayID =
     (if gatewayID = [] then False
      else if hasPlatformAdmin bindings then True
      else list_ex (\<lambda>b. if \<not> onGateway gatewayID b then False
                         else bsRoleName b \<in> {RoleGatewayOwner, RoleGatewayAdmin, RoleGatewayViewer})
             bindings)"

section \<open>Classification of a request\<close>

text \<open>
  An HTTP request as the policy reads it: the method, the path, the template of the route the
  router matched (\<open>None\<close> when \<^verbatim>\<open>mux.CurrentRoute\<close> is nil, \<open>Some (Inl e)\<close> when
  \<^verbatim>\<open>GetPathTemplate\<close> fails) and the variables of the route (\<^verbatim>\<open>mux.Vars\<close>).
\<close>

record http_request =
  r_Method :: string
  r_Path :: string
  r_Route :: "(go_error + string) option"
  r_Vars :: "string \<rightharpoonup> string"

definition isExemptEndpoint :: "http_request \<Rightarrow> bool" where
  "isExemptEndpoint r =
     (let path = r_Path r in
      if strings_HasSuffix path ''/metadata'' then True
      else if strings_HasSuffix path ''/openapi'' \<or> strings_HasSuffix path ''/openapi.html'' then True
      else if strings_HasSuffix path ''/errors'' then True
      else if r_Method r = MethodGet \<and>
              (strings_HasSuffix path ''/roles'' \<or> strings_Contains path ''/roles/'') then True
      else False)"

text \<open>The loop over the parts of the template, from the last part down.\<close>

fun lastIDPart :: "string list \<Rightarrow> nat \<Rightarrow> nat option" where
  "lastIDPart parts 0 = None"
| "lastIDPart parts (Suc i) = (if parts ! i = ''{id}'' then Some i else lastIDPart parts i)"

definition extractResourceInfoFromRoute :: "http_request \<Rightarrow> string \<times> string" where
  "extractResourceInfoFromRoute r =
     (case r_Route r of
        None \<Rightarrow> ([], [])
      | Some (Inl e) \<Rightarrow> ([], [])
      | Some (Inr pathTemplate) \<Rightarrow>
          if strings_Contains pathTemplate ''/gateways/{gateway_id}/service_accounts''
          then (''service_accounts'', map_get (r_Vars r) ''service_account_id'')
          else if strings_Contains pathTemplate ''/gateways/{gateway_id}/sandbox_events''
          then (''sandbox_events'', [])
          else if strings_Contains pathTemplate ''/gateways/{gateway_id}/access''
          then (''access'', map_get (r_Vars r) ''user_id'')
          else if strings_HasSuffix pathTemplate ''/gateways/placement-availability''
          then (''gateway_placement_availability'', [])
          else (let parts = strings_Split pathTemplate (CHR ''/'') in
            case lastIDPart parts (length parts) of
              Some i \<Rightarrow> (if i > 0 then parts ! (i - 1) else [], map_get (r_Vars r) ''id'')
            | None \<Rightarrow> (if length parts > 0 then parts ! (length parts - 1) else [], [])))"

text \<open>
  The two loops of \<open>splitResourcePath\<close>: the part after the first \<open>service_accounts\<close> that
  has one, and the id after the first \<open>access\<close> part.
\<close>

fun serviceAccountPart :: "string list \<Rightarrow> string option" where
  "serviceAccountPart (p # q # ps) =
     (if p = ''service_accounts'' then Some q else serviceAccountPart (q # ps))"
| "serviceAccountPart _ = None"

fun accessPart :: "string list \<Rightarrow> string option" where
  "accessPart [] = None"
| "accessPart (p # ps) =
     (if p = ''access''
      then Some (case ps of q # _ \<Rightarrow> if q \<noteq> ''directory'' then q else [] | [] \<Rightarrow> [])
      else accessPart ps)"

definition splitFlat :: "string list \<Rightarrow> string \<times> string" where
  "splitFlat parts = (parts ! 0, if length parts > 1 then parts ! 1 else [])"

definition splitResourcePath :: "string \<Rightarrow> string \<times> string" where
  "splitResourcePath remainder =
     (if remainder = [] then ([], [])
      else
        let parts = strings_Split remainder (CHR ''/'');
            accessStep =
              (if strings_Contains remainder ''gateways/'' \<and> strings_Contains remainder ''/access''
               then (case accessPart parts of Some i \<Rightarrow> (''access'', i) | None \<Rightarrow> splitFlat parts)
               else splitFlat parts);
            eventsStep =
              (if strings_Contains remainder ''gateways/'' \<and> strings_Contains remainder ''/sandbox_events''
               then (''sandbox_events'', []) else accessStep)
        in if remainder = ''gateways/placement-availability''
           then (''gateway_placement_availability'', [])
           else if strings_Contains remainder ''gateways/'' \<and> strings_Contains remainder ''/service_accounts''
           then (case serviceAccountPart parts of
                   Some i \<Rightarrow> (''service_accounts'', i) | None \<Rightarrow> eventsStep)
           else eventsStep)"

abbreviation v1Prefix :: string where "v1Prefix \<equiv> ''/api/hypershell/v1/''"
abbreviation extPrefix :: string where "extPrefix \<equiv> ''/api/hypershell/ext/''"

definition extractResourceInfoFromPath :: "string \<Rightarrow> string \<times> string" where
  "extractResourceInfoFromPath path =
     (if strings_HasPrefix path v1Prefix
      then splitResourcePath (strings_Trim (strings_TrimPrefix path v1Prefix) (CHR ''/''))
      else if strings_HasPrefix path extPrefix
      then (let remainder = strings_Trim (strings_TrimPrefix path extPrefix) (CHR ''/'') in
            if remainder = [] then ([], [])
            else splitFlat (strings_Split remainder (CHR ''/'')))
      else ([], []))"

definition extractResourceInfo :: "http_request \<Rightarrow> string \<times> string" where
  "extractResourceInfo r =
     (case extractResourceInfoFromRoute r of
        (resource, resourceID) \<Rightarrow>
          if resource \<noteq> [] then (resource, resourceID)
          else extractResourceInfoFromPath (r_Path r))"

definition extractGatewayIDFromPath :: "string \<Rightarrow> string \<times> string" where
  "extractGatewayIDFromPath path =
     (if \<not> strings_HasPrefix path v1Prefix then ([], [])
      else let parts = strings_Split
                 (strings_Trim (strings_TrimPrefix path v1Prefix) (CHR ''/'')) (CHR ''/'')
           in if length parts \<ge> 2 \<and> parts ! 0 = ''gateways'' then (''gateways'', parts ! 1)
              else ([], []))"

definition extractGatewayID :: "http_request \<Rightarrow> string \<Rightarrow> string" where
  "extractGatewayID r resource =
     (if resource = ''service_accounts'' \<or> resource = ''access'' \<or> resource = ''sandbox_events''
      then (let gatewayID = map_get (r_Vars r) ''gateway_id'' in
            if gatewayID \<noteq> [] then gatewayID else snd (extractGatewayIDFromPath (r_Path r)))
      else if resource = ''gateways''
      then (let gatewayID = map_get (r_Vars r) ''id'' in
            if gatewayID \<noteq> [] then gatewayID else snd (extractGatewayIDFromPath (r_Path r)))
      else [])"

section \<open>The decision tables\<close>

definition isGatewayAuthorized :: "string \<Rightarrow> string \<Rightarrow> BindingSummary list \<Rightarrow> bool" where
  "isGatewayAuthorized method gatewayID bindings =
     (if hasPlatformAdmin bindings \<and> (method = MethodGet \<or> method = MethodDelete) then True
      else list_ex (\<lambda>b.
             if \<not> onGateway gatewayID b then False
             else if bsRoleName b = RoleGatewayOwner then True
             else if bsRoleName b = RoleGatewayAdmin then method \<noteq> MethodDelete
             else if bsRoleName b = RoleGatewayViewer then method = MethodGet
             else False) bindings)"

definition CanDeleteGateway :: "BindingSummary list \<Rightarrow> string \<Rightarrow> bool" where
  "CanDeleteGateway bindings gatewayID = isGatewayAuthorized MethodDelete gatewayID bindings"

definition CanEditGateway :: "BindingSummary list \<Rightarrow> string \<Rightarrow> bool" where
  "CanEditGateway bindings gatewayID = isGatewayAuthorized MethodPatch gatewayID bindings"

definition hasSandboxEventsAccess :: "string \<Rightarrow> BindingSummary list \<Rightarrow> bool" where [policy_defs]:
  "hasSandboxEventsAccess gatewayID bindings =
     list_ex (\<lambda>b. onGateway gatewayID b \<and>
                    bsRoleName b \<in> {RoleGatewayOwner, RoleGatewayAdmin, RoleGatewayViewer}) bindings"

definition isAccessFacadeAuthorized :: "string \<Rightarrow> BindingSummary list \<Rightarrow> bool" where [policy_defs]:
  "isAccessFacadeAuthorized gatewayID bindings =
     (if hasPlatformAdmin bindings then True else list_ex (onGateway gatewayID) bindings)"

text \<open>The loop of the service-accounts gate inside \<open>isAuthorized\<close>.\<close>

definition hasServiceAccountsAccess :: "string \<Rightarrow> BindingSummary list \<Rightarrow> bool" where [policy_defs]:
  "hasServiceAccountsAccess gatewayID bindings =
     list_ex (\<lambda>b. onGateway gatewayID b \<and>
                    (bsRoleName b = RoleGatewayOwner \<or> bsRoleName b = RoleGatewayAdmin \<or>
                     bsRoleName b = RoleGatewayViewer)) bindings"

definition isAuthorized ::
  "string \<Rightarrow> string \<Rightarrow> string \<Rightarrow> string \<Rightarrow> BindingSummary list \<Rightarrow> string list \<Rightarrow> bool \<Rightarrow> bool" where
  "isAuthorized method resource resourceID gatewayID bindings jwtRoles extSurface =
     (if resource = ''registration'' \<and> method = MethodPost
      then hasManagedClusterRegistrar jwtRoles
      else if resource = ''users'' then hasUsersInventoryAccess bindings jwtRoles
      else if resource = ''gateway_placement_availability''
      then method = MethodPost \<and> hasGatewayCreator bindings
      else if extSurface then
        (if resource \<notin> set extKinds then False
         else if resource = ''ci_providers''
         then hasCIFederationAdmin bindings \<or> hasPlatformAdmin bindings
         else if resource = ''ci_trusts''
         then hasAnyGatewayBinding bindings \<or> hasGatewayCreator bindings \<or> hasPlatformAdmin bindings
         else hasDashboardInventoryAccess bindings jwtRoles)
      else if resource = ''managed_clusters'' then
        (if method = MethodGet then hasDashboardInventoryAccess bindings jwtRoles
         else hasPlatformAdmin bindings)
      else if resource = ''gateways'' \<and> method = MethodPost \<and> resourceID = []
      then hasGatewayCreator bindings
      else if resource = ''gateways'' \<and> gatewayID \<noteq> []
      then isGatewayAuthorized method gatewayID bindings
      else if resource = ''gateways'' \<and> gatewayID = [] then
        (if method = MethodGet then True else hasPlatformAdmin bindings \<or> length bindings > 0)
      else if resource = ''service_accounts'' \<and> gatewayID \<noteq> []
      then hasServiceAccountsAccess gatewayID bindings
      else if resource = ''access'' \<and> gatewayID \<noteq> []
      then isAccessFacadeAuthorized gatewayID bindings
      else if resource = ''sandbox_events'' \<and> gatewayID \<noteq> []
      then hasSandboxEventsAccess gatewayID bindings
      else if resource = ''role_bindings'' then length bindings > 0
      else hasGatewayCreator bindings)"


section \<open>The contract of a policy decision\<close>

text \<open>
  A decision over a caller's bindings is monotone: it depends on the set of bindings only, and
  a caller who gains a binding loses nothing.
\<close>

locale binding_policy =
  fixes allow :: "BindingSummary list \<Rightarrow> bool"
  assumes allow_mono: "set bs \<subseteq> set cs \<Longrightarrow> allow bs \<Longrightarrow> allow cs"
begin

lemma allow_set_eq: "set bs = set cs \<Longrightarrow> allow bs = allow cs"
  using allow_mono [of bs cs] allow_mono [of cs bs] by blast

lemma allow_filter: "allow (filter P bs) \<Longrightarrow> allow bs"
  by (rule allow_mono [of "filter P bs"]) auto

lemma deny_remove: "\<not> allow bs \<Longrightarrow> \<not> allow (remove1 b bs)"
  using allow_mono [of "remove1 b bs" bs] by (auto simp: set_remove1_subset)

end

text \<open>
  A decision about one gateway looks only at \<open>platform:admin\<close> bindings and at the bindings on
  that gateway.
\<close>

definition relevant :: "string \<Rightarrow> BindingSummary \<Rightarrow> bool" where
  "relevant gatewayID b \<longleftrightarrow> bsRoleName b = RolePlatformAdmin \<or> onGateway gatewayID b"

locale gateway_policy =
  fixes gallow :: "string \<Rightarrow> BindingSummary list \<Rightarrow> bool"
  assumes gallow_mono: "set bs \<subseteq> set cs \<Longrightarrow> gallow g bs \<Longrightarrow> gallow g cs"
    and gallow_local: "gallow g (filter (relevant g) bs) = gallow g bs"
begin

lemma gallow_transfer:
  assumes "\<And>b. b \<in> set bs \<Longrightarrow> relevant g b \<Longrightarrow> b \<in> set cs" and "gallow g bs"
  shows "gallow g cs"
proof (rule gallow_mono)
  from assms(1) show "set (filter (relevant g) bs) \<subseteq> set cs" by auto
  from assms(2) show "gallow g (filter (relevant g) bs)" by (simp add: gallow_local)
qed

lemma gallow_stranger:
  assumes "\<And>b. b \<in> set bs \<Longrightarrow> \<not> relevant g b" and "gallow g bs"
  shows "gallow g []"
  using assms by (intro gallow_transfer [of bs g "[]"]) auto

end

sublocale gateway_policy \<subseteq> each: binding_policy "gallow g" for g
  by unfold_locales (rule gallow_mono)

lemma hasPlatformAdmin_relevant [simp]:
  "hasPlatformAdmin (filter (relevant g) bs) = hasPlatformAdmin bs"
  unfolding hasPlatformAdmin_def by (rule list_ex_cong_filter) (simp add: relevant_def)

lemma list_ex_relevant:
  "(\<And>b. P b \<Longrightarrow> onGateway g b) \<Longrightarrow> list_ex P (filter (relevant g) bs) = list_ex P bs"
  by (rule list_ex_cong_filter) (simp add: relevant_def)

interpretation gw: gateway_policy "isGatewayAuthorized m" for m
proof
  fix g bs cs
  assume "set bs \<subseteq> set cs" "isGatewayAuthorized m g bs"
  then show "isGatewayAuthorized m g cs"
    by (auto simp: isGatewayAuthorized_def hasPlatformAdmin_def list_ex_iff split: if_splits)
next
  fix g bs
  show "isGatewayAuthorized m g (filter (relevant g) bs) = isGatewayAuthorized m g bs"
    unfolding isGatewayAuthorized_def hasPlatformAdmin_relevant
    by (subst list_ex_relevant) (auto split: if_splits)
qed

interpretation manage: gateway_policy "\<lambda>g bs. CanManageGatewayResources bs g"
proof
  fix g bs cs
  assume "set bs \<subseteq> set cs" "CanManageGatewayResources bs g"
  then show "CanManageGatewayResources cs g"
    by (auto simp: CanManageGatewayResources_def hasPlatformAdmin_def list_ex_iff split: if_splits)
next
  fix g bs
  show "CanManageGatewayResources (filter (relevant g) bs) g = CanManageGatewayResources bs g"
    unfolding CanManageGatewayResources_def hasPlatformAdmin_relevant
    by (subst list_ex_relevant) (auto split: if_splits)
qed

interpretation readable: gateway_policy "\<lambda>g bs. CanReadGatewayResources bs g"
proof
  fix g bs cs
  assume "set bs \<subseteq> set cs" "CanReadGatewayResources bs g"
  then show "CanReadGatewayResources cs g"
    by (auto simp: CanReadGatewayResources_def hasPlatformAdmin_def list_ex_iff split: if_splits)
next
  fix g bs
  show "CanReadGatewayResources (filter (relevant g) bs) g = CanReadGatewayResources bs g"
    unfolding CanReadGatewayResources_def hasPlatformAdmin_relevant
    by (subst list_ex_relevant) (auto split: if_splits)
qed

interpretation facade: gateway_policy isAccessFacadeAuthorized
proof
  fix g bs cs
  assume "set bs \<subseteq> set cs" "isAccessFacadeAuthorized g bs"
  then show "isAccessFacadeAuthorized g cs"
    by (auto simp: isAccessFacadeAuthorized_def hasPlatformAdmin_def list_ex_iff split: if_splits)
next
  fix g bs
  show "isAccessFacadeAuthorized g (filter (relevant g) bs) = isAccessFacadeAuthorized g bs"
    unfolding isAccessFacadeAuthorized_def hasPlatformAdmin_relevant
    by (subst list_ex_relevant) auto
qed

interpretation sandboxes: gateway_policy hasSandboxEventsAccess
  by unfold_locales
    (auto simp: hasSandboxEventsAccess_def list_ex_iff relevant_def)

interpretation accounts: gateway_policy hasServiceAccountsAccess
  by unfold_locales
    (auto simp: hasServiceAccountsAccess_def list_ex_iff relevant_def)

lemma hasRole_mono:
  assumes "set bs \<subseteq> set cs"
  shows "hasGatewayCreator bs \<Longrightarrow> hasGatewayCreator cs"
    and "hasPlatformAdmin bs \<Longrightarrow> hasPlatformAdmin cs"
    and "hasCIFederationAdmin bs \<Longrightarrow> hasCIFederationAdmin cs"
    and "hasAnyGatewayBinding bs \<Longrightarrow> hasAnyGatewayBinding cs"
    and "hasDashboardInventoryAccess bs js \<Longrightarrow> hasDashboardInventoryAccess cs js"
    and "bs \<noteq> [] \<Longrightarrow> cs \<noteq> []"
  using assms unfolding policy_defs by (auto simp: list_ex_iff)

interpretation rest: binding_policy "\<lambda>bs. isAuthorized m res rid gid bs js ext" for m res rid gid js ext
proof
  fix bs cs :: "BindingSummary list"
  assume sub: "set bs \<subseteq> set cs" and allowed: "isAuthorized m res rid gid bs js ext"
  note mono = hasRole_mono [OF sub] gw.gallow_mono [OF sub] accounts.gallow_mono [OF sub]
    facade.gallow_mono [OF sub] sandboxes.gallow_mono [OF sub]
  from allowed show "isAuthorized m res rid gid cs js ext"
    unfolding isAuthorized_def hasUsersInventoryAccess_def length_greater_0_conv
    by (elim if_mono) (use mono in blast)+
qed

section \<open>What the policy decides\<close>

text \<open>
  C17: a decision about one gateway (its row, its access list, its service accounts, its sandbox
  events) depends only on \<open>platform:admin\<close> bindings and on the bindings on that gateway: a
  caller who is allowed is also allowed with any other list that keeps those bindings, so
  bindings on other gateways never count.
\<close>

theorem isAuthorized_gateway_isolation:
  assumes "gid \<noteq> []"
    and "res \<in> {''service_accounts'', ''access'', ''sandbox_events''} \<or> res = ''gateways'' \<and> rid \<noteq> []"
    and "\<And>b. b \<in> set bs \<Longrightarrow> relevant gid b \<Longrightarrow> b \<in> set cs"
    and "isAuthorized m res rid gid bs js False"
  shows "isAuthorized m res rid gid cs js False"
proof -
  note keep = assms(3)
  from assms(2) consider "res = ''service_accounts''" | "res = ''access''" | "res = ''sandbox_events''"
    | "res = ''gateways''" "rid \<noteq> []" by blast
  then show ?thesis
  proof cases
    case 1
    with assms(1,4) have "hasServiceAccountsAccess gid bs" by (simp add: isAuthorized_def)
    with keep have "hasServiceAccountsAccess gid cs" by (rule accounts.gallow_transfer)
    with 1 assms(1) show ?thesis by (simp add: isAuthorized_def)
  next
    case 2
    with assms(1,4) have "isAccessFacadeAuthorized gid bs" by (simp add: isAuthorized_def)
    with keep have "isAccessFacadeAuthorized gid cs" by (rule facade.gallow_transfer)
    with 2 assms(1) show ?thesis by (simp add: isAuthorized_def)
  next
    case 3
    with assms(1,4) have "hasSandboxEventsAccess gid bs" by (simp add: isAuthorized_def)
    with keep have "hasSandboxEventsAccess gid cs" by (rule sandboxes.gallow_transfer)
    with 3 assms(1) show ?thesis by (simp add: isAuthorized_def)
  next
    case 4
    with assms(1,4) have "isGatewayAuthorized m gid bs" by (simp add: isAuthorized_def)
    with keep have "isGatewayAuthorized m gid cs" by (rule gw.gallow_transfer)
    with 4 assms(1) show ?thesis by (simp add: isAuthorized_def)
  qed
qed

definition ownerOf :: "string \<Rightarrow> BindingSummary" where
  "ownerOf g = \<lparr>bsRoleName = RoleGatewayOwner, bsScope = ''gateway'', bsGatewayID = Some g\<rparr>"

definition viewerOf :: "string \<Rightarrow> BindingSummary" where
  "viewerOf g = \<lparr>bsRoleName = RoleGatewayViewer, bsScope = ''gateway'', bsGatewayID = Some g\<rparr>"

definition globalRole :: "string \<Rightarrow> BindingSummary" where
  "globalRole r = \<lparr>bsRoleName = r, bsScope = ''global'', bsGatewayID = None\<rparr>"

lemmas sample_defs = ownerOf_def viewerOf_def globalRole_def relevant_def onGateway_def

theorem isAuthorized_gateway_isolation_witness:
  "isAuthorized MethodPatch ''gateways'' ''g1'' ''g1'' [ownerOf ''g1''] [] False"
proof (rule isAuthorized_gateway_isolation [of "''g1''" _ _ "[ownerOf ''g1'', viewerOf ''g2'']"])
  show "isAuthorized MethodPatch ''gateways'' ''g1'' ''g1'' [ownerOf ''g1'', viewerOf ''g2''] [] False"
    by (simp add: isAuthorized_def isGatewayAuthorized_def sample_defs)
qed (auto simp: sample_defs)

text \<open>Who passes each gate, as a statement about the set of bindings.\<close>

lemma isGatewayAuthorized_iff:
  "isGatewayAuthorized MethodGet g bs \<longleftrightarrow> hasPlatformAdmin bs \<or>
     (\<exists>b\<in>set bs. onGateway g b \<and> bsRoleName b \<in> {RoleGatewayOwner, RoleGatewayAdmin, RoleGatewayViewer})"
  "isGatewayAuthorized MethodPatch g bs \<longleftrightarrow>
     (\<exists>b\<in>set bs. onGateway g b \<and> bsRoleName b \<in> {RoleGatewayOwner, RoleGatewayAdmin})"
  "isGatewayAuthorized MethodDelete g bs \<longleftrightarrow> hasPlatformAdmin bs \<or>
     (\<exists>b\<in>set bs. onGateway g b \<and> bsRoleName b = RoleGatewayOwner)"
  by (simp_all add: isGatewayAuthorized_def list_ex_iff if_bool_eq_disj) blast+

lemma gateway_records_iff:
  "CanReadGatewayResources bs g \<longleftrightarrow> g \<noteq> [] \<and> (hasPlatformAdmin bs \<or>
     (\<exists>b\<in>set bs. onGateway g b \<and> bsRoleName b \<in> {RoleGatewayOwner, RoleGatewayAdmin, RoleGatewayViewer}))"
  "CanManageGatewayResources bs g \<longleftrightarrow> g \<noteq> [] \<and> (hasPlatformAdmin bs \<or>
     (\<exists>b\<in>set bs. onGateway g b \<and> bsRoleName b \<in> {RoleGatewayOwner, RoleGatewayAdmin}))"
  "hasServiceAccountsAccess g bs \<longleftrightarrow>
     (\<exists>b\<in>set bs. onGateway g b \<and> bsRoleName b \<in> {RoleGatewayOwner, RoleGatewayAdmin, RoleGatewayViewer})"
  "hasSandboxEventsAccess g bs \<longleftrightarrow>
     (\<exists>b\<in>set bs. onGateway g b \<and> bsRoleName b \<in> {RoleGatewayOwner, RoleGatewayAdmin, RoleGatewayViewer})"
  "isAccessFacadeAuthorized g bs \<longleftrightarrow> hasPlatformAdmin bs \<or> (\<exists>b\<in>set bs. onGateway g b)"
  by (simp_all add: CanReadGatewayResources_def CanManageGatewayResources_def
      hasServiceAccountsAccess_def hasSandboxEventsAccess_def isAccessFacadeAuthorized_def
      list_ex_iff if_bool_eq_disj) blast+

text \<open>
  The four answers about one gateway are ordered. Reading a gateway-scoped record is allowed
  exactly when reading the gateway row is; whoever may edit or delete the gateway may manage its
  records; whoever may manage them may read them; whoever reaches the sandbox events or the
  service accounts may read the gateway, and the two gates are the same.
\<close>

theorem gateway_authority_chain:
  assumes "g \<noteq> []"
  shows "CanReadGatewayResources bs g = isGatewayAuthorized MethodGet g bs \<and>
    (CanEditGateway bs g \<longrightarrow> CanManageGatewayResources bs g) \<and>
    (CanDeleteGateway bs g \<longrightarrow> CanManageGatewayResources bs g) \<and>
    (CanManageGatewayResources bs g \<longrightarrow> CanReadGatewayResources bs g) \<and>
    hasSandboxEventsAccess g bs = hasServiceAccountsAccess g bs \<and>
    (hasServiceAccountsAccess g bs \<longrightarrow> CanReadGatewayResources bs g) \<and>
    (CanReadGatewayResources bs g \<longrightarrow> isAccessFacadeAuthorized g bs)"
  unfolding gateway_records_iff isGatewayAuthorized_iff CanEditGateway_def CanDeleteGateway_def
  using assms by blast

theorem gateway_authority_chain_witness:
  "CanReadGatewayResources [viewerOf ''g1''] ''g1'' = isGatewayAuthorized MethodGet ''g1'' [viewerOf ''g1''] \<and>
   CanReadGatewayResources [viewerOf ''g1''] ''g1'' \<and> \<not> CanManageGatewayResources [viewerOf ''g1''] ''g1''"
  using gateway_authority_chain [of "''g1''" "[viewerOf ''g1'']"]
  by (simp add: CanReadGatewayResources_def CanManageGatewayResources_def hasPlatformAdmin_def sample_defs)

lemma no_roles:
  "hasGatewayCreator [] = False" "hasPlatformAdmin [] = False" "hasCIFederationAdmin [] = False"
  "hasAnyGatewayBinding [] = False" "hasUsersInventoryAccess [] js = False"
  "hasDashboardInventoryAccess [] js = False" "hasServiceAccountsAccess g [] = False"
  "hasSandboxEventsAccess g [] = False" "isAccessFacadeAuthorized g [] = False"
  "isGatewayAuthorized m g [] = False"
  by (simp_all add: policy_defs isGatewayAuthorized_def)

text \<open>
  A caller without bindings is denied everything on the REST surface but two things: the
  gateway collection read, which the list handler filters, and the cluster registration, which
  only the JWT role decides.
\<close>

theorem isAuthorized_no_bindings:
  "isAuthorized m res rid gid [] js ext \<longleftrightarrow>
     res = ''registration'' \<and> m = MethodPost \<and> RoleManagedClusterRegistrar \<in> set js \<or>
     \<not> ext \<and> res = ''gateways'' \<and> m = MethodGet \<and> gid = []"
proof -
  have reg: "hasManagedClusterRegistrar js \<longleftrightarrow> RoleManagedClusterRegistrar \<in> set js"
    by (auto simp: hasManagedClusterRegistrar_def list_ex_iff)
  consider "res = ''registration''" | "res = ''gateways''"
    | "res \<noteq> ''registration''" "res \<noteq> ''gateways''" by blast
  then show ?thesis
    by cases (simp_all add: isAuthorized_def no_roles reg)
qed

text \<open>
  The extension surface fails closed: an extension path whose resource is no registered
  kind, and is none of the three resources decided before the surface is looked at, is denied to
  every caller, \<open>platform:admin\<close> included.
\<close>

theorem ext_surface_fail_closed:
  assumes "res \<notin> set extKinds"
    and "res \<notin> {''registration'', ''users'', ''gateway_placement_availability''}"
  shows "\<not> isAuthorized m res rid gid bs js True"
  using assms by (simp add: isAuthorized_def)

theorem ext_surface_fail_closed_witness:
  "\<not> isAuthorized MethodGet ''gateways'' [] [] [globalRole RolePlatformAdmin] [] True"
  by (rule ext_surface_fail_closed) (simp_all add: extKinds_def)

text \<open>
  The exception to the fail-closed rule: the resource \<open>users\<close> is no extension kind, and a
  \<open>platform:admin\<close> is nevertheless allowed to reach it under the extension prefix, because the
  test for it runs before the extension rules.
\<close>

lemma ext_surface_users_not_closed:
  "''users'' \<notin> set extKinds \<and> extractResourceInfoFromPath (extPrefix @ ''users'') = (''users'', []) \<and>
   isAuthorized m ''users'' [] [] [globalRole RolePlatformAdmin] js True"
proof (intro conjI)
  show "''users'' \<notin> set extKinds" by (simp add: extKinds_def)
  show "extractResourceInfoFromPath (extPrefix @ ''users'') = (''users'', [])" by code_simp
  show "isAuthorized m ''users'' [] [] [globalRole RolePlatformAdmin] js True"
    by (simp add: isAuthorized_def policy_defs globalRole_def)
qed

section \<open>Paths\<close>

lemma trimmed_path:
  assumes "s \<noteq> []" "hd s \<noteq> CHR ''/''" "last s \<noteq> CHR ''/''"
  shows "strings_Trim (strings_TrimPrefix (p @ s) p) (CHR ''/'') = s"
  using assms by (simp add: strings_Trim_clean)

lemma split_two:
  assumes "CHR ''/'' \<notin> set k" "CHR ''/'' \<notin> set i"
  shows "splitFlat (strings_Split (k @ CHR ''/'' # i) (CHR ''/'')) = (k, i)"
  using assms by (simp add: strings_Split_append strings_Split_noSep splitFlat_def)

lemma noSlash_hd_last:
  assumes "CHR ''/'' \<notin> set k" "CHR ''/'' \<notin> set i" "k \<noteq> []" "i \<noteq> []"
  shows "hd (k @ CHR ''/'' # i) \<noteq> CHR ''/''" "last (k @ CHR ''/'' # i) \<noteq> CHR ''/''"
proof -
  from assms(1,3) show "hd (k @ CHR ''/'' # i) \<noteq> CHR ''/''" by (cases k) auto
  from assms(2,4) have "last i \<noteq> CHR ''/''" using last_in_set by metis
  with assms(4) show "last (k @ CHR ''/'' # i) \<noteq> CHR ''/''" by simp
qed

text \<open>A two-part path holds \<open>gateways/\<close> only when its first part ends in it.\<close>

lemma contains_segment:
  assumes "CHR ''/'' \<notin> set k" "CHR ''/'' \<notin> set i"
    and "strings_Contains (k @ CHR ''/'' # i) (w @ [CHR ''/''])"
  shows "suffix w k"
proof -
  from assms(3) obtain a b where eq: "k @ CHR ''/'' # i = (a @ w) @ CHR ''/'' # b"
    by (auto simp: strings_Contains_iff)
  from eq have "(k @ [CHR ''/'']) @ i = (a @ w @ [CHR ''/'']) @ b" by simp
  then have "k = a @ w"
  proof (cases "CHR ''/'' \<in> set (a @ w)")
    case True
    then obtain u v where uv: "a @ w = u @ CHR ''/'' # v" "CHR ''/'' \<notin> set u"
      by (meson split_list_first)
    with eq have "k @ CHR ''/'' # i = u @ CHR ''/'' # (v @ CHR ''/'' # b)" by simp
    with assms(1) uv(2) have "i = v @ CHR ''/'' # b"
      by (metis strings_Cut_append prod.inject)
    with assms(2) show ?thesis by simp
  next
    case False
    with eq assms(1) show ?thesis by (metis strings_Cut_append prod.inject)
  qed
  then show ?thesis by (simp add: suffix_def)
qed

text \<open>
  The path parser inverts the path builder: a flat item path under the extension prefix, and
  one under the v1 prefix whose collection is not the gateways, is split into the kind and the id
  it was built from; a service account nested under a gateway gives the account's id.
\<close>

theorem path_roundtrip:
  assumes "CHR ''/'' \<notin> set k" "CHR ''/'' \<notin> set i" "k \<noteq> []" "i \<noteq> []"
    and "\<not> suffix ''gateways'' k" "k \<noteq> ''service_accounts''"
  shows "extractResourceInfoFromPath (extPrefix @ k @ ''/'' @ i) = (k, i) \<and>
         extractResourceInfoFromPath (v1Prefix @ k @ ''/'' @ i) = (k, i) \<and>
         extractResourceInfoFromPath (v1Prefix @ ''gateways/'' @ k @ ''/service_accounts/'' @ i) =
           (''service_accounts'', i)"
proof (intro conjI)
  have hl: "k @ CHR ''/'' # i \<noteq> []" "hd (k @ CHR ''/'' # i) \<noteq> CHR ''/''"
    "last (k @ CHR ''/'' # i) \<noteq> CHR ''/''"
    using noSlash_hd_last [OF assms(1-4)] by auto
  have noext: "\<not> strings_HasPrefix (extPrefix @ x) v1Prefix" for x by simp
  show "extractResourceInfoFromPath (extPrefix @ k @ ''/'' @ i) = (k, i)"
    using noext hl trimmed_path [OF hl, of extPrefix] split_two [OF assms(1,2)]
    unfolding extractResourceInfoFromPath_def by simp
  have ngw: "\<not> strings_Contains (k @ CHR ''/'' # i) ''gateways/''"
    using contains_segment [OF assms(1,2), of "''gateways''"] assms(5) by auto
  moreover have "strings_Contains ''gateways/placement-availability'' ''gateways/''" by code_simp
  ultimately have "k @ CHR ''/'' # i \<noteq> ''gateways/placement-availability''" by metis
  with ngw show "extractResourceInfoFromPath (v1Prefix @ k @ ''/'' @ i) = (k, i)"
    using trimmed_path [OF hl, of v1Prefix] split_two [OF assms(1,2)]
    unfolding extractResourceInfoFromPath_def splitResourcePath_def by (simp add: Let_def)
  let ?r = "''gateways'' @ CHR ''/'' # k @ CHR ''/'' # ''service_accounts'' @ CHR ''/'' # i"
  have parts: "strings_Split ?r (CHR ''/'') = [''gateways'', k, ''service_accounts'', i]"
    using assms(1,2) by (simp add: strings_Split_append strings_Split_noSep)
  have trim: "strings_Trim (strings_TrimPrefix (v1Prefix @ ?r) v1Prefix) (CHR ''/'') = ?r"
    using assms(2,4) last_in_set by (intro trimmed_path) fastforce+
  have c1: "strings_Contains ?r ''gateways/''"
    by (subst strings_Contains_iff) (rule exI [of _ "[]"], simp)
  have c2: "strings_Contains ?r ''/service_accounts''"
    by (subst strings_Contains_iff)
      (rule exI [of _ "''gateways/'' @ k"], rule exI [of _ "CHR ''/'' # i"], simp)
  have "strings_Split ?r (CHR ''/'') \<noteq> strings_Split ''gateways/placement-availability'' (CHR ''/'')"
    unfolding parts by simp
  then have np: "?r \<noteq> ''gateways/placement-availability''" by metis
  have "serviceAccountPart (strings_Split ?r (CHR ''/'')) = Some i"
    unfolding parts using assms(6) by simp
  then have "splitResourcePath ?r = (''service_accounts'', i)"
    using c1 c2 np unfolding splitResourcePath_def by (simp add: Let_def)
  with trim have "extractResourceInfoFromPath (v1Prefix @ ?r) = (''service_accounts'', i)"
    unfolding extractResourceInfoFromPath_def by simp
  then show "extractResourceInfoFromPath (v1Prefix @ ''gateways/'' @ k @ ''/service_accounts/'' @ i) =
      (''service_accounts'', i)" by simp
qed

theorem path_roundtrip_witness:
  "extractResourceInfoFromPath ''/api/hypershell/ext/ci_trusts/t1'' = (''ci_trusts'', ''t1'')"
  using path_roundtrip [of "''ci_trusts''" "''t1''"] by (simp add: suffix_def)

text \<open>
  The two classifications of the same request disagree on the service-account collection of a
  gateway. With the matched route the resource is \<open>service_accounts\<close>, which a
  \<open>platform:admin\<close> without a binding may not list; from the path alone it is the gateway row,
  which the same caller may read.
\<close>

lemma service_account_collection_fallback:
  fixes req :: http_request and path template :: string
  defines "path \<equiv> ''/api/hypershell/v1/gateways/g1/service_accounts''"
    and "template \<equiv> ''/api/hypershell/v1/gateways/{gateway_id}/service_accounts''"
    and "req \<equiv> \<lparr>r_Method = MethodGet, r_Path = path, r_Route = Some (Inr template),
                r_Vars = [''gateway_id'' \<mapsto> ''g1'']\<rparr>"
  shows "extractResourceInfo req = (''service_accounts'', []) \<and>
    extractResourceInfo (req\<lparr>r_Route := None\<rparr>) = (''gateways'', ''g1'') \<and>
    \<not> isAuthorized MethodGet ''service_accounts'' [] (extractGatewayID req ''service_accounts'')
        [globalRole RolePlatformAdmin] [] False \<and>
    isAuthorized MethodGet ''gateways'' ''g1'' (extractGatewayID req ''gateways'')
        [globalRole RolePlatformAdmin] [] False"
proof (intro conjI)
  show "extractResourceInfo req = (''service_accounts'', [])"
    by (simp add: assms extractResourceInfo_def extractResourceInfoFromRoute_def map_get_def)
  have "extractResourceInfoFromPath path = (''gateways'', ''g1'')"
    unfolding path_def by code_simp
  then show "extractResourceInfo (req\<lparr>r_Route := None\<rparr>) = (''gateways'', ''g1'')"
    by (simp add: req_def extractResourceInfo_def extractResourceInfoFromRoute_def)
  show "\<not> isAuthorized MethodGet ''service_accounts'' [] (extractGatewayID req ''service_accounts'')
        [globalRole RolePlatformAdmin] [] False"
    by (simp add: req_def extractGatewayID_def isAuthorized_def hasServiceAccountsAccess_def sample_defs)
  have "snd (extractGatewayIDFromPath path) = ''g1''" unfolding path_def by code_simp
  then show "isAuthorized MethodGet ''gateways'' ''g1'' (extractGatewayID req ''gateways'')
        [globalRole RolePlatformAdmin] [] False"
    by (simp add: req_def extractGatewayID_def isAuthorized_def isGatewayAuthorized_def
        hasPlatformAdmin_def sample_defs map_get_def)
qed

end
