(* ===== verification/Rbac_Identity.thy ===== *)
theory Rbac_Identity
  imports Rbac_Policy
begin

text \<open>
  Who is calling: the request context the authorizer reads, the roles in the claims of a JWT
  (\<^verbatim>\<open>jwt_roles.go\<close>), the subject of the caller (\<^verbatim>\<open>cluster_binding.go\<close>,
  \<^verbatim>\<open>control_plane_identity.go\<close>), the import binding of a declarative-import call
  (\<^verbatim>\<open>import_binding.go\<close>), the writer kind of a gateway write
  (\<^verbatim>\<open>gateway_writer_kind.go\<close>), and the provisioning of the local user
  (\<^verbatim>\<open>user_provisioning.go\<close>, \<^verbatim>\<open>provisioner_adapter.go\<close>, the provisioning half of
  \<^verbatim>\<open>grpc_interceptor.go\<close>).

  The JWT parser is a library: \<open>parse\<close> stands for \<^verbatim>\<open>jwt.NewParser().ParseUnverified\<close>
  with \<^verbatim>\<open>jwt.MapClaims\<close>, \<open>None\<close> when it fails. The interfaces the Go code receives
  (resolvers, provisioner, syncer) are arguments.
\<close>

section \<open>Claims and context\<close>

datatype json = JNull | JBool bool | JNum int | JStr string | JArr "json list"
  | JObj "(string \<times> json) list"

type_synonym map_claims = "string \<rightharpoonup> json"

text \<open>A verified token: its claims are a \<^verbatim>\<open>jwt.MapClaims\<close> or of another type.\<close>

datatype token = MapClaims map_claims | OtherClaims

record payload =
  pUsername :: string
  pFirstName :: string
  pLastName :: string
  pEmail :: string

datatype GatewayWriterKind = GatewayWriterUser | GatewayWriterImport | GatewayWriterControlPlane

text \<open>
  A call's context. \<open>cToken\<close> is what \<^verbatim>\<open>auth.TokenFromContext\<close> returns (\<open>None\<close> for an error
  or a nil token), \<open>cPayload\<close> what \<^verbatim>\<open>auth.GetAuthPayload\<close> and
  \<^verbatim>\<open>auth.GetAuthPayloadFromContext\<close> return (\<open>None\<close> for an error or a nil payload),
  \<open>cUsername\<close> what
  \<^verbatim>\<open>auth.GetUsernameFromContext\<close> returns, \<open>cMetadata\<close> the incoming gRPC metadata with
  every value of a header, \<open>cIsGRPC\<close> whether \<^verbatim>\<open>grpc.Method\<close> knows a method. The others are the
  values this code puts into the context; \<open>cHolder\<close> is the deferred status holder, \<open>Some e\<close>
  when the context carries one that holds the error \<open>e\<close>.
\<close>

record ctx =
  cToken :: "token option"
  cPayload :: "payload option"
  cUsername :: string
  cMetadata :: "(string \<rightharpoonup> string list) option"
  cIsGRPC :: bool
  cUserID :: "string option"
  cJWTRoles :: "string list option"
  cWriterKind :: "GatewayWriterKind option"
  cHolder :: "go_error option option"

section \<open>Realm roles\<close>

definition normalizeRoleName :: "string \<Rightarrow> string" where
  "normalizeRoleName role = (if strings_HasPrefix role ''/'' then drop 1 role else role)"

text \<open>The strings of a JSON array, each normalized; other elements are skipped.\<close>

fun roleStrings :: "json list \<Rightarrow> string list" where
  "roleStrings [] = []"
| "roleStrings (JStr s # js) = normalizeRoleName s # roleStrings js"
| "roleStrings (_ # js) = roleStrings js"

definition readStringClaim :: "map_claims \<Rightarrow> string \<Rightarrow> string list \<times> bool" where
  "readStringClaim claims claimName =
     (case claims claimName of
        None \<Rightarrow> ([], False)
      | Some (JArr rolesSlice) \<Rightarrow> (roleStrings rolesSlice, True)
      | Some _ \<Rightarrow> ([], False))"

definition readRealmAccessRoles :: "map_claims \<Rightarrow> string list" where
  "readRealmAccessRoles claims =
     (case claims ''realm_access'' of
        Some (JObj raMap) \<Rightarrow>
          (case map_of raMap ''roles'' of
             Some (JArr rolesSlice) \<Rightarrow> roleStrings rolesSlice
           | _ \<Rightarrow> [])
      | _ \<Rightarrow> [])"

definition extractRealmRolesFromClaims :: "map_claims \<Rightarrow> string list" where
  "extractRealmRolesFromClaims claims =
     (case readStringClaim claims ''roles'' of
        (roles, True) \<Rightarrow> roles
      | (_, False) \<Rightarrow>
          (case readStringClaim claims ''groups'' of
             (groups, True) \<Rightarrow> groups
           | (_, False) \<Rightarrow> readRealmAccessRoles claims))"

text \<open>
  \<^verbatim>\<open>extractJWTRoles\<close> checks the error of \<^verbatim>\<open>TokenFromContext\<close> only; without an error the
  token is not nil.
\<close>

definition extractJWTRoles :: "ctx \<Rightarrow> string list" where
  "extractJWTRoles c =
     (case cToken c of Some (MapClaims claims) \<Rightarrow> extractRealmRolesFromClaims claims | _ \<Rightarrow> [])"

definition metadataValues :: "ctx \<Rightarrow> string \<Rightarrow> string list" where
  "metadataValues c key =
     (case cMetadata c of None \<Rightarrow> [] | Some md \<Rightarrow> (case md key of None \<Rightarrow> [] | Some vs \<Rightarrow> vs))"

definition trimBearer :: "string \<Rightarrow> string" where
  "trimBearer raw = strings_TrimPrefix (strings_TrimPrefix raw ''Bearer '') ''bearer ''"

definition verifiedGRPCBearerClaims :: "(string \<Rightarrow> map_claims option) \<Rightarrow> ctx \<Rightarrow> map_claims option" where
  "verifiedGRPCBearerClaims parse c =
     (case metadataValues c ''authorization'' of
        [] \<Rightarrow> None
      | v # _ \<Rightarrow> (let tokenStr = trimBearer v in if tokenStr = [] then None else parse tokenStr))"

definition extractJWTRolesFromContext :: "(string \<Rightarrow> map_claims option) \<Rightarrow> ctx \<Rightarrow> string list" where
  "extractJWTRolesFromContext parse c =
     (case cToken c of
        Some (MapClaims claims) \<Rightarrow> extractRealmRolesFromClaims claims
      | Some OtherClaims \<Rightarrow> []
      | None \<Rightarrow>
          (case verifiedGRPCBearerClaims parse c of
             Some claims \<Rightarrow> extractRealmRolesFromClaims claims
           | None \<Rightarrow> []))"

section \<open>The caller's subject\<close>

text \<open>\<^verbatim>\<open>claims["sub"].(string)\<close>, empty when the claim is absent or no string.\<close>

definition subClaim :: "map_claims \<Rightarrow> string" where
  "subClaim claims = (case claims ''sub'' of Some (JStr s) \<Rightarrow> s | _ \<Rightarrow> [])"

definition subjectFromVerifiedToken :: "ctx \<Rightarrow> string" where
  "subjectFromVerifiedToken c =
     (case cToken c of Some (MapClaims claims) \<Rightarrow> subClaim claims | _ \<Rightarrow> [])"

definition subjectFromMetadata :: "(string \<Rightarrow> map_claims option) \<Rightarrow> ctx \<Rightarrow> string" where
  "subjectFromMetadata parse c =
     (case metadataValues c ''authorization'' of
        [] \<Rightarrow> []
      | raw # _ \<Rightarrow>
          (let tokenStr = trimBearer raw in
           if tokenStr = raw \<or> tokenStr = [] then []
           else (case parse tokenStr of None \<Rightarrow> [] | Some claims \<Rightarrow> subClaim claims)))"

definition subjectFromGRPCContext :: "(string \<Rightarrow> map_claims option) \<Rightarrow> ctx \<Rightarrow> string" where
  "subjectFromGRPCContext parse c =
     (case cToken c of
        Some (MapClaims claims) \<Rightarrow>
          (let sub = subClaim claims in if sub \<noteq> [] then sub else subjectFromMetadata parse c)
      | _ \<Rightarrow> subjectFromMetadata parse c)"

text \<open>
  \<^verbatim>\<open>RegisteredClusterResolver\<close>: the cluster a subject registered, with \<open>found\<close>.
\<close>

type_synonym cluster_resolver = "(string \<Rightarrow> go_error + string \<times> bool) option"

definition registeredClusterCaller :: "cluster_resolver \<Rightarrow> string \<Rightarrow> go_error + bool" where
  "registeredClusterCaller resolver subject =
     (case resolver of
        None \<Rightarrow> Inr False
      | Some res \<Rightarrow>
          if subject = [] then Inr False
          else (case res subject of
                  Inl err \<Rightarrow> Inl err
                | Inr (clusterID, found) \<Rightarrow> Inr (found \<and> clusterID \<noteq> [])))"

text \<open>\<open>Inr (Some c)\<close>: the caller is the control plane of cluster \<open>c\<close>.\<close>

definition registeredClusterIDGRPC ::
  "(string \<Rightarrow> map_claims option) \<Rightarrow> ctx \<Rightarrow> string \<Rightarrow> cluster_resolver \<Rightarrow> go_error + string option" where
  "registeredClusterIDGRPC parse c username resolver =
     (case resolver of
        None \<Rightarrow> Inr None
      | Some res \<Rightarrow>
          if username = [] then Inr None
          else (let subject = subjectFromGRPCContext parse c in
                if subject = [] then Inr None
                else (case res subject of
                        Inl err \<Rightarrow> Inl (StatusError Unavailable
                          ''managed cluster lookup failed; cannot verify control-plane identity'')
                      | Inr (clusterID, found) \<Rightarrow>
                          if \<not> found \<or> clusterID = [] then Inr None else Inr (Some clusterID))))"

definition isRegisteredClusterCallerGRPC ::
  "(string \<Rightarrow> map_claims option) \<Rightarrow> ctx \<Rightarrow> string \<Rightarrow> cluster_resolver \<Rightarrow> go_error + bool" where
  "isRegisteredClusterCallerGRPC parse c username resolver =
     (if username = [] \<or> resolver = None then Inr False
      else (case registeredClusterCaller resolver (subjectFromGRPCContext parse c) of
              Inl err \<Rightarrow> Inl (StatusError Unavailable
                ''managed cluster lookup failed; cannot verify control-plane identity'')
            | Inr registered \<Rightarrow> Inr registered))"

definition isServiceAccount :: "string \<Rightarrow> string list \<Rightarrow> bool" where
  "isServiceAccount username serviceAccounts =
     (if username = [] \<or> length serviceAccounts = 0 then False
      else list_ex (\<lambda>sa. sa = username) serviceAccounts)"


section \<open>The values of the context\<close>

definition GetUserIDFromContext :: "ctx \<Rightarrow> string" where
  "GetUserIDFromContext c = (case cUserID c of None \<Rightarrow> [] | Some v \<Rightarrow> v)"

definition GetJWTRolesFromContext :: "ctx \<Rightarrow> string list" where
  "GetJWTRolesFromContext c = (case cJWTRoles c of None \<Rightarrow> [] | Some roles \<Rightarrow> roles)"

definition HasPlatformAdminRole :: "ctx \<Rightarrow> string \<Rightarrow> bool" where
  "HasPlatformAdminRole c userID =
     (if userID = [] then False
      else list_ex (\<lambda>role. role = RolePlatformAdmin) (GetJWTRolesFromContext c))"

section \<open>The import binding\<close>

abbreviation ImportRepositoryMetadataKey :: string where
  "ImportRepositoryMetadataKey \<equiv> ''x-hypershell-import-repository-id''"

definition ImportRepositoryIDFromContext :: "ctx \<Rightarrow> string" where
  "ImportRepositoryIDFromContext c =
     (case metadataValues c ImportRepositoryMetadataKey of
        [] \<Rightarrow> []
      | v # _ \<Rightarrow> strings_TrimSpace v)"

definition denied :: go_error where [status_defs]:
  "denied = StatusError PermissionDenied ''forbidden''"

text \<open>\<^verbatim>\<open>ImportRepositoryResolver\<close>: whether a repository exists.\<close>

type_synonym import_resolver = "(string \<Rightarrow> go_error + bool) option"

definition authorizeImportWrite :: "ctx \<Rightarrow> import_resolver \<Rightarrow> go_error option" where
  "authorizeImportWrite c imports =
     (let repositoryID = ImportRepositoryIDFromContext c in
      if repositoryID = [] then Some denied
      else (case imports of
              None \<Rightarrow> Some (StatusError Unavailable
                ''repository registry unavailable; cannot verify the reconciled repository'')
            | Some RepositoryExists \<Rightarrow>
                (case RepositoryExists repositoryID of
                   Inl err \<Rightarrow> Some (StatusError Unavailable
                     ''repository lookup failed; cannot verify the reconciled repository'')
                 | Inr exists \<Rightarrow> if \<not> exists then Some denied else None)))"

definition EnforceImportOwnership :: "ctx \<Rightarrow> string option \<Rightarrow> go_error option" where
  "EnforceImportOwnership c existing =
     (let repositoryID = ImportRepositoryIDFromContext c in
      if repositoryID = [] then None
      else if existing = None \<or> existing \<noteq> Some repositoryID then Some denied
      else None)"

definition ImportOwnershipMark :: "ctx \<Rightarrow> string option" where
  "ImportOwnershipMark c =
     (let repositoryID = ImportRepositoryIDFromContext c in
      if repositoryID = [] then None else Some repositoryID)"

section \<open>The writer kind of a gateway write\<close>

fun Privileged :: "GatewayWriterKind \<Rightarrow> bool" where
  "Privileged k = (k = GatewayWriterControlPlane)"

fun GatewayWriterKind_String :: "GatewayWriterKind \<Rightarrow> string" where
  "GatewayWriterKind_String GatewayWriterImport = ''import''"
| "GatewayWriterKind_String GatewayWriterControlPlane = ''control-plane''"
| "GatewayWriterKind_String GatewayWriterUser = ''user''"

definition WithGatewayWriterKind :: "ctx \<Rightarrow> GatewayWriterKind \<Rightarrow> ctx" where
  "WithGatewayWriterKind c kind = c\<lparr>cWriterKind := Some kind\<rparr>"

definition GatewayWriterKindFromContext :: "ctx \<Rightarrow> GatewayWriterKind" where
  "GatewayWriterKindFromContext c =
     (case cWriterKind c of Some v \<Rightarrow> v | None \<Rightarrow> GatewayWriterUser)"

definition ResolveGatewayWriterKind :: "ctx \<Rightarrow> bool \<Rightarrow> GatewayWriterKind" where
  "ResolveGatewayWriterKind c registeredControlPlane =
     (if ImportRepositoryIDFromContext c \<noteq> [] then GatewayWriterImport
      else if registeredControlPlane then GatewayWriterControlPlane
      else GatewayWriterUser)"

definition WithResolvedGatewayWriterKind ::
  "(string \<Rightarrow> map_claims option) \<Rightarrow> ctx \<Rightarrow> cluster_resolver \<Rightarrow> go_error + ctx" where
  "WithResolvedGatewayWriterKind parse c clusters =
     (if ImportRepositoryIDFromContext c \<noteq> [] then Inr (WithGatewayWriterKind c GatewayWriterImport)
      else (case registeredClusterCaller clusters (subjectFromGRPCContext parse c) of
              Inl err \<Rightarrow> Inl (StatusError Unavailable
                ''managed cluster lookup failed; cannot classify the gateway writer'')
            | Inr registered \<Rightarrow>
                Inr (WithGatewayWriterKind c (ResolveGatewayWriterKind c registered))))"

section \<open>Provisioning the local user\<close>

text \<open>
  The upsert of a user and the role synchronisation change the state of other components; \<open>'w\<close>
  is that state. A failed synchronisation is only logged.
\<close>

type_synonym 'w upserter = "string \<Rightarrow> string option \<Rightarrow> string option \<Rightarrow> 'w \<Rightarrow> (go_error + string) \<times> 'w"
type_synonym 'w provisioner = "payload \<Rightarrow> 'w \<Rightarrow> (go_error + string) \<times> 'w"
type_synonym 'w syncer = "string \<Rightarrow> string list \<Rightarrow> 'w \<Rightarrow> go_error option \<times> 'w"

definition UpsertFromJWT :: "'w upserter \<Rightarrow> 'w provisioner" where
  "UpsertFromJWT upsertByUsername p =
     (let email = (if pEmail p \<noteq> [] then Some (pEmail p) else None);
          fullName = strings_TrimSpace (pFirstName p @ '' '' @ pLastName p);
          name = (if fullName \<noteq> [] then Some fullName else None)
      in upsertByUsername (pUsername p) email name)"

text \<open>The tail both transports share: record the user id and the JWT roles, then synchronise.\<close>

definition recordUserAndSync ::
  "(string \<Rightarrow> map_claims option) \<Rightarrow> ctx \<Rightarrow> string \<Rightarrow> 'w syncer option \<Rightarrow> 'w \<Rightarrow> ctx \<times> 'w" where
  "recordUserAndSync parse c userID syncer w =
     (let c1 = c\<lparr>cUserID := Some userID\<rparr>;
          jwtRoles = extractJWTRolesFromContext parse c1;
          c2 = (if length jwtRoles > 0 then c1\<lparr>cJWTRoles := Some jwtRoles\<rparr> else c1)
      in (c2, case syncer of None \<Rightarrow> w | Some sync \<Rightarrow> snd (sync userID jwtRoles w)))"

definition provisionUserForGRPC ::
  "(string \<Rightarrow> map_claims option) \<Rightarrow> ctx \<Rightarrow> 'w provisioner option \<Rightarrow> 'w syncer option \<Rightarrow> 'w \<Rightarrow> ctx \<times> 'w" where
  "provisionUserForGRPC parse c provisioner syncer w =
     (case provisioner of
        None \<Rightarrow> (c, w)
      | Some upsert \<Rightarrow>
          (let username = cUsername c in
           if username = [] then (c, w)
           else (case upsert \<lparr>pUsername = username, pFirstName = [], pLastName = [], pEmail = []\<rparr> w of
                   (Inl err, w1) \<Rightarrow> (c, w1)
                 | (Inr userID, w1) \<Rightarrow> recordUserAndSync parse c userID syncer w1)))"

definition provisionUserForHTTP ::
  "(string \<Rightarrow> map_claims option) \<Rightarrow> ctx \<Rightarrow> 'w provisioner \<Rightarrow> 'w syncer option \<Rightarrow> 'w \<Rightarrow> ctx \<times> 'w" where
  "provisionUserForHTTP parse c upsert syncer w =
     (case cPayload c of
        None \<Rightarrow> (c, w)
      | Some p \<Rightarrow>
          if pUsername p = [] then (c, w)
          else (case upsert p w of
                  (Inl upsertErr, w1) \<Rightarrow> (c, w1)
                | (Inr userID, w1) \<Rightarrow> recordUserAndSync parse c userID syncer w1))"

section \<open>Lemmas\<close>

text \<open>The two readings of the control-plane identity agree.\<close>

lemma isRegisteredClusterCallerGRPC_eq:
  "isRegisteredClusterCallerGRPC parse c username resolver =
     map_sum id (\<lambda>cid. cid \<noteq> None) (registeredClusterIDGRPC parse c username resolver)"
  by (auto simp: isRegisteredClusterCallerGRPC_def registeredClusterIDGRPC_def
      registeredClusterCaller_def Let_def split: option.splits sum.splits)

lemma authorizeImportWrite_None:
  "authorizeImportWrite c imports = None \<longleftrightarrow>
     ImportRepositoryIDFromContext c \<noteq> [] \<and>
     (\<exists>RepositoryExists. imports = Some RepositoryExists \<and>
        RepositoryExists (ImportRepositoryIDFromContext c) = Inr True)"
  by (auto simp: authorizeImportWrite_def Let_def split: option.splits sum.splits)

text \<open>
  A gateway write is classified as privileged exactly when it carries no import binding and
  the caller's subject resolves, without an error, to a registered cluster; an import is never
  privileged, and a failed look-up classifies nothing.
\<close>

theorem writer_kind_privileged_iff:
  "(\<exists>c'. WithResolvedGatewayWriterKind parse c clusters = Inr c' \<and>
          Privileged (GatewayWriterKindFromContext c')) \<longleftrightarrow>
     ImportRepositoryIDFromContext c = [] \<and>
     registeredClusterCaller clusters (subjectFromGRPCContext parse c) = Inr True"
  by (auto simp: WithResolvedGatewayWriterKind_def GatewayWriterKindFromContext_def
      WithGatewayWriterKind_def ResolveGatewayWriterKind_def split: sum.splits if_splits)

text \<open>
  Ownership of an imported resource cannot be forged: whatever repository id a request body
  names, the mark a create persists is the id of the import binding, a later import write is
  accepted only for a resource that carries the mark of the same binding, and a resource that is
  unowned or owned by another repository is refused.
\<close>

theorem import_ownership_roundtrip:
  assumes "ImportRepositoryIDFromContext c \<noteq> []"
  shows "(EnforceImportOwnership c existing = None \<longleftrightarrow> existing = ImportOwnershipMark c) \<and>
         ImportOwnershipMark c \<noteq> None \<and>
         (EnforceImportOwnership c (ImportOwnershipMark c') = None \<longleftrightarrow>
           ImportRepositoryIDFromContext c' = ImportRepositoryIDFromContext c)"
  using assms by (auto simp: EnforceImportOwnership_def ImportOwnershipMark_def Let_def)

definition emptyCtx :: ctx where
  "emptyCtx = \<lparr>cToken = None, cPayload = None, cUsername = [], cMetadata = None, cIsGRPC = True,
     cUserID = None, cJWTRoles = None, cWriterKind = None, cHolder = None\<rparr>"

definition importCtx :: "string \<Rightarrow> ctx" where
  "importCtx repo = emptyCtx\<lparr>cMetadata := Some [ImportRepositoryMetadataKey \<mapsto> [repo]]\<rparr>"

theorem import_ownership_roundtrip_witness:
  "EnforceImportOwnership (importCtx ''r1'') (Some ''r1'') = None \<and>
   EnforceImportOwnership (importCtx ''r1'') (ImportOwnershipMark (importCtx ''r2'')) \<noteq> None"
proof -
  have id: "ImportRepositoryIDFromContext (importCtx r) = strings_TrimSpace r" for r
    by (simp add: ImportRepositoryIDFromContext_def importCtx_def metadataValues_def)
  have t: "strings_TrimSpace ''r1'' = ''r1''" "strings_TrimSpace ''r2'' = ''r2''" by code_simp+
  have ne: "ImportRepositoryIDFromContext (importCtx ''r1'') \<noteq> []" by (simp add: id t)
  have "ImportOwnershipMark (importCtx ''r1'') = Some ''r1''"
    by (simp add: ImportOwnershipMark_def id t)
  then show ?thesis
    using import_ownership_roundtrip [OF ne, of "Some ''r1''" "importCtx ''r2''"] by (simp add: id t)
qed

text \<open>A JSON array, as a list; every other value, and an absent one, has no elements to offer.\<close>

fun arrayOf :: "json option \<Rightarrow> json list option" where
  "arrayOf (Some (JArr js)) = Some js"
| "arrayOf _ = None"

text \<open>The one array the realm roles of a claim set are taken from.\<close>

definition roleSource :: "map_claims \<Rightarrow> json list" where
  "roleSource claims =
     (case arrayOf (claims ''roles'') of Some js \<Rightarrow> js | None \<Rightarrow>
       (case arrayOf (claims ''groups'') of Some js \<Rightarrow> js | None \<Rightarrow>
         (case claims ''realm_access'' of
            Some (JObj ra) \<Rightarrow> (case arrayOf (map_of ra ''roles'') of Some js \<Rightarrow> js | None \<Rightarrow> [])
          | _ \<Rightarrow> [])))"

lemma set_roleStrings: "set (roleStrings js) = {normalizeRoleName s | s. JStr s \<in> set js}"
  by (induction js rule: roleStrings.induct) auto

lemma readStringClaim_arrayOf:
  "readStringClaim claims k =
     (case arrayOf (claims k) of Some js \<Rightarrow> (roleStrings js, True) | None \<Rightarrow> ([], False))"
  by (cases "claims k") (auto simp: readStringClaim_def split: json.splits)

lemma readRealmAccessRoles_arrayOf:
  "readRealmAccessRoles claims = roleStrings
     (case claims ''realm_access'' of
        Some (JObj ra) \<Rightarrow> (case arrayOf (map_of ra ''roles'') of Some js \<Rightarrow> js | None \<Rightarrow> [])
      | _ \<Rightarrow> [])"
proof (cases "claims ''realm_access''")
  case (Some j)
  have a: "(case x of Some (JArr rs) \<Rightarrow> roleStrings rs | _ \<Rightarrow> []) =
           roleStrings (case arrayOf x of Some js \<Rightarrow> js | None \<Rightarrow> [])" for x
    by (cases x rule: arrayOf.cases) simp_all
  show ?thesis by (cases j) (simp_all add: Some readRealmAccessRoles_def a)
qed (simp add: readRealmAccessRoles_def)

text \<open>
  The realm roles come from exactly one claim: the array claim \<open>roles\<close> when there is
  one, even an empty one, otherwise \<open>groups\<close>, otherwise \<open>realm_access.roles\<close>; a claim
  of lower precedence is never consulted, and the roles reported are exactly the strings of that
  claim, each without its leading slash.
\<close>

theorem realm_roles_single_source:
  "set (extractRealmRolesFromClaims claims) =
     {normalizeRoleName s | s. JStr s \<in> set (roleSource claims)}"
proof -
  have "extractRealmRolesFromClaims claims = roleStrings (roleSource claims)"
    by (simp add: extractRealmRolesFromClaims_def roleSource_def readStringClaim_arrayOf
        readRealmAccessRoles_arrayOf split: option.split)
  then show ?thesis by (simp add: set_roleStrings)
qed

end
