(* ===== verification/Rbac_Grpc.thy ===== *)
theory Rbac_Grpc
  imports Rbac_Identity
begin

text \<open>
  The decision on one gRPC call: the rules per caller kind (\<^verbatim>\<open>grpc_authorization.go\<close>), the
  watch-stream caller binding with its import exemption (\<^verbatim>\<open>cluster_binding.go\<close>), the services
  the import reconciler owns (\<^verbatim>\<open>import_binding.go\<close>), and the interceptor that composes them
  (\<^verbatim>\<open>grpc_interceptor.go\<close>).

  The resolvers and the role-binding look-up are interfaces, hence arguments. A function that
  reaches the database or the activity recorder takes the state \<open>'w\<close> of those components.
\<close>

section \<open>Requests\<close>

text \<open>
  The request messages the code distinguishes, with the fields it reads: the messages it casts to
  by type, those with both \<^verbatim>\<open>GetClusterId\<close> and \<^verbatim>\<open>GetRepositoryId\<close>, and any other message with
  the getters it has (\<open>None\<close> for a message without the getter). A field with presence is an
  \<open>option\<close>. A nil request is \<open>None\<close> of \<open>grpc_msg option\<close>.
\<close>

datatype grpc_msg =
    GetGatewayRequest string
  | UpdateGatewayRequest string "string option"
  | DeleteGatewayRequest string
  | SetGatewayVersionRequest string
  | AdjustActiveSandboxCountRequest string
  | SetActiveSandboxCountRequest string
  | ReportSandboxEventsRequest string
  | DeleteManagedClusterRequest string
  | ListGatewaysRequest string string
  | ListAgentRuntimesRequest string string
  | OtherRequest "string option" "string option"

text \<open>The dynamic casts to \<^verbatim>\<open>clusterScopedRequest\<close> and \<^verbatim>\<open>repositoryScopedRequest\<close>.\<close>

fun clusterScopedRequest :: "grpc_msg option \<Rightarrow> string option" where
  "clusterScopedRequest (Some (UpdateGatewayRequest _ cid)) =
     Some (case cid of None \<Rightarrow> [] | Some s \<Rightarrow> s)"
| "clusterScopedRequest (Some (ListGatewaysRequest cid _)) = Some cid"
| "clusterScopedRequest (Some (ListAgentRuntimesRequest cid _)) = Some cid"
| "clusterScopedRequest (Some (OtherRequest cid _)) = cid"
| "clusterScopedRequest _ = None"

fun repositoryScopedRequest :: "grpc_msg option \<Rightarrow> string option" where
  "repositoryScopedRequest (Some (ListGatewaysRequest _ rid)) = Some rid"
| "repositoryScopedRequest (Some (ListAgentRuntimesRequest _ rid)) = Some rid"
| "repositoryScopedRequest (Some (OtherRequest _ rid)) = rid"
| "repositoryScopedRequest _ = None"

text \<open>\<^verbatim>\<open>GatewayClusterResolver\<close>: the cluster of a gateway, by id and by namespace.\<close>

record gateway_resolver =
  GatewayClusterID :: "string \<Rightarrow> go_error + string \<times> bool"
  NamespaceClusterID :: "string \<Rightarrow> go_error + string \<times> bool"

section \<open>Methods\<close>

abbreviation hypershellGRPCPrefix :: string where
  "hypershellGRPCPrefix \<equiv> ''/hypershell.v1.''"

definition splitHypershellMethod :: "string \<Rightarrow> string \<times> string \<times> bool" where
  "splitHypershellMethod fullMethod =
     (if \<not> strings_HasPrefix fullMethod hypershellGRPCPrefix then ([], [], False)
      else (let rest = strings_TrimPrefix fullMethod hypershellGRPCPrefix;
                (service, method, ok) = strings_Cut rest (CHR ''/'')
            in (service, method, ok \<and> service \<noteq> [] \<and> method \<noteq> [])))"

definition isReadMethodName :: "string \<Rightarrow> bool" where
  "isReadMethodName method \<longleftrightarrow>
     strings_HasPrefix method ''Get'' \<or> strings_HasPrefix method ''List'' \<or>
     strings_HasPrefix method ''Watch''"

definition notFound :: go_error where [status_defs]:
  "notFound = StatusError NotFound ''not found''"

definition unexpectedRequest :: go_error where [status_defs]:
  "unexpectedRequest = StatusError Internal ''unexpected request type for authorization''"

definition isManagedClusterRecordMutation :: "string \<Rightarrow> bool" where
  "isManagedClusterRecordMutation fullMethod =
     (case splitHypershellMethod fullMethod of
        (service, method, ok) \<Rightarrow>
          ok \<and> service = ''ManagedClusterService'' \<and> \<not> isReadMethodName method)"

definition importExtKindServices :: "string list" where
  "importExtKindServices =
     [''SandboxTemplateService'', ''ProviderSpecService'', ''ProviderBindingService'',
      ''InferenceRouteService'', ''SecretSourceService'', ''CITrustService'']"

definition isImportExtKindService :: "string \<Rightarrow> bool" where
  "isImportExtKindService service \<longleftrightarrow> service \<in> set importExtKindServices"

definition IsImportExtKindWrite :: "string \<Rightarrow> bool" where
  "IsImportExtKindWrite fullMethod =
     (case splitHypershellMethod fullMethod of
        (service, method, ok) \<Rightarrow>
          ok \<and> isImportExtKindService service \<and> \<not> isReadMethodName method)"

definition allowIf :: "bool \<Rightarrow> go_error option" where
  "allowIf ok = (if ok then None else Some denied)"

section \<open>A registered control plane\<close>

definition requireGatewayOnCluster ::
  "gateway_resolver option \<Rightarrow> string \<Rightarrow> string \<Rightarrow> go_error \<Rightarrow> go_error option" where
  "requireGatewayOnCluster gateways gatewayID clusterID deny =
     (case gateways of
        None \<Rightarrow> Some (StatusError Unavailable
          ''gateway registry unavailable; cannot verify the gateway's cluster'')
      | Some g \<Rightarrow>
          if gatewayID = [] then Some (StatusError InvalidArgument ''id is required'')
          else (case GatewayClusterID g gatewayID of
                  Inl err \<Rightarrow> Some (StatusError Unavailable
                    ''gateway lookup failed; cannot verify the gateway's cluster'')
                | Inr (owner, found) \<Rightarrow>
                    if \<not> found \<or> owner \<noteq> clusterID then Some deny else None))"

definition requireNamespaceOnCluster ::
  "gateway_resolver option \<Rightarrow> string \<Rightarrow> string \<Rightarrow> go_error option" where
  "requireNamespaceOnCluster gateways namespace clusterID =
     (case gateways of
        None \<Rightarrow> Some (StatusError Unavailable
          ''gateway registry unavailable; cannot verify the gateway's cluster'')
      | Some g \<Rightarrow>
          (case NamespaceClusterID g namespace of
             Inl err \<Rightarrow> Some (StatusError Unavailable
               ''gateway lookup failed; cannot verify the gateway's cluster'')
           | Inr (owner, found) \<Rightarrow> if found \<and> owner \<noteq> clusterID then Some denied else None))"

text \<open>The per-method rules for a \<^verbatim>\<open>GatewayService\<close> call without an import mark.\<close>

definition controlPlaneGatewayRules ::
  "string \<Rightarrow> string \<Rightarrow> grpc_msg option \<Rightarrow> gateway_resolver option \<Rightarrow> go_error option" where
  "controlPlaneGatewayRules clusterID method req gateways =
     (if method = ''ListGateways'' \<or> method = ''WatchGateways'' then None
      else if method = ''GetGateway'' then
        (case req of Some (GetGatewayRequest i) \<Rightarrow>
             requireGatewayOnCluster gateways i clusterID notFound
         | _ \<Rightarrow> Some unexpectedRequest)
      else if method = ''UpdateGateway'' then
        (case req of Some (UpdateGatewayRequest i cid) \<Rightarrow>
             if cid \<noteq> None \<and> cid \<noteq> Some clusterID then Some denied
             else requireGatewayOnCluster gateways i clusterID denied
         | _ \<Rightarrow> Some unexpectedRequest)
      else if method = ''SetGatewayVersion'' then
        (case req of Some (SetGatewayVersionRequest i) \<Rightarrow>
             requireGatewayOnCluster gateways i clusterID denied
         | _ \<Rightarrow> Some unexpectedRequest)
      else if method = ''AdjustActiveSandboxCount'' then
        (case req of Some (AdjustActiveSandboxCountRequest ns) \<Rightarrow>
             requireNamespaceOnCluster gateways ns clusterID
         | _ \<Rightarrow> Some unexpectedRequest)
      else if method = ''SetActiveSandboxCount'' then
        (case req of Some (SetActiveSandboxCountRequest ns) \<Rightarrow>
             requireNamespaceOnCluster gateways ns clusterID
         | _ \<Rightarrow> Some unexpectedRequest)
      else if method = ''ReportSandboxEvents'' then
        (case req of Some (ReportSandboxEventsRequest ns) \<Rightarrow>
             requireNamespaceOnCluster gateways ns clusterID
         | _ \<Rightarrow> Some unexpectedRequest)
      else Some denied)"

definition authorizeControlPlaneGRPC ::
  "ctx \<Rightarrow> string \<Rightarrow> string \<Rightarrow> grpc_msg option \<Rightarrow> gateway_resolver option \<Rightarrow> import_resolver \<Rightarrow>
     go_error option" where
  "authorizeControlPlaneGRPC c clusterID fullMethod req gateways imports =
     (case splitHypershellMethod fullMethod of (service, method, ok) \<Rightarrow>
      if \<not> ok then None
      else if service = ''GatewayService'' then
        (if \<not> isReadMethodName method \<and> ImportRepositoryIDFromContext c \<noteq> []
         then authorizeImportWrite c imports
         else controlPlaneGatewayRules clusterID method req gateways)
      else if service = ''ManagedClusterService'' then
        (if isReadMethodName method then None
         else if method = ''DeleteManagedCluster'' then
           (case req of
              Some (DeleteManagedClusterRequest i) \<Rightarrow> if i = clusterID then None else Some denied
            | _ \<Rightarrow> Some unexpectedRequest)
         else Some denied)
      else if service = ''RoleBindingService'' then
        (if method = ''ListRoleBindings'' \<or> method = ''WatchRoleBindings'' then None
         else Some denied)
      else if service = ''AgentRuntimeService'' then
        (if \<not> isReadMethodName method \<and> ImportRepositoryIDFromContext c \<noteq> []
         then authorizeImportWrite c imports
         else if method = ''ListAgentRuntimes'' \<or> method = ''WatchAgentRuntimes'' then None
         else Some denied)
      else if service \<in> {''SandboxTemplateService'', ''ProviderSpecService'',
                 ''ProviderBindingService'', ''InferenceRouteService'', ''SecretSourceService''} then
        (if isReadMethodName method then None else authorizeImportWrite c imports)
      else if service = ''RepositoryService'' then
        (if isReadMethodName method then None else Some denied)
      else if service \<in> {''AgentWorkspaceService'', ''WorkspaceMembershipService''} then
        (if isReadMethodName method then None else Some denied)
      else if service = ''CITrustService'' then
        (if isReadMethodName method then None else authorizeImportWrite c imports)
      else if service = ''CIProviderService'' then
        (if isReadMethodName method then None else Some denied)
      else Some denied)"

section \<open>A user\<close>

definition authorizeUserGRPC ::
  "string \<Rightarrow> grpc_msg option \<Rightarrow> BindingSummary list \<Rightarrow> go_error option" where
  "authorizeUserGRPC fullMethod req bindings =
     (case splitHypershellMethod fullMethod of (service, method, ok) \<Rightarrow>
      if \<not> ok then (if length bindings = 0 then Some denied else None)
      else if service = ''GatewayService'' then
        (if method = ''CreateGateway'' then allowIf (hasGatewayCreator bindings)
         else if method = ''GetGateway'' then
           (case req of Some (GetGatewayRequest i) \<Rightarrow>
                if \<not> isGatewayAuthorized MethodGet i bindings then Some notFound else None
            | _ \<Rightarrow> Some unexpectedRequest)
         else if method = ''UpdateGateway'' then
           (case req of Some (UpdateGatewayRequest i _) \<Rightarrow>
                allowIf (isGatewayAuthorized MethodPatch i bindings)
            | _ \<Rightarrow> Some unexpectedRequest)
         else if method = ''DeleteGateway'' then
           (case req of Some (DeleteGatewayRequest i) \<Rightarrow>
                allowIf (isGatewayAuthorized MethodDelete i bindings)
            | _ \<Rightarrow> Some unexpectedRequest)
         else if method = ''ListGateways'' \<or> method = ''WatchGateways'' then
           allowIf (hasPlatformAdmin bindings)
         else Some denied)
      else if service = ''ManagedClusterService'' then
        (if isReadMethodName method then allowIf (hasDashboardInventoryAccess bindings [])
         else allowIf (hasPlatformAdmin bindings))
      else if service = ''RoleBindingService'' then Some denied
      else if service = ''AgentRuntimeService'' then
        (if method = ''ListAgentRuntimes'' \<or> method = ''WatchAgentRuntimes''
         then allowIf (hasPlatformAdmin bindings) else Some denied)
      else if service \<in> {''RepositoryService'', ''SandboxTemplateService'', ''ProviderSpecService'',
                 ''ProviderBindingService'', ''InferenceRouteService'', ''SecretSourceService'',
                 ''AgentWorkspaceService'', ''WorkspaceMembershipService'',
                 ''CIProviderService'', ''CITrustService''} then
        (if isReadMethodName method then allowIf (hasPlatformAdmin bindings) else Some denied)
      else Some denied)"

section \<open>The watch-stream caller binding\<close>

abbreviation listGatewaysMethod :: string where
  "listGatewaysMethod \<equiv> ''/hypershell.v1.GatewayService/ListGateways''"

abbreviation listAgentRuntimesMethod :: string where
  "listAgentRuntimesMethod \<equiv> ''/hypershell.v1.AgentRuntimeService/ListAgentRuntimes''"

definition isClusterBoundMethod :: "string \<Rightarrow> bool" where
  "isClusterBoundMethod fullMethod \<longleftrightarrow>
     fullMethod \<in> {''/hypershell.v1.GatewayService/WatchGateways'', listGatewaysMethod,
       ''/hypershell.v1.RoleBindingService/WatchRoleBindings'',
       ''/hypershell.v1.RoleBindingService/ListRoleBindings'',
       ''/hypershell.v1.AgentRuntimeService/WatchAgentRuntimes'', listAgentRuntimesMethod}"

text \<open>\<open>Inr (Some c)\<close>: the caller is bound to cluster \<open>c\<close>.\<close>

definition callerRegisteredCluster ::
  "(string \<Rightarrow> map_claims option) \<Rightarrow> ctx \<Rightarrow> cluster_resolver \<Rightarrow> go_error + string option" where
  "callerRegisteredCluster parse c resolver =
     (let subject = subjectFromGRPCContext parse c in
      if subject = [] then Inr None
      else (case resolver of
              None \<Rightarrow> Inl (StatusError Unavailable
                ''managed cluster registry unavailable; cannot verify caller cluster binding'')
            | Some res \<Rightarrow>
                (case res subject of
                   Inl err \<Rightarrow> Inl (StatusError Unavailable
                     ''managed cluster lookup failed; cannot verify caller cluster binding'')
                 | Inr (clusterID, found) \<Rightarrow>
                     if \<not> found \<or> clusterID = [] then Inr None else Inr (Some clusterID))))"

definition checkRequestCluster :: "grpc_msg option \<Rightarrow> string \<Rightarrow> go_error option" where
  "checkRequestCluster req clusterID =
     (case clusterScopedRequest req of
        None \<Rightarrow> Some (StatusError Internal ''cluster-bound request does not carry cluster_id'')
      | Some requested \<Rightarrow>
          if requested = [] then Some (StatusError InvalidArgument
            ''cluster_id is required: this caller is a registered managed cluster and must scope the request to its own cluster_id'')
          else if requested \<noteq> clusterID then Some (StatusError PermissionDenied
            ''cluster_id does not match the caller's registered managed cluster'')
          else None)"

definition importScopedReadExempt ::
  "ctx \<Rightarrow> string \<Rightarrow> grpc_msg option \<Rightarrow> import_resolver \<Rightarrow> go_error + bool" where
  "importScopedReadExempt c fullMethod req imports =
     (if fullMethod \<noteq> listGatewaysMethod \<and> fullMethod \<noteq> listAgentRuntimesMethod then Inr False
      else (let repoBinding = ImportRepositoryIDFromContext c in
            if repoBinding = [] then Inr False
            else (case repositoryScopedRequest req of
                    None \<Rightarrow> Inr False
                  | Some repositoryID \<Rightarrow>
                      if repositoryID \<noteq> repoBinding then Inr False
                      else (case imports of
                              None \<Rightarrow> Inl (StatusError Unavailable
                                ''repository registry unavailable; cannot verify the reconciled repository for an import-scoped read'')
                            | Some RepositoryExists \<Rightarrow>
                                (case RepositoryExists repoBinding of
                                   Inl err \<Rightarrow> Inl (StatusError Unavailable
                                     ''repository lookup failed; cannot verify the reconciled repository for an import-scoped read'')
                                 | Inr exists \<Rightarrow> if \<not> exists then Inl denied else Inr True)))))"

definition CheckClusterCallerBindingUnary ::
  "(string \<Rightarrow> map_claims option) \<Rightarrow> ctx \<Rightarrow> cluster_resolver \<Rightarrow> import_resolver \<Rightarrow> string \<Rightarrow>
     grpc_msg option \<Rightarrow> go_error option" where
  "CheckClusterCallerBindingUnary parse c resolver imports fullMethod req =
     (if \<not> isClusterBoundMethod fullMethod then None
      else (case callerRegisteredCluster parse c resolver of
              Inl err \<Rightarrow> Some err
            | Inr None \<Rightarrow> None
            | Inr (Some clusterID) \<Rightarrow>
                (case importScopedReadExempt c fullMethod req imports of
                   Inl exemptErr \<Rightarrow> Some exemptErr
                 | Inr exempt \<Rightarrow> if exempt then None else checkRequestCluster req clusterID)))"

text \<open>
  A server stream: the messages still to come, or the error that ends it. A stream the binding
  wraps also carries the caller's cluster and whether the first message was checked.
\<close>

datatype server_stream =
    PlainStream "(go_error + grpc_msg) list"
  | ClusterBoundStream "(go_error + grpc_msg) list" string bool

fun recvInner :: "(go_error + grpc_msg) list \<Rightarrow> (go_error + grpc_msg) \<times> (go_error + grpc_msg) list" where
  "recvInner [] = (Inl (PlainError ''EOF''), [])"
| "recvInner (m # ms) = (m, ms)"

definition BindClusterCallerStream ::
  "(string \<Rightarrow> map_claims option) \<Rightarrow> ctx \<Rightarrow> (go_error + grpc_msg) list \<Rightarrow> string \<Rightarrow> cluster_resolver \<Rightarrow>
     go_error + server_stream" where
  "BindClusterCallerStream parse c ss fullMethod resolver =
     (if \<not> isClusterBoundMethod fullMethod then Inr (PlainStream ss)
      else (case callerRegisteredCluster parse c resolver of
              Inl err \<Rightarrow> Inl err
            | Inr None \<Rightarrow> Inr (PlainStream ss)
            | Inr (Some clusterID) \<Rightarrow> Inr (ClusterBoundStream ss clusterID False)))"

fun RecvMsg :: "server_stream \<Rightarrow> (go_error + grpc_msg) \<times> server_stream" where
  "RecvMsg (PlainStream ms) = (case recvInner ms of (r, ms') \<Rightarrow> (r, PlainStream ms'))"
| "RecvMsg (ClusterBoundStream ms clusterID checked) =
     (case recvInner ms of
        (Inl err, ms') \<Rightarrow> (Inl err, ClusterBoundStream ms' clusterID checked)
      | (Inr m, ms') \<Rightarrow>
          if checked then (Inr m, ClusterBoundStream ms' clusterID checked)
          else (case checkRequestCluster (Some m) clusterID of
                  Some err \<Rightarrow> (Inl err, ClusterBoundStream ms' clusterID True)
                | None \<Rightarrow> (Inr m, ClusterBoundStream ms' clusterID True)))"

section \<open>The interceptor\<close>

record AuthzConfig =
  EnforceRBAC :: bool
  ServiceAccounts :: "string list"

text \<open>
  \<^verbatim>\<open>RoleBindingLookup\<close> and \<^verbatim>\<open>DailyActivityRecorder\<close>; \<open>now\<close> is \<^verbatim>\<open>time.Now().UTC()\<close>.
\<close>

type_synonym 'w binding_lookup = "string \<Rightarrow> 'w \<Rightarrow> go_error + BindingSummary list"
type_synonym 'w activity_recorder = "(string \<Rightarrow> int \<Rightarrow> 'w \<Rightarrow> 'w) option"

definition recordAuthorizedDailyActivityGRPC ::
  "(string \<Rightarrow> map_claims option) \<Rightarrow> int \<Rightarrow> ctx \<Rightarrow> string \<Rightarrow> string list \<Rightarrow> cluster_resolver \<Rightarrow>
     'w activity_recorder \<Rightarrow> 'w \<Rightarrow> 'w" where
  "recordAuthorizedDailyActivityGRPC parse now c username serviceAccounts clusters recorder w =
     (case recorder of
        None \<Rightarrow> w
      | Some RecordDailyActivity \<Rightarrow>
          if isServiceAccount username serviceAccounts then w
          else (let userID = GetUserIDFromContext c in
                if userID = [] then w
                else (case isRegisteredClusterCallerGRPC parse c username clusters of
                        Inl err \<Rightarrow> w
                      | Inr registered \<Rightarrow>
                          if registered then w else RecordDailyActivity userID now w)))"

definition authorizeGRPC ::
  "(string \<Rightarrow> map_claims option) \<Rightarrow> int \<Rightarrow> ctx \<Rightarrow> string \<Rightarrow> grpc_msg option \<Rightarrow> 'w binding_lookup \<Rightarrow>
     'w activity_recorder \<Rightarrow> cluster_resolver \<Rightarrow> gateway_resolver option \<Rightarrow> import_resolver \<Rightarrow>
     AuthzConfig \<Rightarrow> 'w \<Rightarrow> go_error option \<times> 'w" where
  "authorizeGRPC parse now c fullMethod req FindBindingsByUserID recorder clusters gateways imports
       config w =
     (let username = cUsername c in
      if \<not> EnforceRBAC config then
        (None, recordAuthorizedDailyActivityGRPC parse now c username (ServiceAccounts config)
                 clusters recorder w)
      else (case registeredClusterIDGRPC parse c username clusters of
              Inl err \<Rightarrow> (Some err, w)
            | Inr (Some clusterID) \<Rightarrow>
                (authorizeControlPlaneGRPC c clusterID fullMethod req gateways imports, w)
            | Inr None \<Rightarrow>
                if isServiceAccount username (ServiceAccounts config) then
                  (if isManagedClusterRecordMutation fullMethod then (Some denied, w)
                   else if IsImportExtKindWrite fullMethod then (Some denied, w)
                   else (None, w))
                else if username = [] then
                  (case splitHypershellMethod fullMethod of (_, _, hypershell) \<Rightarrow>
                     if hypershell then (Some denied, w) else (None, w))
                else (let userID = GetUserIDFromContext c in
                      if userID = [] then (Some denied, w)
                      else (case FindBindingsByUserID userID w of
                              Inl err \<Rightarrow> (Some denied, w)
                            | Inr bindings \<Rightarrow>
                                (case authorizeUserGRPC fullMethod req bindings of
                                   Some err \<Rightarrow> (Some err, w)
                                 | None \<Rightarrow>
                                     (None, recordAuthorizedDailyActivityGRPC parse now c username
                                        (ServiceAccounts config) None recorder w))))))"

text \<open>
  The interceptors. A handler is a function of the context and the request (unary) or of the
  stream's context (streaming); \<open>Inl\<close> is its error.
\<close>

definition RBACUnaryInterceptor ::
  "(string \<Rightarrow> map_claims option) \<Rightarrow> int \<Rightarrow> 'w binding_lookup \<Rightarrow> 'w provisioner option \<Rightarrow>
     'w syncer option \<Rightarrow> 'w activity_recorder \<Rightarrow> cluster_resolver \<Rightarrow> gateway_resolver option \<Rightarrow>
     import_resolver \<Rightarrow> AuthzConfig \<Rightarrow> ctx \<Rightarrow> grpc_msg option \<Rightarrow> string \<Rightarrow>
     (ctx \<Rightarrow> grpc_msg option \<Rightarrow> 'w \<Rightarrow> (go_error + 'r) \<times> 'w) \<Rightarrow> 'w \<Rightarrow> (go_error + 'r) \<times> 'w" where
  "RBACUnaryInterceptor parse now lookup provisioner syncer recorder clusters gateways imports
       config c req fullMethod handler w =
     (case provisionUserForGRPC parse c provisioner syncer w of (c1, w1) \<Rightarrow>
      (case authorizeGRPC parse now c1 fullMethod req lookup recorder clusters gateways imports
              config w1 of
         (Some err, w2) \<Rightarrow> (Inl err, w2)
       | (None, w2) \<Rightarrow> handler c1 req w2))"

definition RBACStreamInterceptor ::
  "(string \<Rightarrow> map_claims option) \<Rightarrow> int \<Rightarrow> 'w binding_lookup \<Rightarrow> 'w provisioner option \<Rightarrow>
     'w syncer option \<Rightarrow> 'w activity_recorder \<Rightarrow> cluster_resolver \<Rightarrow> gateway_resolver option \<Rightarrow>
     import_resolver \<Rightarrow> AuthzConfig \<Rightarrow> ctx \<Rightarrow> string \<Rightarrow>
     (ctx \<Rightarrow> 'w \<Rightarrow> go_error option \<times> 'w) \<Rightarrow> 'w \<Rightarrow> go_error option \<times> 'w" where
  "RBACStreamInterceptor parse now lookup provisioner syncer recorder clusters gateways imports
       config c fullMethod handler w =
     (case provisionUserForGRPC parse c provisioner syncer w of (c1, w1) \<Rightarrow>
      (case authorizeGRPC parse now c1 fullMethod None lookup recorder clusters gateways imports
              config w1 of
         (Some err, w2) \<Rightarrow> (Some err, w2)
       | (None, w2) \<Rightarrow> handler c1 w2))"

section \<open>Lemmas on the decisions\<close>

lemma splitHypershellMethod_method:
  assumes "CHR ''/'' \<notin> set service" "service \<noteq> []" "method \<noteq> []"
  shows "splitHypershellMethod (hypershellGRPCPrefix @ service @ CHR ''/'' # method) =
     (service, method, True)"
  unfolding splitHypershellMethod_def strings_TrimPrefix_append Let_def
  using assms by (simp add: strings_Cut_append)

lemma requireGatewayOnCluster_None:
  "requireGatewayOnCluster gateways i cid deny = None \<longleftrightarrow>
     i \<noteq> [] \<and> (\<exists>g. gateways = Some g \<and> GatewayClusterID g i = Inr (cid, True))"
  by (auto simp: requireGatewayOnCluster_def split: option.splits sum.splits)

lemma requireNamespaceOnCluster_None:
  "requireNamespaceOnCluster gateways ns cid = None \<longleftrightarrow>
     (\<exists>g owner found. gateways = Some g \<and> NamespaceClusterID g ns = Inr (owner, found) \<and>
        (found \<longrightarrow> owner = cid))"
  by (auto simp: requireNamespaceOnCluster_def split: option.splits sum.splits)

lemma allowIf_None [simp]: "allowIf b = None \<longleftrightarrow> b"
  by (simp add: allowIf_def)

text \<open>
  The gateway a control plane of cluster \<open>cid\<close> writes: the request names, by id or by namespace, a
  live gateway of that cluster, and does not move it away. The reports by namespace may also name a
  namespace in which no gateway is found.
\<close>

definition targetsOwnGateway :: "gateway_resolver \<Rightarrow> string \<Rightarrow> grpc_msg option \<Rightarrow> bool" where
  "targetsOwnGateway g cid req =
     (case req of
        Some (UpdateGatewayRequest i moved) \<Rightarrow>
          GatewayClusterID g i = Inr (cid, True) \<and> (moved = None \<or> moved = Some cid)
      | Some (SetGatewayVersionRequest i) \<Rightarrow> GatewayClusterID g i = Inr (cid, True)
      | Some (AdjustActiveSandboxCountRequest ns) \<Rightarrow> NamespaceClusterID g ns = Inr (cid, True)
      | Some (SetActiveSandboxCountRequest ns) \<Rightarrow> NamespaceClusterID g ns = Inr (cid, True)
      | Some (ReportSandboxEventsRequest ns) \<Rightarrow> NamespaceClusterID g ns = Inr (cid, True)
      | _ \<Rightarrow> False)"

definition noGatewayIn :: "gateway_resolver \<Rightarrow> string \<Rightarrow> bool" where
  "noGatewayIn g ns = (case NamespaceClusterID g ns of Inr (owner, found) \<Rightarrow> \<not> found | Inl _ \<Rightarrow> False)"

definition reportsForNoGateway :: "gateway_resolver \<Rightarrow> grpc_msg option \<Rightarrow> bool" where
  "reportsForNoGateway g req =
     (case req of
        Some (AdjustActiveSandboxCountRequest ns) \<Rightarrow> noGatewayIn g ns
      | Some (SetActiveSandboxCountRequest ns) \<Rightarrow> noGatewayIn g ns
      | Some (ReportSandboxEventsRequest ns) \<Rightarrow> noGatewayIn g ns
      | _ \<Rightarrow> False)"

lemma read_names:
  "isReadMethodName ''ListGateways''" "isReadMethodName ''WatchGateways''"
  "isReadMethodName ''GetGateway''" "isReadMethodName ''ListRoleBindings''"
  "isReadMethodName ''WatchRoleBindings''" "isReadMethodName ''ListAgentRuntimes''"
  "isReadMethodName ''WatchAgentRuntimes''"
  by (simp_all add: isReadMethodName_def)

lemma controlPlaneGatewayRules_write:
  assumes "controlPlaneGatewayRules cid method req gateways = None" "\<not> isReadMethodName method"
  shows "\<exists>g. gateways = Some g \<and> (targetsOwnGateway g cid req \<or> reportsForNoGateway g req)"
proof -
  from assms(2) have m: "method \<noteq> ''ListGateways''" "method \<noteq> ''WatchGateways''"
    "method \<noteq> ''GetGateway''" using read_names by auto
  from assms(1) m obtain msg where req: "req = Some msg"
    by (cases req) (auto simp: controlPlaneGatewayRules_def split: if_splits)
  from assms(1) m show ?thesis
    unfolding controlPlaneGatewayRules_def req
    by (cases msg) (auto split: if_splits option.splits
        simp: targetsOwnGateway_def reportsForNoGateway_def noGatewayIn_def requireGatewayOnCluster_None
          requireNamespaceOnCluster_None)
qed

text \<open>The writes a registered control plane may make, service by service.\<close>

lemma authorizeControlPlaneGRPC_write:
  assumes "authorizeControlPlaneGRPC c cid fullMethod req gateways imports = None"
    and split: "splitHypershellMethod fullMethod = (service, method, True)"
    and wr: "\<not> isReadMethodName method"
  shows "service \<in> {''GatewayService'', ''AgentRuntimeService''} \<union> set importExtKindServices \<and>
           authorizeImportWrite c imports = None \<or>
         service = ''GatewayService'' \<and> (\<exists>g. gateways = Some g \<and>
           (targetsOwnGateway g cid req \<or> reportsForNoGateway g req)) \<or>
         service = ''ManagedClusterService'' \<and> req = Some (DeleteManagedClusterRequest cid)"
proof -
  note allowed = assms(1) [unfolded authorizeControlPlaneGRPC_def split prod.case]
  from wr have m: "method \<noteq> ''ListRoleBindings''" "method \<noteq> ''WatchRoleBindings''"
    "method \<noteq> ''ListAgentRuntimes''" "method \<noteq> ''WatchAgentRuntimes''" using read_names by auto
  have five: "x = a \<or> x = b \<or> x = d \<or> x = e \<or> x \<in> S \<or> x \<notin> {a, b, d, e} \<union> S"
    for x a b d e :: string and S by blast
  consider "service = ''GatewayService''" | "service = ''ManagedClusterService''"
    | "service = ''RoleBindingService''" | "service = ''AgentRuntimeService''"
    | "service \<in> set importExtKindServices"
    | "service \<notin> {''GatewayService'', ''ManagedClusterService'', ''RoleBindingService'',
         ''AgentRuntimeService''} \<union> set importExtKindServices" using five by metis
  then show ?thesis
  proof cases
    case 1
    then show ?thesis
      using allowed wr controlPlaneGatewayRules_write [of cid _ req gateways]
      by (simp split: if_splits)
  next
    case 2
    then show ?thesis using allowed wr
      by (simp split: if_splits option.splits grpc_msg.splits)
  next
    case 3
    then show ?thesis using allowed m by simp
  next
    case 4
    then show ?thesis using allowed m wr by (simp split: if_splits)
  next
    case 5
    then have "authorizeImportWrite c imports = None"
      unfolding importExtKindServices_def list.set insert_iff empty_iff
      by (elim disjE) (use allowed wr in simp_all)
    then show ?thesis using 5 by simp
  next
    case 6
    then show ?thesis using allowed wr
      by (simp add: importExtKindServices_def split: if_splits)
  qed
qed

section \<open>Properties\<close>


definition clusterCtx :: "string \<Rightarrow> ctx" where
  "clusterCtx sub = emptyCtx\<lparr>cToken := Some (MapClaims [''sub'' \<mapsto> JStr sub]), cUsername := ''cp''\<rparr>"

definition sampleClusters :: "string \<Rightarrow> go_error + string \<times> bool" where
  "sampleClusters sub = Inr (if sub = ''cp-1'' then (''c1'', True) else ([], False))"

definition sampleGateways :: gateway_resolver where
  "sampleGateways = \<lparr>GatewayClusterID = \<lambda>i. Inr (if i = ''g1'' then (''c1'', True) else (''c2'', True)),
     NamespaceClusterID = \<lambda>ns. Inr ([], False)\<rparr>"

definition enforcing :: AuthzConfig where
  "enforcing = \<lparr>EnforceRBAC = True, ServiceAccounts = [''cp'']\<rparr>"

lemma clusterCtx_subject:
  "registeredClusterIDGRPC parse (clusterCtx ''cp-1'') (cUsername (clusterCtx ''cp-1''))
     (Some sampleClusters) = Inr (Some ''c1'')"
  by (simp add: registeredClusterIDGRPC_def clusterCtx_def emptyCtx_def subjectFromGRPCContext_def
      subClaim_def sampleClusters_def)


text \<open>
  No authority without a decision on data. With enforcement on, a failed look-up of the
  caller's cluster is answered \<open>Unavailable\<close> for every method and every request, and changes
  nothing: it is never read as "not a control plane".
\<close>

theorem cluster_lookup_failure_unavailable:
  assumes "EnforceRBAC config" and "cUsername c \<noteq> []"
    and "subjectFromGRPCContext parse c = sub" and "sub \<noteq> []" and "resolve sub = Inl e"
  shows "\<exists>msg. authorizeGRPC parse now c fullMethod req lookup recorder (Some resolve) gateways
           imports config w = (Some (StatusError Unavailable msg), w)"
  using assms by (simp add: authorizeGRPC_def registeredClusterIDGRPC_def Let_def)

theorem cluster_lookup_failure_unavailable_witness:
  "\<exists>msg. authorizeGRPC (\<lambda>_. None) 0 (clusterCtx ''cp-1'') ''/hypershell.v1.GatewayService/ListGateways''
     None (\<lambda>_ (_::nat). Inr []) None (Some (\<lambda>_. Inl (PlainError ''db down''))) None None enforcing 7 =
     (Some (StatusError Unavailable msg), 7)"
  by (rule cluster_lookup_failure_unavailable [where sub = "''cp-1''"])
    (simp_all add: enforcing_def clusterCtx_def emptyCtx_def subjectFromGRPCContext_def subClaim_def)

lemma authorizeUserGRPC_hypershell:
  assumes "authorizeUserGRPC fullMethod req bs = None"
    and split: "splitHypershellMethod fullMethod = (service, method, True)"
  shows "service \<noteq> ''RoleBindingService'' \<and>
     (isReadMethodName method \<or> service = ''GatewayService'' \<or>
      service = ''ManagedClusterService'' \<and> hasPlatformAdmin bs) \<and>
     (service = ''GatewayService'' \<or> service = ''ManagedClusterService'' \<or> hasPlatformAdmin bs)"
proof -
  note allowed = assms(1) [unfolded authorizeUserGRPC_def split prod.case]
  consider "service = ''GatewayService''" | "service = ''ManagedClusterService''"
    | "service = ''AgentRuntimeService''"
    | "service \<noteq> ''GatewayService''" "service \<noteq> ''ManagedClusterService''"
      "service \<noteq> ''AgentRuntimeService''" by metis
  then show ?thesis
  proof cases
    case 1
    then show ?thesis by simp
  next
    case 2
    then show ?thesis using allowed by (simp split: if_splits)
  next
    case 3
    then show ?thesis using allowed
      by (cases "method = ''ListAgentRuntimes''") (simp_all add: read_names split: if_splits)
  next
    case 4
    then show ?thesis using allowed
      by (cases "service = ''RoleBindingService''"; cases "isReadMethodName method")
        (simp_all only: if_True if_False, simp_all split: if_splits)
  qed
qed

text \<open>
  Default deny for users. A hypershell call of a caller that is neither a registered control
  plane nor allowlisted is let through only when the caller is provisioned and its bindings could
  be read. Such a caller never reaches the role-binding service, writes nothing but gateways and,
  as \<open>platform:admin\<close>, cluster records, and needs \<open>platform:admin\<close> for everything outside
  the gateway and cluster services.
\<close>

theorem user_default_deny:
  assumes "EnforceRBAC config"
    and "registeredClusterIDGRPC parse c (cUsername c) clusters = Inr None"
    and "\<not> isServiceAccount (cUsername c) (ServiceAccounts config)"
    and "splitHypershellMethod fullMethod = (service, method, True)"
    and "fst (authorizeGRPC parse now c fullMethod req lookup recorder clusters gateways imports
                config w) = None"
  shows "\<exists>bs. cUsername c \<noteq> [] \<and> GetUserIDFromContext c \<noteq> [] \<and>
           lookup (GetUserIDFromContext c) w = Inr bs \<and>
           service \<noteq> ''RoleBindingService'' \<and>
           (isReadMethodName method \<or> service = ''GatewayService'' \<or>
            service = ''ManagedClusterService'' \<and> hasPlatformAdmin bs) \<and>
           (service = ''GatewayService'' \<or> service = ''ManagedClusterService'' \<or> hasPlatformAdmin bs)"
proof -
  from assms have n: "cUsername c \<noteq> []"
    by (cases "cUsername c = []") (simp_all add: authorizeGRPC_def Let_def)
  with assms have u: "GetUserIDFromContext c \<noteq> []"
    by (cases "GetUserIDFromContext c = []") (simp_all add: authorizeGRPC_def Let_def)
  with n assms obtain bs where found: "lookup (GetUserIDFromContext c) w = Inr bs"
    by (cases "lookup (GetUserIDFromContext c) w") (simp_all add: authorizeGRPC_def Let_def)
  with n u assms have "authorizeUserGRPC fullMethod req bs = None"
    by (cases "authorizeUserGRPC fullMethod req bs") (simp_all add: authorizeGRPC_def Let_def)
  from authorizeUserGRPC_hypershell [OF this assms(4)] n u found show ?thesis
    by (intro exI [of _ bs] conjI) (elim conjE, assumption)+
qed

definition userCtx :: "string \<Rightarrow> ctx" where
  "userCtx u = emptyCtx\<lparr>cUsername := u, cUserID := Some (u @ ''-id'')\<rparr>"

theorem user_default_deny_witness:
  "fst (authorizeGRPC (\<lambda>_. None) 0 (userCtx ''ann'') ''/hypershell.v1.RepositoryService/ListRepositories''
     None (\<lambda>_ (_::unit). Inr [globalRole RolePlatformAdmin]) None (Some sampleClusters) None None
     enforcing ()) = None \<and> hasPlatformAdmin [globalRole RolePlatformAdmin]"
  (is "fst ?call = None \<and> _")
proof -
  have sp: "splitHypershellMethod ''/hypershell.v1.RepositoryService/ListRepositories'' =
      (''RepositoryService'', ''ListRepositories'', True)" by code_simp
  have rd: "isReadMethodName ''ListRepositories''" by code_simp
  have e: "EnforceRBAC enforcing" by (simp add: enforcing_def)
  have r: "registeredClusterIDGRPC (\<lambda>_. None) (userCtx ''ann'') (cUsername (userCtx ''ann''))
      (Some sampleClusters) = Inr None"
    by (simp add: registeredClusterIDGRPC_def userCtx_def emptyCtx_def subjectFromGRPCContext_def
        subjectFromMetadata_def metadataValues_def)
  have s: "\<not> isServiceAccount (cUsername (userCtx ''ann'')) (ServiceAccounts enforcing)"
    by (simp add: isServiceAccount_def enforcing_def userCtx_def emptyCtx_def)
  have u: "cUsername (userCtx ''ann'') = ''ann''" "GetUserIDFromContext (userCtx ''ann'') = ''ann-id''"
    by (simp_all add: userCtx_def emptyCtx_def GetUserIDFromContext_def)
  have "hasPlatformAdmin [globalRole RolePlatformAdmin]"
    by (simp add: hasPlatformAdmin_def globalRole_def)
  then have dec: "authorizeUserGRPC ''/hypershell.v1.RepositoryService/ListRepositories'' None
      [globalRole RolePlatformAdmin] = None"
    by (simp add: authorizeUserGRPC_def sp rd)
  have ok: "fst ?call = None"
    using r s by (simp add: authorizeGRPC_def e u dec Let_def)
  from user_default_deny [OF e r s sp ok] ok show ?thesis by simp
qed

text \<open>The four gateway methods of a user, as decisions over the bindings.\<close>

lemma user_gateway_methods:
  "authorizeUserGRPC ''/hypershell.v1.GatewayService/CreateGateway'' req bs = None \<longleftrightarrow>
     hasGatewayCreator bs"
  "authorizeUserGRPC ''/hypershell.v1.GatewayService/GetGateway'' (Some (GetGatewayRequest i)) bs = None
     \<longleftrightarrow> isGatewayAuthorized MethodGet i bs"
  "authorizeUserGRPC ''/hypershell.v1.GatewayService/UpdateGateway'' (Some (UpdateGatewayRequest i m)) bs
     = None \<longleftrightarrow> isGatewayAuthorized MethodPatch i bs"
  "authorizeUserGRPC ''/hypershell.v1.GatewayService/DeleteGateway'' (Some (DeleteGatewayRequest i)) bs
     = None \<longleftrightarrow> isGatewayAuthorized MethodDelete i bs"
proof -
  have sp: "splitHypershellMethod ''/hypershell.v1.GatewayService/CreateGateway'' =
      (''GatewayService'', ''CreateGateway'', True)"
    "splitHypershellMethod ''/hypershell.v1.GatewayService/GetGateway'' =
      (''GatewayService'', ''GetGateway'', True)"
    "splitHypershellMethod ''/hypershell.v1.GatewayService/UpdateGateway'' =
      (''GatewayService'', ''UpdateGateway'', True)"
    "splitHypershellMethod ''/hypershell.v1.GatewayService/DeleteGateway'' =
      (''GatewayService'', ''DeleteGateway'', True)"
    by code_simp+
  show "authorizeUserGRPC ''/hypershell.v1.GatewayService/CreateGateway'' req bs = None \<longleftrightarrow>
      hasGatewayCreator bs"
    by (simp add: authorizeUserGRPC_def sp)
  show "authorizeUserGRPC ''/hypershell.v1.GatewayService/GetGateway'' (Some (GetGatewayRequest i)) bs
      = None \<longleftrightarrow> isGatewayAuthorized MethodGet i bs"
    by (simp add: authorizeUserGRPC_def sp)
  show "authorizeUserGRPC ''/hypershell.v1.GatewayService/UpdateGateway''
      (Some (UpdateGatewayRequest i m)) bs = None \<longleftrightarrow> isGatewayAuthorized MethodPatch i bs"
    by (simp add: authorizeUserGRPC_def sp)
  show "authorizeUserGRPC ''/hypershell.v1.GatewayService/DeleteGateway''
      (Some (DeleteGatewayRequest i)) bs = None \<longleftrightarrow> isGatewayAuthorized MethodDelete i bs"
    by (simp add: authorizeUserGRPC_def sp)
qed

text \<open>
  C37: the two transports agree on gateways: a user may create, get, update or delete a gateway
  over gRPC exactly when the REST decision table allows the corresponding request, whatever roles
  the token carries.
\<close>

theorem grpc_rest_agree_on_gateways:
  assumes "i \<noteq> []"
  shows "(authorizeUserGRPC ''/hypershell.v1.GatewayService/CreateGateway'' req bs = None \<longleftrightarrow>
           isAuthorized MethodPost ''gateways'' [] [] bs jwtRoles False) \<and>
         (authorizeUserGRPC ''/hypershell.v1.GatewayService/GetGateway''
             (Some (GetGatewayRequest i)) bs = None \<longleftrightarrow>
           isAuthorized MethodGet ''gateways'' i i bs jwtRoles False) \<and>
         (authorizeUserGRPC ''/hypershell.v1.GatewayService/UpdateGateway''
             (Some (UpdateGatewayRequest i m)) bs = None \<longleftrightarrow>
           isAuthorized MethodPatch ''gateways'' i i bs jwtRoles False) \<and>
         (authorizeUserGRPC ''/hypershell.v1.GatewayService/DeleteGateway''
             (Some (DeleteGatewayRequest i)) bs = None \<longleftrightarrow>
           isAuthorized MethodDelete ''gateways'' i i bs jwtRoles False)"
  using assms by (simp add: user_gateway_methods isAuthorized_def)

theorem grpc_rest_agree_on_gateways_witness:
  "authorizeUserGRPC ''/hypershell.v1.GatewayService/UpdateGateway''
     (Some (UpdateGatewayRequest ''g1'' None)) [ownerOf ''g1''] = None \<longleftrightarrow>
   isAuthorized MethodPatch ''gateways'' ''g1'' ''g1'' [ownerOf ''g1''] [] False"
  using grpc_rest_agree_on_gateways [of "''g1''" None "[ownerOf ''g1'']" "[]" None] by simp

lemma importScopedReadExempt_True:
  "importScopedReadExempt c fullMethod req imports = Inr True \<longleftrightarrow>
     (fullMethod = listGatewaysMethod \<or> fullMethod = listAgentRuntimesMethod) \<and>
     ImportRepositoryIDFromContext c \<noteq> [] \<and>
     repositoryScopedRequest req = Some (ImportRepositoryIDFromContext c) \<and>
     (\<exists>RepositoryExists. imports = Some RepositoryExists \<and>
        RepositoryExists (ImportRepositoryIDFromContext c) = Inr True)"
  unfolding importScopedReadExempt_def Let_def
  by (cases "fullMethod = listGatewaysMethod \<or> fullMethod = listAgentRuntimesMethod")
    (auto split: option.splits sum.splits)

lemma checkRequestCluster_None:
  "clusterID \<noteq> [] \<Longrightarrow> checkRequestCluster req clusterID = None \<longleftrightarrow> clusterScopedRequest req = Some clusterID"
  by (auto simp: checkRequestCluster_def split: option.splits)

lemma callerRegisteredCluster_nonempty:
  "callerRegisteredCluster parse c resolver = Inr (Some cid) \<Longrightarrow> cid \<noteq> []"
  by (auto simp: callerRegisteredCluster_def Let_def split: option.splits sum.splits if_splits)

text \<open>
  The check of a unary call: a caller whose subject registered a cluster scopes the request to it, or
  is exempt as an import.
\<close>

lemma CheckClusterCallerBindingUnary_None:
  assumes "isClusterBoundMethod fullMethod"
    and reg: "callerRegisteredCluster parse c resolver = Inr (Some cid)"
    and ok: "CheckClusterCallerBindingUnary parse c resolver repos fullMethod req = None"
  shows "clusterScopedRequest req = Some cid \<or>
    (fullMethod = listGatewaysMethod \<or> fullMethod = listAgentRuntimesMethod) \<and>
    ImportRepositoryIDFromContext c \<noteq> [] \<and>
    repositoryScopedRequest req = Some (ImportRepositoryIDFromContext c) \<and>
    (\<exists>RepositoryExists. repos = Some RepositoryExists \<and>
       RepositoryExists (ImportRepositoryIDFromContext c) = Inr True)"
proof (cases "importScopedReadExempt c fullMethod req repos = Inr True")
  case True
  then show ?thesis unfolding importScopedReadExempt_True by metis
next
  case False
  with ok assms have "checkRequestCluster req cid = None"
    by (cases "importScopedReadExempt c fullMethod req repos")
      (simp_all add: CheckClusterCallerBindingUnary_def)
  then show ?thesis by (simp add: checkRequestCluster_None [OF callerRegisteredCluster_nonempty [OF reg]])
qed

text \<open>
  The wrapped stream of \<open>BindClusterCallerStream\<close>, which the authorizer's own check of a stream's
  first message has replaced in the server: the first message a handler receives is scoped.
\<close>

lemma BindClusterCallerStream_first:
  assumes "isClusterBoundMethod fullMethod"
    and reg: "callerRegisteredCluster parse c resolver = Inr (Some cid)"
  shows "\<exists>s. BindClusterCallerStream parse c ms fullMethod resolver = Inr s \<and>
    (\<forall>m. fst (RecvMsg s) = Inr m \<longrightarrow> clusterScopedRequest (Some m) = Some cid)"
proof -
  have "fst (RecvMsg (ClusterBoundStream ms cid False)) = Inr m \<Longrightarrow>
      clusterScopedRequest (Some m) = Some cid" for m
    by (cases ms) (auto simp: checkRequestCluster_None [OF callerRegisteredCluster_nonempty [OF reg]]
        split: option.splits sum.splits prod.splits)
  then show ?thesis using assms by (simp add: BindClusterCallerStream_def)
qed

text \<open>
  The decision itself writes nothing but one daily-activity record, and that only for a call
  that was allowed and whose caller is a provisioned user: no registered control plane and no
  allowlisted account is ever counted as an active user, with enforcement on or off.
\<close>

theorem activity_counts_users_only:
  assumes "snd (authorizeGRPC parse now c fullMethod req lookup recorder clusters gateways repos
             config w) \<noteq> w"
  shows "fst (authorizeGRPC parse now c fullMethod req lookup recorder clusters gateways repos
             config w) = None \<and>
         registeredClusterIDGRPC parse c (cUsername c) clusters = Inr None \<and>
         \<not> isServiceAccount (cUsername c) (ServiceAccounts config) \<and>
         GetUserIDFromContext c \<noteq> [] \<and>
         (\<exists>RecordDailyActivity. recorder = Some RecordDailyActivity \<and>
            snd (authorizeGRPC parse now c fullMethod req lookup recorder clusters gateways repos
              config w) = RecordDailyActivity (GetUserIDFromContext c) now w)"
proof -
  have rec: "recordAuthorizedDailyActivityGRPC parse now c u sas cl recorder w \<noteq> w \<Longrightarrow>
      \<not> isServiceAccount u sas \<and> GetUserIDFromContext c \<noteq> [] \<and>
      registeredClusterIDGRPC parse c u cl = Inr None \<and>
      (\<exists>f. recorder = Some f \<and>
        recordAuthorizedDailyActivityGRPC parse now c u sas cl recorder w =
          f (GetUserIDFromContext c) now w)" for u sas cl
    by (auto simp: recordAuthorizedDailyActivityGRPC_def isRegisteredClusterCallerGRPC_eq Let_def
        map_sum_def split: option.splits sum.splits if_splits)
  show ?thesis
  proof (cases "EnforceRBAC config")
    case False
    with assms show ?thesis using rec by (simp add: authorizeGRPC_def)
  next
    case True
    from assms have reg: "registeredClusterIDGRPC parse c (cUsername c) clusters = Inr None"
      by (auto simp: authorizeGRPC_def True Let_def split: sum.splits option.splits)
    from assms have "authorizeGRPC parse now c fullMethod req lookup recorder clusters gateways repos
        config w = (None, recordAuthorizedDailyActivityGRPC parse now c (cUsername c)
          (ServiceAccounts config) None recorder w)"
      by (auto simp: authorizeGRPC_def True Let_def reg
          split: if_splits sum.splits option.splits prod.splits)
    with assms reg show ?thesis using rec by simp
  qed
qed

theorem activity_counts_users_only_witness:
  "authorizeGRPC (\<lambda>_. None) 5 (userCtx ''ann'') ''/hypershell.v1.GatewayService/ListGateways'' None
     (\<lambda>_ _. Inr [globalRole RolePlatformAdmin]) (Some (\<lambda>u t w. w @ [(u, t)])) (Some sampleClusters)
     None None (enforcing\<lparr>EnforceRBAC := False\<rparr>) [] = (None, [(''ann-id'', 5)]) \<and>
   \<not> isServiceAccount ''ann'' (ServiceAccounts (enforcing\<lparr>EnforceRBAC := False\<rparr>))"
  (is "?call = _ \<and> _")
proof -
  have call: "?call = (None, [(''ann-id'', 5)])"
    by (simp add: authorizeGRPC_def enforcing_def recordAuthorizedDailyActivityGRPC_def userCtx_def
        emptyCtx_def isServiceAccount_def GetUserIDFromContext_def isRegisteredClusterCallerGRPC_def
        registeredClusterCaller_def subjectFromGRPCContext_def subjectFromMetadata_def
        metadataValues_def)
  then have "snd ?call \<noteq> []" by simp
  from activity_counts_users_only [OF this] call show ?thesis
    by (simp add: userCtx_def emptyCtx_def)
qed

end
