(* ===== verification/Rbac_Authorizer.thy ===== *)
theory Rbac_Authorizer
  imports Rbac_Grpc
begin

text \<open>
  The authorizer the framework calls for every REST route and every gRPC method
  (\<^verbatim>\<open>authorizer.go\<close>, the request half of \<^verbatim>\<open>authorization.go\<close>, \<^verbatim>\<open>enforcement.go\<close>): the
  enrichment of the context, the REST decision, the gRPC decision with its deferred status, the
  interceptors that report that status, and the lazy construction from the environment.

  The framework's own policies (\<^verbatim>\<open>authz.RequireIdentity\<close>, \<^verbatim>\<open>authz.FromFlag\<close>) are arguments.
\<close>

section \<open>Data\<close>

text \<open>\<^verbatim>\<open>authz.Decision\<close>: allowed, or denied with a reason and \<^verbatim>\<open>HideExistence\<close>.\<close>

datatype decision = Allow | Deny string bool

text \<open>\<^verbatim>\<open>authz.Action\<close>, as far as the code looks at it.\<close>

datatype action = ActionWatch | OtherAction

text \<open>A request: a gRPC method with its message, or an HTTP request with its own context.\<close>

record authz_request =
  GRPCMethod :: string
  GRPCMsg :: "grpc_msg option"
  Action :: action
  HTTP :: "(http_request \<times> ctx) option"

record 'w Dependencies =
  Lookup :: "'w binding_lookup option"
  Provisioner :: "'w provisioner option"
  Syncer :: "'w syncer option"
  ActivityRecorder :: "'w activity_recorder"
  Clusters :: cluster_resolver
  ControlPlanes :: cluster_resolver
  Gateways :: "gateway_resolver option"
  Imports :: import_resolver

type_synonym fallback_policy = "ctx \<Rightarrow> authz_request \<Rightarrow> go_error + decision"

text \<open>\<open>enforcedFn\<close> is the value the function returns for this request, \<open>None\<close> for nil.\<close>

record 'w Authorizer =
  deps :: "'w Dependencies"
  config :: AuthzConfig
  enforcedFn :: "bool option"
  fallback :: fallback_policy
  grpcPassThrough :: bool

text \<open>\<^verbatim>\<open>environments.Env\<close>: \<^verbatim>\<open>Config\<close> and \<^verbatim>\<open>Config.Auth\<close> may be nil.\<close>

record auth_config =
  EnableJWT :: bool
  EnableAuthz :: bool

record env = Config :: "auth_config option option"

section \<open>Enforcement\<close>

definition EnforcedFor :: "bool option \<Rightarrow> env option \<Rightarrow> bool" where
  "EnforcedFor enforcementOverride e =
     (case enforcementOverride of
        Some b \<Rightarrow> b
      | None \<Rightarrow> (case e of
                   None \<Rightarrow> False
                 | Some e' \<Rightarrow> (case Config e' of Some (Some auth) \<Rightarrow> EnableJWT auth | _ \<Rightarrow> False)))"

text \<open>\<open>Enforced\<close> reads the process environment, which is never nil.\<close>

definition Enforced :: "bool option \<Rightarrow> env \<Rightarrow> bool" where
  "Enforced enforcementOverride environment =
     (case enforcementOverride of
        Some b \<Rightarrow> b
      | None \<Rightarrow> (case Config environment of Some (Some auth) \<Rightarrow> EnableJWT auth | _ \<Rightarrow> False))"

definition SetEnforcementForTest :: "bool \<Rightarrow> bool option" where
  "SetEnforcementForTest enforced = Some enforced"

definition NewAuthorizer :: "fallback_policy \<Rightarrow> 'w Dependencies \<Rightarrow> AuthzConfig \<Rightarrow> 'w Authorizer" where
  "NewAuthorizer RequireIdentity d cfg =
     \<lparr>deps = d, config = cfg, enforcedFn = None, fallback = RequireIdentity, grpcPassThrough = False\<rparr>"

definition NewRBACAuthzMiddleware ::
  "fallback_policy \<Rightarrow> 'w binding_lookup option \<Rightarrow> AuthzConfig \<Rightarrow> 'w activity_recorder \<Rightarrow>
     cluster_resolver \<Rightarrow> 'w Authorizer" where
  "NewRBACAuthzMiddleware RequireIdentity lookup cfg recorder clusters =
     NewAuthorizer RequireIdentity
       \<lparr>Lookup = lookup, Provisioner = None, Syncer = None, ActivityRecorder = recorder,
        Clusters = None, ControlPlanes = clusters, Gateways = None, Imports = None\<rparr> cfg"

definition enforced :: "'w Authorizer \<Rightarrow> bool" where
  "enforced a = (case enforcedFn a of Some b \<Rightarrow> b | None \<Rightarrow> EnforceRBAC (config a))"

section \<open>The deferred status\<close>

definition withDeferredStatus :: "ctx \<Rightarrow> ctx" where
  "withDeferredStatus c = c\<lparr>cHolder := Some None\<rparr>"

text \<open>\<^verbatim>\<open>set\<close> and \<^verbatim>\<open>take\<close> of the holder in the context; both do nothing without a holder.\<close>

definition deferredStatus_set :: "ctx \<Rightarrow> go_error \<Rightarrow> ctx" where
  "deferredStatus_set c err =
     (case cHolder c of None \<Rightarrow> c | Some _ \<Rightarrow> c\<lparr>cHolder := Some (Some err)\<rparr>)"

definition deferredStatus_take :: "ctx \<Rightarrow> go_error option \<times> ctx" where
  "deferredStatus_take c =
     (case cHolder c of None \<Rightarrow> (None, c) | Some err \<Rightarrow> (err, c\<lparr>cHolder := Some None\<rparr>))"

definition decisionFromStatus :: "ctx \<Rightarrow> go_error option \<Rightarrow> (go_error + decision) \<times> ctx" where
  "decisionFromStatus c err =
     (case err of
        None \<Rightarrow> (Inr Allow, c)
      | Some e \<Rightarrow>
          (case status_FromError e of
             None \<Rightarrow> (Inl e, c)
           | Some (code, message) \<Rightarrow>
               if code = PermissionDenied then (Inr (Deny message False), c)
               else if code = NotFound then (Inr (Deny message True), c)
               else if code = Unavailable then (Inl e, c)
               else (case cHolder c of
                       None \<Rightarrow> (Inr (Deny message False), c)
                     | Some _ \<Rightarrow> (Inr Allow, deferredStatus_set c e))))"

definition DeferredStatusUnaryInterceptor ::
  "ctx \<Rightarrow> grpc_msg option \<Rightarrow> (ctx \<Rightarrow> grpc_msg option \<Rightarrow> 'w \<Rightarrow> (go_error + 'r) \<times> 'w) \<Rightarrow> 'w \<Rightarrow>
     (go_error + 'r) \<times> 'w" where
  "DeferredStatusUnaryInterceptor c req handler w =
     (case deferredStatus_take c of
        (Some err, _) \<Rightarrow> (Inl err, w)
      | (None, c1) \<Rightarrow> handler c1 req w)"

text \<open>
  The streaming counterpart. The handler is given the stream's receive function: one receive is
  the inner receive, which may run another \<open>Authorize\<close> on the message and so change the holder,
  followed by \<open>take\<close>.
\<close>

definition deferredRecvMsg :: "(ctx \<Rightarrow> (go_error + grpc_msg) \<times> ctx) \<Rightarrow> ctx \<Rightarrow> (go_error + grpc_msg) \<times> ctx" where
  "deferredRecvMsg inner c =
     (case inner c of
        (Inl err, c1) \<Rightarrow> (Inl err, c1)
      | (Inr m, c1) \<Rightarrow>
          (case deferredStatus_take c1 of
             (Some err, c2) \<Rightarrow> (Inl err, c2)
           | (None, c2) \<Rightarrow> (Inr m, c2)))"

definition DeferredStatusStreamInterceptor ::
  "ctx \<Rightarrow> (ctx \<Rightarrow> (go_error + grpc_msg) \<times> ctx) \<Rightarrow>
     (ctx \<Rightarrow> (ctx \<Rightarrow> (go_error + grpc_msg) \<times> ctx) \<Rightarrow> 'w \<Rightarrow> go_error option \<times> 'w) \<Rightarrow> 'w \<Rightarrow>
     go_error option \<times> 'w" where
  "DeferredStatusStreamInterceptor c inner handler w =
     (case cHolder c of
        None \<Rightarrow> handler c inner w
      | Some _ \<Rightarrow>
          (case deferredStatus_take c of
             (Some err, _) \<Rightarrow> (Some err, w)
           | (None, c1) \<Rightarrow> handler c1 (deferredRecvMsg inner) w))"

section \<open>The decisions\<close>

text \<open>\<open>hasClaims\<close> is whether the subject of the call carries the claims of a verified token.\<close>

definition Enrich ::
  "(string \<Rightarrow> map_claims option) \<Rightarrow> 'w Authorizer \<Rightarrow> ctx \<Rightarrow> bool \<Rightarrow> 'w \<Rightarrow> ctx \<times> 'w" where
  "Enrich parse a c hasClaims w =
     (if cIsGRPC c then
        (let c1 = withDeferredStatus c in
         if \<not> hasClaims \<or> Lookup (deps a) = None then (c1, w)
         else provisionUserForGRPC parse c1 (Provisioner (deps a)) (Syncer (deps a)) w)
      else (case Provisioner (deps a) of
              None \<Rightarrow> (c, w)
            | Some p \<Rightarrow> provisionUserForHTTP parse c p (Syncer (deps a)) w))"

definition recordAuthorizedDailyActivity ::
  "int \<Rightarrow> ctx \<Rightarrow> http_request \<Rightarrow> ctx \<Rightarrow> string list \<Rightarrow> cluster_resolver \<Rightarrow> 'w activity_recorder \<Rightarrow>
     'w \<Rightarrow> 'w" where
  "recordAuthorizedDailyActivity now c r rc serviceAccounts clusters recorder w =
     (case recorder of
        None \<Rightarrow> w
      | Some RecordDailyActivity \<Rightarrow>
          if isExemptEndpoint r then w
          else (case cPayload rc of
                  None \<Rightarrow> w
                | Some p \<Rightarrow>
                    if pUsername p = [] then w
                    else if isServiceAccount (pUsername p) serviceAccounts then w
                    else if GetUserIDFromContext c = [] then w
                    else (case registeredClusterCaller clusters (subjectFromVerifiedToken c) of
                            Inl err \<Rightarrow> w
                          | Inr registered \<Rightarrow>
                              if registered then w
                              else RecordDailyActivity (GetUserIDFromContext c) now w)))"

definition isOwnManagedCluster :: "'w Authorizer \<Rightarrow> ctx \<Rightarrow> string \<Rightarrow> go_error + bool" where
  "isOwnManagedCluster a c clusterID =
     (case ControlPlanes (deps a) of
        None \<Rightarrow> Inr False
      | Some res \<Rightarrow>
          (let subject = subjectFromVerifiedToken c in
           if subject = [] then Inr False
           else (case res subject of
                   Inl err \<Rightarrow> Inl err
                 | Inr (registeredID, found) \<Rightarrow> Inr (found \<and> registeredID = clusterID))))"

text \<open>\<^verbatim>\<open>fmt.Errorf\<close> with \<^verbatim>\<open>%w\<close>.\<close>

definition wrapError :: "string \<Rightarrow> go_error \<Rightarrow> go_error" where
  "wrapError intro err = PlainError (intro @ error_text err)"

definition authorizeHTTP ::
  "int \<Rightarrow> 'w Authorizer \<Rightarrow> 'w binding_lookup \<Rightarrow> ctx \<Rightarrow> http_request \<Rightarrow> ctx \<Rightarrow> 'w \<Rightarrow>
     (go_error + decision) \<times> 'w" where
  "authorizeHTTP now a FindBindingsByUserID c r rc w =
     (let record = recordAuthorizedDailyActivity now c r rc (ServiceAccounts (config a))
                     (ControlPlanes (deps a)) (ActivityRecorder (deps a)) in
      if \<not> enforced a then (Inr Allow, record w)
      else if (case cPayload rc of None \<Rightarrow> True | Some p \<Rightarrow> pUsername p = [])
      then (Inr (Deny ''missing identity'' False), w)
      else if isExemptEndpoint r then (Inr Allow, w)
      else if strings_HasSuffix (r_Path r) ''/managed_clusters/registration'' \<and> r_Method r = MethodPost
      then (if hasManagedClusterRegistrar (extractJWTRoles rc) then (Inr Allow, w)
            else (Inr (Deny ''forbidden'' False), w))
      else if GetUserIDFromContext c = [] then (Inr (Deny ''forbidden'' False), w)
      else
        (case FindBindingsByUserID (GetUserIDFromContext c) w of
           Inl err \<Rightarrow> (Inr (Deny ''forbidden'' False), w)
         | Inr bindings \<Rightarrow>
             (case extractResourceInfo r of (resource, resourceID) \<Rightarrow>
              let gatewayID = extractGatewayID r resource;
                  jwtRoles = GetJWTRolesFromContext c;
                  tail =
                    (if \<not> isAuthorized (r_Method r) resource resourceID gatewayID bindings jwtRoles
                            (extRequestSurface (r_Path r))
                     then (let hide = (resource = ''service_accounts'' \<or> resource = ''access'' \<or>
                                       resource = ''sandbox_events'' \<or>
                                       r_Method r = MethodGet \<and> resourceID \<noteq> [])
                           in (Inr (Deny ''forbidden'' hide), w))
                     else (Inr Allow, record w))
              in if resource = ''managed_clusters'' \<and> r_Method r = MethodDelete \<and> resourceID \<noteq> []
                 then (case isOwnManagedCluster a c resourceID of
                         Inl err \<Rightarrow> (Inl (wrapError ''managed cluster lookup failed: '' err), w)
                       | Inr own \<Rightarrow> if own then (Inr Allow, w) else tail)
                 else tail)))"

definition grpcConfig :: "'w Authorizer \<Rightarrow> AuthzConfig" where
  "grpcConfig a = (config a)\<lparr>EnforceRBAC := enforced a\<rparr>"

text \<open>
  The switch at the head of \<open>authorizeGRPCRequest\<close>, which finds the error of the checks before the
  status is mapped, is \<open>grpcCheckError\<close> here, and the call of \<open>authorizeGRPC\<close> its branches share, with
  the test for a look-up, is \<open>runAuthorizeGRPC\<close>; neither is a function of its own in the code.
\<close>

definition runAuthorizeGRPC ::
  "(string \<Rightarrow> map_claims option) \<Rightarrow> int \<Rightarrow> 'w Authorizer \<Rightarrow> ctx \<Rightarrow> string \<Rightarrow> grpc_msg option \<Rightarrow> 'w \<Rightarrow>
     go_error option \<times> 'w" where
  "runAuthorizeGRPC parse now a c method msg w =
     (case Lookup (deps a) of
        None \<Rightarrow> (None, w)
      | Some lookup \<Rightarrow>
          authorizeGRPC parse now c method msg lookup (ActivityRecorder (deps a))
            (ControlPlanes (deps a)) (Gateways (deps a)) (Imports (deps a)) (grpcConfig a) w)"

definition grpcCheckError ::
  "(string \<Rightarrow> map_claims option) \<Rightarrow> int \<Rightarrow> 'w Authorizer \<Rightarrow> ctx \<Rightarrow> authz_request \<Rightarrow> 'w \<Rightarrow>
     go_error option \<times> 'w" where
  "grpcCheckError parse now a c req w =
     (let method = GRPCMethod req in
      if Action req = ActionWatch \<and> GRPCMsg req = None then
        (case (if isClusterBoundMethod method then callerRegisteredCluster parse c (Clusters (deps a))
               else Inr None) of
           Inl err \<Rightarrow> (Some err, w)
         | Inr _ \<Rightarrow> runAuthorizeGRPC parse now a c method None w)
      else if Action req = ActionWatch then
        (if isClusterBoundMethod method then
           (case callerRegisteredCluster parse c (Clusters (deps a)) of
              Inl lookupErr \<Rightarrow> (Some lookupErr, w)
            | Inr None \<Rightarrow> (None, w)
            | Inr (Some clusterID) \<Rightarrow> (checkRequestCluster (GRPCMsg req) clusterID, w))
         else (None, w))
      else
        (case CheckClusterCallerBindingUnary parse c (Clusters (deps a)) (Imports (deps a)) method
                (GRPCMsg req) of
           Some err \<Rightarrow> (Some err, w)
         | None \<Rightarrow> runAuthorizeGRPC parse now a c method (GRPCMsg req) w))"

definition authorizeGRPCRequest ::
  "(string \<Rightarrow> map_claims option) \<Rightarrow> int \<Rightarrow> 'w Authorizer \<Rightarrow> ctx \<Rightarrow> authz_request \<Rightarrow> 'w \<Rightarrow>
     (go_error + decision) \<times> ctx \<times> 'w" where
  "authorizeGRPCRequest parse now a c req w =
     (case grpcCheckError parse now a c req w of (err, w1) \<Rightarrow>
      (case decisionFromStatus c err of (d, c1) \<Rightarrow> (d, c1, w1)))"

definition Authorize ::
  "(string \<Rightarrow> map_claims option) \<Rightarrow> int \<Rightarrow> 'w Authorizer \<Rightarrow> ctx \<Rightarrow> authz_request \<Rightarrow> 'w \<Rightarrow>
     (go_error + decision) \<times> ctx \<times> 'w" where
  "Authorize parse now a c req w =
     (if GRPCMethod req \<noteq> [] then
        (if grpcPassThrough a then (Inr Allow, c, w) else authorizeGRPCRequest parse now a c req w)
      else (case HTTP req of
              None \<Rightarrow> (Inr (Deny ''request has no transport'' False), c, w)
            | Some (r, rc) \<Rightarrow>
                (case Lookup (deps a) of
                   None \<Rightarrow> (fallback a c req, c, w)
                 | Some lookup \<Rightarrow>
                     (case authorizeHTTP now a lookup c r rc w of (d, w1) \<Rightarrow> (d, c, w1)))))"

section \<open>Construction from the environment\<close>

text \<open>
  The lazy authorizer: built on the first use, kept afterwards. \<open>provider\<close> is the registered
  dependency provider, \<open>None\<close> when the plugin is not loaded.
\<close>

record 'w lazyAuthorizer =
  lEnv :: env
  lA :: "'w Authorizer option"

definition emptyDependencies :: "'w Dependencies" where
  "emptyDependencies = \<lparr>Lookup = None, Provisioner = None, Syncer = None, ActivityRecorder = None,
     Clusters = None, ControlPlanes = None, Gateways = None, Imports = None\<rparr>"

definition buildAuthorizer ::
  "fallback_policy \<Rightarrow> (bool \<Rightarrow> fallback_policy) \<Rightarrow> bool option \<Rightarrow> string \<Rightarrow>
     (env \<Rightarrow> 'w Dependencies) option \<Rightarrow> env \<Rightarrow> 'w Authorizer" where
  "buildAuthorizer RequireIdentity FromFlag enforcementOverride serviceAccountEnv provider e =
     (let enableAuthz = (case Config e of Some (Some auth) \<Rightarrow> EnableAuthz auth | _ \<Rightarrow> True);
          d = (case provider of Some p \<Rightarrow> p e | None \<Rightarrow> emptyDependencies);
          a = NewAuthorizer RequireIdentity d
                \<lparr>EnforceRBAC = False, ServiceAccounts = ServiceAccountsFromEnv serviceAccountEnv\<rparr>
      in a\<lparr>enforcedFn := Some (EnforcedFor enforcementOverride (Some e)),
           fallback := FromFlag enableAuthz,
           grpcPassThrough := (provider = None)\<rparr>)"

definition lazyAuthorizer_get ::
  "fallback_policy \<Rightarrow> (bool \<Rightarrow> fallback_policy) \<Rightarrow> bool option \<Rightarrow> string \<Rightarrow>
     (env \<Rightarrow> 'w Dependencies) option \<Rightarrow> 'w lazyAuthorizer \<Rightarrow> 'w Authorizer \<times> 'w lazyAuthorizer" where
  "lazyAuthorizer_get RequireIdentity FromFlag enforcementOverride serviceAccountEnv provider l =
     (case lA l of
        Some a \<Rightarrow> (a\<lparr>enforcedFn := Some (EnforcedFor enforcementOverride (Some (lEnv l)))\<rparr>, l)
      | None \<Rightarrow>
          (let a = buildAuthorizer RequireIdentity FromFlag enforcementOverride serviceAccountEnv
                     provider (lEnv l)
           in (a, l\<lparr>lA := Some a\<rparr>)))"

section \<open>Lemmas\<close>

lemma decisionFromStatus_codes:
  "decisionFromStatus c None = (Inr Allow, c)"
  "decisionFromStatus c (Some (PlainError m)) = (Inl (PlainError m), c)"
  "decisionFromStatus c (Some (StatusError PermissionDenied m)) = (Inr (Deny m False), c)"
  "decisionFromStatus c (Some (StatusError NotFound m)) = (Inr (Deny m True), c)"
  "decisionFromStatus c (Some (StatusError Unavailable m)) =
     (Inl (StatusError Unavailable m), c)"
  by (simp_all add: decisionFromStatus_def)

lemma decisionFromStatus_Allow:
  assumes "decisionFromStatus c (Some e) = (Inr Allow, c')"
  shows "cHolder c \<noteq> None \<and> cHolder c' = Some (Some e)"
  using assms by (cases e) (auto simp: decisionFromStatus_def deferredStatus_set_def
      split: if_splits option.splits)

text \<open>
  C18: the handler of a unary gRPC call runs exactly when the checks return no error. For a
  context with an empty holder, which is what enrichment gives every gRPC call, the call is
  admitted by \<open>Authorize\<close> and passed on by the deferred-status interceptor if and only if the
  checks succeed; otherwise either \<open>Authorize\<close> does not allow it, or the interceptor answers
  with exactly the error of the checks and leaves the state as it is.
\<close>

theorem handler_runs_iff_checks_pass:
  assumes "cHolder c = Some None" and "GRPCMethod req \<noteq> []" and "\<not> grpcPassThrough a"
  shows "case grpcCheckError parse now a c req w of
      (None, w1) \<Rightarrow> Authorize parse now a c req w = (Inr Allow, c, w1) \<and>
        DeferredStatusUnaryInterceptor c msg handler w1 = handler c msg w1
    | (Some e, w1) \<Rightarrow> (\<exists>d c1. Authorize parse now a c req w = (d, c1, w1) \<and>
        (d = Inr Allow \<longrightarrow> DeferredStatusUnaryInterceptor c1 msg handler w1 = (Inl e, w1)))"
proof -
  obtain err w1 where check: "grpcCheckError parse now a c req w = (err, w1)" by force
  obtain d c1 where dec: "decisionFromStatus c err = (d, c1)" by force
  have auth: "Authorize parse now a c req w = (d, c1, w1)"
    using assms(2,3) by (simp add: Authorize_def authorizeGRPCRequest_def check dec)
  show ?thesis
  proof (cases err)
    case None
    with dec have "d = Inr Allow" "c1 = c" by (simp_all add: decisionFromStatus_def)
    moreover have "deferredStatus_take c = (None, c)"
      using assms(1) by (cases c) (simp add: deferredStatus_take_def)
    ultimately show ?thesis using None auth check
      by (simp add: DeferredStatusUnaryInterceptor_def)
  next
    case (Some e)
    have "d = Inr Allow \<Longrightarrow> DeferredStatusUnaryInterceptor c1 msg handler w1 = (Inl e, w1)"
      using decisionFromStatus_Allow [of c e c1] dec Some
      by (simp add: DeferredStatusUnaryInterceptor_def deferredStatus_take_def)
    with Some auth check show ?thesis by simp
  qed
qed

text \<open>
  Without a holder the decision fails closed: a call whose checks fail is never allowed,
  whatever the code of the failure.
\<close>

theorem no_holder_fails_closed:
  assumes "cHolder c = None" and "GRPCMethod req \<noteq> []" and "\<not> grpcPassThrough a"
    and "fst (grpcCheckError parse now a c req w) \<noteq> None"
  shows "fst (Authorize parse now a c req w) \<noteq> Inr Allow"
proof -
  obtain e w1 where check: "grpcCheckError parse now a c req w = (Some e, w1)"
    using assms(4) by (metis not_Some_eq prod.collapse)
  obtain d c1 where dec: "decisionFromStatus c (Some e) = (d, c1)" by force
  with decisionFromStatus_Allow [of c e c1] assms(1) have "d \<noteq> Inr Allow" by auto
  then show ?thesis using assms(2,3) by (simp add: Authorize_def authorizeGRPCRequest_def check dec)
qed

lemma Enrich_holder:
  assumes "cIsGRPC c"
  shows "cHolder (fst (Enrich parse a c hasClaims w)) = Some None"
  using assms by (auto simp: Enrich_def withDeferredStatus_def provisionUserForGRPC_def
      recordUserAndSync_def Let_def split: option.splits sum.splits prod.splits)

lemma decisionFromStatus_passes:
  assumes "decisionFromStatus c err = (Inr Allow, c1)" and "cHolder c1 = Some None"
  shows "err = None"
  using assms decisionFromStatus_Allow [of c _ c1] by (cases err) auto

text \<open>
  C36: whether or not enforcement is on, a list or watch of gateways, agent runtimes or role bindings
  by a caller whose subject registered a cluster gets past the authorizer and the deferred status
  only if its request message carries that cluster's id. The one exemption is a list, no watch, of
  gateways or agent runtimes whose repository filter is the repository of the import binding, and that
  repository exists. The other resources a control plane may list are not scoped by this.
\<close>

theorem cluster_caller_bound:
  assumes "GRPCMethod req \<in>
      {''/hypershell.v1.GatewayService/WatchGateways'', ''/hypershell.v1.GatewayService/ListGateways'',
       ''/hypershell.v1.RoleBindingService/WatchRoleBindings'', ''/hypershell.v1.RoleBindingService/ListRoleBindings'',
       ''/hypershell.v1.AgentRuntimeService/WatchAgentRuntimes'', ''/hypershell.v1.AgentRuntimeService/ListAgentRuntimes''}"
    and "Clusters (deps a) = Some res" and "res (subjectFromGRPCContext parse c) = Inr (cid, True)"
    and "subjectFromGRPCContext parse c \<noteq> []" and "cid \<noteq> []"
    and "\<not> grpcPassThrough a" and "GRPCMsg req = Some m"
    and "Authorize parse now a c req w = (Inr Allow, c1, w1)" and "cHolder c1 = Some None"
  shows "clusterScopedRequest (Some m) = Some cid \<or>
    Action req \<noteq> ActionWatch \<and>
    GRPCMethod req \<in> {''/hypershell.v1.GatewayService/ListGateways'', ''/hypershell.v1.AgentRuntimeService/ListAgentRuntimes''} \<and>
    ImportRepositoryIDFromContext c \<noteq> [] \<and>
    repositoryScopedRequest (Some m) = Some (ImportRepositoryIDFromContext c) \<and>
    (\<exists>RepositoryExists. Imports (deps a) = Some RepositoryExists \<and>
       RepositoryExists (ImportRepositoryIDFromContext c) = Inr True)"
proof -
  have bound: "isClusterBoundMethod (GRPCMethod req)" using assms(1) by (simp add: isClusterBoundMethod_def)
  have caller: "callerRegisteredCluster parse c (Clusters (deps a)) = Inr (Some cid)"
    using assms(2-5) by (simp add: callerRegisteredCluster_def)
  have "GRPCMethod req \<noteq> []" using assms(1) by auto
  with assms(6,8) obtain err where check: "grpcCheckError parse now a c req w = (err, w1)"
    and dec: "decisionFromStatus c err = (Inr Allow, c1)"
    by (auto simp: Authorize_def authorizeGRPCRequest_def split: prod.splits)
  from decisionFromStatus_passes [OF dec assms(9)] check have none: "grpcCheckError parse now a c req w = (None, w1)"
    by simp
  show ?thesis
  proof (cases "Action req = ActionWatch")
    case True
    with none assms(7) bound caller have "checkRequestCluster (Some m) cid = None"
      by (simp add: grpcCheckError_def)
    then show ?thesis by (simp add: checkRequestCluster_None [OF assms(5)])
  next
    case False
    with none assms(7) have "CheckClusterCallerBindingUnary parse c (Clusters (deps a)) (Imports (deps a))
        (GRPCMethod req) (Some m) = None"
      by (auto simp: grpcCheckError_def Let_def split: option.splits)
    from CheckClusterCallerBindingUnary_None [OF bound caller this] False show ?thesis by blast
  qed
qed

section \<open>The REST surface\<close>

text \<open>
  The routes the plugins register, with the ids of the path and the variables the router gives, and
  the methods of each (\<^verbatim>\<open>plugins/*/plugin.go\<close>; the prefix of a route is the framework's). The read-only
  role catalog, which is exempt, is left out.
\<close>

datatype endpoint =
    GatewayCollection
  | GatewayItem string
  | PlacementAvailability
  | SandboxEvents string
  | MetricsGateways
  | ServiceAccountCollection string
  | ServiceAccountItem string string
  | ServiceAccountRevoke string string
  | ServiceAccountRole string string
  | AccessCollection string
  | AccessDirectory string
  | AccessItem string string
  | ClusterCollection
  | ClusterRegistration
  | ClusterItem string
  | UserCollection
  | UserItem string
  | RoleBindingCollection
  | RoleBindingItem string
  | ExtCollection string
  | ExtItem string string

primrec segments :: "endpoint \<Rightarrow> (string + string \<times> string) list" where
  "segments GatewayCollection = [Inl ''v1'', Inl ''gateways'']"
| "segments (GatewayItem i) = [Inl ''v1'', Inl ''gateways'', Inr (''id'', i)]"
| "segments PlacementAvailability = [Inl ''v1'', Inl ''gateways'', Inl ''placement-availability'']"
| "segments (SandboxEvents g) = [Inl ''v1'', Inl ''gateways'', Inr (''gateway_id'', g), Inl ''sandbox_events'']"
| "segments MetricsGateways = [Inl ''v1'', Inl ''metrics'', Inl ''gateways'']"
| "segments (ServiceAccountCollection g) = [Inl ''v1'', Inl ''gateways'', Inr (''gateway_id'', g), Inl ''service_accounts'']"
| "segments (ServiceAccountItem g s) =
     [Inl ''v1'', Inl ''gateways'', Inr (''gateway_id'', g), Inl ''service_accounts'', Inr (''service_account_id'', s)]"
| "segments (ServiceAccountRevoke g s) =
     [Inl ''v1'', Inl ''gateways'', Inr (''gateway_id'', g), Inl ''service_accounts'', Inr (''service_account_id'', s), Inl ''revoke'']"
| "segments (ServiceAccountRole g s) =
     [Inl ''v1'', Inl ''gateways'', Inr (''gateway_id'', g), Inl ''service_accounts'', Inr (''service_account_id'', s), Inl ''role'']"
| "segments (AccessCollection g) = [Inl ''v1'', Inl ''gateways'', Inr (''gateway_id'', g), Inl ''access'']"
| "segments (AccessDirectory g) = [Inl ''v1'', Inl ''gateways'', Inr (''gateway_id'', g), Inl ''access'', Inl ''directory'']"
| "segments (AccessItem g u) = [Inl ''v1'', Inl ''gateways'', Inr (''gateway_id'', g), Inl ''access'', Inr (''user_id'', u)]"
| "segments ClusterCollection = [Inl ''v1'', Inl ''managed_clusters'']"
| "segments ClusterRegistration = [Inl ''v1'', Inl ''managed_clusters'', Inl ''registration'']"
| "segments (ClusterItem i) = [Inl ''v1'', Inl ''managed_clusters'', Inr (''id'', i)]"
| "segments UserCollection = [Inl ''v1'', Inl ''users'']"
| "segments (UserItem i) = [Inl ''v1'', Inl ''users'', Inr (''id'', i)]"
| "segments RoleBindingCollection = [Inl ''v1'', Inl ''role_bindings'']"
| "segments (RoleBindingItem i) = [Inl ''v1'', Inl ''role_bindings'', Inr (''id'', i)]"
| "segments (ExtCollection k) = [Inl ''ext'', Inl k]"
| "segments (ExtItem k i) = [Inl ''ext'', Inl k, Inr (''id'', i)]"

definition joinPath :: "string list \<Rightarrow> string" where
  "joinPath ps = concat (map (\<lambda>p. CHR ''/'' # p) (''api'' # ''hypershell'' # ps))"

definition pathOf :: "endpoint \<Rightarrow> string" where
  "pathOf e = joinPath (map (case_sum id snd) (segments e))"

definition templateOf :: "endpoint \<Rightarrow> string" where
  "templateOf e = joinPath (map (case_sum id (\<lambda>(v, _). ''{'' @ v @ ''}'')) (segments e))"

definition varsOf :: "endpoint \<Rightarrow> (string \<rightharpoonup> string)" where
  "varsOf e = map_of (concat (map (case_sum (\<lambda>_. []) (\<lambda>p. [p])) (segments e)))"

primrec methodsOf :: "endpoint \<Rightarrow> string list" where
  "methodsOf GatewayCollection = [MethodGet, MethodPost]"
| "methodsOf (GatewayItem i) = [MethodGet, MethodPatch, MethodDelete]"
| "methodsOf PlacementAvailability = [MethodPost]"
| "methodsOf (SandboxEvents g) = [MethodGet]"
| "methodsOf MetricsGateways = [MethodGet]"
| "methodsOf (ServiceAccountCollection g) = [MethodGet, MethodPost]"
| "methodsOf (ServiceAccountItem g s) = [MethodGet, MethodDelete]"
| "methodsOf (ServiceAccountRevoke g s) = [MethodPost]"
| "methodsOf (ServiceAccountRole g s) = [MethodPost]"
| "methodsOf (AccessCollection g) = [MethodGet, MethodPost]"
| "methodsOf (AccessDirectory g) = [MethodGet]"
| "methodsOf (AccessItem g u) = [MethodPatch, MethodDelete]"
| "methodsOf ClusterCollection = [MethodGet, MethodPost]"
| "methodsOf ClusterRegistration = [MethodPost]"
| "methodsOf (ClusterItem i) = [MethodGet, MethodPatch, MethodDelete]"
| "methodsOf UserCollection = [MethodGet]"
| "methodsOf (UserItem i) = [MethodGet]"
| "methodsOf RoleBindingCollection = [MethodGet, MethodPost]"
| "methodsOf (RoleBindingItem i) = [MethodGet, MethodDelete]"
| "methodsOf (ExtCollection k) = [MethodGet, MethodPost]"
| "methodsOf (ExtItem k i) = (if k = ''inference_routes'' then [MethodGet, MethodDelete] else [MethodGet, MethodPatch, MethodDelete])"

definition restRequest :: "string \<Rightarrow> endpoint \<Rightarrow> http_request" where
  "restRequest m e = \<lparr>r_Method = m, r_Path = pathOf e, r_Route = Some (Inr (templateOf e)), r_Vars = varsOf e\<rparr>"

text \<open>The ids of a path as the server makes them: no slash, and none of the words of the exempt endpoints.\<close>

definition plainIDs :: "endpoint \<Rightarrow> bool" where
  "plainIDs e = list_all (case_sum (\<lambda>_. True) (\<lambda>(_, i). i \<noteq> [] \<and> CHR ''/'' \<notin> set i \<and>
     i \<notin> {''metadata'', ''openapi'', ''openapi.html'', ''errors'', ''roles''})) (segments e)"

text \<open>
  Who may do what, over the roles of a caller's bindings: \<open>holds\<close>, the role in whatever scope;
  \<open>holdsOn\<close>, one of the roles on the gateway. \<open>mine\<close> is the look-up of the caller's own cluster record.
\<close>

definition holds :: "BindingSummary list \<Rightarrow> string \<Rightarrow> bool" where
  "holds bs role = list_ex (\<lambda>b. bsRoleName b = role) bs"

definition holdsOn :: "BindingSummary list \<Rightarrow> string \<Rightarrow> string list \<Rightarrow> bool" where
  "holdsOn bs g roles = list_ex (\<lambda>b. bsScope b = ''gateway'' \<and> bsGatewayID b = Some g \<and> bsRoleName b \<in> set roles) bs"

definition boundTo :: "BindingSummary list \<Rightarrow> string \<Rightarrow> bool" where
  "boundTo bs g = list_ex (\<lambda>b. bsScope b = ''gateway'' \<and> bsGatewayID b = Some g) bs"

definition extPermitted :: "BindingSummary list \<Rightarrow> string \<Rightarrow> bool" where
  "extPermitted bs k \<longleftrightarrow> holds bs ''platform:admin'' \<or>
     (if k = ''ci_providers'' then holds bs ''ci-federation:admin''
      else holds bs ''gateway:creator'' \<or>
        k = ''ci_trusts'' \<and> list_ex (\<lambda>b. bsScope b = ''gateway'' \<and> bsGatewayID b \<noteq> None) bs)"

primrec permitted :: "go_error + string option \<Rightarrow> BindingSummary list \<Rightarrow> string \<Rightarrow> endpoint \<Rightarrow> bool" where
  "permitted mine bs m GatewayCollection = (m = ''GET'' \<or> holds bs ''gateway:creator'')"
| "permitted mine bs m (GatewayItem g) =
     (if m = ''GET'' then holds bs ''platform:admin'' \<or> holdsOn bs g [''gateway:owner'', ''gateway:admin'', ''gateway:viewer'']
      else if m = ''PATCH'' then holdsOn bs g [''gateway:owner'', ''gateway:admin'']
      else holds bs ''platform:admin'' \<or> holdsOn bs g [''gateway:owner''])"
| "permitted mine bs m PlacementAvailability = holds bs ''gateway:creator''"
| "permitted mine bs m (SandboxEvents g) = holdsOn bs g [''gateway:owner'', ''gateway:admin'', ''gateway:viewer'']"
| "permitted mine bs m MetricsGateways = True"
| "permitted mine bs m (ServiceAccountCollection g) = holdsOn bs g [''gateway:owner'', ''gateway:admin'', ''gateway:viewer'']"
| "permitted mine bs m (ServiceAccountItem g s) = holdsOn bs g [''gateway:owner'', ''gateway:admin'', ''gateway:viewer'']"
| "permitted mine bs m (ServiceAccountRevoke g s) = holdsOn bs g [''gateway:owner'', ''gateway:admin'', ''gateway:viewer'']"
| "permitted mine bs m (ServiceAccountRole g s) = holdsOn bs g [''gateway:owner'', ''gateway:admin'', ''gateway:viewer'']"
| "permitted mine bs m (AccessCollection g) = (holds bs ''platform:admin'' \<or> boundTo bs g)"
| "permitted mine bs m (AccessDirectory g) = (holds bs ''platform:admin'' \<or> boundTo bs g)"
| "permitted mine bs m (AccessItem g u) = (holds bs ''platform:admin'' \<or> boundTo bs g)"
| "permitted mine bs m ClusterCollection =
     (holds bs ''platform:admin'' \<or> m = ''GET'' \<and> holds bs ''gateway:creator'')"
| "permitted mine bs m ClusterRegistration = False"
| "permitted mine bs m (ClusterItem i) =
     (if m = ''DELETE'' then (case mine of Inl _ \<Rightarrow> False | Inr own \<Rightarrow> own = Some i \<or> holds bs ''platform:admin'')
      else holds bs ''platform:admin'' \<or> m = ''GET'' \<and> holds bs ''gateway:creator'')"
| "permitted mine bs m UserCollection = holds bs ''platform:admin''"
| "permitted mine bs m (UserItem i) = holds bs ''platform:admin''"
| "permitted mine bs m RoleBindingCollection = (bs \<noteq> [])"
| "permitted mine bs m (RoleBindingItem i) = (bs \<noteq> [])"
| "permitted mine bs m (ExtCollection k) = extPermitted bs k"
| "permitted mine bs m (ExtItem k i) = extPermitted bs k"

definition ownRecord :: "cluster_resolver \<Rightarrow> token option \<Rightarrow> go_error + string option" where
  "ownRecord resolver token = (case (resolver, token) of
     (Some res, Some (MapClaims claims)) \<Rightarrow> (case claims ''sub'' of
         Some (JStr sub) \<Rightarrow> if sub = [] then Inr None
           else (case res sub of Inl e \<Rightarrow> Inl e | Inr (rid, found) \<Rightarrow> Inr (if found then Some rid else None))
       | _ \<Rightarrow> Inr None)
   | _ \<Rightarrow> Inr None)"

definition knownKind :: "endpoint \<Rightarrow> bool" where
  "knownKind e = (case e of
     ExtCollection k \<Rightarrow> k \<in> {''agent_runtimes'', ''agent_workspaces'', ''ci_providers'', ''ci_trusts'', ''inference_routes'',
       ''provider_bindings'', ''provider_specs'', ''repositories'', ''sandbox_templates'', ''secret_sources'', ''workspace_memberships''}
   | ExtItem k i \<Rightarrow> k \<in> {''agent_runtimes'', ''agent_workspaces'', ''ci_providers'', ''ci_trusts'', ''inference_routes'',
       ''provider_bindings'', ''provider_specs'', ''repositories'', ''sandbox_templates'', ''secret_sources'', ''workspace_memberships''}
   | _ \<Rightarrow> True)"

lemma resource_of [simp]:
  "extractResourceInfoFromRoute (restRequest m GatewayCollection) = (''gateways'', [])"
  "extractResourceInfoFromRoute (restRequest m (GatewayItem i)) = (''gateways'', i)"
  "extractResourceInfoFromRoute (restRequest m PlacementAvailability) = (''gateway_placement_availability'', [])"
  "extractResourceInfoFromRoute (restRequest m (SandboxEvents g)) = (''sandbox_events'', [])"
  "extractResourceInfoFromRoute (restRequest m MetricsGateways) = (''gateways'', [])"
  "extractResourceInfoFromRoute (restRequest m (ServiceAccountCollection g)) = (''service_accounts'', [])"
  "extractResourceInfoFromRoute (restRequest m (ServiceAccountItem g x)) = (''service_accounts'', x)"
  "extractResourceInfoFromRoute (restRequest m (ServiceAccountRevoke g x)) = (''service_accounts'', x)"
  "extractResourceInfoFromRoute (restRequest m (ServiceAccountRole g x)) = (''service_accounts'', x)"
  "extractResourceInfoFromRoute (restRequest m (AccessCollection g)) = (''access'', [])"
  "extractResourceInfoFromRoute (restRequest m (AccessDirectory g)) = (''access'', [])"
  "extractResourceInfoFromRoute (restRequest m (AccessItem g u)) = (''access'', u)"
  "extractResourceInfoFromRoute (restRequest m ClusterCollection) = (''managed_clusters'', [])"
  "extractResourceInfoFromRoute (restRequest m (ClusterItem i)) = (''managed_clusters'', i)"
  "extractResourceInfoFromRoute (restRequest m UserCollection) = (''users'', [])"
  "extractResourceInfoFromRoute (restRequest m (UserItem i)) = (''users'', i)"
  "extractResourceInfoFromRoute (restRequest m RoleBindingCollection) = (''role_bindings'', [])"
  "extractResourceInfoFromRoute (restRequest m (RoleBindingItem i)) = (''role_bindings'', i)"
  by code_simp+

lemma ext_resource_of:
  assumes "k \<in> set extKinds"
  shows "extractResourceInfoFromRoute (restRequest m (ExtCollection k)) = (k, [])"
    "extractResourceInfoFromRoute (restRequest m (ExtItem k i)) = (k, i)"
proof -
  have all: "list_all (\<lambda>k. extractResourceInfoFromRoute (restRequest [] (ExtCollection k)) = (k, []) \<and>
      lastIDPart (strings_Split (templateOf (ExtItem k [])) (CHR ''/'')) 6 = Some 5 \<and>
      map (\<lambda>p. strings_Contains (templateOf (ExtItem k [])) p) [''/gateways/{gateway_id}/service_accounts'',
        ''/gateways/{gateway_id}/sandbox_events'', ''/gateways/{gateway_id}/access''] = [False, False, False] \<and>
      \<not> strings_HasSuffix (templateOf (ExtItem k [])) ''/gateways/placement-availability'' \<and>
      length (strings_Split (templateOf (ExtItem k [])) (CHR ''/'')) = 6 \<and>
      strings_Split (templateOf (ExtItem k [])) (CHR ''/'') ! 4 = k) extKinds"
    by code_simp
  have t: "templateOf (ExtItem k i) = templateOf (ExtItem k [])" by (simp add: templateOf_def)
  have v: "map_get (varsOf (ExtItem k i)) ''id'' = i" by (simp add: varsOf_def map_get_def)
  from all assms show "extractResourceInfoFromRoute (restRequest m (ExtItem k i)) = (k, i)"
    unfolding list_all_iff by (auto simp: extractResourceInfoFromRoute_def restRequest_def t v Let_def)
  have "extractResourceInfoFromRoute (restRequest m (ExtCollection k)) = extractResourceInfoFromRoute (restRequest [] (ExtCollection k))"
    by (simp only: extractResourceInfoFromRoute_def restRequest_def http_request.simps)
  with all assms show "extractResourceInfoFromRoute (restRequest m (ExtCollection k)) = (k, [])"
    unfolding list_all_iff by auto
qed

text \<open>The words of a path that is made of words.\<close>

lemma takeWhile_word: "c \<notin> set p \<Longrightarrow> takeWhile (\<lambda>x. x \<noteq> c) (p @ c # r) = p"
  by (induction p) auto

lemma suffix_word:
  assumes "strings_HasSuffix (x @ CHR ''/'' # l) (CHR ''/'' # t)" "CHR ''/'' \<notin> set l" "CHR ''/'' \<notin> set t"
  shows "t = l"
proof -
  from assms(1) obtain y where "x @ CHR ''/'' # l = y @ CHR ''/'' # t" by (auto simp: suffix_def)
  then have "rev l @ CHR ''/'' # rev x = rev t @ CHR ''/'' # rev y"
    by (metis append.assoc append_Cons append_Nil rev.simps(2) rev_append)
  then have "rev l = rev t"
    by (metis takeWhile_word assms(2,3) set_rev)
  then show ?thesis by simp
qed

lemma joined_word:
  assumes "concat (map (\<lambda>p. CHR ''/'' # p) ps) = a @ CHR ''/'' # r @ CHR ''/'' # b"
    and "\<forall>p\<in>set ps. CHR ''/'' \<notin> set p" "CHR ''/'' \<notin> set r"
  shows "r \<in> set ps"
  using assms(1,2)
proof (induction ps arbitrary: a)
  case (Cons p ps)
  let ?rest = "concat (map (\<lambda>p. CHR ''/'' # p) ps)"
  have rest: "?rest = [] \<or> (\<exists>q. ?rest = CHR ''/'' # q)" by (cases ps) auto
  have p: "CHR ''/'' \<notin> set p" using Cons.prems(2) by simp
  show ?case
  proof (cases a)
    case Nil
    with Cons.prems(1) have eq: "p @ ?rest = r @ CHR ''/'' # b" by simp
    with p have "?rest \<noteq> []" by auto
    with rest obtain q where "?rest = CHR ''/'' # q" by blast
    with eq p assms(3) have "p = r" by (metis takeWhile_word)
    then show ?thesis by simp
  next
    case (Cons x a')
    with Cons.prems(1) have eq: "p @ ?rest = a' @ CHR ''/'' # r @ CHR ''/'' # b" by (auto simp only: list.map concat.simps append_Cons list.inject)
    from eq obtain us where "a' = p @ us \<and> ?rest = us @ CHR ''/'' # r @ CHR ''/'' # b \<or>
        p = a' @ us \<and> us @ ?rest = CHR ''/'' # r @ CHR ''/'' # b"
      by (auto simp: append_eq_append_conv2)
    then show ?thesis
    proof (elim disjE conjE)
      assume "?rest = us @ CHR ''/'' # r @ CHR ''/'' # b"
      with Cons.IH Cons.prems(2) show ?thesis by simp
    next
      assume "p = a' @ us" "us @ ?rest = CHR ''/'' # r @ CHR ''/'' # b"
      with p have "us = []" by (cases us) auto
      with \<open>us @ ?rest = _\<close> have "?rest = [] @ CHR ''/'' # r @ CHR ''/'' # b" by simp
      with Cons.IH [of "[]"] Cons.prems(2) show ?thesis by simp
    qed
  qed
qed simp

definition wordsOf :: "endpoint \<Rightarrow> string list" where
  "wordsOf e = ''api'' # ''hypershell'' # map (case_sum id snd) (segments e)"

definition exemptWords :: "string list" where
  "exemptWords = [''metadata'', ''openapi'', ''openapi.html'', ''errors'', ''roles'']"

lemma literal_words:
  assumes "knownKind e"
  shows "list_all (case_sum (\<lambda>w. CHR ''/'' \<notin> set w \<and> w \<notin> set exemptWords) (\<lambda>_. True)) (segments e)"
  using assms by (cases e) (auto simp: knownKind_def exemptWords_def)

lemma words_plain:
  assumes "plainIDs e" "knownKind e" "p \<in> set (wordsOf e)"
  shows "CHR ''/'' \<notin> set p \<and> p \<notin> set exemptWords"
proof -
  have "p = ''api'' \<or> p = ''hypershell'' \<or> (\<exists>x\<in>set (segments e). p = case_sum id snd x)"
    using assms(3) by (auto simp: wordsOf_def)
  moreover have "CHR ''/'' \<notin> set (case_sum id snd x) \<and> case_sum id snd x \<notin> set exemptWords" if "x \<in> set (segments e)" for x
  proof -
    from that assms(1) have "(case x of Inl _ \<Rightarrow> True | Inr (_, i) \<Rightarrow> i \<noteq> [] \<and> CHR ''/'' \<notin> set i \<and>
        i \<notin> {''metadata'', ''openapi'', ''openapi.html'', ''errors'', ''roles''})"
      unfolding plainIDs_def list_all_iff by blast
    moreover from that literal_words [OF assms(2)]
    have "(case x of Inl w \<Rightarrow> CHR ''/'' \<notin> set w \<and> w \<notin> set exemptWords | Inr _ \<Rightarrow> True)"
      unfolding list_all_iff by blast
    ultimately show ?thesis by (cases x) (auto simp: exemptWords_def)
  qed
  moreover have "CHR ''/'' \<notin> set ''api'' \<and> ''api'' \<notin> set exemptWords" "CHR ''/'' \<notin> set ''hypershell'' \<and> ''hypershell'' \<notin> set exemptWords"
    by code_simp+
  ultimately show ?thesis by blast
qed

lemma concat_last: "ps \<noteq> [] \<Longrightarrow> concat (map f ps) = concat (map f (butlast ps)) @ f (last ps)"
  by (induction ps) auto

lemma pathOf_words: "pathOf e = concat (map (\<lambda>p. CHR ''/'' # p) (wordsOf e))"
  by (simp add: pathOf_def joinPath_def wordsOf_def)

lemma last_word: "last (wordsOf e) \<in> set (wordsOf e)"
  by (rule last_in_set) (simp add: wordsOf_def)

lemma pathOf_last:
  assumes "plainIDs e" "knownKind e" "strings_HasSuffix (pathOf e) (CHR ''/'' # t)" "CHR ''/'' \<notin> set t"
  shows "t = last (wordsOf e)"
proof -
  have split: "pathOf e = concat (map (\<lambda>p. CHR ''/'' # p) (butlast (wordsOf e))) @ CHR ''/'' # last (wordsOf e)"
    unfolding pathOf_words by (rule concat_last) (simp add: wordsOf_def)
  have "CHR ''/'' \<notin> set (last (wordsOf e))" using words_plain [OF assms(1,2) last_word] by simp
  from suffix_word [OF assms(3) [unfolded split] this assms(4)] show ?thesis .
qed

lemma not_exempt:
  assumes "plainIDs e" "knownKind e"
  shows "\<not> isExemptEndpoint (restRequest m e)"
proof -
  have words: "\<forall>p\<in>set (wordsOf e). CHR ''/'' \<notin> set p \<and> p \<notin> set exemptWords" using words_plain [OF assms] by blast
  have exempt: "list_all (\<lambda>t. CHR ''/'' \<notin> set t) exemptWords" by code_simp
  have last: "\<not> strings_HasSuffix (pathOf e) (CHR ''/'' # t)" if "t \<in> set exemptWords" for t
  proof
    assume "strings_HasSuffix (pathOf e) (CHR ''/'' # t)"
    from pathOf_last [OF assms this] exempt that have "t = last (wordsOf e)" by (simp add: list_all_iff)
    with words that last_word [of e] show False by auto
  qed
  have "\<not> strings_Contains (pathOf e) ''/roles/''"
  proof
    assume "strings_Contains (pathOf e) ''/roles/''"
    then obtain x y where "pathOf e = x @ CHR ''/'' # ''roles'' @ CHR ''/'' # y" by (auto simp: strings_Contains_iff)
    then have "concat (map (\<lambda>p. CHR ''/'' # p) (wordsOf e)) = x @ CHR ''/'' # ''roles'' @ CHR ''/'' # y"
      by (simp only: pathOf_words)
    from joined_word [OF this] words have "''roles'' \<in> set (wordsOf e)" by simp
    with words show False by (auto simp: exemptWords_def)
  qed
  with last show ?thesis by (simp add: isExemptEndpoint_def restRequest_def Let_def exemptWords_def)
qed

text \<open>The decision of the code, branch by branch.\<close>

lemma authorizeHTTP_allowed:
  assumes "enforced a"
  shows "fst (authorizeHTTP now a lookup c r rc w) = Inr Allow \<longleftrightarrow>
    (\<exists>p. cPayload rc = Some p \<and> pUsername p \<noteq> []) \<and>
    (isExemptEndpoint r \<or>
     (if strings_HasSuffix (r_Path r) ''/managed_clusters/registration'' \<and> r_Method r = MethodPost
      then hasManagedClusterRegistrar (extractJWTRoles rc)
      else GetUserIDFromContext c \<noteq> [] \<and>
        (\<exists>bs. lookup (GetUserIDFromContext c) w = Inr bs \<and>
          (case extractResourceInfo r of (resource, i) \<Rightarrow>
             let table = isAuthorized (r_Method r) resource i (extractGatewayID r resource) bs
                           (GetJWTRolesFromContext c) (extRequestSurface (r_Path r))
             in if resource = ''managed_clusters'' \<and> r_Method r = MethodDelete \<and> i \<noteq> []
                then isOwnManagedCluster a c i = Inr True \<or>
                     isOwnManagedCluster a c i = Inr False \<and> table
                else table))))"
  (is "?allowed \<longleftrightarrow> ?identified \<and> (?exempt \<or> (if ?reg then ?registrar else ?user))")
proof (cases "?identified \<and> \<not> ?exempt \<and> \<not> ?reg \<and> GetUserIDFromContext c \<noteq> []")
  case False
  then show ?thesis using assms
    by (auto simp: authorizeHTTP_def split: option.splits)
next
  case True
  then obtain p where id: "cPayload rc = Some p" "pUsername p \<noteq> []" by blast
  from True have user: "isExemptEndpoint r = False" "?reg = False" "GetUserIDFromContext c \<noteq> []"
    by blast+
  obtain resource i where info: "extractResourceInfo r = (resource, i)" by force
  show ?thesis
  proof (cases "lookup (GetUserIDFromContext c) w")
    case (Inl e)
    then show ?thesis using assms id by (simp add: authorizeHTTP_def user)
  next
    case (Inr bs)
    show ?thesis
    proof (cases "resource = ''managed_clusters'' \<and> r_Method r = MethodDelete \<and> i \<noteq> []")
      case True
      then show ?thesis using assms id Inr
        by (cases "isOwnManagedCluster a c i") (simp_all add: authorizeHTTP_def info user Let_def)
    next
      case False
      then have del: "(resource = ''managed_clusters'' \<and> r_Method r = MethodDelete \<and> i \<noteq> []) = False"
        by blast
      show ?thesis using assms id Inr by (simp add: authorizeHTTP_def info user del Let_def)
    qed
  qed
qed

lemma ext_surface [simp]:
  "extRequestSurface (pathOf e) \<longleftrightarrow> (case e of ExtCollection k \<Rightarrow> True | ExtItem k i \<Rightarrow> True | _ \<Rightarrow> False)"
  by (cases e) (simp_all add: pathOf_def joinPath_def extRequestSurface_def)

lemma gateway_of [simp]:
  "extractGatewayID (restRequest m GatewayCollection) ''gateways'' = []"
  "extractGatewayID (restRequest m MetricsGateways) ''gateways'' = []"
  "i \<noteq> [] \<Longrightarrow> extractGatewayID (restRequest m (GatewayItem i)) ''gateways'' = i"
  "g \<noteq> [] \<Longrightarrow> extractGatewayID (restRequest m (SandboxEvents g)) ''sandbox_events'' = g"
  "g \<noteq> [] \<Longrightarrow> extractGatewayID (restRequest m (ServiceAccountCollection g)) ''service_accounts'' = g"
  "g \<noteq> [] \<Longrightarrow> extractGatewayID (restRequest m (ServiceAccountItem g x)) ''service_accounts'' = g"
  "g \<noteq> [] \<Longrightarrow> extractGatewayID (restRequest m (ServiceAccountRevoke g x)) ''service_accounts'' = g"
  "g \<noteq> [] \<Longrightarrow> extractGatewayID (restRequest m (ServiceAccountRole g x)) ''service_accounts'' = g"
  "g \<noteq> [] \<Longrightarrow> extractGatewayID (restRequest m (AccessCollection g)) ''access'' = g"
  "g \<noteq> [] \<Longrightarrow> extractGatewayID (restRequest m (AccessDirectory g)) ''access'' = g"
  "g \<noteq> [] \<Longrightarrow> extractGatewayID (restRequest m (AccessItem g u)) ''access'' = g"
  "resource \<notin> {''service_accounts'', ''access'', ''sandbox_events'', ''gateways''} \<Longrightarrow> extractGatewayID r resource = []"
  by (code_simp, code_simp)
    (simp_all add: extractGatewayID_def restRequest_def varsOf_def map_get_def Let_def)

lemma gateway_loop:
  "(if \<not> onGateway g b then False
    else if bsRoleName b = RoleGatewayOwner then True
    else if bsRoleName b = RoleGatewayAdmin then x
    else if bsRoleName b = RoleGatewayViewer then y else False) \<longleftrightarrow>
   bsScope b = ''gateway'' \<and> bsGatewayID b = Some g \<and>
   (bsRoleName b = RoleGatewayOwner \<or> bsRoleName b = RoleGatewayAdmin \<and> x \<or> bsRoleName b = RoleGatewayViewer \<and> y)"
  by (cases "bsScope b = ''gateway'' \<and> bsGatewayID b = Some g") (auto simp: onGateway_def)

lemma gateway_decisions:
  "isGatewayAuthorized ''GET'' g bs \<longleftrightarrow>
     holds bs ''platform:admin'' \<or> holdsOn bs g [''gateway:owner'', ''gateway:admin'', ''gateway:viewer'']"
  "isGatewayAuthorized ''PATCH'' g bs \<longleftrightarrow> holdsOn bs g [''gateway:owner'', ''gateway:admin'']"
  "isGatewayAuthorized ''DELETE'' g bs \<longleftrightarrow> holds bs ''platform:admin'' \<or> holdsOn bs g [''gateway:owner'']"
  unfolding isGatewayAuthorized_def gateway_loop hasPlatformAdmin_def holds_def holdsOn_def by simp_all

lemma onGateway_fun: "onGateway g = (\<lambda>b. bsScope b = ''gateway'' \<and> bsGatewayID b = Some g)"
  by (rule ext) (simp add: onGateway_def)

lemma role_predicates:
  "hasPlatformAdmin bs = holds bs ''platform:admin''" "hasGatewayCreator bs = holds bs ''gateway:creator''"
  "hasCIFederationAdmin bs = holds bs ''ci-federation:admin''"
  "hasUsersInventoryAccess bs js = holds bs ''platform:admin''"
  "hasDashboardInventoryAccess bs js = (holds bs ''platform:admin'' \<or> holds bs ''gateway:creator'')"
  "hasSandboxEventsAccess g bs = holdsOn bs g [''gateway:owner'', ''gateway:admin'', ''gateway:viewer'']"
  "hasServiceAccountsAccess g bs = holdsOn bs g [''gateway:owner'', ''gateway:admin'', ''gateway:viewer'']"
  "isAccessFacadeAuthorized g bs = (holds bs ''platform:admin'' \<or> boundTo bs g)"
  "hasAnyGatewayBinding bs = list_ex (\<lambda>b. bsScope b = ''gateway'' \<and> bsGatewayID b \<noteq> None) bs"
  unfolding policy_defs holds_def holdsOn_def boundTo_def onGateway_fun by simp_all

lemma ext_decision:
  assumes "k \<in> set extKinds"
  shows "isAuthorized m k i [] bs js True = extPermitted bs k"
proof -
  have "k \<noteq> ''registration'' \<and> k \<noteq> ''users'' \<and> k \<noteq> ''gateway_placement_availability''"
    using assms by (auto simp: extKinds_def)
  then show ?thesis using assms unfolding isAuthorized_def extPermitted_def role_predicates by (simp add: disj_ac)
qed

lemma knownKind_ext:
  "knownKind (ExtCollection k) \<longleftrightarrow> k \<in> set extKinds" "knownKind (ExtItem k i) \<longleftrightarrow> k \<in> set extKinds"
  by (simp_all add: knownKind_def extKinds_def)

lemma own_record:
  "isOwnManagedCluster a c i = (case ownRecord (ControlPlanes (deps a)) (cToken c) of
     Inl e \<Rightarrow> Inl e | Inr own \<Rightarrow> Inr (own = Some i))"
  by (auto simp: isOwnManagedCluster_def ownRecord_def subjectFromVerifiedToken_def subClaim_def Let_def
      split: option.split token.split json.split sum.split)

lemma table_decision:
  assumes "m \<in> set (methodsOf e)" "plainIDs e" "knownKind e" "e \<noteq> ClusterRegistration"
    and "m = ''DELETE'' \<Longrightarrow> (\<forall>i. e \<noteq> ClusterItem i)"
  shows "(case extractResourceInfo (restRequest m e) of (resource, i) \<Rightarrow>
      isAuthorized m resource i (extractGatewayID (restRequest m e) resource) bs js (extRequestSurface (pathOf e))) =
    permitted mine bs m e"
proof (cases e)
  case (ExtCollection k)
  then have "k \<in> set extKinds" using assms(3) by (simp add: knownKind_ext)
  moreover then have "k \<notin> {''service_accounts'', ''access'', ''sandbox_events'', ''gateways''}" "k \<noteq> []"
    by (auto simp: extKinds_def)
  ultimately show ?thesis by (simp add: ExtCollection extractResourceInfo_def ext_resource_of ext_decision)
next
  case (ExtItem k i)
  then have "k \<in> set extKinds" using assms(3) by (simp add: knownKind_ext)
  moreover then have "k \<notin> {''service_accounts'', ''access'', ''sandbox_events'', ''gateways''}" "k \<noteq> []"
    by (auto simp: extKinds_def)
  ultimately show ?thesis by (simp add: ExtItem extractResourceInfo_def ext_resource_of ext_decision)
qed (use assms(1,2,4,5) in \<open>auto simp: extractResourceInfo_def isAuthorized_def role_predicates gateway_decisions plainIDs_def\<close>)

lemma registration_path:
  assumes "plainIDs e" "knownKind e" "m \<in> set (methodsOf e)"
  shows "strings_HasSuffix (pathOf e) ''/managed_clusters/registration'' \<and> m = MethodPost \<longleftrightarrow> e = ClusterRegistration"
proof
  assume reg: "strings_HasSuffix (pathOf e) ''/managed_clusters/registration'' \<and> m = MethodPost"
  have "strings_HasSuffix (''/managed_clusters'' @ ''/registration'') ''/registration''" by (rule suffixI) (rule refl)
  then have "strings_HasSuffix ''/managed_clusters/registration'' ''/registration''" by simp
  from suffix_order.trans [OF this conjunct1 [OF reg]] have "''registration'' = last (wordsOf e)"
    by (intro pathOf_last [OF assms(1,2)]) simp_all
  then have "last (map (case_sum id snd) (segments e)) = ''registration''"
    by (cases "segments e = []") (simp_all add: wordsOf_def)
  with reg assms(2,3) show "e = ClusterRegistration"
    by (cases e) (auto simp: knownKind_ext extKinds_def)
next
  assume "e = ClusterRegistration"
  moreover have "strings_HasSuffix (pathOf ClusterRegistration) ''/managed_clusters/registration''" by code_simp
  ultimately show "strings_HasSuffix (pathOf e) ''/managed_clusters/registration'' \<and> m = MethodPost"
    using assms(3) by simp
qed


text \<open>Sample authorizers and requests for the witnesses.\<close>

definition sampleDeps :: "BindingSummary list \<Rightarrow> unit Dependencies" where
  "sampleDeps bs = emptyDependencies\<lparr>Lookup := Some (\<lambda>_ _. Inr bs),
     Clusters := Some sampleClusters, ControlPlanes := Some sampleClusters\<rparr>"

definition sampleAuthorizer :: "BindingSummary list \<Rightarrow> unit Authorizer" where
  "sampleAuthorizer bs = NewAuthorizer (\<lambda>_ _. Inr Allow) (sampleDeps bs) enforcing"

definition grpcRequest :: "string \<Rightarrow> grpc_msg option \<Rightarrow> authz_request" where
  "grpcRequest m msg = \<lparr>GRPCMethod = m, GRPCMsg = msg, Action = OtherAction, HTTP = None\<rparr>"

text \<open>A registered cluster that omits the cluster id: the check fails with \<open>InvalidArgument\<close>.\<close>

lemma sample_missing_cluster:
  assumes "c = clusterCtx ''cp-1'' \<or> c = withDeferredStatus (clusterCtx ''cp-1'')"
  shows "\<exists>m. grpcCheckError (\<lambda>_. None) 0 (sampleAuthorizer bs) c
     (grpcRequest listGatewaysMethod (Some (ListGatewaysRequest [] []))) () =
     (Some (StatusError InvalidArgument m), ())"
proof -
  have "isClusterBoundMethod listGatewaysMethod" by (simp add: isClusterBoundMethod_def)
  then show ?thesis using assms
    by (auto simp: grpcCheckError_def grpcRequest_def CheckClusterCallerBindingUnary_def
        callerRegisteredCluster_def clusterCtx_def emptyCtx_def withDeferredStatus_def
        subjectFromGRPCContext_def subClaim_def sampleClusters_def sampleAuthorizer_def
        NewAuthorizer_def sampleDeps_def importScopedReadExempt_def ImportRepositoryIDFromContext_def
        metadataValues_def checkRequestCluster_def)
qed

theorem handler_runs_iff_checks_pass_witness:
  "\<exists>m c1. Authorize (\<lambda>_. None) 0 (sampleAuthorizer []) (withDeferredStatus (clusterCtx ''cp-1''))
       (grpcRequest listGatewaysMethod (Some (ListGatewaysRequest [] []))) () = (Inr Allow, c1, ()) \<and>
     DeferredStatusUnaryInterceptor c1 None (\<lambda>_ _ (w::unit). (Inr True, w)) () =
       (Inl (StatusError InvalidArgument m), ())"
  (is "\<exists>m c1. Authorize ?p 0 ?a ?c ?req () = _ \<and> _")
proof -
  obtain m where err: "grpcCheckError ?p 0 ?a ?c ?req () = (Some (StatusError InvalidArgument m), ())"
    using sample_missing_cluster [of ?c "[]"] by blast
  have h: "cHolder ?c = Some None" "GRPCMethod ?req \<noteq> []" "\<not> grpcPassThrough ?a"
    by (simp_all add: withDeferredStatus_def grpcRequest_def sampleAuthorizer_def NewAuthorizer_def)
  have "fst (Authorize ?p 0 ?a ?c ?req ()) = Inr Allow"
    using err h by (simp add: Authorize_def authorizeGRPCRequest_def decisionFromStatus_def)
  with handler_runs_iff_checks_pass [OF h, of ?p 0 "()" None "\<lambda>_ _ (w::unit). (Inr True, w)"] err
  show ?thesis by auto
qed

theorem no_holder_fails_closed_witness:
  "fst (Authorize (\<lambda>_. None) 0 (sampleAuthorizer []) (clusterCtx ''cp-1'')
      (grpcRequest listGatewaysMethod (Some (ListGatewaysRequest [] []))) ()) \<noteq> Inr Allow"
  (is "fst (Authorize ?p 0 ?a ?c ?req ()) \<noteq> _")
proof -
  have err: "fst (grpcCheckError ?p 0 ?a ?c ?req ()) \<noteq> None"
    using sample_missing_cluster [of ?c "[]"] by auto
  have h: "cHolder ?c = None" "GRPCMethod ?req \<noteq> []" "\<not> grpcPassThrough ?a"
    by (simp_all add: clusterCtx_def emptyCtx_def grpcRequest_def sampleAuthorizer_def NewAuthorizer_def)
  from no_holder_fails_closed [OF h err] show ?thesis .
qed

text \<open>A list that is scoped passes; had it named another cluster it would not have.\<close>

theorem cluster_caller_bound_witness:
  "(\<exists>c1 w1. Authorize (\<lambda>_. None) 0 (sampleAuthorizer []) (withDeferredStatus (clusterCtx ''cp-1''))
      (grpcRequest listGatewaysMethod (Some (ListGatewaysRequest ''c1'' []))) () = (Inr Allow, c1, w1) \<and> cHolder c1 = Some None) \<and>
   \<not> (\<exists>c1 w1. Authorize (\<lambda>_. None) 0 (sampleAuthorizer []) (withDeferredStatus (clusterCtx ''cp-1''))
      (grpcRequest listGatewaysMethod (Some (ListGatewaysRequest ''c2'' []))) () = (Inr Allow, c1, w1) \<and> cHolder c1 = Some None)"
proof -
  let ?a = "sampleAuthorizer []" and ?c = "withDeferredStatus (clusterCtx ''cp-1'')"
  let ?r = "\<lambda>x. grpcRequest listGatewaysMethod (Some (ListGatewaysRequest x []))"
  have env: "Clusters (deps ?a) = Some sampleClusters" "Imports (deps ?a) = None" "\<not> grpcPassThrough ?a"
    by (simp_all add: sampleAuthorizer_def NewAuthorizer_def sampleDeps_def emptyDependencies_def)
  have sub: "subjectFromGRPCContext (\<lambda>_. None) ?c = ''cp-1''"
    by (simp add: withDeferredStatus_def clusterCtx_def emptyCtx_def subjectFromGRPCContext_def subClaim_def)
  have res: "sampleClusters (subjectFromGRPCContext (\<lambda>_. None) ?c) = Inr (''c1'', True)"
    "subjectFromGRPCContext (\<lambda>_. None) ?c \<noteq> []" "''c1'' \<noteq> []"
    by (simp_all add: sub sampleClusters_def)
  have r: "GRPCMethod (?r x) \<in>
      {''/hypershell.v1.GatewayService/WatchGateways'', ''/hypershell.v1.GatewayService/ListGateways'',
       ''/hypershell.v1.RoleBindingService/WatchRoleBindings'', ''/hypershell.v1.RoleBindingService/ListRoleBindings'',
       ''/hypershell.v1.AgentRuntimeService/WatchAgentRuntimes'', ''/hypershell.v1.AgentRuntimeService/ListAgentRuntimes''}"
    "GRPCMsg (?r x) = Some (ListGatewaysRequest x [])" for x
    by (simp_all add: grpcRequest_def)
  have only: "x = ''c1''" if "Authorize (\<lambda>_. None) 0 ?a ?c (?r x) () = (Inr Allow, c1, w1)" "cHolder c1 = Some None" for x c1 w1
    using cluster_caller_bound [OF r(1) env(1) res env(3) r(2) that] env(2) by simp
  have b: "isClusterBoundMethod listGatewaysMethod" by (simp add: isClusterBoundMethod_def)
  have caller: "callerRegisteredCluster (\<lambda>_. None) ?c (Some sampleClusters) = Inr (Some ''c1'')"
    using res by (simp add: callerRegisteredCluster_def)
  have no: "ImportRepositoryIDFromContext ?c = []"
    by (simp add: ImportRepositoryIDFromContext_def withDeferredStatus_def clusterCtx_def emptyCtx_def metadataValues_def)
  have "CheckClusterCallerBindingUnary (\<lambda>_. None) ?c (Some sampleClusters) None
      listGatewaysMethod (Some (ListGatewaysRequest ''c1'' [])) = None"
    using b by (simp add: CheckClusterCallerBindingUnary_def caller importScopedReadExempt_def no checkRequestCluster_def)
  moreover have "runAuthorizeGRPC (\<lambda>_. None) 0 ?a ?c listGatewaysMethod (Some (ListGatewaysRequest ''c1'' [])) () = (None, ())"
  proof -
    have sp: "splitHypershellMethod listGatewaysMethod = (''GatewayService'', ''ListGateways'', True)" by code_simp
    have reg: "registeredClusterIDGRPC (\<lambda>_. None) ?c (cUsername ?c) (Some sampleClusters) = Inr (Some ''c1'')"
      by (simp add: registeredClusterIDGRPC_def sub sampleClusters_def Let_def)
        (simp add: withDeferredStatus_def clusterCtx_def emptyCtx_def)
    have "authorizeControlPlaneGRPC ?c ''c1'' listGatewaysMethod req gs im = None" for req gs im
      by (simp add: authorizeControlPlaneGRPC_def sp no controlPlaneGatewayRules_def)
    moreover have "Lookup (deps ?a) = Some (\<lambda>_ _. Inr [])" "ControlPlanes (deps ?a) = Some sampleClusters"
      "EnforceRBAC (grpcConfig ?a)"
      by (simp_all add: sampleAuthorizer_def NewAuthorizer_def sampleDeps_def grpcConfig_def enforced_def enforcing_def)
    ultimately show ?thesis using reg by (simp add: runAuthorizeGRPC_def authorizeGRPC_def)
  qed
  ultimately have "grpcCheckError (\<lambda>_. None) 0 ?a ?c (?r ''c1'') () = (None, ())"
    by (simp add: grpcCheckError_def grpcRequest_def env Let_def)
  then have "Authorize (\<lambda>_. None) 0 ?a ?c (?r ''c1'') () = (Inr Allow, ?c, ())"
    using env(3) by (simp add: Authorize_def authorizeGRPCRequest_def grpcRequest_def decisionFromStatus_def)
  moreover have "cHolder ?c = Some None" by (simp add: withDeferredStatus_def)
  moreover have "''c2'' \<noteq> ''c1''" by simp
  ultimately show ?thesis using only by blast
qed


end
