(* ===== verification/Go_Effects.thy ===== *)
theory Go_Effects
  imports Rbac_Authorizer
begin

text \<open>
  The vocabulary of the stateful services: service errors, programs that thread a state and may
  fail, and the rules by which properties of a program follow from those of its steps.

  The messages of an error are kept as the format and its arguments, and what the framework's
  helpers (\<^verbatim>\<open>services.HandleGetError\<close> and its siblings) make of a cause is kept as the name of
  the helper applied to its arguments: neither is interpreted.
\<close>

section \<open>Errors\<close>

datatype svc_kind = KValidation | KBadRequest | KForbidden | KNotFound | KConflict | KGeneral | KUnavailable

text \<open>
  \<open>KUnavailable\<close> is a general error whose HTTP code is set to 503. Errors of the database layer, of the event service and of the lock factory; service errors with
  their kind, format, arguments and, for an \<^verbatim>\<open>%s\<close> of an error, the cause; errors made by
  \<^verbatim>\<open>fmt.Errorf\<close>, without and with a wrapped cause; the uninterpreted results of the framework's helpers; and the errors of the
  access facade, with status, code, message format and arguments, or translated from a service error.
\<close>

datatype err =
    RecordNotFound
  | MissingWhereClause
  | DriverError
  | EventFailed
  | LockFailed
  | Svc svc_kind string "string list" "err option"
  | Errorf string "string list"
  | Wrapped string "string list" err
  | Handled string "string list" err
  | Api int string string "string list"
  | FromService err

abbreviation Validation :: "string \<Rightarrow> string list \<Rightarrow> err" where
  "Validation fmt args \<equiv> Svc KValidation fmt args None"

abbreviation Forbidden :: "string \<Rightarrow> string list \<Rightarrow> err" where
  "Forbidden fmt args \<equiv> Svc KForbidden fmt args None"

abbreviation NotFoundError :: "string \<Rightarrow> string list \<Rightarrow> err" where
  "NotFoundError fmt args \<equiv> Svc KNotFound fmt args None"

abbreviation Conflict :: "string \<Rightarrow> string list \<Rightarrow> err" where
  "Conflict fmt args \<equiv> Svc KConflict fmt args None"

abbreviation GeneralError :: "string \<Rightarrow> err \<Rightarrow> err" where
  "GeneralError fmt cause \<equiv> Svc KGeneral fmt [] (Some cause)"

section \<open>Programs\<close>

text \<open>Programs with errors of any type; those of the services have service errors.\<close>

type_synonym ('e, 's, 'a) eprog = "'s \<Rightarrow> ('e + 'a) \<times> 's"
type_synonym ('s, 'a) prog = "(err, 's, 'a) eprog"

definition ret :: "'a \<Rightarrow> ('e, 's, 'a) eprog" where
  "ret x s = (Inr x, s)"

definition fail :: "'e \<Rightarrow> ('e, 's, 'a) eprog" where
  "fail e s = (Inl e, s)"

definition andThen :: "('e, 's, 'a) eprog \<Rightarrow> ('a \<Rightarrow> ('e, 's, 'b) eprog) \<Rightarrow> ('e, 's, 'b) eprog" where
  "andThen m f s = (case m s of (Inl e, s1) \<Rightarrow> (Inl e, s1) | (Inr x, s1) \<Rightarrow> f x s1)"

text \<open>\<^verbatim>\<open>if err != nil { return g(err) }\<close>.\<close>

definition mapErr :: "('e \<Rightarrow> 'f) \<Rightarrow> ('e, 's, 'a) eprog \<Rightarrow> ('f, 's, 'a) eprog" where
  "mapErr g m s = (case m s of (Inl e, s1) \<Rightarrow> (Inl (g e), s1) | (Inr x, s1) \<Rightarrow> (Inr x, s1))"

text \<open>A call whose error the code inspects instead of returning it.\<close>

definition attempt :: "('e, 's, 'a) eprog \<Rightarrow> ('f, 's, 'e + 'a) eprog" where
  "attempt m s = (case m s of (r, s1) \<Rightarrow> (Inr r, s1))"

definition guardErr :: "'e option \<Rightarrow> ('e, 's, unit) eprog" where
  "guardErr e = (case e of None \<Rightarrow> ret () | Some err \<Rightarrow> fail err)"

fun forEach :: "('x \<Rightarrow> ('e, 's, unit) eprog) \<Rightarrow> 'x list \<Rightarrow> ('e, 's, unit) eprog" where
  "forEach f [] = ret ()"
| "forEach f (x # xs) = andThen (f x) (\<lambda>_. forEach f xs)"

section \<open>Running programs\<close>

lemma ret_run [simp]: "ret x s = (Inr x, s)"
  by (simp add: ret_def)

lemma fail_run [simp]: "fail e s = (Inl e, s)"
  by (simp add: fail_def)

lemma attempt_run [simp]: "attempt m s = (Inr (fst (m s)), snd (m s))"
  by (simp add: attempt_def split: prod.split)

lemma guardErr_run [simp]:
  "guardErr None s = (Inr (), s)" "guardErr (Some e) s = (Inl e, s)"
  by (simp_all add: guardErr_def)

lemma andThen_Inr: "m s = (Inr x, s1) \<Longrightarrow> andThen m f s = f x s1"
  by (simp add: andThen_def)

lemma andThen_Inl: "m s = (Inl e, s1) \<Longrightarrow> andThen m f s = (Inl e, s1)"
  by (simp add: andThen_def)

lemma andThen_ret [simp]: "andThen (ret x) f = f x"
  by (rule ext) (simp add: andThen_def)

lemma andThen_success:
  "andThen m f s = (Inr y, s2) \<longleftrightarrow> (\<exists>x s1. m s = (Inr x, s1) \<and> f x s1 = (Inr y, s2))"
  by (auto simp: andThen_def split: prod.splits sum.splits)

lemma andThen_successE:
  assumes "andThen m f s = (Inr y, s2)"
  obtains x s1 where "m s = (Inr x, s1)" "f x s1 = (Inr y, s2)"
  using assms by (auto simp: andThen_success)

lemma mapErr_success [simp]: "mapErr g m s = (Inr y, s1) \<longleftrightarrow> m s = (Inr y, s1)"
  by (auto simp: mapErr_def split: prod.splits sum.splits)

lemma mapErr_state [simp]: "snd (mapErr g m s) = snd (m s)"
  by (simp add: mapErr_def split: prod.split sum.split)

lemma guardErr_success [simp]: "guardErr e s = (Inr u, s1) \<longleftrightarrow> e = None \<and> s1 = s"
  by (cases e) auto

section \<open>Steps and what they keep\<close>

text \<open>
  \<open>steps R m\<close>: whatever the outcome, the program leads from a state to one it is related to by
  \<open>R\<close>. For a reflexive and transitive \<open>R\<close> this composes; it is how a property is shown to hold on
  every path, error paths included.
\<close>

definition steps :: "('s \<Rightarrow> 's \<Rightarrow> bool) \<Rightarrow> ('e, 's, 'a) eprog \<Rightarrow> bool" where
  "steps R m \<longleftrightarrow> (\<forall>s. R s (snd (m s)))"

locale step_order =
  fixes R :: "'s \<Rightarrow> 's \<Rightarrow> bool"
  assumes refl: "R s s"
    and trans: "R s t \<Longrightarrow> R t u \<Longrightarrow> R s u"
begin

lemma steps_ret [intro, simp]: "steps R (ret x)"
  by (simp add: steps_def refl)

lemma steps_Pair [intro, simp]: "steps R (Pair r)"
  by (simp add: steps_def refl)

lemma steps_fail [intro, simp]: "steps R (fail e)"
  by (simp add: steps_def refl)

lemma steps_guardErr [intro, simp]: "steps R (guardErr e)"
  by (cases e) (simp_all add: steps_def refl)

lemma steps_mapErr [intro]: "steps R m \<Longrightarrow> steps R (mapErr g m)"
  by (auto simp: steps_def mapErr_def split: prod.splits sum.splits) (metis snd_conv)+

lemma steps_attempt [intro]: "steps R m \<Longrightarrow> steps R (attempt m)"
  by (simp add: steps_def)

lemma steps_andThen [intro]:
  assumes "steps R m" "\<And>x. steps R (f x)"
  shows "steps R (andThen m f)"
  unfolding steps_def
proof
  fix s
  obtain r s1 where m: "m s = (r, s1)" by force
  with assms(1) have "R s s1" by (metis steps_def snd_conv)
  with assms(2) show "R s (snd (andThen m f s))"
    by (cases r) (auto simp: andThen_def m steps_def intro: trans)
qed

lemma run_andThen:
  assumes "R s (snd (m s))" "\<And>x s1. m s = (Inr x, s1) \<Longrightarrow> R s1 (snd (f x s1))"
  shows "R s (snd (andThen m f s))"
proof -
  obtain r s1 where m: "m s = (r, s1)" by force
  with assms show ?thesis by (cases r) (auto simp: andThen_def intro: trans)
qed

lemma steps_forEach [intro]: "(\<And>x. x \<in> set xs \<Longrightarrow> steps R (f x)) \<Longrightarrow> steps R (forEach f xs)"
  by (induction xs) auto

lemma steps_if [intro]: "steps R m \<Longrightarrow> steps R n \<Longrightarrow> steps R (if c then m else n)"
  by simp

end

end
