(* ===== verification/Role_Bindings.thy ===== *)
theory Role_Bindings
  imports Go_Effects "HOL-Library.Multiset"
begin

text \<open>
  The role bindings: the tables the access objects read and write
  (\<^verbatim>\<open>plugins/roleBindings/dao.go\<close>, \<^verbatim>\<open>plugins/roles/dao.go\<close>), the service over them
  (\<^verbatim>\<open>plugins/roleBindings/service.go\<close>) and the read scope of the list endpoint
  (\<^verbatim>\<open>plugins/roleBindings/read_scope.go\<close>).

  The database is explicit. A table is the list of its rows in storage order, soft-deleted rows
  included; a query returns the live rows that match, in that order. \<open>dFaults\<close> is the schedule of
  failures of the database: every call consumes one entry, an exhausted schedule never fails.
  \<open>dRollback\<close> is \<^verbatim>\<open>db.MarkForRollback\<close>. The id of a new row is \<open>newID\<close>, an argument, and
  \<open>dClock\<close> the time the database stamps on it. Go's order of iteration over a map is the
  argument \<open>order\<close>.
\<close>

section \<open>Tables\<close>

record Role =
  rID :: string
  rName :: string
  rDeleted :: bool

record RoleBinding =
  bID :: string
  bCreatedAt :: int
  bDeleted :: bool
  bRoleID :: string
  bScope :: string
  bUserID :: "string option"
  bGatewayID :: "string option"

record User =
  uID :: string
  uUsername :: string
  uName :: "string option"
  uEmail :: "string option"
  uDeleted :: bool

datatype event_type = CreateEventType | UpdateEventType | DeleteEventType

record db =
  dBindings :: "RoleBinding list"
  dRoles :: "Role list"
  dUsers :: "User list"
  dEvents :: "(string \<times> event_type) list"
  dLocks :: "string list"
  dRollback :: bool
  dFaults :: "bool list"
  dClock :: int

abbreviation ScopeGlobal :: string where "ScopeGlobal \<equiv> ''global''"
abbreviation ScopeGateway :: string where "ScopeGateway \<equiv> ''gateway''"

definition liveBindings :: "db \<Rightarrow> RoleBinding list" where
  "liveBindings d = filter (\<lambda>b. \<not> bDeleted b) (dBindings d)"

definition liveRoles :: "db \<Rightarrow> Role list" where
  "liveRoles d = filter (\<lambda>r. \<not> rDeleted r) (dRoles d)"

definition liveUsers :: "db \<Rightarrow> User list" where
  "liveUsers d = filter (\<lambda>u. \<not> uDeleted u) (dUsers d)"

text \<open>One call to a service that may fail: it consumes one entry of the schedule.\<close>

definition faulty :: "err \<Rightarrow> (db, 'a) prog \<Rightarrow> (db, 'a) prog" where
  "faulty e m d =
     (case dFaults d of
        [] \<Rightarrow> m d
      | f # fs \<Rightarrow> if f then (Inl e, d\<lparr>dFaults := fs\<rparr>) else m (d\<lparr>dFaults := fs\<rparr>))"

definition query :: "(db \<Rightarrow> 'a) \<Rightarrow> (db, 'a) prog" where
  "query q = faulty DriverError (\<lambda>d. (Inr (q d), d))"

text \<open>\<^verbatim>\<open>Take\<close>: one matching row, or \<^verbatim>\<open>gorm.ErrRecordNotFound\<close>.\<close>

definition take_row :: "(db \<Rightarrow> 'a option) \<Rightarrow> (db, 'a) prog" where
  "take_row q = andThen (query q) (\<lambda>r. case r of None \<Rightarrow> fail RecordNotFound | Some x \<Rightarrow> ret x)"

text \<open>A write: a failure marks the transaction for rollback.\<close>

definition exec :: "(db, 'a) prog \<Rightarrow> (db, 'a) prog" where
  "exec m d =
     (case faulty DriverError m d of
        (Inl e, d1) \<Rightarrow> (Inl e, d1\<lparr>dRollback := True\<rparr>)
      | (Inr x, d1) \<Rightarrow> (Inr x, d1))"

section \<open>Access objects\<close>

definition roleDao_Get :: "string \<Rightarrow> (db, Role) prog" where [dao_defs]:
  "roleDao_Get i = take_row (\<lambda>d. find (\<lambda>r. rID r = i) (liveRoles d))"

definition roleDao_GetByName :: "string \<Rightarrow> (db, Role) prog" where [dao_defs]:
  "roleDao_GetByName name = take_row (\<lambda>d. find (\<lambda>r. rName r = name) (liveRoles d))"

definition roleDao_FindByIDs :: "string list \<Rightarrow> (db, Role list) prog" where [dao_defs]:
  "roleDao_FindByIDs ids = query (\<lambda>d. filter (\<lambda>r. rID r \<in> set ids) (liveRoles d))"

definition roleDao_All :: "(db, Role list) prog" where [dao_defs]:
  "roleDao_All = query liveRoles"

definition userDao_Get :: "string \<Rightarrow> (db, User) prog" where [dao_defs]:
  "userDao_Get i = take_row (\<lambda>d. find (\<lambda>u. uID u = i) (liveUsers d))"

definition rbDao_Get :: "string \<Rightarrow> (db, RoleBinding) prog" where [dao_defs]:
  "rbDao_Get i = take_row (\<lambda>d. find (\<lambda>b. bID b = i) (liveBindings d))"

definition rbDao_GetUnscoped :: "string \<Rightarrow> (db, RoleBinding) prog" where [dao_defs]:
  "rbDao_GetUnscoped i = take_row (\<lambda>d. find (\<lambda>b. bID b = i) (dBindings d))"

text \<open>\<^verbatim>\<open>BeforeCreate\<close> gives the row an id when it has none.\<close>

definition rb_BeforeCreate :: "(db \<Rightarrow> string) \<Rightarrow> db \<Rightarrow> RoleBinding \<Rightarrow> RoleBinding" where
  "rb_BeforeCreate newID d rb = (if bID rb = [] then rb\<lparr>bID := newID d\<rparr> else rb)"

definition rbDao_Create :: "(db \<Rightarrow> string) \<Rightarrow> RoleBinding \<Rightarrow> (db, RoleBinding) prog" where [dao_defs]:
  "rbDao_Create newID rb = exec (\<lambda>d.
     let row = (rb_BeforeCreate newID d rb)\<lparr>bCreatedAt := dClock d, bDeleted := False\<rparr>
     in (Inr row, d\<lparr>dBindings := dBindings d @ [row]\<rparr>))"

text \<open>\<^verbatim>\<open>Save\<close>: every column of the row with this id is written; without such a row it is inserted.\<close>

definition saveRow :: "RoleBinding \<Rightarrow> RoleBinding list \<Rightarrow> RoleBinding list" where
  "saveRow rb bs =
     (if \<exists>b\<in>set bs. bID b = bID rb then map (\<lambda>b. if bID b = bID rb then rb else b) bs
      else bs @ [rb])"

definition rbDao_Update :: "RoleBinding \<Rightarrow> (db, RoleBinding) prog" where [dao_defs]:
  "rbDao_Update rb = exec (\<lambda>d. (Inr rb, d\<lparr>dBindings := saveRow rb (dBindings d)\<rparr>))"

text \<open>A soft delete; a row without an id would be a delete without a condition, which is refused.\<close>

definition softDelete :: "string \<Rightarrow> RoleBinding list \<Rightarrow> RoleBinding list" where
  "softDelete i = map (\<lambda>b. if bID b = i then b\<lparr>bDeleted := True\<rparr> else b)"

definition rbDao_Delete :: "string \<Rightarrow> (db, unit) prog" where [dao_defs]:
  "rbDao_Delete i = exec (\<lambda>d.
     if i = [] then (Inl MissingWhereClause, d)
     else (Inr (), d\<lparr>dBindings := softDelete i (dBindings d)\<rparr>))"

definition rbDao_FindByUserID :: "string \<Rightarrow> (db, RoleBinding list) prog" where [dao_defs]:
  "rbDao_FindByUserID u = query (\<lambda>d. filter (\<lambda>b. bUserID b = Some u) (liveBindings d))"

definition rbDao_FindByGatewayID :: "string \<Rightarrow> (db, RoleBinding list) prog" where [dao_defs]:
  "rbDao_FindByGatewayID g = query (\<lambda>d. filter (\<lambda>b. bGatewayID b = Some g) (liveBindings d))"

definition rbDao_FindByIDs :: "string list \<Rightarrow> (db, RoleBinding list) prog" where [dao_defs]:
  "rbDao_FindByIDs ids = query (\<lambda>d. filter (\<lambda>b. bID b \<in> set ids) (liveBindings d))"

definition rbDao_FindGatewayIDsByUserID :: "string \<Rightarrow> (db, string list) prog" where [dao_defs]:
  "rbDao_FindGatewayIDsByUserID u = query (\<lambda>d.
     remdups (List.map_filter (\<lambda>b. if bUserID b = Some u then bGatewayID b else None) (liveBindings d)))"

definition rbDao_All :: "(db, RoleBinding list) prog" where [dao_defs]:
  "rbDao_All = query liveBindings"

text \<open>The role a binding's row joins with: the live role of its role id.\<close>

definition roleNameOf :: "db \<Rightarrow> RoleBinding \<Rightarrow> string option" where
  "roleNameOf d b = map_option rName (find (\<lambda>r. rID r = bRoleID b) (liveRoles d))"

text \<open>The live \<open>gateway:owner\<close> bindings of a gateway, and the users they name.\<close>

definition ownerBindings :: "db \<Rightarrow> string \<Rightarrow> RoleBinding list" where
  "ownerBindings d g = filter (\<lambda>b. bGatewayID b = Some g \<and> bScope b = ScopeGateway \<and>
     roleNameOf d b = Some RoleGatewayOwner) (liveBindings d)"

text \<open>\<^verbatim>\<open>COUNT(DISTINCT user_id)\<close> does not count a null.\<close>

definition ownerIDs :: "db \<Rightarrow> string \<Rightarrow> string list" where
  "ownerIDs d g = remdups (List.map_filter bUserID (ownerBindings d g))"

definition rbDao_CountOwnersByGatewayID :: "string \<Rightarrow> (db, nat) prog" where [dao_defs]:
  "rbDao_CountOwnersByGatewayID g =
     mapErr (Wrapped ''count gateway owners for %s: %w'' [g]) (query (\<lambda>d. length (ownerIDs d g)))"

text \<open>
  The raw count over all gateways joins the roles and bindings without a test of their deletion
  mark, and the users with one.
\<close>

definition rbDao_CountGatewayOwnerUsers :: "(db, nat) prog" where [dao_defs]:
  "rbDao_CountGatewayOwnerUsers =
     mapErr (Wrapped ''count gateway owner users: %w'' []) (query (\<lambda>d.
       length (remdups (List.map_filter (\<lambda>b. case bUserID b of
          None \<Rightarrow> None
        | Some u \<Rightarrow>
            if (\<exists>r\<in>set (dRoles d). rID r = bRoleID b \<and> rName r = RoleGatewayOwner) \<and>
               (\<exists>x\<in>set (liveUsers d). uID x = u)
            then Some u else None) (dBindings d)))))"

definition earlier :: "RoleBinding \<Rightarrow> RoleBinding \<Rightarrow> bool" where
  "earlier a b \<longleftrightarrow> (if bCreatedAt a = bCreatedAt b then bID a < bID b else bCreatedAt a < bCreatedAt b)"

text \<open>
  \<^verbatim>\<open>DISTINCT ON (gateway_id)\<close>, ordered by creation: of each gateway the owner of the earliest
  owner binding whose user is live.
\<close>

definition userNameOf :: "db \<Rightarrow> RoleBinding \<Rightarrow> string option" where
  "userNameOf d b = (case bUserID b of None \<Rightarrow> None
     | Some u \<Rightarrow> map_option uUsername (find (\<lambda>x. uID x = u) (liveUsers d)))"

definition firstOwnerName :: "db \<Rightarrow> string \<Rightarrow> string option" where
  "firstOwnerName d g =
     (let rows = filter (\<lambda>b. bGatewayID b = Some g \<and> roleNameOf d b = Some RoleGatewayOwner \<and>
                               userNameOf d b \<noteq> None) (liveBindings d)
      in case sort_key (\<lambda>b. (bCreatedAt b, bID b)) rows of [] \<Rightarrow> None | b # _ \<Rightarrow> userNameOf d b)"

definition rbDao_FindOwnerUsernamesByGatewayIDs ::
  "string list \<Rightarrow> (db, string \<rightharpoonup> string) prog" where [dao_defs]:
  "rbDao_FindOwnerUsernamesByGatewayIDs gs =
     (if length gs = 0 then ret Map.empty
      else query (\<lambda>d g. if g \<in> set gs then firstOwnerName d g else None))"

section \<open>Events and locks\<close>

definition events_Create :: "string \<Rightarrow> event_type \<Rightarrow> (db, unit) prog" where [dao_defs]:
  "events_Create i t = faulty EventFailed (\<lambda>d. (Inr (), d\<lparr>dEvents := dEvents d @ [(i, t)]\<rparr>))"

definition emitBindingEvent :: "string \<Rightarrow> event_type \<Rightarrow> (db, unit) prog" where
  "emitBindingEvent sourceID eventType = events_Create sourceID eventType"

definition GatewayAccessLockID :: "string \<Rightarrow> string" where
  "GatewayAccessLockID gatewayID = ''gateway-access-'' @ gatewayID"

text \<open>
  \<open>withLock\<close> is the acquisition, the body and the deferred release. A nil factory locks nothing.
\<close>

definition acquireLock :: "string \<Rightarrow> (db, unit) prog" where
  "acquireLock i = faulty LockFailed (\<lambda>d. (Inr (), d\<lparr>dLocks := i # dLocks d\<rparr>))"

definition releaseLock :: "string \<Rightarrow> db \<Rightarrow> db" where
  "releaseLock i d = d\<lparr>dLocks := remove1 i (dLocks d)\<rparr>"

definition withLock :: "bool \<Rightarrow> (err \<Rightarrow> err) \<Rightarrow> string \<Rightarrow> (db, 'a) prog \<Rightarrow> (db, 'a) prog" where
  "withLock hasFactory g i body =
     (if \<not> hasFactory then body
      else andThen (mapErr g (acquireLock i))
             (\<lambda>_ d. case body d of (r, d1) \<Rightarrow> (r, releaseLock i d1)))"

section \<open>The service\<close>

text \<open>What is wired into the service: the lock factory and the user access object may be nil.\<close>

record rb_service =
  hasLockFactory :: bool
  hasUserDao :: bool

text \<open>A row to be created: without an id, a creation time or a deletion mark.\<close>

definition newBinding :: "string \<Rightarrow> string \<Rightarrow> string option \<Rightarrow> string option \<Rightarrow> RoleBinding" where
  "newBinding roleID scope u g =
     \<lparr>bID = [], bCreatedAt = 0, bDeleted = False, bRoleID = roleID, bScope = scope,
      bUserID = u, bGatewayID = g\<rparr>"

definition CreateGatewayOwnerBinding :: "(db \<Rightarrow> string) \<Rightarrow> string \<Rightarrow> string \<Rightarrow> (db, unit) prog" where
  "CreateGatewayOwnerBinding newID userID gatewayID =
     andThen (roleDao_GetByName RoleGatewayOwner) (\<lambda>ownerRole.
     andThen (rbDao_Create newID (newBinding (rID ownerRole) ScopeGateway (Some userID) (Some gatewayID)))
       (\<lambda>rb. events_Create (bID rb) CreateEventType))"

text \<open>
  The loop of \<^verbatim>\<open>SyncJWTRoles\<close> over the existing bindings: the synced global ones by role name, a
  later one replacing an earlier one; a binding whose role cannot be read is skipped.
\<close>

fun collectSynced ::
  "RoleBinding list \<Rightarrow> (string \<rightharpoonup> RoleBinding) \<Rightarrow> (db, string \<rightharpoonup> RoleBinding) prog" where
  "collectSynced [] acc = ret acc"
| "collectSynced (b # bs) acc =
     (if bScope b \<noteq> ScopeGlobal then collectSynced bs acc
      else andThen (attempt (roleDao_Get (bRoleID b))) (\<lambda>r. case r of
             Inl roleErr \<Rightarrow> collectSynced bs acc
           | Inr role \<Rightarrow>
               collectSynced bs (if rName role \<in> set JWTSyncedRoles then acc(rName role \<mapsto> b) else acc)))"

definition syncCreate :: "(db \<Rightarrow> string) \<Rightarrow> string \<Rightarrow> (string \<rightharpoonup> RoleBinding) \<Rightarrow> string \<Rightarrow> (db, unit) prog" where
  "syncCreate newID userID existingSynced roleName =
     (if existingSynced roleName \<noteq> None then ret ()
      else andThen (mapErr (Wrapped ''unable to find role %s: %w'' [roleName]) (roleDao_GetByName roleName))
        (\<lambda>role. andThen (mapErr (Wrapped ''unable to create binding for role %s: %w'' [roleName])
             (rbDao_Create newID (newBinding (rID role) ScopeGlobal (Some userID) None)))
           (\<lambda>_. ret ())))"

definition syncDelete :: "string set \<Rightarrow> (string \<rightharpoonup> RoleBinding) \<Rightarrow> string \<Rightarrow> (db, unit) prog" where
  "syncDelete jwtRoleSet existingSynced roleName =
     (case existingSynced roleName of
        None \<Rightarrow> ret ()
      | Some binding \<Rightarrow>
          if roleName \<in> jwtRoleSet then ret ()
          else mapErr (Wrapped ''unable to remove revoked binding for role %s: %w'' [roleName])
                 (rbDao_Delete (bID binding)))"

definition SyncJWTRoles ::
  "(string list \<Rightarrow> string list) \<Rightarrow> (db \<Rightarrow> string) \<Rightarrow> string \<Rightarrow> string list \<Rightarrow> (db, unit) prog" where
  "SyncJWTRoles order newID userID jwtRoles =
     (let wanted = filter (\<lambda>r. r \<in> set jwtRoles) JWTSyncedRoles in
      andThen (mapErr (Wrapped ''unable to find bindings for user %s: %w'' [userID])
                 (rbDao_FindByUserID userID)) (\<lambda>existing.
      andThen (collectSynced existing Map.empty) (\<lambda>existingSynced.
      andThen (forEach (syncCreate newID userID existingSynced) (order wanted)) (\<lambda>_.
      forEach (syncDelete (set wanted) existingSynced)
        (order (filter (\<lambda>r. existingSynced r \<noteq> None) JWTSyncedRoles))))))"

definition rbService_Get :: "string \<Rightarrow> (db, RoleBinding) prog" where
  "rbService_Get i = mapErr (Handled ''HandleGetError'' [''RoleBinding'', ''id'', i]) (rbDao_Get i)"

definition rbService_GetUnscoped :: "string \<Rightarrow> (db, RoleBinding) prog" where
  "rbService_GetUnscoped i =
     mapErr (Handled ''HandleGetError'' [''RoleBinding'', ''id'', i]) (rbDao_GetUnscoped i)"

definition validateScope :: "RoleBinding \<Rightarrow> err option" where
  "validateScope rb =
     (if bScope rb = ScopeGlobal then
        (if bGatewayID rb \<noteq> None then Some (Validation ''global scope must not have gateway_id'' [])
         else None)
      else if bScope rb = ScopeGateway then
        (if bGatewayID rb = None then Some (Validation ''gateway scope requires gateway_id'' [])
         else None)
      else Some (Validation ''invalid scope: %q; supported: global, gateway'' [bScope rb]))"

definition validateScopeMatchesRole :: "string \<Rightarrow> RoleBinding \<Rightarrow> err option" where
  "validateScopeMatchesRole roleName rb =
     (if roleName \<in> {RoleGatewayCreator, RoleGatewayDedicatedRouteCreator, RoleCIFederationAdmin,
                      RoleCIFederationGrantor} then
        (if bScope rb \<noteq> ScopeGlobal then Some (Validation ''role %q requires scope=global'' [roleName])
         else None)
      else if roleName \<in> {RoleGatewayOwner, RoleGatewayAdmin, RoleGatewayViewer} then
        (if bScope rb \<noteq> ScopeGateway then Some (Validation ''role %q requires scope=gateway'' [roleName])
         else None)
      else None)"

text \<open>
  The loops over the caller's bindings: whether one that passes the first test has a readable
  role that passes the second. The role is only read for a binding that passes the first test.
\<close>

fun anyRole :: "(RoleBinding \<Rightarrow> bool) \<Rightarrow> (string \<Rightarrow> bool) \<Rightarrow> RoleBinding list \<Rightarrow> (db, bool) prog" where
  "anyRole P Q [] = ret False"
| "anyRole P Q (b # bs) =
     (if P b then andThen (attempt (roleDao_Get (bRoleID b))) (\<lambda>r. case r of
          Inl roleErr \<Rightarrow> anyRole P Q bs
        | Inr role \<Rightarrow> if Q (rName role) then ret True else anyRole P Q bs)
      else anyRole P Q bs)"

definition validateCallerOwnsGateway :: "ctx \<Rightarrow> string option \<Rightarrow> (db, unit) prog" where
  "validateCallerOwnsGateway c gatewayID =
     (case gatewayID of
        None \<Rightarrow> fail (Forbidden ''gateway_id is required for gateway-scoped grants'' [])
      | Some g \<Rightarrow>
          (let callerUserID = GetUserIDFromContext c in
           if callerUserID = []
           then fail (Forbidden ''an authenticated caller is required to write gateway role bindings'' [])
           else andThen (mapErr (GeneralError ''unable to look up caller bindings: %s'')
                           (rbDao_FindByUserID callerUserID)) (\<lambda>callerBindings.
                andThen (anyRole (\<lambda>b. bGatewayID b = Some g) (\<lambda>n. n = RoleGatewayOwner) callerBindings)
                  (\<lambda>owns. if owns then ret ()
                    else fail (Forbidden ''caller must be gateway:owner on the target gateway to grant bindings'' [])))))"

definition validateCallerCanGrantCIFederationAdmin :: "ctx \<Rightarrow> (db, unit) prog" where
  "validateCallerCanGrantCIFederationAdmin c =
     (let callerUserID = GetUserIDFromContext c in
      if callerUserID = []
      then fail (Forbidden ''an authenticated caller is required to grant or revoke %s'' [RoleCIFederationAdmin])
      else andThen (mapErr (GeneralError ''unable to look up caller bindings: %s'')
                      (rbDao_FindByUserID callerUserID)) (\<lambda>callerBindings.
           andThen (anyRole (\<lambda>b. bScope b = ScopeGlobal)
                      (\<lambda>n. n = RolePlatformAdmin \<or> n = RoleCIFederationGrantor) callerBindings)
             (\<lambda>can. if can then ret ()
               else fail (Forbidden ''caller must be platform:admin or %s to grant %s''
                            [RoleCIFederationGrantor, RoleCIFederationAdmin]))))"

definition guardLastGatewayOwner :: "RoleBinding \<Rightarrow> (db, unit) prog" where
  "guardLastGatewayOwner rb =
     (case bGatewayID rb of
        None \<Rightarrow> ret ()
      | Some g \<Rightarrow>
          andThen (mapErr (GeneralError ''unable to evaluate gateway owners: %s'')
                     (rbDao_CountOwnersByGatewayID g)) (\<lambda>ownerCount.
          if ownerCount \<le> 1
          then fail (Conflict ''this gateway must keep at least one owner; assign another owner before removing this one'' [])
          else ret ()))"

datatype write_op = opCreate | opDelete

definition authorizeWrite :: "ctx \<Rightarrow> write_op \<Rightarrow> string \<Rightarrow> RoleBinding \<Rightarrow> (db, unit) prog" where
  "authorizeWrite c wop roleName rb =
     (if roleName \<in> {RoleGatewayOwner, RoleGatewayAdmin, RoleGatewayViewer} then
        andThen (validateCallerOwnsGateway c (bGatewayID rb)) (\<lambda>_.
          if wop = opDelete \<and> roleName = RoleGatewayOwner then guardLastGatewayOwner rb else ret ())
      else if roleName = RoleCIFederationAdmin then validateCallerCanGrantCIFederationAdmin c
      else if roleName \<in> {RolePlatformAdmin, RoleGatewayCreator, RoleGatewayDedicatedRouteCreator,
                           RoleCIFederationGrantor} then
        fail (Forbidden ''%s is managed through Keycloak and cannot be assigned or removed through the role_bindings resource'' [roleName])
      else if roleName = RoleManagedClusterRegistrar then
        fail (Forbidden ''%s cannot be assigned or removed through the role_bindings resource; cluster registration is controlled by the JWT'' [roleName])
      else fail (Forbidden ''role %q has no write policy on the role_bindings resource; it cannot be assigned or removed here'' [roleName]))"

definition validateTargetUser :: "rb_service \<Rightarrow> RoleBinding \<Rightarrow> (db, unit) prog" where
  "validateTargetUser s rb =
     (case bUserID rb of
        None \<Rightarrow> fail (Validation ''user_id is required'' [])
      | Some u \<Rightarrow>
          if u = [] then fail (Validation ''user_id is required'' [])
          else if \<not> hasUserDao s
          then fail (Svc KGeneral ''role binding service is misconfigured: target user validation is unavailable'' [] None)
          else andThen (mapErr (\<lambda>e. if e = RecordNotFound then NotFoundError ''target user not found'' []
                                     else GeneralError ''unable to validate target user: %s'' e)
                          (userDao_Get u)) (\<lambda>_. ret ()))"

definition rbService_Create ::
  "rb_service \<Rightarrow> (db \<Rightarrow> string) \<Rightarrow> ctx \<Rightarrow> RoleBinding \<Rightarrow> (db, RoleBinding) prog" where
  "rbService_Create s newID c rb =
     andThen (guardErr (validateScope rb)) (\<lambda>_.
     andThen (mapErr (\<lambda>_. Validation ''invalid role_id: role not found'' []) (roleDao_Get (bRoleID rb))) (\<lambda>role.
     andThen (guardErr (validateScopeMatchesRole (rName role) rb)) (\<lambda>_.
     andThen (authorizeWrite c opCreate (rName role) rb) (\<lambda>_.
     andThen (validateTargetUser s rb) (\<lambda>_.
     andThen (mapErr (Handled ''HandleCreateError'' [''RoleBinding'']) (rbDao_Create newID rb)) (\<lambda>row.
     andThen (mapErr (Handled ''HandleCreateError'' [''RoleBinding'']) (events_Create (bID row) CreateEventType))
       (\<lambda>_. ret row)))))))"

text \<open>\<open>Delete\<close>: the row and its role are read first; the lock, if any, is taken afterwards.\<close>

definition deleteRead :: "string \<Rightarrow> (db, RoleBinding \<times> Role) prog" where
  "deleteRead i =
     andThen (rbService_Get i) (\<lambda>rb.
     andThen (mapErr (\<lambda>_. Validation ''invalid role_id: role not found'' []) (roleDao_Get (bRoleID rb)))
       (\<lambda>role. ret (rb, role)))"

definition deleteCommit ::
  "rb_service \<Rightarrow> ctx \<Rightarrow> string \<Rightarrow> RoleBinding \<Rightarrow> Role \<Rightarrow> (db, unit) prog" where
  "deleteCommit s c i rb role =
     (let body =
        andThen (authorizeWrite c opDelete (rName role) rb) (\<lambda>_.
        andThen (mapErr (\<lambda>e. Handled ''HandleDeleteError'' [''RoleBinding'']
                                (GeneralError ''Unable to delete role binding: %s'' e)) (rbDao_Delete i)) (\<lambda>_.
        mapErr (Handled ''HandleDeleteError'' [''RoleBinding'']) (events_Create i DeleteEventType)))
      in case bGatewayID rb of
           Some g \<Rightarrow>
             if rName role = RoleGatewayOwner
             then withLock (hasLockFactory s) (GeneralError ''unable to acquire gateway access lock: %s'')
                    (GatewayAccessLockID g) body
             else body
         | None \<Rightarrow> body)"

definition rbService_Delete :: "rb_service \<Rightarrow> ctx \<Rightarrow> string \<Rightarrow> (db, unit) prog" where
  "rbService_Delete s c i = andThen (deleteRead i) (\<lambda>(rb, role). deleteCommit s c i rb role)"

definition BindingsForGateway :: "string \<Rightarrow> (db, RoleBinding list) prog" where
  "BindingsForGateway g =
     mapErr (GeneralError ''Unable to get gateway role bindings: %s'') (rbDao_FindByGatewayID g)"

definition onUserGateway :: "string \<Rightarrow> RoleBinding \<Rightarrow> bool" where
  "onUserGateway g b \<longleftrightarrow> bScope b = ScopeGateway \<and> bGatewayID b = Some g"

definition gatewayBindingsForUser :: "string \<Rightarrow> string \<Rightarrow> (db, RoleBinding list) prog" where
  "gatewayBindingsForUser u g =
     andThen (rbDao_FindByUserID u) (\<lambda>every. ret (filter (onUserGateway g) every))"

text \<open>The loop that deletes a binding and emits its event.\<close>

definition deleteWithEvent :: "string \<Rightarrow> RoleBinding \<Rightarrow> (db, unit) prog" where
  "deleteWithEvent message b =
     andThen (mapErr (\<lambda>e. Handled ''HandleDeleteError'' [''RoleBinding''] (GeneralError message e))
                (rbDao_Delete (bID b)))
       (\<lambda>_. emitBindingEvent (bID b) DeleteEventType)"

text \<open>
  The two ways \<open>SetGatewayRole\<close> goes on: no binding yet, and converging the existing ones to the
  earliest-created, which is changed in place.
\<close>

definition createGatewayRole ::
  "(db \<Rightarrow> string) \<Rightarrow> string \<Rightarrow> string \<Rightarrow> Role \<Rightarrow> (db, RoleBinding) prog" where
  "createGatewayRole newID userID gatewayID targetRole =
     andThen (mapErr (Handled ''HandleCreateError'' [''RoleBinding''])
                (rbDao_Create newID
                   (newBinding (rID targetRole) ScopeGateway (Some userID) (Some gatewayID)))) (\<lambda>created.
     andThen (emitBindingEvent (bID created) CreateEventType) (\<lambda>_. ret created))"

definition convergeGatewayRole ::
  "Role \<Rightarrow> RoleBinding \<Rightarrow> RoleBinding list \<Rightarrow> (db, RoleBinding) prog" where
  "convergeGatewayRole targetRole keep surplus =
     andThen (forEach (deleteWithEvent ''unable to delete duplicate binding: %s'') surplus) (\<lambda>_.
     if bRoleID keep = rID targetRole then ret keep
     else
       andThen (mapErr (Handled ''HandleUpdateError'' [''RoleBinding''])
                  (rbDao_Update (keep\<lparr>bRoleID := rID targetRole\<rparr>))) (\<lambda>updated.
       andThen (emitBindingEvent (bID updated) UpdateEventType) (\<lambda>_. ret updated)))"

definition SetGatewayRole ::
  "(db \<Rightarrow> string) \<Rightarrow> string \<Rightarrow> string \<Rightarrow> string \<Rightarrow> (db, RoleBinding) prog" where
  "SetGatewayRole newID userID gatewayID roleName =
     (if roleName \<noteq> RoleGatewayOwner \<and> roleName \<noteq> RoleGatewayAdmin \<and> roleName \<noteq> RoleGatewayViewer
      then fail (Validation ''invalid gateway role: %q'' [roleName])
      else
        andThen (mapErr (\<lambda>e. Svc KValidation ''invalid role %q: %s'' [roleName] (Some e))
                   (roleDao_GetByName roleName)) (\<lambda>targetRole.
        andThen (mapErr (GeneralError ''unable to look up existing bindings: %s'')
                   (gatewayBindingsForUser userID gatewayID)) (\<lambda>existing.
        case sort_key (\<lambda>b. (bCreatedAt b, bID b)) existing of
          [] \<Rightarrow> createGatewayRole newID userID gatewayID targetRole
        | keep # surplus \<Rightarrow> convergeGatewayRole targetRole keep surplus)))"

definition RevokeGatewayAccess :: "string \<Rightarrow> string \<Rightarrow> (db, nat) prog" where
  "RevokeGatewayAccess userID gatewayID =
     andThen (mapErr (GeneralError ''unable to look up existing bindings: %s'')
                (gatewayBindingsForUser userID gatewayID)) (\<lambda>existing.
     andThen (forEach (deleteWithEvent ''unable to delete binding: %s'') existing)
       (\<lambda>_. ret (length existing)))"

definition DeleteGatewayBindings :: "string \<Rightarrow> (db, nat) prog" where
  "DeleteGatewayBindings gatewayID =
     (if gatewayID = [] then fail (Validation ''gateway_id is required'' [])
      else
        andThen (mapErr (GeneralError ''unable to look up gateway bindings: %s'')
                   (rbDao_FindByGatewayID gatewayID)) (\<lambda>existing.
        andThen (forEach (deleteWithEvent ''unable to delete binding: %s'') existing)
          (\<lambda>_. ret (length existing))))"

text \<open>The summaries of \<^verbatim>\<open>FindBindingsByUserID\<close>: a binding whose role was not loaded is an error.\<close>

fun summaries :: "Role list \<Rightarrow> RoleBinding list \<Rightarrow> err + BindingSummary list" where
  "summaries roleList [] = Inr []"
| "summaries roleList (b # bs) =
     (case find (\<lambda>r. rID r = bRoleID b) (rev roleList) of
        None \<Rightarrow> Inl (Errorf ''role %s referenced by binding %s not found'' [bRoleID b, bID b])
      | Some role \<Rightarrow>
          (case summaries roleList bs of
             Inl e \<Rightarrow> Inl e
           | Inr ss \<Rightarrow> Inr (\<lparr>bsRoleName = rName role, bsScope = bScope b, bsGatewayID = bGatewayID b\<rparr> # ss)))"

definition rb_FindBindingsByUserID :: "string \<Rightarrow> (db, BindingSummary list) prog" where
  "rb_FindBindingsByUserID userID =
     andThen (rbDao_FindByUserID userID) (\<lambda>bindings.
     if length bindings = 0 then ret []
     else andThen (mapErr (Wrapped ''unable to batch-load roles for bindings: %w'' [])
                     (roleDao_FindByIDs (map bRoleID bindings))) (\<lambda>roleList.
          case summaries roleList bindings of Inl e \<Rightarrow> fail e | Inr ss \<Rightarrow> ret ss))"

definition rbService_FindByUserID :: "string \<Rightarrow> (db, RoleBinding list) prog" where
  "rbService_FindByUserID u = mapErr (GeneralError ''Unable to get role bindings: %s'') (rbDao_FindByUserID u)"

definition rbService_FindGatewayIDsByUserID :: "string \<Rightarrow> (db, string list) prog" where
  "rbService_FindGatewayIDsByUserID u =
     mapErr (GeneralError ''Unable to get gateway IDs for user: %s'') (rbDao_FindGatewayIDsByUserID u)"

definition rbService_FindOwnerUsernamesByGatewayIDs :: "string list \<Rightarrow> (db, string \<rightharpoonup> string) prog" where
  "rbService_FindOwnerUsernamesByGatewayIDs gs = rbDao_FindOwnerUsernamesByGatewayIDs gs"

definition rbService_All :: "(db, RoleBinding list) prog" where
  "rbService_All = mapErr (GeneralError ''Unable to get all role bindings: %s'') rbDao_All"

definition rbService_FindByIDs :: "string list \<Rightarrow> (db, RoleBinding list) prog" where
  "rbService_FindByIDs ids = mapErr (GeneralError ''Unable to get role bindings: %s'') (rbDao_FindByIDs ids)"

section \<open>The read scope\<close>

record readScope =
  rsAll :: bool
  rsUserID :: string
  rsGatewayIDs :: "string list"

definition resolveReadScope :: "bool \<Rightarrow> ctx \<Rightarrow> (db, readScope) prog" where
  "resolveReadScope rbacEnforced c =
     (if \<not> rbacEnforced then ret \<lparr>rsAll = True, rsUserID = [], rsGatewayIDs = []\<rparr>
      else (let userID = GetUserIDFromContext c in
        if userID = [] then ret \<lparr>rsAll = False, rsUserID = [], rsGatewayIDs = []\<rparr>
        else if HasPlatformAdminRole c userID then ret \<lparr>rsAll = True, rsUserID = [], rsGatewayIDs = []\<rparr>
        else andThen (rbService_FindGatewayIDsByUserID userID) (\<lambda>gatewayIDs.
               ret \<lparr>rsAll = False, rsUserID = userID, rsGatewayIDs = gatewayIDs\<rparr>)))"

definition canSee :: "readScope \<Rightarrow> RoleBinding option \<Rightarrow> bool" where
  "canSee s rb =
     (if rsAll s then True
      else (case rb of
              None \<Rightarrow> False
            | Some b \<Rightarrow>
                if rsUserID s = [] then False
                else if bUserID b = Some (rsUserID s) then True
                else if bScope b \<noteq> ScopeGateway \<or> bGatewayID b = None then False
                else list_ex (\<lambda>i. Some i = bGatewayID b) (rsGatewayIDs s)))"

definition quoteTSL :: "string \<Rightarrow> string" where
  "quoteTSL value = CHR 0x27 # filter (\<lambda>ch. ch \<noteq> CHR 0x27) value @ [CHR 0x27]"

fun joinComma :: "string list \<Rightarrow> string" where
  "joinComma [] = []"
| "joinComma [s] = s"
| "joinComma (s # t # ss) = s @ '','' @ joinComma (t # ss)"

text \<open>\<open>validate\<close> is \<^verbatim>\<open>extsearch.ValidateSearchColumns\<close> for a role binding.\<close>

definition restrictSearch :: "(string \<Rightarrow> err option) \<Rightarrow> readScope \<Rightarrow> string \<Rightarrow> err + string" where
  "restrictSearch validate s search =
     (if rsAll s then Inr search
      else if rsUserID s = [] then Inl (Forbidden ''missing caller identity'' [])
      else (case (if strings_TrimSpace search \<noteq> [] then validate search else None) of
              Some e \<Rightarrow> Inl e
            | None \<Rightarrow>
                (let own = ''user_id = '' @ quoteTSL (rsUserID s);
                     filt = (if length (rsGatewayIDs s) > 0
                             then ''('' @ own @ '' or gateway_id in ('' @
                                  joinComma (map quoteTSL (rsGatewayIDs s)) @ ''))''
                             else own)
                 in if strings_TrimSpace search = [] then Inr filt
                    else Inr (''('' @ search @ '') and '' @ filt))))"

section \<open>What a single call does\<close>

lemma live_faults [simp]:
  "liveBindings (d\<lparr>dFaults := x\<rparr>) = liveBindings d" "liveBindings (d\<lparr>dEvents := e\<rparr>) = liveBindings d"
  "liveBindings (d\<lparr>dLocks := l\<rparr>) = liveBindings d" "liveBindings (d\<lparr>dRollback := r\<rparr>) = liveBindings d"
  "liveRoles (d\<lparr>dFaults := x\<rparr>) = liveRoles d" "liveRoles (d\<lparr>dEvents := e\<rparr>) = liveRoles d"
  "liveRoles (d\<lparr>dLocks := l\<rparr>) = liveRoles d" "liveRoles (d\<lparr>dRollback := r\<rparr>) = liveRoles d"
  "liveRoles (d\<lparr>dBindings := bs\<rparr>) = liveRoles d"
  "liveUsers (d\<lparr>dFaults := x\<rparr>) = liveUsers d" "liveUsers (d\<lparr>dEvents := e\<rparr>) = liveUsers d"
  "liveUsers (d\<lparr>dLocks := l\<rparr>) = liveUsers d" "liveUsers (d\<lparr>dRollback := r\<rparr>) = liveUsers d"
  "liveUsers (d\<lparr>dBindings := bs\<rparr>) = liveUsers d"
  by (simp_all add: liveBindings_def liveRoles_def liveUsers_def)

lemma roleNameOf_faults [simp]:
  "roleNameOf (d\<lparr>dFaults := x\<rparr>) = roleNameOf d" "roleNameOf (d\<lparr>dEvents := e\<rparr>) = roleNameOf d"
  "roleNameOf (d\<lparr>dLocks := l\<rparr>) = roleNameOf d" "roleNameOf (d\<lparr>dRollback := r\<rparr>) = roleNameOf d"
  "roleNameOf (d\<lparr>dBindings := bs\<rparr>) = roleNameOf d"
  by (simp_all add: roleNameOf_def fun_eq_iff)

lemma ownerIDs_faults [simp]:
  "ownerIDs (d\<lparr>dFaults := x\<rparr>) = ownerIDs d" "ownerIDs (d\<lparr>dEvents := e\<rparr>) = ownerIDs d"
  "ownerIDs (d\<lparr>dLocks := l\<rparr>) = ownerIDs d" "ownerIDs (d\<lparr>dRollback := r\<rparr>) = ownerIDs d"
  by (simp_all add: ownerIDs_def ownerBindings_def fun_eq_iff)

text \<open>Every call to the database only consumes faults, and then fails or does its work.\<close>

lemma faulty_cases:
  obtains (failed) fs where "faulty e m d = (Inl e, d\<lparr>dFaults := fs\<rparr>)"
  | (worked) fs where "faulty e m d = m (d\<lparr>dFaults := fs\<rparr>)"
proof (cases "dFaults d")
  case Nil
  then have "faulty e m d = m (d\<lparr>dFaults := []\<rparr>)" by (cases d) (simp add: faulty_def)
  then show ?thesis by (rule worked)
next
  case (Cons f fs)
  then show ?thesis
    using failed [of fs] worked [of fs] by (cases f) (simp_all add: faulty_def)
qed

lemma query_success:
  assumes "query q d = (Inr x, d1)"
  shows "\<exists>fs. d1 = d\<lparr>dFaults := fs\<rparr> \<and> x = q (d\<lparr>dFaults := fs\<rparr>)"
  using assms unfolding query_def
  by (cases d rule: faulty_cases [of DriverError "\<lambda>d. (Inr (q d), d)"]) auto

lemma take_row_success:
  assumes "take_row q d = (Inr x, d1)"
  shows "\<exists>fs. d1 = d\<lparr>dFaults := fs\<rparr> \<and> q (d\<lparr>dFaults := fs\<rparr>) = Some x"
  using assms unfolding take_row_def
  by (auto elim!: andThen_successE dest!: query_success split: option.splits)

lemma exec_success:
  assumes "exec m d = (Inr x, d1)"
  shows "\<exists>fs. m (d\<lparr>dFaults := fs\<rparr>) = (Inr x, d1)"
  using assms unfolding exec_def
  by (cases d rule: faulty_cases [of DriverError m]) (auto split: prod.splits sum.splits)

lemma roleDao_Get_success:
  "roleDao_Get i d = (Inr r, d1) \<Longrightarrow>
     \<exists>fs. d1 = d\<lparr>dFaults := fs\<rparr> \<and> find (\<lambda>r. rID r = i) (liveRoles d) = Some r"
  by (auto simp: roleDao_Get_def dest!: take_row_success)

lemma roleDao_GetByName_success:
  "roleDao_GetByName n d = (Inr r, d1) \<Longrightarrow>
     \<exists>fs. d1 = d\<lparr>dFaults := fs\<rparr> \<and> find (\<lambda>r. rName r = n) (liveRoles d) = Some r"
  by (auto simp: roleDao_GetByName_def dest!: take_row_success)

lemma rbDao_Get_success:
  "rbDao_Get i d = (Inr b, d1) \<Longrightarrow>
     \<exists>fs. d1 = d\<lparr>dFaults := fs\<rparr> \<and> find (\<lambda>b. bID b = i) (liveBindings d) = Some b"
  by (auto simp: rbDao_Get_def dest!: take_row_success)

lemma userDao_Get_success:
  "userDao_Get i d = (Inr u, d1) \<Longrightarrow>
     \<exists>fs. d1 = d\<lparr>dFaults := fs\<rparr> \<and> find (\<lambda>u. uID u = i) (liveUsers d) = Some u"
  by (auto simp: userDao_Get_def dest!: take_row_success)

lemma rbDao_FindByUserID_success:
  "rbDao_FindByUserID u d = (Inr bs, d1) \<Longrightarrow>
     \<exists>fs. d1 = d\<lparr>dFaults := fs\<rparr> \<and> bs = filter (\<lambda>b. bUserID b = Some u) (liveBindings d)"
  by (auto simp: rbDao_FindByUserID_def dest!: query_success)

lemma rbDao_FindByGatewayID_success:
  "rbDao_FindByGatewayID g d = (Inr bs, d1) \<Longrightarrow>
     \<exists>fs. d1 = d\<lparr>dFaults := fs\<rparr> \<and> bs = filter (\<lambda>b. bGatewayID b = Some g) (liveBindings d)"
  by (auto simp: rbDao_FindByGatewayID_def dest!: query_success)

lemma rbDao_Delete_success:
  "rbDao_Delete i d = (Inr u, d1) \<Longrightarrow>
     \<exists>fs. d1 = d\<lparr>dFaults := fs, dBindings := softDelete i (dBindings d)\<rparr>"
  by (auto simp: rbDao_Delete_def dest!: exec_success split: if_splits)

lemma rbDao_Create_success:
  "rbDao_Create newID rb d = (Inr row, d1) \<Longrightarrow>
     \<exists>fs. d1 = d\<lparr>dFaults := fs, dBindings := dBindings d @ [row]\<rparr> \<and>
          row = (rb_BeforeCreate newID (d\<lparr>dFaults := fs\<rparr>) rb)\<lparr>bCreatedAt := dClock d, bDeleted := False\<rparr>"
  by (auto simp: rbDao_Create_def Let_def dest!: exec_success)

lemma rbDao_Update_success:
  "rbDao_Update rb d = (Inr row, d1) \<Longrightarrow> \<exists>b\<in>set (dBindings d). bID b = bID rb \<Longrightarrow>
     row = rb \<and> (\<exists>fs. d1 = d\<lparr>dFaults := fs,
       dBindings := map (\<lambda>b. if bID b = bID rb then rb else b) (dBindings d)\<rparr>)"
  by (auto simp: rbDao_Update_def saveRow_def dest!: exec_success)

lemma events_Create_success:
  "events_Create i t d = (Inr u, d1) \<Longrightarrow>
     \<exists>fs. d1 = d\<lparr>dFaults := fs, dEvents := dEvents d @ [(i, t)]\<rparr>"
  unfolding events_Create_def
  by (cases d rule: faulty_cases [of EventFailed "\<lambda>d. (Inr (), d\<lparr>dEvents := dEvents d @ [(i, t)]\<rparr>)"]) auto

lemmas dao_success = roleDao_Get_success roleDao_GetByName_success rbDao_Get_success
  userDao_Get_success rbDao_FindByUserID_success rbDao_FindByGatewayID_success rbDao_Delete_success
  rbDao_Create_success events_Create_success

section \<open>The loop that deletes bindings\<close>

definition softDeleteAll :: "string set \<Rightarrow> RoleBinding list \<Rightarrow> RoleBinding list" where
  "softDeleteAll S = map (\<lambda>b. if bID b \<in> S then b\<lparr>bDeleted := True\<rparr> else b)"

lemma softDeleteAll_empty [simp]: "softDeleteAll {} bs = bs"
  by (simp add: softDeleteAll_def)

lemma softDelete_softDeleteAll:
  "softDeleteAll S (softDelete i bs) = softDeleteAll (insert i S) bs"
  by (auto simp: softDeleteAll_def softDelete_def)

lemma filter_live_softDeleteAll:
  "filter (\<lambda>b. \<not> bDeleted b) (softDeleteAll S bs) = filter (\<lambda>b. \<not> bDeleted b \<and> bID b \<notin> S) bs"
  by (induction bs) (auto simp: softDeleteAll_def)

lemma live_softDeleteAll:
  "liveBindings (d\<lparr>dBindings := softDeleteAll S (dBindings d)\<rparr>) =
     filter (\<lambda>b. bID b \<notin> S) (liveBindings d)"
  by (simp add: liveBindings_def filter_live_softDeleteAll conj_commute)

lemma ids_softDeleteAll [simp]: "map bID (softDeleteAll S bs) = map bID bs"
  by (induction bs) (auto simp: softDeleteAll_def)

lemma softDelete_single: "softDelete i bs = softDeleteAll {i} bs"
  by (simp add: softDelete_def softDeleteAll_def)

lemma deleteLoop_success:
  assumes "forEach (deleteWithEvent msg) xs d = (Inr u, d1)"
  shows "\<exists>fs. d1 = d\<lparr>dFaults := fs, dBindings := softDeleteAll (bID ` set xs) (dBindings d),
           dEvents := dEvents d @ map (\<lambda>b. (bID b, DeleteEventType)) xs\<rparr>"
  using assms
proof (induction xs arbitrary: d)
  case Nil
  then show ?case by (intro exI [of _ "dFaults d"]) (cases d, simp)
next
  case (Cons x xs)
  then obtain d' where one: "deleteWithEvent msg x d = (Inr (), d')"
    and rest: "forEach (deleteWithEvent msg) xs d' = (Inr u, d1)"
    by (auto elim!: andThen_successE)
  from one have "d' = d\<lparr>dFaults := dFaults d', dBindings := softDelete (bID x) (dBindings d),
      dEvents := dEvents d @ [(bID x, DeleteEventType)]\<rparr>"
    by (auto simp: deleteWithEvent_def emitBindingEvent_def elim!: andThen_successE
        dest!: rbDao_Delete_success events_Create_success)
  then obtain fs where d': "d' = d\<lparr>dFaults := fs, dBindings := softDelete (bID x) (dBindings d),
      dEvents := dEvents d @ [(bID x, DeleteEventType)]\<rparr>" by blast
  from Cons.IH [OF rest] obtain fs' where
    "d1 = d'\<lparr>dFaults := fs', dBindings := softDeleteAll (bID ` set xs) (dBindings d'),
       dEvents := dEvents d' @ map (\<lambda>b. (bID b, DeleteEventType)) xs\<rparr>" by blast
  then show ?case by (intro exI [of _ fs']) (simp add: d' softDelete_softDeleteAll)
qed

section \<open>Relations every call respects\<close>

text \<open>
  The contract of a relation on databases that is indifferent to the fault schedule, the rollback
  mark, the events and the locks. Every read, every event and every lock respects such a relation;
  an operation does when its writes do.
\<close>

locale db_order = step_order R for R :: "db \<Rightarrow> db \<Rightarrow> bool" +
  assumes quiet: "R d (d\<lparr>dFaults := fs\<rparr>)" "R d (d\<lparr>dRollback := r\<rparr>)"
    "R d (d\<lparr>dEvents := es\<rparr>)" "R d (d\<lparr>dLocks := ls\<rparr>)"
begin

lemma steps_faulty:
  assumes "\<And>d. R d (snd (m d))"
  shows "steps R (faulty e m)"
  unfolding steps_def
proof
  fix d :: db
  show "R d (snd (faulty e m d))"
    by (cases d rule: faulty_cases [of e m]) (use quiet(1) assms trans in \<open>metis snd_conv\<close>)+
qed

lemma steps_query [intro]: "steps R (query q)"
  unfolding query_def by (rule steps_faulty) (simp add: refl)

lemma steps_take_row [intro]: "steps R (take_row q)"
  unfolding take_row_def by (rule steps_andThen) (auto split: option.split)

lemma steps_exec:
  assumes "\<And>d. R d (snd (m d))"
  shows "steps R (exec m)"
  unfolding steps_def
proof
  fix d :: db
  obtain r d1 where run: "faulty DriverError m d = (r, d1)" by force
  with steps_faulty [OF assms, of DriverError] have "R d d1" by (metis steps_def snd_conv)
  then show "R d (snd (exec m d))"
    by (cases r) (auto simp: exec_def run intro: trans quiet(2))
qed

lemma steps_dao [intro]:
  "steps R (roleDao_Get i)" "steps R (roleDao_GetByName n)" "steps R (roleDao_FindByIDs is)"
  "steps R (rbDao_Get i)" "steps R (userDao_Get i)" "steps R (rbDao_FindByUserID u)"
  "steps R (rbDao_FindByGatewayID g)" "steps R (rbDao_CountOwnersByGatewayID g)"
  by (auto simp: dao_defs)

lemma steps_events [intro]: "steps R (events_Create i t)"
  unfolding events_Create_def by (rule steps_faulty) (simp add: quiet)

lemma steps_emit [intro]: "steps R (emitBindingEvent i t)"
  unfolding emitBindingEvent_def by (rule steps_events)

lemma steps_withLock [intro]:
  assumes "steps R body"
  shows "steps R (withLock f g i body)"
proof -
  have "steps R (acquireLock i)"
    unfolding acquireLock_def by (rule steps_faulty) (simp add: quiet)
  moreover have "steps R (\<lambda>d. case body d of (r, d1) \<Rightarrow> (r, releaseLock i d1))"
    unfolding steps_def
  proof
    fix d :: db
    obtain r d1 where run: "body d = (r, d1)" by force
    with assms have "R d d1" by (metis steps_def snd_conv)
    then show "R d (snd (case body d of (r, d1) \<Rightarrow> (r, releaseLock i d1)))"
      by (auto simp: run releaseLock_def intro: trans quiet(4))
  qed
  ultimately show ?thesis by (simp add: withLock_def assms steps_andThen steps_mapErr)
qed

lemma steps_anyRole [intro]: "steps R (anyRole P Q bs)"
  by (induction bs) (auto intro!: steps_andThen split: sum.split)

lemma steps_collectSynced [intro]: "steps R (collectSynced bs acc)"
  by (induction bs arbitrary: acc) (auto intro!: steps_andThen split: sum.split)

lemma steps_gatewayBindingsForUser [intro]: "steps R (gatewayBindingsForUser u g)"
  unfolding gatewayBindingsForUser_def by (auto intro!: steps_andThen)

lemma steps_deleteWithEvent [intro]:
  "steps R (rbDao_Delete (bID b)) \<Longrightarrow> steps R (deleteWithEvent msg b)"
  unfolding deleteWithEvent_def by (auto intro!: steps_andThen steps_mapErr)

lemma steps_authorizeWrite [intro]: "steps R (authorizeWrite c wop n x)"
proof -
  have "steps R (validateCallerOwnsGateway c g)" for g
    unfolding validateCallerOwnsGateway_def Let_def
    by (auto intro!: steps_andThen split: option.split)
  moreover have "steps R (validateCallerCanGrantCIFederationAdmin c)"
    unfolding validateCallerCanGrantCIFederationAdmin_def Let_def by (auto intro!: steps_andThen)
  moreover have "steps R (guardLastGatewayOwner x)"
    unfolding guardLastGatewayOwner_def by (auto intro!: steps_andThen split: option.split)
  ultimately show ?thesis unfolding authorizeWrite_def by (simp add: steps_andThen)
qed

lemma steps_deleteCommit:
  "steps R (rbDao_Delete i) \<Longrightarrow> steps R (deleteCommit s c i x r)"
  unfolding deleteCommit_def Let_def
  by (auto intro!: steps_andThen steps_mapErr steps_withLock split: option.split)

lemma steps_rbService_Delete:
  "steps R (rbDao_Delete i) \<Longrightarrow> steps R (rbService_Delete s c i)"
  unfolding rbService_Delete_def deleteRead_def rbService_Get_def
  by (auto intro!: steps_andThen steps_mapErr steps_deleteCommit split: prod.split)

lemma steps_SetGatewayRole:
  assumes "\<And>x. steps R (rbDao_Create newID (newBinding x ScopeGateway (Some u) (Some g)))"
    and "\<And>i. steps R (rbDao_Delete i)"
    and "\<And>b. steps R (rbDao_Update b)"
  shows "steps R (SetGatewayRole newID u g n)"
  unfolding SetGatewayRole_def createGatewayRole_def convergeGatewayRole_def
  by (auto intro!: assms steps_andThen steps_mapErr steps_forEach split: list.split)

end

section \<open>Well-formed tables\<close>

text \<open>
  What the schema guarantees: primary keys are unique, role names are unique. Ids
  that are generated are new.
\<close>

definition wf_db :: "db \<Rightarrow> bool" where
  "wf_db d \<longleftrightarrow> distinct (map bID (dBindings d)) \<and>
     distinct (map rID (liveRoles d)) \<and> distinct (map rName (liveRoles d))"

definition fresh :: "(db \<Rightarrow> string) \<Rightarrow> bool" where
  "fresh newID \<longleftrightarrow> (\<forall>d. newID d \<noteq> [] \<and> newID d \<notin> bID ` set (dBindings d))"

definition wf_step :: "db \<Rightarrow> db \<Rightarrow> bool" where
  "wf_step d d1 \<longleftrightarrow> dRoles d1 = dRoles d \<and> dUsers d1 = dUsers d \<and> (wf_db d \<longrightarrow> wf_db d1)"

interpretation wf: db_order wf_step
  by unfold_locales (auto simp: wf_step_def wf_db_def)

lemma wf_step_Delete [intro]: "steps wf_step (rbDao_Delete i)"
  unfolding rbDao_Delete_def
  by (intro wf.steps_exec) (simp add: wf_step_def wf_db_def softDelete_single)

lemma wf_step_Create [intro]:
  assumes "fresh newID" "bID rb = []"
  shows "steps wf_step (rbDao_Create newID rb)"
proof -
  have new: "newID d \<notin> bID ` set (dBindings d)" for d using assms(1) by (simp add: fresh_def)
  show ?thesis unfolding rbDao_Create_def
    by (rule wf.steps_exec)
      (use assms(2) new in \<open>auto simp: wf_step_def wf_db_def Let_def rb_BeforeCreate_def\<close>)
qed

lemma wf_step_Update [intro]: "steps wf_step (rbDao_Update rb)"
proof -
  have "map bID (map (\<lambda>b. if bID b = bID rb then rb else b) bs) = map bID bs" for bs
    by (induction bs) auto
  then have "distinct (map bID (saveRow rb bs)) = distinct (map bID bs)" for bs
    by (auto simp: saveRow_def simp del: map_map)
  then show ?thesis unfolding rbDao_Update_def
    by (intro wf.steps_exec) (simp add: wf_step_def wf_db_def)
qed

section \<open>Properties of the service\<close>

lemma rb_service_wf:
  assumes "fresh newID" and "bID rb = []"
  shows "steps wf_step (CreateGatewayOwnerBinding newID u g) \<and>
         steps wf_step (SyncJWTRoles order newID u js) \<and>
         steps wf_step (rbService_Create s newID c rb) \<and>
         steps wf_step (rbService_Delete s c i) \<and>
         steps wf_step (SetGatewayRole newID u g n) \<and>
         steps wf_step (RevokeGatewayAccess u g) \<and>
         steps wf_step (DeleteGatewayBindings g)"
proof (intro conjI)
  have new: "bID (newBinding r sc x y) = []" for r sc x y by (simp add: newBinding_def)
  have create: "steps wf_step (rbDao_Create newID (newBinding r sc x y))" for r sc x y
    using assms(1) new by blast
  show "steps wf_step (CreateGatewayOwnerBinding newID u g)"
    unfolding CreateGatewayOwnerBinding_def by (auto intro!: wf.steps_andThen create)
  have "steps wf_step (syncCreate newID u m r)" for m r
    unfolding syncCreate_def by (auto intro!: wf.steps_andThen wf.steps_mapErr create)
  moreover have "steps wf_step (syncDelete S m r)" for S m r
    unfolding syncDelete_def by (auto split: option.split)
  ultimately show "steps wf_step (SyncJWTRoles order newID u js)"
    unfolding SyncJWTRoles_def Let_def by (auto intro!: wf.steps_andThen wf.steps_forEach)
  have "steps wf_step (validateTargetUser s rb)"
    unfolding validateTargetUser_def by (auto intro!: wf.steps_andThen split: option.split)
  then show "steps wf_step (rbService_Create s newID c rb)"
    unfolding rbService_Create_def using assms
    by (auto intro!: wf.steps_andThen wf.steps_mapErr)
  show "steps wf_step (rbService_Delete s c i)"
    by (rule wf.steps_rbService_Delete) (rule wf_step_Delete)
  show "steps wf_step (SetGatewayRole newID u g n)"
    by (rule wf.steps_SetGatewayRole) (auto intro: create)
  show "steps wf_step (RevokeGatewayAccess u g)"
    unfolding RevokeGatewayAccess_def by (auto intro!: wf.steps_andThen wf.steps_mapErr)
  show "steps wf_step (DeleteGatewayBindings g)"
    unfolding DeleteGatewayBindings_def by (auto intro!: wf.steps_andThen)
qed

text \<open>
  Every operation of the service, whatever it returns and whichever calls fail, keeps the
  tables well-formed and touches neither the roles nor the users.
\<close>

theorem rb_service_keeps_wf:
  assumes "fresh newID" and "bID rb = []"
  shows "steps wf_step (CreateGatewayOwnerBinding newID u g) \<and>
         steps wf_step (SyncJWTRoles order newID u js) \<and>
         steps wf_step (rbService_Create s newID c rb) \<and>
         steps wf_step (rbService_Delete s c i) \<and>
         steps wf_step (SetGatewayRole newID u g n) \<and>
         steps wf_step (RevokeGatewayAccess u g) \<and>
         steps wf_step (DeleteGatewayBindings g)"
  using rb_service_wf [OF assms] .

text \<open>The live bindings of one user on one gateway, and everybody else's.\<close>

definition userOn :: "db \<Rightarrow> string \<Rightarrow> string \<Rightarrow> RoleBinding list" where
  "userOn d u g = filter (\<lambda>b. bUserID b = Some u \<and> onUserGateway g b) (liveBindings d)"

definition others :: "db \<Rightarrow> string \<Rightarrow> string \<Rightarrow> RoleBinding list" where
  "others d u g = filter (\<lambda>b. \<not> (bUserID b = Some u \<and> onUserGateway g b)) (liveBindings d)"

lemma gatewayBindingsForUser_success:
  "gatewayBindingsForUser u g d = (Inr bs, d1) \<Longrightarrow> \<exists>fs. d1 = d\<lparr>dFaults := fs\<rparr> \<and> bs = userOn d u g"
  by (auto simp: gatewayBindingsForUser_def userOn_def elim!: andThen_successE
      dest!: rbDao_FindByUserID_success intro: filter_cong)

lemma wf_db_live:
  "wf_db d \<Longrightarrow> distinct (map bID (liveBindings d))"
  by (auto simp: wf_db_def liveBindings_def distinct_map_filter)

lemma filter_only:
  assumes "distinct xs" "x \<in> set xs" "\<And>y. y \<in> set xs \<Longrightarrow> P y \<longleftrightarrow> y = x"
  shows "filter P xs = [x]"
proof -
  from assms(3) have "filter P xs = filter (\<lambda>y. y = x) xs" by (rule filter_cong [OF HOL.refl])
  also from assms(1,2) have "\<dots> = [x]"
    by (induction xs) (auto simp: filter_empty_conv)
  finally show ?thesis .
qed

lemma distinct_map_sort_key: "distinct (map f (sort_key k xs)) = distinct (map f xs)"
  by (metis mset_eq_imp_distinct_iff mset_map mset_sort)

lemma sort_key_head_only:
  assumes "distinct (map f xs)" "sort_key k xs = x # ys"
  shows "filter (\<lambda>y. f y \<notin> f ` set ys) xs = [x]"
proof (rule filter_only)
  from assms(2) have xs: "set xs = insert x (set ys)" by (metis set_sort list.simps(15))
  from assms have d: "distinct (map f (x # ys))" by (metis distinct_map_sort_key)
  from assms(1) show "distinct xs" by (simp add: distinct_map)
  from xs show "x \<in> set xs" by simp
  show "f y \<notin> f ` set ys \<longleftrightarrow> y = x" if "y \<in> set xs" for y
    using that d xs by auto
qed

text \<open>After the surplus bindings are gone exactly the kept one is left.\<close>

lemma converge_surplus:
  assumes "wf_db d" "sort_key (\<lambda>b. (bCreatedAt b, bID b)) (userOn d u g) = keep # surplus"
    and "d1 = d\<lparr>dFaults := fs, dBindings := softDeleteAll (bID ` set surplus) (dBindings d), dEvents := es\<rparr>"
  shows "userOn d1 u g = [keep] \<and> others d1 u g = others d u g \<and> keep \<in> set (userOn d u g)"
proof -
  have live: "liveBindings d1 = filter (\<lambda>b. bID b \<notin> bID ` set surplus) (liveBindings d)"
    by (simp add: assms(3) liveBindings_def filter_live_softDeleteAll conj_commute)
  from wf_db_live [OF assms(1)] have "distinct (map bID (userOn d u g))"
    unfolding userOn_def by (simp add: distinct_map_filter)
  from sort_key_head_only [OF this assms(2)]
  have one: "filter (\<lambda>b. bID b \<notin> bID ` set surplus) (userOn d u g) = [keep]" .
  then have "userOn d1 u g = [keep]"
    unfolding userOn_def live by (simp add: conj_ac)
  moreover have "others d1 u g = others d u g"
  proof -
    have "bID b \<notin> bID ` set surplus"
      if "b \<in> set (liveBindings d)" "\<not> (bUserID b = Some u \<and> onUserGateway g b)" for b
    proof
      assume "bID b \<in> bID ` set surplus"
      then obtain x where x: "x \<in> set surplus" "bID x = bID b" by auto
      with assms(2) have "x \<in> set (userOn d u g)" by (metis set_sort list.set_intros(2))
      with wf_db_live [OF assms(1)] that(1) x have "x = b"
        by (auto simp: userOn_def distinct_map inj_on_def)
      with \<open>x \<in> set (userOn d u g)\<close> that(2) show False by (simp add: userOn_def)
    qed
    then show ?thesis unfolding others_def live by (auto intro: filter_cong)
  qed
  moreover from assms(2) have "keep \<in> set (userOn d u g)"
    by (metis set_sort list.set_intros(1))
  ultimately show ?thesis by blast
qed

lemma find_eq_Some: "find P xs = Some x \<Longrightarrow> x \<in> set xs \<and> P x"
  by (auto simp: find_Some_iff)

lemma find_key:
  "distinct (map f xs) \<Longrightarrow> x \<in> set xs \<Longrightarrow> find (\<lambda>y. f y = f x) xs = Some x"
  by (induction xs) auto

text \<open>The row that is written back keeps its place; every other row is untouched.\<close>

lemma replace_row:
  assumes "wf_db d" "userOn d u g = [keep]" "keep' = keep\<lparr>bRoleID := r\<rparr>"
    and "d1 = d\<lparr>dFaults := fs, dBindings := map (\<lambda>b. if bID b = bID keep' then keep' else b) (dBindings d),
           dEvents := es\<rparr>"
  shows "userOn d1 u g = [keep'] \<and> others d1 u g = others d u g"
proof -
  have keep: "keep \<in> set (liveBindings d)" "bUserID keep = Some u" "onUserGateway g keep"
    using assms(2) by (metis (mono_tags) list.set_intros(1) mem_Collect_eq set_filter userOn_def)+
  have same: "b = keep" if "b \<in> set (dBindings d)" "bID b = bID keep" for b
    using that keep(1) assms(1) by (auto simp: wf_db_def liveBindings_def distinct_map inj_on_def)
  have live: "liveBindings d1 = map (\<lambda>b. if bID b = bID keep then keep' else b) (liveBindings d)"
    unfolding liveBindings_def assms(4) using same keep(1)
    by (auto simp: filter_map o_def assms(3) liveBindings_def intro!: map_cong filter_cong)
  have rel: "bUserID keep' = Some u" "onUserGateway g keep'"
    using keep assms(3) by (simp_all add: onUserGateway_def)
  have sub: "set (liveBindings d) \<subseteq> set (dBindings d)" by (auto simp: liveBindings_def)
  have "userOn d1 u g = map (\<lambda>b. if bID b = bID keep then keep' else b) (userOn d u g)"
    unfolding userOn_def live filter_map using rel same keep sub
    by (auto simp: o_def intro!: map_cong filter_cong)
  moreover have "others d1 u g = map (\<lambda>b. if bID b = bID keep then keep' else b) (others d u g)"
    unfolding others_def live filter_map using rel same keep sub
    by (auto simp: o_def intro!: map_cong filter_cong)
  moreover have "map (\<lambda>b. if bID b = bID keep then keep' else b) (others d u g) = others d u g"
    using same keep sub by (intro map_idI) (auto simp: others_def)
  ultimately show ?thesis using assms(2) by simp
qed

lemma createGatewayRole_success:
  assumes "createGatewayRole newID u g role d = (Inr rb, d')" "userOn d u g = []"
  shows "userOn d' u g = [rb] \<and> others d' u g = others d u g \<and> bRoleID rb = rID role \<and>
         dRoles d' = dRoles d"
proof -
  from assms(1) obtain fs d1 where
      row: "rb = (rb_BeforeCreate newID (d\<lparr>dFaults := fs\<rparr>)
              (newBinding (rID role) ScopeGateway (Some u) (Some g)))\<lparr>bCreatedAt := dClock d, bDeleted := False\<rparr>"
    and d1: "d1 = d\<lparr>dFaults := fs, dBindings := dBindings d @ [rb]\<rparr>"
    and ev: "events_Create (bID rb) CreateEventType d1 = (Inr (), d')"
    by (auto simp: createGatewayRole_def emitBindingEvent_def elim!: andThen_successE
        dest!: rbDao_Create_success)
  from events_Create_success [OF ev] have live: "liveBindings d' = liveBindings d @ [rb]"
    and roles: "dRoles d' = dRoles d"
    using row by (auto simp: d1 liveBindings_def)
  have "bUserID rb = Some u" "onUserGateway g rb" "bRoleID rb = rID role"
    by (simp_all add: row rb_BeforeCreate_def newBinding_def onUserGateway_def)
  with assms(2) roles show ?thesis by (simp add: userOn_def others_def live)
qed

lemma convergeGatewayRole_success:
  assumes wf: "wf_db d"
    and sorted: "sort_key (\<lambda>b. (bCreatedAt b, bID b)) (userOn d u g) = keep # surplus"
    and run: "convergeGatewayRole role keep surplus d = (Inr rb, d')"
  shows "userOn d' u g = [rb] \<and> others d' u g = others d u g \<and> bRoleID rb = rID role \<and>
         dRoles d' = dRoles d \<and> bID rb \<in> bID ` set (userOn d u g)"
proof -
  let ?new = "keep\<lparr>bRoleID := rID role\<rparr>"
  from run obtain d1 where
      loop: "forEach (deleteWithEvent ''unable to delete duplicate binding: %s'') surplus d = (Inr (), d1)"
    and cont: "(if bRoleID keep = rID role then ret keep
          else andThen (mapErr (Handled ''HandleUpdateError'' [''RoleBinding'']) (rbDao_Update ?new)) (\<lambda>updated.
            andThen (emitBindingEvent (bID updated) UpdateEventType) (\<lambda>_. ret updated))) d1 = (Inr rb, d')"
    unfolding convergeGatewayRole_def by (auto elim!: andThen_successE)
  from deleteLoop_success [OF loop] obtain fs es where d1: "d1 = d\<lparr>dFaults := fs,
      dBindings := softDeleteAll (bID ` set surplus) (dBindings d), dEvents := es\<rparr>" by blast
  from converge_surplus [OF wf sorted d1]
  have one: "userOn d1 u g = [keep]" "others d1 u g = others d u g" "keep \<in> set (userOn d u g)" by auto
  show ?thesis
  proof (cases "bRoleID keep = rID role")
    case True
    with cont one show ?thesis by (auto simp: d1)
  next
    case False
    have "set (userOn d1 u g) \<subseteq> set (dBindings d1)" by (auto simp: userOn_def liveBindings_def)
    with one(1) have ex: "\<exists>b\<in>set (dBindings d1). bID b = bID ?new" by force
    from cont False obtain d2 where up: "rbDao_Update ?new d1 = (Inr rb, d2)"
      and ev: "events_Create (bID rb) UpdateEventType d2 = (Inr (), d')"
      by (auto simp: emitBindingEvent_def elim!: andThen_successE)
    from rbDao_Update_success [OF up ex] events_Create_success [OF ev]
    have "rb = ?new \<and> d' = d1\<lparr>dFaults := dFaults d',
        dBindings := map (\<lambda>b. if bID b = bID rb then rb else b) (dBindings d1), dEvents := dEvents d'\<rparr>"
      by auto
    then obtain fs2 es2 where rb: "rb = ?new" and d': "d' = d1\<lparr>dFaults := fs2,
        dBindings := map (\<lambda>b. if bID b = bID rb then rb else b) (dBindings d1), dEvents := es2\<rparr>"
      by blast
    have "wf_db d1" using wf by (simp add: d1 wf_db_def)
    from replace_row [OF this one(1) rb d'] one rb show ?thesis by (auto simp: d' d1)
  qed
qed

lemma query_run:
  obtains (failed) fs where "query q d = (Inl DriverError, d\<lparr>dFaults := fs\<rparr>)"
  | (worked) fs where "query q d = (Inr (q (d\<lparr>dFaults := fs\<rparr>)), d\<lparr>dFaults := fs\<rparr>)"
  unfolding query_def by (cases d rule: faulty_cases [of DriverError "\<lambda>d. (Inr (q d), d)"]) auto

text \<open>\<open>SetGatewayRole\<close> fails before it writes anything, or it reads the role and the bindings and goes on.\<close>

lemma SetGatewayRole_cases:
  obtains (early) e fs where "SetGatewayRole newID u g n d = (Inl e, d\<lparr>dFaults := fs\<rparr>)"
  | (late) role fs where "find (\<lambda>r. rName r = n) (liveRoles d) = Some role"
      "SetGatewayRole newID u g n d =
        (case sort_key (\<lambda>b. (bCreatedAt b, bID b)) (userOn d u g) of
           [] \<Rightarrow> createGatewayRole newID u g role
         | keep # surplus \<Rightarrow> convergeGatewayRole role keep surplus) (d\<lparr>dFaults := fs\<rparr>)"
proof (cases "n \<noteq> RoleGatewayOwner \<and> n \<noteq> RoleGatewayAdmin \<and> n \<noteq> RoleGatewayViewer")
  case True
  then have "SetGatewayRole newID u g n d = (Inl (Validation ''invalid gateway role: %q'' [n]), d\<lparr>dFaults := dFaults d\<rparr>)"
    by (simp add: SetGatewayRole_def)
  then show ?thesis by (rule early)
next
  case False
  note set = SetGatewayRole_def [of newID u g n, unfolded if_not_P [OF False]]
  show ?thesis
  proof (cases rule: query_run [of "\<lambda>d. find (\<lambda>r. rName r = n) (liveRoles d)" d])
    case (failed fs)
    with early [of _ fs] show ?thesis
      by (simp add: set roleDao_GetByName_def take_row_def andThen_def mapErr_def)
  next
    case (worked fs)
    show ?thesis
    proof (cases "find (\<lambda>r. rName r = n) (liveRoles d)")
      case None
      with worked early [of _ fs] show ?thesis
        by (simp add: set roleDao_GetByName_def take_row_def andThen_def mapErr_def)
    next
      case (Some role)
      with worked have step: "mapErr e (roleDao_GetByName n) d = (Inr role, d\<lparr>dFaults := fs\<rparr>)" for e :: "err \<Rightarrow> err"
        by (simp add: roleDao_GetByName_def take_row_def andThen_def mapErr_def)
      show ?thesis
      proof (cases rule: query_run [of "\<lambda>d. filter (\<lambda>b. bUserID b = Some u) (liveBindings d)" "d\<lparr>dFaults := fs\<rparr>"])
        case (failed fs')
        with step early [of _ fs'] show ?thesis
          by (simp add: set andThen_def [of "mapErr _ _"] gatewayBindingsForUser_def
              rbDao_FindByUserID_def andThen_def mapErr_def)
      next
        case (worked fs')
        then have "mapErr e (gatewayBindingsForUser u g) (d\<lparr>dFaults := fs\<rparr>) =
            (Inr (userOn d u g), d\<lparr>dFaults := fs'\<rparr>)" for e :: "err \<Rightarrow> err"
          by (simp add: gatewayBindingsForUser_def rbDao_FindByUserID_def andThen_def mapErr_def userOn_def
              conj_commute)
        with step Some show ?thesis by (intro late [of role fs']) (simp_all add: set andThen_Inr)
      qed
    qed
  qed
qed

lemma SetGatewayRole_effect:
  assumes "wf_db d" and "fresh newID"
    and run: "SetGatewayRole newID u g roleName d = (Inr rb, d')"
  shows "userOn d' u g = [rb] \<and> roleNameOf d' rb = Some roleName \<and>
         others d' u g = others d u g \<and>
         (userOn d u g \<noteq> [] \<longrightarrow> bID rb \<in> bID ` set (userOn d u g))"
proof -
  have same: "userOn (d\<lparr>dFaults := fs\<rparr>) u g = userOn d u g" "others (d\<lparr>dFaults := fs\<rparr>) u g = others d u g"
    "wf_db (d\<lparr>dFaults := fs\<rparr>)" for fs
    using assms(1) by (simp_all add: userOn_def others_def wf_db_def)
  show ?thesis
  proof (cases rule: SetGatewayRole_cases [of newID u g roleName d])
    case (early e fs)
    with run show ?thesis by simp
  next
    case (late role fs)
    have name: "roleNameOf d' b = Some roleName" if "bRoleID b = rID role" "dRoles d' = dRoles d" for b
      using that find_eq_Some [OF late(1)] assms(1) find_key [of rID "liveRoles d" role]
      by (simp add: roleNameOf_def wf_db_def liveRoles_def)
    show ?thesis
    proof (cases "sort_key (\<lambda>b. (bCreatedAt b, bID b)) (userOn d u g)")
      case Nil
      then have "userOn d u g = []" by (metis set_empty set_sort)
      with run late(2) Nil createGatewayRole_success [of newID u g role "d\<lparr>dFaults := fs\<rparr>" rb d'] name same
      show ?thesis by simp
    next
      case (Cons keep surplus)
      with run late(2) convergeGatewayRole_success [OF same(3), of fs u g keep surplus role rb d'] name same
      show ?thesis by simp
    qed
  qed
qed

text \<open>
  C26: a successful \<open>SetGatewayRole\<close> converges: afterwards the user has exactly one live binding on
  the gateway, the one returned, and it names the requested role; the bindings of every other user
  and of every other gateway are exactly what they were; and when the user already had a binding,
  the one kept is one of those, so it is changed in place.
\<close>

theorem SetGatewayRole_converges:
  assumes "wf_db d" and "fresh newID"
    and run: "SetGatewayRole newID u g roleName d = (Inr rb, d')"
  shows "userOn d' u g = [rb] \<and> roleNameOf d' rb = Some roleName \<and>
         others d' u g = others d u g \<and>
         (userOn d u g \<noteq> [] \<longrightarrow> bID rb \<in> bID ` set (userOn d u g))"
  using SetGatewayRole_effect [OF assms] .

text \<open>A sample database, and a generator of new ids.\<close>

definition freshID :: "db \<Rightarrow> string" where
  "freshID d = ''n'' @ concat (map bID (dBindings d))"

lemma fresh_freshID: "fresh freshID"
proof -
  have "length (bID b) \<le> length (concat (map bID bs))" if "b \<in> set bs" for b bs
    using that by (induction bs) auto
  then have "freshID d \<noteq> bID b" if "b \<in> set (dBindings d)" for d b
    using that by (metis freshID_def append_Cons append_Nil length_Cons not_less_eq_eq order_refl)
  then show ?thesis by (auto simp: fresh_def freshID_def)
qed

definition sampleRoles :: "Role list" where
  "sampleRoles = map (\<lambda>n. \<lparr>rID = ''r-'' @ n, rName = n, rDeleted = False\<rparr>)
     [RoleGatewayOwner, RoleGatewayAdmin, RoleGatewayViewer, RolePlatformAdmin, RoleGatewayCreator,
      RoleCIFederationAdmin, RoleCIFederationGrantor]"

definition sampleBinding :: "string \<Rightarrow> string \<Rightarrow> string \<Rightarrow> string \<Rightarrow> RoleBinding" where
  "sampleBinding i n u g =
     (newBinding (''r-'' @ n) (if g = [] then ScopeGlobal else ScopeGateway) (Some u)
        (if g = [] then None else Some g))\<lparr>bID := i\<rparr>"

definition sampleDB :: "RoleBinding list \<Rightarrow> db" where
  "sampleDB bs = \<lparr>dBindings = bs, dRoles = sampleRoles,
     dUsers = map (\<lambda>u. \<lparr>uID = u, uUsername = u, uName = None, uEmail = None, uDeleted = False\<rparr>)
       [''u1'', ''u2'', ''u3''],
     dEvents = [], dLocks = [], dRollback = False, dFaults = [], dClock = 7\<rparr>"

definition twoOwners :: db where
  "twoOwners = sampleDB [sampleBinding ''b1'' RoleGatewayOwner ''u1'' ''g1'',
     sampleBinding ''b2'' RoleGatewayViewer ''u2'' ''g1'', sampleBinding ''b3'' RoleGatewayOwner ''u2'' ''g1'']"

lemma wf_sampleDB: "distinct (map bID bs) \<Longrightarrow> wf_db (sampleDB bs)"
  by (simp add: wf_db_def sampleDB_def sampleRoles_def liveRoles_def)

lemma wf_twoOwners: "wf_db twoOwners"
  unfolding twoOwners_def by (rule wf_sampleDB) (simp add: sampleBinding_def)

theorem rb_service_keeps_wf_witness:
  "steps wf_step (SetGatewayRole freshID ''u2'' ''g1'' RoleGatewayAdmin) \<and>
   wf_db (snd (SetGatewayRole freshID ''u2'' ''g1'' RoleGatewayAdmin twoOwners))"
proof -
  have "bID (newBinding [] [] None None) = []" by (simp add: newBinding_def)
  from rb_service_keeps_wf [OF fresh_freshID this]
  have s: "steps wf_step (SetGatewayRole freshID ''u2'' ''g1'' RoleGatewayAdmin)" by blast
  with wf_twoOwners show ?thesis by (auto simp: steps_def wf_step_def)
qed

lemma set_role_sample:
  "fst (SetGatewayRole freshID ''u2'' ''g1'' RoleGatewayAdmin twoOwners) =
     Inr (sampleBinding ''b2'' RoleGatewayAdmin ''u2'' ''g1'')"
  by code_simp

theorem SetGatewayRole_converges_witness:
  "\<exists>d'. SetGatewayRole freshID ''u2'' ''g1'' RoleGatewayAdmin twoOwners =
      (Inr (sampleBinding ''b2'' RoleGatewayAdmin ''u2'' ''g1''), d') \<and>
    userOn d' ''u2'' ''g1'' = [sampleBinding ''b2'' RoleGatewayAdmin ''u2'' ''g1'']"
proof -
  obtain d' where run: "SetGatewayRole freshID ''u2'' ''g1'' RoleGatewayAdmin twoOwners =
      (Inr (sampleBinding ''b2'' RoleGatewayAdmin ''u2'' ''g1''), d')"
    using set_role_sample by (metis prod.collapse)
  with SetGatewayRole_converges [OF wf_twoOwners fresh_freshID run] show ?thesis by blast
qed

subsection \<open>Without faults every call succeeds\<close>

lemma no_fault_run:
  assumes "dFaults d = []"
  shows "query q d = (Inr (q d), d)"
    and "take_row p d = (case p d of None \<Rightarrow> (Inl RecordNotFound, d) | Some x \<Rightarrow> (Inr x, d))"
    and "rbDao_Delete i d = (if i = [] then (Inl MissingWhereClause, d\<lparr>dRollback := True\<rparr>)
           else (Inr (), d\<lparr>dBindings := softDelete i (dBindings d)\<rparr>))"
    and "events_Create i t d = (Inr (), d\<lparr>dEvents := dEvents d @ [(i, t)]\<rparr>)"
  using assms by (simp_all add: query_def take_row_def andThen_def faulty_def exec_def
      rbDao_Delete_def events_Create_def split: option.split)

lemma no_fault_deleteLoop:
  assumes "dFaults d = []" "\<forall>b\<in>set xs. bID b \<noteq> []"
  shows "\<exists>d1. forEach (deleteWithEvent msg) xs d = (Inr (), d1) \<and> dFaults d1 = []"
  using assms
proof (induction xs arbitrary: d)
  case (Cons x xs)
  let ?d1 = "d\<lparr>dBindings := softDelete (bID x) (dBindings d), dEvents := dEvents d @ [(bID x, DeleteEventType)]\<rparr>"
  have "deleteWithEvent msg x d = (Inr (), ?d1)"
    using Cons.prems by (simp add: deleteWithEvent_def emitBindingEvent_def andThen_def mapErr_def no_fault_run)
  with Cons.IH [of ?d1] Cons.prems show ?case by (simp add: andThen_def)
qed simp

text \<open>
  When no call to the database fails and the role exists, \<open>SetGatewayRole\<close> does return a
  binding, for each of the three gateway roles and from any set of existing bindings.
\<close>

theorem SetGatewayRole_succeeds:
  assumes "dFaults d = []" and "[] \<notin> bID ` set (dBindings d)"
    and "roleName \<in> {RoleGatewayOwner, RoleGatewayAdmin, RoleGatewayViewer}"
    and "\<exists>r\<in>set (liveRoles d). rName r = roleName"
  shows "\<exists>rb d'. SetGatewayRole newID u g roleName d = (Inr rb, d')"
proof -
  from assms(4) obtain role where role: "find (\<lambda>r. rName r = roleName) (liveRoles d) = Some role"
    by (cases "find (\<lambda>r. rName r = roleName) (liveRoles d)") (auto simp: find_None_iff)
  have look: "gatewayBindingsForUser u g d = (Inr (userOn d u g), d)"
    using assms(1) by (auto simp: gatewayBindingsForUser_def rbDao_FindByUserID_def andThen_def
        no_fault_run userOn_def intro: filter_cong)
  have go: "SetGatewayRole newID u g roleName d =
      (case sort_key (\<lambda>b. (bCreatedAt b, bID b)) (userOn d u g) of
          [] \<Rightarrow> createGatewayRole newID u g role
        | keep # surplus \<Rightarrow> convergeGatewayRole role keep surplus) d"
    using assms(1,3) role look
    by (auto simp: SetGatewayRole_def roleDao_GetByName_def andThen_def mapErr_def no_fault_run)
  show ?thesis
  proof (cases "sort_key (\<lambda>b. (bCreatedAt b, bID b)) (userOn d u g)")
    case Nil
    then show ?thesis using assms(1)
      by (simp add: go createGatewayRole_def rbDao_Create_def exec_def faulty_def andThen_def
          mapErr_def emitBindingEvent_def Let_def no_fault_run)
  next
    case (Cons keep surplus)
    then have "set surplus \<subseteq> set (userOn d u g)" by (metis set_sort set_subset_Cons)
    with assms(2) have "\<forall>b\<in>set surplus. bID b \<noteq> []" by (force simp: userOn_def liveBindings_def)
    from no_fault_deleteLoop [OF assms(1) this] obtain d1 where
      "forEach (deleteWithEvent ''unable to delete duplicate binding: %s'') surplus d = (Inr (), d1)"
      "dFaults d1 = []" by blast
    then show ?thesis using Cons
      by (simp add: go convergeGatewayRole_def rbDao_Update_def exec_def faulty_def andThen_def
          mapErr_def emitBindingEvent_def no_fault_run)
  qed
qed

theorem SetGatewayRole_succeeds_witness:
  "\<exists>rb d'. SetGatewayRole freshID ''u3'' ''g1'' RoleGatewayOwner twoOwners = (Inr rb, d')"
  by (rule SetGatewayRole_succeeds)
    (simp_all add: twoOwners_def sampleDB_def sampleBinding_def newBinding_def liveRoles_def sampleRoles_def)

subsection \<open>No moment without access\<close>

definition keepsAccess :: "string \<Rightarrow> string \<Rightarrow> string \<Rightarrow> db \<Rightarrow> db \<Rightarrow> bool" where
  "keepsAccess u g k d d1 \<longleftrightarrow> k \<in> bID ` set (userOn d u g) \<longrightarrow> k \<in> bID ` set (userOn d1 u g)"

interpretation keep: db_order "keepsAccess u g k" for u g k
  by unfold_locales (auto simp: keepsAccess_def userOn_def)

lemma keep_Delete: "i \<noteq> k \<Longrightarrow> steps (keepsAccess u g k) (rbDao_Delete i)"
  unfolding rbDao_Delete_def
  by (rule keep.steps_exec)
    (auto simp: keepsAccess_def userOn_def softDelete_single live_softDeleteAll)

lemma keep_Create: "steps (keepsAccess u g k) (rbDao_Create newID rb)"
  unfolding rbDao_Create_def
  by (rule keep.steps_exec) (auto simp: keepsAccess_def userOn_def liveBindings_def Let_def)

lemma keep_Update:
  assumes "\<not> bDeleted rb" "bUserID rb = Some u" "onUserGateway g rb"
  shows "steps (keepsAccess u g k) (rbDao_Update rb)"
  unfolding rbDao_Update_def
proof (rule keep.steps_exec)
  fix d :: db
  have saved: "\<exists>b'\<in>set (saveRow rb bs). bID b' = bID b \<and> (b' = rb \<or> b' = b)" if "b \<in> set bs" for b bs
    using that by (cases "bID b = bID rb") (auto simp: saveRow_def)
  have "\<exists>x\<in>set (saveRow rb (dBindings d)). bID x = bID b \<and> \<not> bDeleted x \<and> bUserID x = Some u \<and> onUserGateway g x"
    if "b \<in> set (dBindings d)" "\<not> bDeleted b" "bUserID b = Some u" "onUserGateway g b" for b
    using saved [OF that(1)] that assms by blast
  then have "\<exists>x\<in>set (userOn (d\<lparr>dBindings := saveRow rb (dBindings d)\<rparr>) u g). bID x = bID b"
    if "b \<in> set (userOn d u g)" for b
    using that unfolding userOn_def liveBindings_def by simp blast
  then show "keepsAccess u g k d (snd (Inr rb, d\<lparr>dBindings := saveRow rb (dBindings d)\<rparr>))"
    unfolding keepsAccess_def snd_conv by (metis (no_types, lifting) imageE image_eqI)
qed

text \<open>
  C34: changing a role never leaves the user without access. Whichever call fails and whatever is
  returned, a user who had a live binding on the gateway before \<open>SetGatewayRole\<close> has one after it.
\<close>

theorem SetGatewayRole_keeps_access:
  assumes "wf_db d" and "userOn d u g \<noteq> []"
  shows "userOn (snd (SetGatewayRole newID u g roleName d)) u g \<noteq> []"
proof -
  let ?sorted = "sort_key (\<lambda>b. (bCreatedAt b, bID b)) (userOn d u g)"
  from assms(2) obtain keep surplus where sorted: "?sorted = keep # surplus"
    by (metis list.exhaust set_empty set_sort)
  let ?k = "bID keep"
  have in_u: "set (keep # surplus) = set (userOn d u g)" by (metis sorted set_sort)
  then have keep_on: "\<not> bDeleted keep" "bUserID keep = Some u" "onUserGateway g keep"
    by (auto simp: userOn_def liveBindings_def)
  have "distinct (map bID (userOn d u g))"
    using wf_db_live [OF assms(1)] by (simp add: userOn_def distinct_map_filter)
  then have "distinct (map bID (keep # surplus))" by (metis sorted distinct_map_sort_key)
  then have "steps (keepsAccess u g ?k) (forEach (deleteWithEvent msg) surplus)" for msg
    by (intro keep.steps_forEach keep.steps_deleteWithEvent keep_Delete) (metis distinct.simps(2)
        image_eqI list.set_map list.simps(9))
  then have conv: "steps (keepsAccess u g ?k) (convergeGatewayRole role keep surplus)" for role
    unfolding convergeGatewayRole_def using keep_on
    by (auto intro!: keep.steps_andThen keep.steps_mapErr keep_Update simp: onUserGateway_def)
  have "keepsAccess u g ?k d (snd (SetGatewayRole newID u g roleName d))"
  proof (cases rule: SetGatewayRole_cases [of newID u g roleName d])
    case (early e fs)
    then show ?thesis by (simp add: keep.quiet)
  next
    case (late role fs)
    from conv [of role] have
      "keepsAccess u g ?k (d\<lparr>dFaults := fs\<rparr>) (snd (SetGatewayRole newID u g roleName d))"
      by (simp add: late(2) sorted steps_def)
    then show ?thesis by (rule keep.trans [OF keep.quiet(1)])
  qed
  moreover have "?k \<in> bID ` set (userOn d u g)" using in_u by auto
  ultimately show ?thesis by (auto simp: keepsAccess_def)
qed

theorem SetGatewayRole_keeps_access_witness:
  "userOn (snd (SetGatewayRole freshID ''u2'' ''g1'' RoleGatewayAdmin
     (twoOwners\<lparr>dFaults := [False, False, False, False, True]\<rparr>))) ''u2'' ''g1'' \<noteq> []"
proof (rule SetGatewayRole_keeps_access)
  show "wf_db (twoOwners\<lparr>dFaults := [False, False, False, False, True]\<rparr>)"
    using wf_twoOwners by (simp add: wf_db_def)
  show "userOn (twoOwners\<lparr>dFaults := [False, False, False, False, True]\<rparr>) ''u2'' ''g1'' \<noteq> []"
    by (simp add: userOn_def twoOwners_def sampleDB_def sampleBinding_def newBinding_def
        liveBindings_def onUserGateway_def)
qed

subsection \<open>Revocation\<close>

lemma RevokeGatewayAccess_effect:
  assumes "wf_db d" and run: "RevokeGatewayAccess u g d = (Inr n, d')"
  shows "userOn d' u g = [] \<and> others d' u g = others d u g \<and> n = length (userOn d u g) \<and>
         dEvents d' = dEvents d @ map (\<lambda>b. (bID b, DeleteEventType)) (userOn d u g)"
proof -
  from run obtain bs d1 where look: "gatewayBindingsForUser u g d = (Inr bs, d1)"
    and loop: "forEach (deleteWithEvent ''unable to delete binding: %s'') bs d1 = (Inr (), d')"
    and n: "n = length bs"
    unfolding RevokeGatewayAccess_def by (auto elim!: andThen_successE)
  from gatewayBindingsForUser_success [OF look] deleteLoop_success [OF loop]
  have ev: "dEvents d' = dEvents d @ map (\<lambda>b. (bID b, DeleteEventType)) (userOn d u g)"
    and live: "liveBindings d' = filter (\<lambda>b. bID b \<notin> bID ` set (userOn d u g)) (liveBindings d)"
    and bs: "bs = userOn d u g"
    by (auto simp: liveBindings_def filter_live_softDeleteAll conj_commute)
  have same: "x = b" if "b \<in> set (liveBindings d)" "x \<in> set (liveBindings d)" "bID x = bID b" for x b
    using that wf_db_live [OF assms(1)] by (auto simp: distinct_map inj_on_def)
  then have "others d' u g = others d u g"
    unfolding others_def live filter_filter by (intro filter_cong) (auto simp: userOn_def dest: same)
  moreover have "userOn d' u g = []"
    unfolding userOn_def live filter_filter by (auto simp: filter_empty_conv userOn_def)
  ultimately show ?thesis using ev n bs by blast
qed

text \<open>
  A successful revocation removes every live binding of the user on the gateway, changes no
  other binding, reports how many there were, and emits exactly one delete event for each, in order.
\<close>

theorem RevokeGatewayAccess_removes_all:
  assumes "wf_db d" and run: "RevokeGatewayAccess u g d = (Inr n, d')"
  shows "userOn d' u g = [] \<and> others d' u g = others d u g \<and> n = length (userOn d u g) \<and>
         dEvents d' = dEvents d @ map (\<lambda>b. (bID b, DeleteEventType)) (userOn d u g)"
  using RevokeGatewayAccess_effect [OF assms] .

theorem RevokeGatewayAccess_removes_all_witness:
  "\<exists>d'. RevokeGatewayAccess ''u2'' ''g1'' twoOwners = (Inr 2, d') \<and> userOn d' ''u2'' ''g1'' = []"
proof -
  have "fst (RevokeGatewayAccess ''u2'' ''g1'' twoOwners) = Inr 2" by code_simp
  then obtain d' where run: "RevokeGatewayAccess ''u2'' ''g1'' twoOwners = (Inr 2, d')"
    by (metis prod.collapse)
  with RevokeGatewayAccess_removes_all [OF wf_twoOwners run] show ?thesis by blast
qed

text \<open>
  When a gateway is deleted no binding outlives it: a successful \<open>DeleteGatewayBindings\<close> leaves
  no live binding that names the gateway, of any user or scope, and every binding that does not.
\<close>

lemma DeleteGatewayBindings_complete:
  assumes "wf_db d" and run: "DeleteGatewayBindings g d = (Inr n, d')"
  shows "liveBindings d' = filter (\<lambda>b. bGatewayID b \<noteq> Some g) (liveBindings d) \<and>
         n = length (filter (\<lambda>b. bGatewayID b = Some g) (liveBindings d)) \<and> g \<noteq> []"
proof -
  let ?bs = "filter (\<lambda>b. bGatewayID b = Some g) (liveBindings d)"
  from run have g: "g \<noteq> []" by (auto simp: DeleteGatewayBindings_def)
  from run g obtain bs d1 where look: "rbDao_FindByGatewayID g d = (Inr bs, d1)"
    and loop: "forEach (deleteWithEvent ''unable to delete binding: %s'') bs d1 = (Inr (), d')"
    and n: "n = length bs"
    unfolding DeleteGatewayBindings_def by (auto elim!: andThen_successE)
  from rbDao_FindByGatewayID_success [OF look] deleteLoop_success [OF loop]
  have live: "liveBindings d' = filter (\<lambda>b. bID b \<notin> bID ` set ?bs) (liveBindings d)"
    and bs: "bs = ?bs"
    by (auto simp: liveBindings_def filter_live_softDeleteAll conj_commute)
  have same: "x = b" if "b \<in> set (liveBindings d)" "x \<in> set (liveBindings d)" "bID x = bID b" for x b
    using that wf_db_live [OF assms(1)] by (auto simp: distinct_map inj_on_def)
  show ?thesis unfolding live using g n bs by (auto intro!: filter_cong dest: same)
qed

lemma DeleteGatewayBindings_sample:
  "\<exists>d'. DeleteGatewayBindings ''g1'' twoOwners = (Inr 3, d') \<and> liveBindings d' = []"
proof -
  have "fst (DeleteGatewayBindings ''g1'' twoOwners) = Inr 3" by code_simp
  then obtain d' where run: "DeleteGatewayBindings ''g1'' twoOwners = (Inr 3, d')"
    by (metis prod.collapse)
  with DeleteGatewayBindings_complete [OF wf_twoOwners run] show ?thesis
    by (simp add: twoOwners_def sampleDB_def sampleBinding_def newBinding_def liveBindings_def)
qed

subsection \<open>The low-level resource\<close>

definition sameRows :: "db \<Rightarrow> db \<Rightarrow> bool" where
  "sameRows d d1 \<longleftrightarrow> dBindings d1 = dBindings d \<and> dRoles d1 = dRoles d \<and> dUsers d1 = dUsers d"

interpretation rows: db_order sameRows
  by unfold_locales (auto simp: sameRows_def)

lemma sameRows_tables:
  assumes "sameRows d d1"
  shows "liveBindings d1 = liveBindings d" "liveRoles d1 = liveRoles d" "liveUsers d1 = liveUsers d"
    "roleNameOf d1 = roleNameOf d" "ownerIDs d1 = ownerIDs d"
  using assms by (simp_all add: sameRows_def liveBindings_def liveRoles_def liveUsers_def
      roleNameOf_def ownerIDs_def ownerBindings_def fun_eq_iff)

lemma rows_at: "steps sameRows m \<Longrightarrow> m d = (r, d1) \<Longrightarrow> sameRows d d1"
  by (metis steps_def snd_conv)

lemma anyRole_success:
  assumes "anyRole P Q bs d = (Inr True, d1)"
  shows "\<exists>b\<in>set bs. P b \<and> (\<exists>n. roleNameOf d b = Some n \<and> Q n)"
  using assms
proof (induction bs arbitrary: d)
  case (Cons b bs)
  show ?case
  proof (cases "P b")
    case True
    obtain r d2 where get: "roleDao_Get (bRoleID b) d = (r, d2)" by force
    then have same: "sameRows d d2" by (rule rows_at [OF rows.steps_dao(1)])
    show ?thesis
    proof (cases "\<exists>role. r = Inr role \<and> Q (rName role)")
      case True
      then obtain role where r: "r = Inr role" "Q (rName role)" by blast
      with get have "roleNameOf d b = Some (rName role)"
        by (auto simp: roleNameOf_def dest: roleDao_Get_success)
      with \<open>P b\<close> r show ?thesis by auto
    next
      case False
      with Cons.prems \<open>P b\<close> get have "anyRole P Q bs d2 = (Inr True, d1)"
        by (cases r) (auto simp: andThen_def)
      from Cons.IH [OF this] sameRows_tables(4) [OF same] show ?thesis by auto
    qed
  next
    case False
    with Cons show ?thesis by auto
  qed
qed simp

text \<open>The caller holds, on a gateway, one of the roles; or a global one.\<close>

definition holdsOn :: "db \<Rightarrow> string \<Rightarrow> string \<Rightarrow> string \<Rightarrow> bool" where
  "holdsOn d u g n \<longleftrightarrow> (\<exists>b\<in>set (liveBindings d). bUserID b = Some u \<and> bGatewayID b = Some g \<and>
     roleNameOf d b = Some n)"

definition holdsGlobal :: "db \<Rightarrow> string \<Rightarrow> string \<Rightarrow> bool" where
  "holdsGlobal d u n \<longleftrightarrow> (\<exists>b\<in>set (liveBindings d). bUserID b = Some u \<and> bScope b = ScopeGlobal \<and>
     roleNameOf d b = Some n)"

lemma validateCallerOwnsGateway_success:
  assumes "validateCallerOwnsGateway c x d = (Inr v, d1)"
  shows "\<exists>g. x = Some g \<and> GetUserIDFromContext c \<noteq> [] \<and>
         holdsOn d (GetUserIDFromContext c) g RoleGatewayOwner"
proof -
  from assms obtain g bs d2 d3 where g: "x = Some g" "GetUserIDFromContext c \<noteq> []"
    and find: "rbDao_FindByUserID (GetUserIDFromContext c) d = (Inr bs, d2)"
    and any: "anyRole (\<lambda>b. bGatewayID b = Some g) (\<lambda>n. n = RoleGatewayOwner) bs d2 = (Inr True, d3)"
    by (auto simp: validateCallerOwnsGateway_def Let_def split: option.splits if_splits
        elim!: andThen_successE)
  from rbDao_FindByUserID_success [OF find] anyRole_success [OF any] g show ?thesis
    by (auto simp: holdsOn_def)
qed

lemma validateCallerCanGrant_success:
  assumes "validateCallerCanGrantCIFederationAdmin c d = (Inr v, d1)"
  shows "GetUserIDFromContext c \<noteq> [] \<and>
         (holdsGlobal d (GetUserIDFromContext c) RolePlatformAdmin \<or>
          holdsGlobal d (GetUserIDFromContext c) RoleCIFederationGrantor)"
proof -
  from assms obtain bs d2 d3 where u: "GetUserIDFromContext c \<noteq> []"
    and find: "rbDao_FindByUserID (GetUserIDFromContext c) d = (Inr bs, d2)"
    and any: "anyRole (\<lambda>b. bScope b = ScopeGlobal)
       (\<lambda>n. n = RolePlatformAdmin \<or> n = RoleCIFederationGrantor) bs d2 = (Inr True, d3)"
    by (auto simp: validateCallerCanGrantCIFederationAdmin_def Let_def split: if_splits
        elim!: andThen_successE)
  from rbDao_FindByUserID_success [OF find] anyRole_success [OF any] u show ?thesis
    by (auto simp: holdsGlobal_def)
qed

lemma authorizeWrite_success:
  assumes "authorizeWrite c wop n rb d = (Inr v, d1)"
  shows "GetUserIDFromContext c \<noteq> [] \<and>
    (n \<in> {RoleGatewayOwner, RoleGatewayAdmin, RoleGatewayViewer} \<and>
       (\<exists>g. bGatewayID rb = Some g \<and> holdsOn d (GetUserIDFromContext c) g RoleGatewayOwner \<and>
          (wop = opDelete \<and> n = RoleGatewayOwner \<longrightarrow> length (ownerIDs d g) > 1)) \<or>
     n = RoleCIFederationAdmin \<and>
       (holdsGlobal d (GetUserIDFromContext c) RolePlatformAdmin \<or>
        holdsGlobal d (GetUserIDFromContext c) RoleCIFederationGrantor))"
proof (cases "n \<in> {RoleGatewayOwner, RoleGatewayAdmin, RoleGatewayViewer}")
  case True
  with assms obtain v' d2 where owns: "validateCallerOwnsGateway c (bGatewayID rb) d = (Inr v', d2)"
    and rest: "(if wop = opDelete \<and> n = RoleGatewayOwner then guardLastGatewayOwner rb else ret ()) d2 = (Inr v, d1)"
    unfolding authorizeWrite_def by (auto elim!: andThen_successE)
  have same: "sameRows d d2"
    using owns by (rule rows_at [rotated])
      (auto simp: validateCallerOwnsGateway_def Let_def intro!: rows.steps_andThen split: option.split)
  from validateCallerOwnsGateway_success [OF owns] obtain g where g: "bGatewayID rb = Some g"
    "GetUserIDFromContext c \<noteq> []" "holdsOn d (GetUserIDFromContext c) g RoleGatewayOwner" by blast
  have owners: "length (ownerIDs d g) > 1" if "wop = opDelete \<and> n = RoleGatewayOwner"
    using rest that g(1) sameRows_tables(5) [OF same]
    by (auto simp: guardLastGatewayOwner_def rbDao_CountOwnersByGatewayID_def elim!: andThen_successE
        dest!: query_success split: if_splits)
  show ?thesis by (intro conjI disjI1 exI [of _ g] impI g True) (rule owners)
next
  case False
  then have n: "n \<noteq> RoleGatewayOwner" "n \<noteq> RoleGatewayAdmin" "n \<noteq> RoleGatewayViewer" by auto
  show ?thesis
  proof (cases "n = RoleCIFederationAdmin")
    case True
    with assms n have "validateCallerCanGrantCIFederationAdmin c d = (Inr v, d1)"
      by (simp add: authorizeWrite_def)
    from validateCallerCanGrant_success [OF this] True show ?thesis by simp
  next
    case ci: False
    have "\<exists>e. authorizeWrite c wop n rb d = (Inl e, d)" using False ci
      unfolding authorizeWrite_def by (simp split: if_split)
    with assms show ?thesis by auto
  qed
qed

text \<open>
  The low-level resource is default-deny. A binding is created through it only for an
  identified caller and an existing target user, and only in two cases: one of the three gateway
  roles, with gateway scope, by a caller who owns that gateway; or \<open>ci-federation:admin\<close>, with
  global scope, by a caller who is globally \<open>platform:admin\<close> or \<open>ci-federation:grantor\<close>. Any other
  role is refused, and a success adds exactly the one row.
\<close>

theorem create_default_deny:
  assumes run: "rbService_Create s newID c rb d = (Inr row, d')"
  shows "\<exists>n u. roleNameOf d rb = Some n \<and> GetUserIDFromContext c \<noteq> [] \<and>
     bUserID rb = Some u \<and> u \<in> uID ` set (liveUsers d) \<and>
     (n \<in> {RoleGatewayOwner, RoleGatewayAdmin, RoleGatewayViewer} \<and> bScope rb = ScopeGateway \<and>
        (\<exists>g. bGatewayID rb = Some g \<and> holdsOn d (GetUserIDFromContext c) g RoleGatewayOwner) \<or>
      n = RoleCIFederationAdmin \<and> bScope rb = ScopeGlobal \<and> bGatewayID rb = None \<and>
        (holdsGlobal d (GetUserIDFromContext c) RolePlatformAdmin \<or>
         holdsGlobal d (GetUserIDFromContext c) RoleCIFederationGrantor)) \<and>
     liveBindings d' = liveBindings d @ [row]"
proof -
  from run obtain role d1 d2 d3 d4 where
      scope: "validateScope rb = None" "validateScopeMatchesRole (rName role) rb = None"
    and role: "roleDao_Get (bRoleID rb) d = (Inr role, d1)"
    and auth: "authorizeWrite c opCreate (rName role) rb d1 = (Inr (), d2)"
    and user: "validateTargetUser s rb d2 = (Inr (), d3)"
    and create: "rbDao_Create newID rb d3 = (Inr row, d4)"
    and ev: "events_Create (bID row) CreateEventType d4 = (Inr (), d')"
    unfolding rbService_Create_def by (auto elim!: andThen_successE)
  have s1: "sameRows d d1" using role by (rule rows_at [OF rows.steps_dao(1)])
  have s2: "sameRows d1 d2" using auth by (rule rows_at [OF rows.steps_authorizeWrite])
  have "steps sameRows (validateTargetUser s rb)"
    unfolding validateTargetUser_def by (auto intro!: rows.steps_andThen split: option.split)
  then have s3: "sameRows d2 d3" using user by (rule rows_at)
  note same12 = rows.trans [OF s1 s2] note same = rows.trans [OF same12 s3]
  have name: "roleNameOf d rb = Some (rName role)"
    using roleDao_Get_success [OF role] by (auto simp: roleNameOf_def)
  have holds: "holdsOn d1 = holdsOn d" "holdsGlobal d1 = holdsGlobal d"
    by (simp_all add: holdsOn_def holdsGlobal_def fun_eq_iff sameRows_tables [OF s1])
  note auth' = authorizeWrite_success [OF auth, unfolded holds]
  from user obtain u where u: "bUserID rb = Some u" "u \<in> uID ` set (liveUsers d)"
    by (auto simp: validateTargetUser_def sameRows_tables [OF same12] split: option.splits if_splits
        elim!: andThen_successE dest!: userDao_Get_success find_eq_Some)
  have live: "liveBindings d' = liveBindings d @ [row]"
    using rbDao_Create_success [OF create] events_Create_success [OF ev] sameRows_tables(1) [OF same]
    by (auto simp: liveBindings_def)
  have gw: "bScope rb = ScopeGateway" if "rName role \<in> {RoleGatewayOwner, RoleGatewayAdmin, RoleGatewayViewer}"
    using scope(2) that unfolding validateScopeMatchesRole_def by (auto split: if_splits)
  have ci: "bScope rb = ScopeGlobal \<and> bGatewayID rb = None" if "rName role = RoleCIFederationAdmin"
    using scope that unfolding validateScopeMatchesRole_def validateScope_def by (auto split: if_splits)
  have cases: "rName role \<in> {RoleGatewayOwner, RoleGatewayAdmin, RoleGatewayViewer} \<and>
      bScope rb = ScopeGateway \<and>
      (\<exists>g. bGatewayID rb = Some g \<and> holdsOn d (GetUserIDFromContext c) g RoleGatewayOwner) \<or>
    rName role = RoleCIFederationAdmin \<and> bScope rb = ScopeGlobal \<and> bGatewayID rb = None \<and>
      (holdsGlobal d (GetUserIDFromContext c) RolePlatformAdmin \<or>
       holdsGlobal d (GetUserIDFromContext c) RoleCIFederationGrantor)"
    using auth' gw ci by metis
  from auth' have id: "GetUserIDFromContext c \<noteq> []" by (rule conjunct1)
  show ?thesis
    by (rule exI [of _ "rName role"], rule exI [of _ u]) (intro conjI name u live id cases)
qed

text \<open>A committed delete: the policy was asked, the row deleted, and only events and locks follow.\<close>

lemma deleteCommit_success:
  assumes "deleteCommit s c i rb role d = (Inr v, d')"
  shows "\<exists>d1 d2 d3. sameRows d d1 \<and> authorizeWrite c opDelete (rName role) rb d1 = (Inr (), d2) \<and>
     rbDao_Delete i d2 = (Inr (), d3) \<and> dBindings d' = dBindings d3 \<and> dRoles d' = dRoles d3"
proof -
  define body where "body =
    andThen (authorizeWrite c opDelete (rName role) rb) (\<lambda>_.
    andThen (mapErr (\<lambda>e. Handled ''HandleDeleteError'' [''RoleBinding'']
                            (GeneralError ''Unable to delete role binding: %s'' e)) (rbDao_Delete i)) (\<lambda>_.
    mapErr (Handled ''HandleDeleteError'' [''RoleBinding'']) (events_Create i DeleteEventType)))"
  have run_body: "\<exists>d2 d3. authorizeWrite c opDelete (rName role) rb d1 = (Inr (), d2) \<and>
      rbDao_Delete i d2 = (Inr (), d3) \<and> dBindings e1 = dBindings d3 \<and> dRoles e1 = dRoles d3"
    if "body d1 = (Inr w, e1)" for d1 e1 w
    using that by (auto simp: body_def elim!: andThen_successE dest!: events_Create_success)
  have "\<exists>d1 e1 w. sameRows d d1 \<and> body d1 = (Inr w, e1) \<and> dBindings d' = dBindings e1 \<and> dRoles d' = dRoles e1"
  proof (cases "\<exists>g. bGatewayID rb = Some g \<and> rName role = RoleGatewayOwner \<and> hasLockFactory s")
    case True
    then obtain g where g: "bGatewayID rb = Some g" "rName role = RoleGatewayOwner" "hasLockFactory s"
      by blast
    with assms obtain d1 e1 where lock: "acquireLock (GatewayAccessLockID g) d = (Inr (), d1)"
      and run: "body d1 = (Inr v, e1)" and d': "d' = releaseLock (GatewayAccessLockID g) e1"
      unfolding deleteCommit_def Let_def body_def [symmetric]
      by (auto simp: withLock_def elim!: andThen_successE split: prod.splits)
    have "steps sameRows (acquireLock x)" for x
      unfolding acquireLock_def by (rule rows.steps_faulty) (simp add: sameRows_def)
    from rows_at [OF this lock] run d' show ?thesis by (auto simp: releaseLock_def)
  next
    case False
    then have "body d = (Inr v, d')"
      using assms unfolding deleteCommit_def Let_def body_def [symmetric]
      by (auto simp: withLock_def split: option.splits if_splits)
    then show ?thesis by (auto intro: rows.refl)
  qed
  with run_body show ?thesis by metis
qed

definition callerCtx :: "string \<Rightarrow> ctx" where
  "callerCtx u = emptyCtx\<lparr>cUserID := Some u\<rparr>"

definition wired :: rb_service where
  "wired = \<lparr>hasLockFactory = True, hasUserDao = True\<rparr>"

theorem create_default_deny_witness:
  "\<exists>d' row. rbService_Create wired freshID (callerCtx ''u1'')
      (newBinding (''r-'' @ RoleGatewayViewer) ScopeGateway (Some ''u3'') (Some ''g1'')) twoOwners = (Inr row, d') \<and>
    liveBindings d' = liveBindings twoOwners @ [row]"
  (is "\<exists>d' row. ?run = _ \<and> _")
proof -
  have "case fst ?run of Inr _ \<Rightarrow> True | Inl _ \<Rightarrow> False" by code_simp
  then obtain row d' where run: "?run = (Inr row, d')" by (cases ?run) (auto split: sum.splits)
  with create_default_deny [OF run] show ?thesis by blast
qed

text \<open>A row that is gone takes at most its own user out of the owners.\<close>

lemma owners_after_delete:
  assumes "dBindings d1 = softDelete i (dBindings d)" "dRoles d1 = dRoles d"
  shows "liveBindings d1 = filter (\<lambda>b. bID b \<noteq> i) (liveBindings d)"
    and "ownerBindings d1 g = filter (\<lambda>b. bID b \<noteq> i) (ownerBindings d g)"
proof -
  show live: "liveBindings d1 = filter (\<lambda>b. bID b \<noteq> i) (liveBindings d)"
    by (simp add: liveBindings_def assms softDelete_single filter_live_softDeleteAll conj_commute)
  have "roleNameOf d1 = roleNameOf d"
    by (simp add: fun_eq_iff roleNameOf_def liveRoles_def assms)
  then show "ownerBindings d1 g = filter (\<lambda>b. bID b \<noteq> i) (ownerBindings d g)"
    unfolding ownerBindings_def live by (simp add: conj_ac)
qed

lemma set_ownerIDs: "set (ownerIDs d g) = {u. \<exists>b\<in>set (ownerBindings d g). bUserID b = Some u}"
  by (force simp: ownerIDs_def List.map_filter_def)

lemma another_owner:
  assumes "length (ownerIDs d g) > 1"
  shows "\<exists>u\<in>set (ownerIDs d g). x \<noteq> Some u"
proof (rule ccontr)
  assume "\<not> ?thesis"
  then have "set (ownerIDs d g) \<subseteq> {the x}" by auto
  then have "card (set (ownerIDs d g)) \<le> 1" by (metis card.empty card_insert_le_m1 card_mono
        diff_self_eq_0 empty_iff finite.simps is_singletonI is_singleton_altdef order_refl zero_less_one)
  moreover have "card (set (ownerIDs d g)) = length (ownerIDs d g)"
    by (rule distinct_card) (simp add: ownerIDs_def)
  ultimately show False using assms by simp
qed

text \<open>
  The low-level resource is not a way around last-owner protection: a successful delete
  removes exactly the one binding, and a gateway that had an owner before still has one.
\<close>

lemma rbService_Delete_owners:
  assumes wf: "wf_db d" and run: "rbService_Delete s c i d = (Inr v, d')"
    and owned: "ownerIDs d g \<noteq> []"
  shows "ownerIDs d' g \<noteq> [] \<and> liveBindings d' = filter (\<lambda>b. bID b \<noteq> i) (liveBindings d)"
proof -
  from run obtain rb role d1 d2 where
      get: "rbDao_Get i d = (Inr rb, d1)" and role: "roleDao_Get (bRoleID rb) d1 = (Inr role, d2)"
    and commit: "deleteCommit s c i rb role d2 = (Inr v, d')"
    unfolding rbService_Delete_def deleteRead_def rbService_Get_def by (auto elim!: andThen_successE)
  from rbDao_Get_success [OF get] roleDao_Get_success [OF role]
  have rb: "rb \<in> set (liveBindings d)" "bID rb = i" and name: "roleNameOf d rb = Some (rName role)"
    and same: "sameRows d d2"
    by (auto simp: roleNameOf_def sameRows_def dest: find_eq_Some)
  obtain d3 d4 d5 where quiet: "sameRows d2 d3"
    and auth: "authorizeWrite c opDelete (rName role) rb d3 = (Inr (), d4)"
    and del: "rbDao_Delete i d4 = (Inr (), d5)"
    and fin: "dBindings d' = dBindings d5" "dRoles d' = dRoles d5"
    using deleteCommit_success [OF commit] by blast
  have "sameRows d4 d3" "sameRows d3 d4"
    using rows_at [OF rows.steps_authorizeWrite auth] by (auto simp: sameRows_def)
  with same quiet have s4: "sameRows d d4" "sameRows d d3" by (auto simp: sameRows_def)
  have after: "dBindings d' = softDelete i (dBindings d)" "dRoles d' = dRoles d"
    using rbDao_Delete_success [OF del] fin s4(1) by (auto simp: sameRows_def)
  note live = owners_after_delete(1) [OF after] and owner' = owners_after_delete(2) [OF after]
  have only: "b = rb" if "b \<in> set (ownerBindings d g)" "bID b = i" for b
    using that rb wf_db_live [OF wf] by (auto simp: ownerBindings_def distinct_map inj_on_def)
  have "ownerIDs d' g \<noteq> []"
  proof (cases "rb \<in> set (ownerBindings d g)")
    case True
    then have "rName role = RoleGatewayOwner" "bGatewayID rb = Some g"
      using name by (auto simp: ownerBindings_def)
    with authorizeWrite_success [OF auth] have "length (ownerIDs d3 g) > 1" by auto
    with sameRows_tables(5) [OF s4(2)] have "length (ownerIDs d g) > 1" by simp
    then obtain u where "u \<in> set (ownerIDs d g)" "bUserID rb \<noteq> Some u"
      by (blast dest: another_owner [where x = "bUserID rb"])
    then obtain b where b: "b \<in> set (ownerBindings d g)" "bUserID b = Some u" "bID b \<noteq> i"
      using only by (auto simp: set_ownerIDs)
    then have "u \<in> set (ownerIDs d' g)" by (auto simp: set_ownerIDs owner')
    then show ?thesis by auto
  next
    case False
    then have "filter (\<lambda>b. bID b \<noteq> i) (ownerBindings d g) = ownerBindings d g"
      using only by (intro filter_True) blast
    with owned show ?thesis by (simp add: ownerIDs_def owner')
  qed
  with live show ?thesis by blast
qed

subsection \<open>Synchronising the roles of a token\<close>

text \<open>The synced roles a user holds globally, and whether a binding is one of those.\<close>

definition syncedBinding :: "db \<Rightarrow> string \<Rightarrow> string \<Rightarrow> RoleBinding \<Rightarrow> bool" where
  "syncedBinding d u n b \<longleftrightarrow> bUserID b = Some u \<and> bScope b = ScopeGlobal \<and>
     roleNameOf d b = Some n \<and> n \<in> set JWTSyncedRoles"

definition syncedNames :: "db \<Rightarrow> string \<Rightarrow> string set" where
  "syncedNames d u = {n. \<exists>b\<in>set (liveBindings d). syncedBinding d u n b}"

text \<open>What the first loop collects when no call fails.\<close>

fun collectPure :: "db \<Rightarrow> RoleBinding list \<Rightarrow> (string \<rightharpoonup> RoleBinding) \<Rightarrow> (string \<rightharpoonup> RoleBinding)" where
  "collectPure d [] acc = acc"
| "collectPure d (b # bs) acc = collectPure d bs
     (if bScope b = ScopeGlobal then
        (case roleNameOf d b of
           Some n \<Rightarrow> if n \<in> set JWTSyncedRoles then acc(n \<mapsto> b) else acc
         | None \<Rightarrow> acc)
      else acc)"

lemma collectSynced_pure:
  assumes "dFaults d = []"
  shows "collectSynced bs acc d = (Inr (collectPure d bs acc), d)"
  using assms
proof (induction bs arbitrary: acc)
  case (Cons b bs)
  then show ?case
    by (cases "find (\<lambda>r. rID r = bRoleID b) (liveRoles d)")
      (simp_all add: andThen_def roleDao_Get_def no_fault_run roleNameOf_def)
qed simp

lemma collectPure_sound:
  assumes "collectPure d bs acc n = Some b"
  shows "acc n = Some b \<or> b \<in> set bs \<and> bScope b = ScopeGlobal \<and> roleNameOf d b = Some n \<and> n \<in> set JWTSyncedRoles"
  using assms
  by (induction bs arbitrary: acc) (force split: if_splits option.splits)+

lemma collectPure_mono: "acc n \<noteq> None \<Longrightarrow> collectPure d bs acc n \<noteq> None"
  by (induction bs arbitrary: acc) (auto split: option.split)

lemma collectPure_complete:
  assumes "b \<in> set bs" "bScope b = ScopeGlobal" "roleNameOf d b = Some n" "n \<in> set JWTSyncedRoles"
  shows "collectPure d bs acc n \<noteq> None"
  using assms
proof (induction bs arbitrary: acc)
  case (Cons x bs)
  then show ?case by (cases "x = b") (simp_all add: collectPure_mono)
qed simp

lemma no_fault_Create:
  assumes "dFaults d = []"
  shows "rbDao_Create newID rb d =
    (let row = (rb_BeforeCreate newID d rb)\<lparr>bCreatedAt := dClock d, bDeleted := False\<rparr>
     in (Inr row, d\<lparr>dBindings := dBindings d @ [row]\<rparr>))"
  using assms by (simp add: rbDao_Create_def exec_def faulty_def Let_def)

text \<open>The second loop appends one live global row for every missing role.\<close>

lemma sync_create_loop:
  assumes "dFaults d = []" "\<forall>n\<in>set xs. \<exists>r\<in>set (liveRoles d). rName r = n"
    and "distinct (map rID (liveRoles d))"
  shows "\<exists>rows. forEach (syncCreate newID u m) xs d = (Inr (), d\<lparr>dBindings := dBindings d @ rows\<rparr>) \<and>
     map (roleNameOf d) rows = map Some (filter (\<lambda>n. m n = None) xs) \<and>
     (\<forall>b\<in>set rows. \<not> bDeleted b \<and> bUserID b = Some u \<and> bScope b = ScopeGlobal)"
  using assms
proof (induction xs arbitrary: d)
  case Nil
  show ?case by (intro exI [of _ "[]"]) (cases d, simp)
next
  case (Cons n xs)
  show ?case
  proof (cases "m n")
    case None
    obtain role where role: "find (\<lambda>r. rName r = n) (liveRoles d) = Some role"
      using Cons.prems(2) by (cases "find (\<lambda>r. rName r = n) (liveRoles d)") (auto simp: find_None_iff)
    define row where "row = (rb_BeforeCreate newID d (newBinding (rID role) ScopeGlobal (Some u) None))
        \<lparr>bCreatedAt := dClock d, bDeleted := False\<rparr>"
    have one: "syncCreate newID u m n d = (Inr (), d\<lparr>dBindings := dBindings d @ [row]\<rparr>)"
      using None role Cons.prems(1)
      by (simp add: syncCreate_def roleDao_GetByName_def andThen_def mapErr_def no_fault_run
          no_fault_Create Let_def row_def)
    have "roleNameOf d row = Some n"
      using find_key [OF Cons.prems(3), of role] find_eq_Some [OF role]
      by (simp add: row_def roleNameOf_def rb_BeforeCreate_def newBinding_def)
    moreover have "\<not> bDeleted row \<and> bUserID row = Some u \<and> bScope row = ScopeGlobal"
      by (simp add: row_def rb_BeforeCreate_def newBinding_def)
    moreover from Cons.IH [of "d\<lparr>dBindings := dBindings d @ [row]\<rparr>"] Cons.prems obtain rows where
      "forEach (syncCreate newID u m) xs (d\<lparr>dBindings := dBindings d @ [row]\<rparr>) =
         (Inr (), d\<lparr>dBindings := (dBindings d @ [row]) @ rows\<rparr>)"
      "map (roleNameOf d) rows = map Some (filter (\<lambda>n. m n = None) xs)"
      "\<forall>b\<in>set rows. \<not> bDeleted b \<and> bUserID b = Some u \<and> bScope b = ScopeGlobal" by auto
    ultimately show ?thesis
      by (intro exI [of _ "row # rows"]) (simp add: andThen_def one None)
  next
    case (Some b)
    then have "syncCreate newID u m n d = (Inr (), d)" by (simp add: syncCreate_def)
    with Cons Some show ?thesis by (auto simp: andThen_def)
  qed
qed

text \<open>The third loop deletes what the map holds for a role that is not wanted.\<close>

lemma sync_delete_loop:
  assumes "dFaults d = []" "\<forall>n b. m n = Some b \<longrightarrow> bID b \<noteq> []"
  shows "forEach (syncDelete W m) xs d =
    (Inr (), d\<lparr>dBindings := softDeleteAll {bID b | n b. n \<in> set xs \<and> n \<notin> W \<and> m n = Some b} (dBindings d)\<rparr>)"
  using assms
proof (induction xs arbitrary: d)
  case (Cons n xs)
  have parts: "{bID b | k b. k \<in> set (n # xs) \<and> k \<notin> W \<and> m k = Some b} =
      {bID b | b. n \<notin> W \<and> m n = Some b} \<union> {bID b | k b. k \<in> set xs \<and> k \<notin> W \<and> m k = Some b}" by auto
  show ?case
  proof (cases "n \<notin> W \<and> m n \<noteq> None")
    case True
    then obtain b where b: "m n = Some b" by blast
    have "syncDelete W m n d = (Inr (), d\<lparr>dBindings := softDelete (bID b) (dBindings d)\<rparr>)"
      using True b Cons.prems by (simp add: syncDelete_def mapErr_def no_fault_run)
    with Cons.IH [of "d\<lparr>dBindings := softDelete (bID b) (dBindings d)\<rparr>"] Cons.prems True b show ?thesis
      by (simp add: andThen_def parts softDelete_softDeleteAll del: list.set)
  next
    case False
    then have "syncDelete W m n d = (Inr (), d)" by (auto simp: syncDelete_def split: option.split)
    moreover from False have "{bID b | k b. k \<in> set (n # xs) \<and> k \<notin> W \<and> m k = Some b} =
        {bID b | k b. k \<in> set xs \<and> k \<notin> W \<and> m k = Some b}" by auto
    ultimately show ?thesis using Cons by (simp add: andThen_def del: list.set)
  qed
qed (cases d, simp)

text \<open>The effect of the three loops, as one change of the table.\<close>

lemma SyncJWTRoles_effect:
  assumes wf: "wf_db d" and fresh: "fresh newID" and calls: "dFaults d = []"
    and ids: "[] \<notin> bID ` set (dBindings d)"
    and order: "\<forall>xs. set (order xs) = set xs"
    and roles: "\<forall>n\<in>set js \<inter> set JWTSyncedRoles. \<exists>r\<in>set (liveRoles d). rName r = n"
    and unique: "\<forall>n b b'. b \<in> set (liveBindings d) \<and> b' \<in> set (liveBindings d) \<and>
           syncedBinding d u n b \<and> syncedBinding d u n b' \<longrightarrow> b = b'"
  obtains d' rows where "SyncJWTRoles order newID u js d = (Inr (), d')"
    and "roleNameOf d' = roleNameOf d"
    and "liveBindings d' = filter (\<lambda>b. \<forall>n. syncedBinding d u n b \<longrightarrow> n \<in> set js) (liveBindings d) @ rows"
    and "\<forall>b\<in>set rows. \<exists>n. syncedBinding d u n b \<and> n \<in> set js"
    and "\<forall>n\<in>set js \<inter> set JWTSyncedRoles - syncedNames d u. \<exists>b\<in>set rows. syncedBinding d u n b"
proof -
  define W where "W = filter (\<lambda>r. r \<in> set js) JWTSyncedRoles"
  define own where "own = filter (\<lambda>b. bUserID b = Some u) (liveBindings d)"
  define m where "m = collectPure d own Map.empty"
  define K where "K = order (filter (\<lambda>r. m r \<noteq> None) JWTSyncedRoles)"
  have setW: "set (order W) = set js \<inter> set JWTSyncedRoles" using order by (auto simp: W_def)
  have m_iff: "m n = Some b \<longleftrightarrow> b \<in> set (liveBindings d) \<and> syncedBinding d u n b" for n b
  proof
    assume "m n = Some b"
    from collectPure_sound [OF this [unfolded m_def]]
    show "b \<in> set (liveBindings d) \<and> syncedBinding d u n b" by (auto simp: own_def syncedBinding_def)
  next
    assume b: "b \<in> set (liveBindings d) \<and> syncedBinding d u n b"
    then obtain b' where b': "m n = Some b'"
      using collectPure_complete [of b own d n Map.empty] by (auto simp: m_def own_def syncedBinding_def)
    from collectPure_sound [OF b' [unfolded m_def]] b unique b' show "m n = Some b"
      by (auto simp: own_def syncedBinding_def)
  qed
  have found: "mapErr e (rbDao_FindByUserID u) d = (Inr own, d)" for e :: "err \<Rightarrow> err"
    using calls by (simp add: rbDao_FindByUserID_def mapErr_def no_fault_run own_def)
  obtain rows where create: "forEach (syncCreate newID u m) (order W) d =
        (Inr (), d\<lparr>dBindings := dBindings d @ rows\<rparr>)"
    and names: "map (roleNameOf d) rows = map Some (filter (\<lambda>n. m n = None) (order W))"
    and new: "\<forall>b\<in>set rows. \<not> bDeleted b \<and> bUserID b = Some u \<and> bScope b = ScopeGlobal"
    using sync_create_loop [OF calls, of "order W" newID u m] roles setW wf unfolding wf_db_def by blast
  define S where "S = {bID b | n b. n \<in> set K \<and> n \<notin> set W \<and> m n = Some b}"
  define d' where "d' = d\<lparr>dBindings := softDeleteAll S (dBindings d @ rows)\<rparr>"
  have "\<forall>n b. m n = Some b \<longrightarrow> bID b \<noteq> []"
    using ids by (force simp: m_iff liveBindings_def)
  then have delete: "forEach (syncDelete (set W) m) K (d\<lparr>dBindings := dBindings d @ rows\<rparr>) = (Inr (), d')"
    using calls by (subst sync_delete_loop) (simp_all add: S_def d'_def)
  have run: "SyncJWTRoles order newID u js d = (Inr (), d')"
    unfolding SyncJWTRoles_def Let_def W_def [symmetric]
    by (simp add: andThen_def found collectSynced_pure [OF calls] m_def [symmetric] create K_def [symmetric] delete
        del: not_None_eq)
  have wf2: "distinct (map bID (dBindings d @ rows))"
  proof -
    have "steps wf_step (syncCreate newID u m r)" for r
      unfolding syncCreate_def using fresh
      by (auto intro!: wf.steps_andThen wf.steps_mapErr simp: newBinding_def)
    then have "steps wf_step (forEach (syncCreate newID u m) (order W))" by (rule wf.steps_forEach)
    from this [unfolded steps_def, rule_format, of d] create wf show ?thesis
      by (simp add: wf_step_def wf_db_def)
  qed
  have inS: "bID b \<in> S \<longleftrightarrow> (\<exists>n. syncedBinding d u n b \<and> n \<notin> set js)" if "b \<in> set (liveBindings d)" for b
  proof -
    have same: "x = b" if "x \<in> set (liveBindings d)" "bID x = bID b" for x
      using that \<open>b \<in> set (liveBindings d)\<close> wf_db_live [OF wf] by (auto simp: distinct_map inj_on_def)
    have "n \<in> set K" if "m n = Some b" for n b
      using that order by (auto simp: K_def m_iff syncedBinding_def)
    then have "bID b \<in> S \<longleftrightarrow> (\<exists>n. m n = Some b \<and> n \<notin> set W)"
      unfolding S_def using same by (auto simp: m_iff)
    then show ?thesis using that by (auto simp: m_iff W_def syncedBinding_def)
  qed
  have newS: "bID b \<notin> S" if "b \<in> set rows" for b
    using that wf2 by (auto simp: S_def m_iff liveBindings_def)
  have live1: "liveBindings d' = filter (\<lambda>b. bID b \<notin> S) (liveBindings d) @ rows"
    using new newS by (auto simp: d'_def liveBindings_def filter_live_softDeleteAll conj_commute
        intro!: filter_True)
  have live2: "filter (\<lambda>b. bID b \<notin> S) (liveBindings d) =
      filter (\<lambda>b. \<forall>n. syncedBinding d u n b \<longrightarrow> n \<in> set js) (liveBindings d)"
    by (rule filter_cong) (auto simp: inS)
  have added: "\<forall>b\<in>set rows. \<exists>n. syncedBinding d u n b \<and> n \<in> set js"
  proof
    fix b assume b: "b \<in> set rows"
    then have "roleNameOf d b \<in> set (map (roleNameOf d) rows)" by simp
    then have "roleNameOf d b \<in> set (map Some (filter (\<lambda>n. m n = None) (order W)))" by (simp only: names)
    with setW new b show "\<exists>n. syncedBinding d u n b \<and> n \<in> set js"
      by (auto simp: syncedBinding_def)
  qed
  have missing: "\<forall>n\<in>set js \<inter> set JWTSyncedRoles - syncedNames d u. \<exists>b\<in>set rows. syncedBinding d u n b"
  proof
    fix n assume n: "n \<in> set js \<inter> set JWTSyncedRoles - syncedNames d u"
    then have "m n = None" by (cases "m n") (auto simp: m_iff syncedNames_def)
    with n setW have "Some n \<in> set (map Some (filter (\<lambda>n. m n = None) (order W)))" by auto
    then have "Some n \<in> set (map (roleNameOf d) rows)" by (simp only: names)
    then obtain b where "b \<in> set rows" "roleNameOf d b = Some n" by auto
    with new n show "\<exists>b\<in>set rows. syncedBinding d u n b" by (auto simp: syncedBinding_def)
  qed
  have name: "roleNameOf d' = roleNameOf d" by (simp add: d'_def)
  show ?thesis by (rule that [OF run name live1 [unfolded live2] added missing])
qed

text \<open>
  Synchronisation converges. When no call fails, every wanted role exists, and the user has at
  most one live binding per synced role, \<open>SyncJWTRoles\<close> succeeds, whatever the order in which Go
  iterates over its maps. Afterwards the user holds globally exactly the synced roles the token
  carries, and every binding that is not one of the user's synced ones is as it was.
\<close>

theorem SyncJWTRoles_converges:
  assumes wf: "wf_db d" and fresh: "fresh newID" and calls: "dFaults d = []"
    and ids: "[] \<notin> bID ` set (dBindings d)"
    and order: "\<forall>xs. set (order xs) = set xs"
    and roles: "\<forall>n\<in>set js \<inter> set JWTSyncedRoles. \<exists>r\<in>set (liveRoles d). rName r = n"
    and unique: "\<forall>n b b'. b \<in> set (liveBindings d) \<and> b' \<in> set (liveBindings d) \<and>
           syncedBinding d u n b \<and> syncedBinding d u n b' \<longrightarrow> b = b'"
  shows "\<exists>d'. SyncJWTRoles order newID u js d = (Inr (), d') \<and>
         syncedNames d' u = set js \<inter> set JWTSyncedRoles \<and>
         filter (\<lambda>b. \<not> (\<exists>n. syncedBinding d' u n b)) (liveBindings d') =
           filter (\<lambda>b. \<not> (\<exists>n. syncedBinding d u n b)) (liveBindings d)"
proof -
  obtain d' rows where run: "SyncJWTRoles order newID u js d = (Inr (), d')"
    and name: "roleNameOf d' = roleNameOf d"
    and live: "liveBindings d' = filter (\<lambda>b. \<forall>n. syncedBinding d u n b \<longrightarrow> n \<in> set js) (liveBindings d) @ rows"
    and rows: "\<forall>b\<in>set rows. \<exists>n. syncedBinding d u n b \<and> n \<in> set js"
    and missing: "\<forall>n\<in>set js \<inter> set JWTSyncedRoles - syncedNames d u. \<exists>b\<in>set rows. syncedBinding d u n b"
    by (rule SyncJWTRoles_effect [OF assms])
  have sync': "syncedBinding d' = syncedBinding d" by (simp add: syncedBinding_def fun_eq_iff name)
  have one: "n = n'" if "syncedBinding d u n b" "syncedBinding d u n' b" for n n' b
    using that by (simp add: syncedBinding_def)
  have "syncedNames d' u = set js \<inter> set JWTSyncedRoles"
  proof (intro equalityI subsetI)
    fix n assume "n \<in> syncedNames d' u"
    then obtain b where b: "b \<in> set (liveBindings d')" "syncedBinding d u n b"
      by (auto simp: syncedNames_def sync')
    then have "n \<in> set js" using rows one by (auto simp: live)
    with b(2) show "n \<in> set js \<inter> set JWTSyncedRoles" by (simp add: syncedBinding_def)
  next
    fix n assume n: "n \<in> set js \<inter> set JWTSyncedRoles"
    show "n \<in> syncedNames d' u"
    proof (cases "n \<in> syncedNames d u")
      case True
      then obtain b where b: "b \<in> set (liveBindings d)" "syncedBinding d u n b" by (auto simp: syncedNames_def)
      have "\<forall>k. syncedBinding d u k b \<longrightarrow> k \<in> set js" using one [OF b(2)] n by blast
      with b have "b \<in> set (liveBindings d')" by (simp add: live)
      with b(2) show ?thesis unfolding syncedNames_def sync' by blast
    next
      case False
      with n missing show ?thesis by (auto simp: syncedNames_def sync' live)
    qed
  qed
  moreover have "filter (\<lambda>b. \<not> (\<exists>n. syncedBinding d' u n b)) (liveBindings d') =
      filter (\<lambda>b. \<not> (\<exists>n. syncedBinding d u n b)) (liveBindings d)"
  proof -
    have "filter (\<lambda>b. \<not> (\<exists>n. syncedBinding d u n b)) rows = []" using rows by (auto simp: filter_empty_conv)
    moreover have "filter (\<lambda>b. \<not> (\<exists>n. syncedBinding d u n b))
        (filter (\<lambda>b. \<forall>n. syncedBinding d u n b \<longrightarrow> n \<in> set js) (liveBindings d)) =
      filter (\<lambda>b. \<not> (\<exists>n. syncedBinding d u n b)) (liveBindings d)"
      unfolding filter_filter by (rule filter_cong) auto
    ultimately show ?thesis by (simp only: live sync' filter_append append_Nil2)
  qed
  ultimately show ?thesis using run by blast
qed

definition oneCreator :: db where
  "oneCreator = sampleDB [sampleBinding ''b1'' RoleGatewayCreator ''u1'' []]"

theorem SyncJWTRoles_converges_witness:
  "\<exists>d'. SyncJWTRoles id freshID ''u1'' [RolePlatformAdmin, ''offline_access''] oneCreator = (Inr (), d') \<and>
     syncedNames d' ''u1'' = set [RolePlatformAdmin, ''offline_access''] \<inter> set JWTSyncedRoles"
proof -
  have wf: "wf_db oneCreator" unfolding oneCreator_def by (rule wf_sampleDB) simp
  have d: "dFaults oneCreator = []" "[] \<notin> bID ` set (dBindings oneCreator)"
    by (simp_all add: oneCreator_def sampleDB_def sampleBinding_def)
  have o: "\<forall>xs::string list. set (id xs) = set xs" by simp
  have r: "\<forall>n\<in>set [RolePlatformAdmin, ''offline_access''] \<inter> set JWTSyncedRoles.
      \<exists>r\<in>set (liveRoles oneCreator). rName r = n" by code_simp
  have one: "liveBindings oneCreator = [sampleBinding ''b1'' RoleGatewayCreator ''u1'' []]"
    by (simp add: oneCreator_def sampleDB_def liveBindings_def sampleBinding_def newBinding_def)
  have u: "\<forall>n b b'. b \<in> set (liveBindings oneCreator) \<and> b' \<in> set (liveBindings oneCreator) \<and>
      syncedBinding oneCreator ''u1'' n b \<and> syncedBinding oneCreator ''u1'' n b' \<longrightarrow> b = b'"
    by (simp add: one)
  from SyncJWTRoles_converges [OF wf fresh_freshID d o r u] show ?thesis by blast
qed

text \<open>
  Nothing keeps the bindings of a role unique, and one synchronisation removes only one of
  them. Two requests of a user that both read the bindings before either wrote create the role
  twice; when the token no longer carries the role, the next synchronisation succeeds, and the
  user still holds it.
\<close>

lemma sync_duplicate_survives:
  "let d1 = snd (forEach (syncCreate freshID ''u1'' Map.empty) [RolePlatformAdmin] (sampleDB []));
       d2 = snd (forEach (syncCreate freshID ''u1'' Map.empty) [RolePlatformAdmin] d1);
       (r, d3) = SyncJWTRoles id freshID ''u1'' [] d2
   in fst (rbDao_FindByUserID ''u1'' (sampleDB [])) = Inr [] \<and> r = Inr () \<and>
      (case fst (rb_FindBindingsByUserID ''u1'' d3) of
         Inr bs \<Rightarrow> hasPlatformAdmin bs | Inl _ \<Rightarrow> False)"
  by code_simp

subsection \<open>The read scope\<close>

lemma set_map_filter: "set (List.map_filter f xs) = {y. \<exists>x\<in>set xs. f x = Some y}"
  by (force simp: List.map_filter_def)

text \<open>
  The read scope is exact. With enforcement on, an identified caller without the admin role
  sees a binding exactly when it is the caller's own, or a gateway-scoped one of a gateway on which
  the caller has a live binding of any role.
\<close>

theorem read_scope_exact:
  assumes run: "resolveReadScope True c d = (Inr s, d')"
    and "GetUserIDFromContext c = u" and "u \<noteq> []" and "\<not> HasPlatformAdminRole c u"
  shows "canSee s (Some b) \<longleftrightarrow> bUserID b = Some u \<or>
    bScope b = ScopeGateway \<and> (\<exists>x\<in>set (liveBindings d). bUserID x = Some u \<and>
      bGatewayID x \<noteq> None \<and> bGatewayID x = bGatewayID b)"
proof -
  let ?f = "\<lambda>x. if bUserID x = Some u then bGatewayID x else None"
  have s: "s = \<lparr>rsAll = False, rsUserID = u, rsGatewayIDs = remdups (List.map_filter ?f (liveBindings d))\<rparr>"
    using assms by (auto simp: resolveReadScope_def rbService_FindGatewayIDsByUserID_def
        rbDao_FindGatewayIDsByUserID_def elim!: andThen_successE dest!: query_success)
  have ids: "g \<in> set (rsGatewayIDs s) \<longleftrightarrow>
      (\<exists>x\<in>set (liveBindings d). bUserID x = Some u \<and> bGatewayID x = Some g)" for g
    unfolding s by (auto simp: set_map_filter intro!: bexI)
  have "canSee s (Some b) \<longleftrightarrow> bUserID b = Some u \<or>
      bScope b = ScopeGateway \<and> (\<exists>g. bGatewayID b = Some g \<and> g \<in> set (rsGatewayIDs s))"
    using assms(3) unfolding s by (auto simp: canSee_def list_ex_iff)
  moreover have "(\<exists>g. bGatewayID b = Some g \<and> g \<in> set (rsGatewayIDs s)) \<longleftrightarrow>
      (\<exists>x\<in>set (liveBindings d). bUserID x = Some u \<and> bGatewayID x \<noteq> None \<and> bGatewayID x = bGatewayID b)"
    unfolding ids by (cases "bGatewayID b") auto
  ultimately show ?thesis by simp
qed

theorem read_scope_exact_witness:
  "\<exists>s d'. resolveReadScope True (callerCtx ''u2'') twoOwners = (Inr s, d') \<and>
     canSee s (Some (sampleBinding ''b1'' RoleGatewayOwner ''u1'' ''g1'')) \<and>
     \<not> canSee s (Some (sampleBinding ''b9'' RoleGatewayOwner ''u1'' ''g2''))"
proof -
  let ?run = "resolveReadScope True (callerCtx ''u2'') twoOwners"
  have "case fst ?run of Inr _ \<Rightarrow> True | Inl _ \<Rightarrow> False" by code_simp
  then obtain s d' where run: "?run = (Inr s, d')" by (cases ?run) (auto split: sum.splits)
  have u: "GetUserIDFromContext (callerCtx ''u2'') = ''u2''" "''u2'' \<noteq> []"
    "\<not> HasPlatformAdminRole (callerCtx ''u2'') ''u2''" by code_simp+
  note exact = read_scope_exact [OF run u]
  have "\<exists>x\<in>set (liveBindings twoOwners). bUserID x = Some ''u2'' \<and> bGatewayID x \<noteq> None \<and>
      bGatewayID x = bGatewayID (sampleBinding ''b1'' RoleGatewayOwner ''u1'' ''g1'')" by code_simp
  moreover have "\<not> (\<exists>x\<in>set (liveBindings twoOwners). bUserID x = Some ''u2'' \<and> bGatewayID x \<noteq> None \<and>
      bGatewayID x = bGatewayID (sampleBinding ''b9'' RoleGatewayOwner ''u1'' ''g2''))" by code_simp
  ultimately show ?thesis using run exact by (auto simp: sampleBinding_def newBinding_def)
qed

end
