(* ===== verification/Users.thy ===== *)
theory Users
  imports Role_Bindings
begin

text \<open>
  The users: the access object of \<^verbatim>\<open>plugins/users/dao.go\<close> with its upsert by username, and the
  service of \<^verbatim>\<open>plugins/users/service.go\<close> over it. The index on the username is unique over all
  rows, soft-deleted ones included. The table is \<open>dUsers\<close> of the database of
  \<^verbatim>\<open>Role_Bindings\<close>; the id of a new row is \<open>newUserID\<close>, an argument. The counts over creation
  times and daily activity are not modelled.
\<close>

section \<open>The access object\<close>

definition userDao_GetByUsername :: "string \<Rightarrow> (db, User) prog" where [dao_defs]:
  "userDao_GetByUsername name = take_row (\<lambda>d. find (\<lambda>u. uUsername u = name) (liveUsers d))"

definition user_BeforeCreate :: "(db \<Rightarrow> string) \<Rightarrow> db \<Rightarrow> User \<Rightarrow> User" where
  "user_BeforeCreate newUserID d u = (if uID u = [] then u\<lparr>uID := newUserID d\<rparr> else u)"

definition insertUser :: "(db \<Rightarrow> string) \<Rightarrow> User \<Rightarrow> db \<Rightarrow> db \<times> User" where
  "insertUser newUserID user d =
     (let row = (user_BeforeCreate newUserID d user)\<lparr>uDeleted := False\<rparr>
      in (d\<lparr>dUsers := dUsers d @ [row]\<rparr>, row))"

definition usernameTaken :: "string \<Rightarrow> db \<Rightarrow> bool" where
  "usernameTaken name d \<longleftrightarrow> (\<exists>u\<in>set (dUsers d). uUsername u = name)"

definition userDao_Create :: "(db \<Rightarrow> string) \<Rightarrow> User \<Rightarrow> (db, User) prog" where [dao_defs]:
  "userDao_Create newUserID user = exec (\<lambda>d.
     if usernameTaken (uUsername user) d then (Inl DriverError, d)
     else (case insertUser newUserID user d of (d1, row) \<Rightarrow> (Inr row, d1)))"

text \<open>\<^verbatim>\<open>Save\<close>: the row with this id, or a new one; another row with the username refuses it.\<close>

definition userDao_Replace :: "User \<Rightarrow> (db, User) prog" where [dao_defs]:
  "userDao_Replace user = exec (\<lambda>d.
     if \<exists>u\<in>set (dUsers d). uUsername u = uUsername user \<and> uID u \<noteq> uID user then (Inl DriverError, d)
     else (Inr user, d\<lparr>dUsers :=
       (if \<exists>u\<in>set (dUsers d). uID u = uID user
        then map (\<lambda>u. if uID u = uID user then user else u) (dUsers d)
        else dUsers d @ [user])\<rparr>))"

definition userDao_Delete :: "string \<Rightarrow> (db, unit) prog" where [dao_defs]:
  "userDao_Delete i = exec (\<lambda>d.
     if i = [] then (Inl MissingWhereClause, d)
     else (Inr (), d\<lparr>dUsers := map (\<lambda>u. if uID u = i then u\<lparr>uDeleted := True\<rparr> else u) (dUsers d)\<rparr>))"

abbreviation userProfileWriteLockID :: string where
  "userProfileWriteLockID \<equiv> ''user-profile-write''"

text \<open>A field of the update: the incoming value, when there is one and it differs from the stored.\<close>

definition changedField :: "string option \<Rightarrow> string option \<Rightarrow> string option" where
  "changedField stored incoming =
     (case incoming of None \<Rightarrow> None | Some v \<Rightarrow> if stored = Some v then None else Some v)"

definition applyField :: "string option \<Rightarrow> string option \<Rightarrow> string option" where
  "applyField update stored = (case update of None \<Rightarrow> stored | Some v \<Rightarrow> Some v)"

definition updateChangedFields :: "bool \<Rightarrow> User \<Rightarrow> User \<Rightarrow> (db, User) prog" where
  "updateChangedFields hasLocks existing incoming =
     (let email = changedField (uEmail existing) (uEmail incoming);
          name = changedField (uName existing) (uName incoming)
      in if email = None \<and> name = None then ret existing
         else withLock hasLocks (Wrapped ''acquire user profile write lock: %w'' []) userProfileWriteLockID
           (andThen (exec (\<lambda>d. (Inr (), d\<lparr>dUsers := map (\<lambda>u.
                if \<not> uDeleted u \<and> uUsername u = uUsername existing
                then u\<lparr>uEmail := applyField email (uEmail u), uName := applyField name (uName u)\<rparr>
                else u) (dUsers d)\<rparr>)))
             (\<lambda>_. userDao_GetByUsername (uUsername existing))))"

text \<open>\<^verbatim>\<open>INSERT ... ON CONFLICT (username) DO NOTHING\<close>, then the row that won is read.\<close>

definition insertIfAbsent :: "(db \<Rightarrow> string) \<Rightarrow> User \<Rightarrow> (db, User) prog" where
  "insertIfAbsent newUserID user =
     andThen (exec (\<lambda>d. (Inr (), if usernameTaken (uUsername user) d then d
                                   else fst (insertUser newUserID user d))))
       (\<lambda>_. userDao_GetByUsername (uUsername user))"

definition userDao_Upsert :: "bool \<Rightarrow> (db \<Rightarrow> string) \<Rightarrow> User \<Rightarrow> (db, User) prog" where
  "userDao_Upsert hasLocks newUserID user =
     andThen (attempt (userDao_GetByUsername (uUsername user))) (\<lambda>r. case r of
        Inr existing \<Rightarrow> updateChangedFields hasLocks existing user
      | Inl e \<Rightarrow> if e = RecordNotFound then insertIfAbsent newUserID user else fail e)"

definition userDao_FindByIDs :: "string list \<Rightarrow> (db, User list) prog" where [dao_defs]:
  "userDao_FindByIDs ids = query (\<lambda>d. filter (\<lambda>u. uID u \<in> set ids) (liveUsers d))"

definition userDao_All :: "(db, User list) prog" where [dao_defs]:
  "userDao_All = query liveUsers"

definition userDao_CountRegistered :: "(db, nat) prog" where [dao_defs]:
  "userDao_CountRegistered =
     mapErr (Wrapped ''count registered users: %w'' []) (query (\<lambda>d. length (liveUsers d)))"

section \<open>The service\<close>

definition userService_Get :: "string \<Rightarrow> (db, User) prog" where
  "userService_Get i = mapErr (Handled ''HandleGetError'' [''User'', ''id'', i]) (userDao_Get i)"

definition userService_GetByUsername :: "string \<Rightarrow> (db, User) prog" where
  "userService_GetByUsername name =
     mapErr (Handled ''HandleGetError'' [''User'', ''username'', name]) (userDao_GetByUsername name)"

definition userService_Create :: "(db \<Rightarrow> string) \<Rightarrow> User \<Rightarrow> (db, User) prog" where
  "userService_Create newUserID user =
     mapErr (Handled ''HandleCreateError'' [''User'']) (userDao_Create newUserID user)"

definition userService_Upsert :: "bool \<Rightarrow> (db \<Rightarrow> string) \<Rightarrow> User \<Rightarrow> (db, User) prog" where
  "userService_Upsert hasLocks newUserID user =
     mapErr (Handled ''HandleCreateError'' [''User'']) (userDao_Upsert hasLocks newUserID user)"

definition newUser :: "string \<Rightarrow> string option \<Rightarrow> string option \<Rightarrow> User" where
  "newUser username email name =
     \<lparr>uID = [], uUsername = username, uName = name, uEmail = email, uDeleted = False\<rparr>"

definition UpsertByUsername ::
  "bool \<Rightarrow> (db \<Rightarrow> string) \<Rightarrow> string \<Rightarrow> string option \<Rightarrow> string option \<Rightarrow> (db, string) prog" where
  "UpsertByUsername hasLocks newUserID username email name =
     andThen (userDao_Upsert hasLocks newUserID (newUser username email name)) (\<lambda>user. ret (uID user))"

definition userService_All :: "(db, User list) prog" where
  "userService_All = mapErr (GeneralError ''Unable to get all users: %s'') userDao_All"

definition userService_FindByIDs :: "string list \<Rightarrow> (db, User list) prog" where
  "userService_FindByIDs ids = mapErr (GeneralError ''Unable to get users: %s'') (userDao_FindByIDs ids)"

section \<open>The upsert\<close>

definition wf_users :: "db \<Rightarrow> bool" where
  "wf_users d \<longleftrightarrow> distinct (map uUsername (dUsers d))"

lemma userDao_GetByUsername_success:
  "userDao_GetByUsername n d = (Inr u, d1) \<Longrightarrow>
     \<exists>fs. d1 = d\<lparr>dFaults := fs\<rparr> \<and> find (\<lambda>u. uUsername u = n) (liveUsers d) = Some u"
  by (auto simp: userDao_GetByUsername_def dest!: take_row_success)

text \<open>What the upsert stores of a field: the supplied value, or what was there.\<close>

definition mergeField :: "string option \<Rightarrow> string option \<Rightarrow> string option" where
  "mergeField incoming stored = (case incoming of None \<Rightarrow> stored | Some v \<Rightarrow> Some v)"

lemma applyField_changedField [simp]: "applyField (changedField s i) s = mergeField i s"
  by (auto simp: applyField_def changedField_def mergeField_def split: option.splits)

lemma changedField_None: "changedField s i = None \<longleftrightarrow> mergeField i s = s"
  by (auto simp: changedField_def mergeField_def split: option.splits if_splits)

lemma withLock_cases:
  obtains (unlocked) "\<not> h" "withLock h g i body d = body d"
  | (refused) fs where "h" "withLock h g i body d = (Inl (g LockFailed), d\<lparr>dFaults := fs\<rparr>)"
  | (locked) fs where "h" "withLock h g i body d =
      (case body (d\<lparr>dFaults := fs, dLocks := i # dLocks d\<rparr>) of (r, d1) \<Rightarrow> (r, releaseLock i d1))"
proof (cases h)
  case True
  show ?thesis
  proof (cases d rule: faulty_cases [of LockFailed "\<lambda>d. (Inr (), d\<lparr>dLocks := i # dLocks d\<rparr>)"])
    case (failed fs)
    then have "withLock h g i body d = (Inl (g LockFailed), d\<lparr>dFaults := fs\<rparr>)"
      using True by (simp add: withLock_def acquireLock_def mapErr_def andThen_def)
    with True show ?thesis by (rule refused)
  next
    case (worked fs)
    then have "withLock h g i body d =
        (case body (d\<lparr>dFaults := fs, dLocks := i # dLocks d\<rparr>) of (r, d1) \<Rightarrow> (r, releaseLock i d1))"
      using True by (simp add: withLock_def acquireLock_def mapErr_def andThen_def)
    with True show ?thesis by (rule locked)
  qed
next
  case False
  then show ?thesis using unlocked by (simp add: withLock_def)
qed

text \<open>Of a list with distinct keys, the element a search finds is the only one with its key.\<close>

lemma find_key_only:
  assumes "distinct (map f xs)" "find (\<lambda>x. f x = n) (filter P xs) = Some y"
  shows "filter (\<lambda>x. f x = n) xs = [y] \<and> find (\<lambda>x. f x = n) xs = Some y \<and> P y"
proof -
  from find_eq_Some [OF assms(2)] have y: "y \<in> set xs" "P y" "f y = n" by auto
  with assms(1) have "filter (\<lambda>x. f x = n) xs = [y]"
    by (intro filter_only) (auto simp: distinct_map inj_on_def)
  moreover from find_key [OF assms(1) y(1)] y(3) have "find (\<lambda>x. f x = n) xs = Some y" by simp
  ultimately show ?thesis using y(2) by blast
qed

text \<open>A map that changes only the rows with a key, and not their key.\<close>

lemma map_row:
  assumes "\<And>x. f (h x) = f x" "\<And>x. x \<in> set xs \<Longrightarrow> f x \<noteq> n \<Longrightarrow> h x = x"
  shows "filter (\<lambda>x. f x = n) (map h xs) = map h (filter (\<lambda>x. f x = n) xs)"
    and "filter (\<lambda>x. f x \<noteq> n) (map h xs) = filter (\<lambda>x. f x \<noteq> n) xs"
    and "map f (map h xs) = map f xs"
  using assms by (induction xs) auto

definition upserted :: "User \<Rightarrow> User \<Rightarrow> db \<Rightarrow> db \<Rightarrow> bool" where
  "upserted user x d d' \<longleftrightarrow>
     filter (\<lambda>u. uUsername u = uUsername user) (dUsers d') = [x] \<and> \<not> uDeleted x \<and>
     filter (\<lambda>u. uUsername u \<noteq> uUsername user) (dUsers d') = filter (\<lambda>u. uUsername u \<noteq> uUsername user) (dUsers d) \<and>
     (case find (\<lambda>u. uUsername u = uUsername user) (dUsers d) of
        None \<Rightarrow> uEmail x = uEmail user \<and> uName x = uName user
      | Some old \<Rightarrow> x = old\<lparr>uEmail := mergeField (uEmail user) (uEmail old), uName := mergeField (uName user) (uName old)\<rparr>) \<and>
     wf_users d'"

lemma upserted_users: "dUsers d1 = dUsers d2 \<Longrightarrow> upserted user x d d1 = upserted user x d d2"
  by (simp add: upserted_def wf_users_def)

lemma find_filter_head: "find P xs = (case filter P xs of [] \<Rightarrow> None | x # _ \<Rightarrow> Some x)"
  by (induction xs) auto

lemma updateChangedFields_upserted:
  assumes wf: "wf_users d" and old: "find (\<lambda>u. uUsername u = uUsername user) (liveUsers d) = Some old"
    and run: "updateChangedFields hasLocks old user d = (Inr x, d')"
  shows "upserted user x d d'"
proof -
  let ?n = "uUsername user" and ?e = "changedField (uEmail old) (uEmail user)"
    and ?m = "changedField (uName old) (uName user)"
  let ?h = "\<lambda>u. if \<not> uDeleted u \<and> uUsername u = ?n
     then u\<lparr>uEmail := applyField ?e (uEmail u), uName := applyField ?m (uName u)\<rparr> else u"
  note only = find_key_only [OF wf [unfolded wf_users_def] old [unfolded liveUsers_def]]
  have n: "uUsername old = ?n" using find_eq_Some [OF old] by simp
  show ?thesis
  proof (cases "?e = None \<and> ?m = None")
    case True
    with run have "x = old" "d' = d" by (simp_all add: updateChangedFields_def)
    with True only wf show ?thesis by (simp add: upserted_def changedField_None)
  next
    case False
    let ?body = "andThen (exec (\<lambda>d. (Inr (), d\<lparr>dUsers := map ?h (dUsers d)\<rparr>))) (\<lambda>_. userDao_GetByUsername ?n)"
    have body: "upserted user x d d2" if "?body d1 = (Inr x, d2)" "dUsers d1 = dUsers d" for d1 d2
    proof -
      have d3: "dUsers d2 = map ?h (dUsers d)"
        and x: "find (\<lambda>u. uUsername u = ?n) (filter (\<lambda>u. \<not> uDeleted u) (dUsers d2)) = Some x"
        using that by (auto simp: liveUsers_def elim!: andThen_successE dest!: exec_success userDao_GetByUsername_success)
      have r: "filter (\<lambda>u. uUsername u = ?n) (dUsers d2) = [?h old]"
        "filter (\<lambda>u. uUsername u \<noteq> ?n) (dUsers d2) = filter (\<lambda>u. uUsername u \<noteq> ?n) (dUsers d)"
        "map uUsername (dUsers d2) = map uUsername (dUsers d)"
        using map_row [of uUsername ?h "dUsers d" ?n] only d3 by auto
      with wf have wf3: "distinct (map uUsername (dUsers d2))" by (simp add: wf_users_def)
      from find_key_only [OF wf3 x] r(1) have "x = ?h old" "\<not> uDeleted x" by auto
      with r only n wf3 show ?thesis by (simp add: upserted_def wf_users_def)
    qed
    have w: "withLock hasLocks (Wrapped ''acquire user profile write lock: %w'' []) userProfileWriteLockID ?body d = (Inr x, d')"
      using run False by (simp add: updateChangedFields_def Let_def n)
    show ?thesis
    proof (cases d rule: withLock_cases [of hasLocks "Wrapped ''acquire user profile write lock: %w'' []"
          userProfileWriteLockID ?body])
      case unlocked
      with w body show ?thesis by simp
    next
      case (refused fs)
      with w show ?thesis by simp
    next
      case (locked fs)
      with w obtain d2 where b: "?body (d\<lparr>dFaults := fs, dLocks := userProfileWriteLockID # dLocks d\<rparr>) = (Inr x, d2)"
        and d': "d' = releaseLock userProfileWriteLockID d2" by (auto split: prod.splits)
      from body [OF b] have "upserted user x d d2" by simp
      moreover have "dUsers d' = dUsers d2" by (simp add: d' releaseLock_def)
      ultimately show ?thesis using upserted_users by blast
    qed
  qed
qed

lemma insertIfAbsent_upserted:
  assumes wf: "wf_users d" and none: "find (\<lambda>u. uUsername u = uUsername user) (liveUsers d) = None"
    and run: "insertIfAbsent newUserID user d = (Inr x, d')"
  shows "upserted user x d d'"
proof -
  let ?n = "uUsername user"
  let ?ins = "\<lambda>d. if usernameTaken ?n d then d else fst (insertUser newUserID user d)"
  from run obtain fs where d': "dUsers d' = dUsers (?ins (d\<lparr>dFaults := fs\<rparr>))"
    and x: "find (\<lambda>u. uUsername u = ?n) (filter (\<lambda>u. \<not> uDeleted u) (dUsers d')) = Some x"
    by (auto simp: insertIfAbsent_def liveUsers_def elim!: andThen_successE
        dest!: exec_success userDao_GetByUsername_success)
  have free: "\<not> usernameTaken ?n (d\<lparr>dFaults := fs\<rparr>)"
  proof
    assume "usernameTaken ?n (d\<lparr>dFaults := fs\<rparr>)"
    then have "dUsers d' = dUsers d" by (simp add: d')
    with x none show False by (simp add: liveUsers_def)
  qed
  obtain row where row: "dUsers d' = dUsers d @ [row]" "uUsername row = ?n" "\<not> uDeleted row"
      "uEmail row = uEmail user" "uName row = uName user"
    using free by (simp add: d' insertUser_def user_BeforeCreate_def Let_def split: if_splits)
  have no: "filter (\<lambda>u. uUsername u = ?n) (dUsers d) = []" "?n \<notin> uUsername ` set (dUsers d)"
    using free by (auto simp: usernameTaken_def filter_empty_conv)
  from x row no have "x = row"
    by (auto simp: find_filter_head filter_empty_conv split: list.splits)
  moreover from no have "find (\<lambda>u. uUsername u = ?n) (dUsers d) = None" by (simp add: find_filter_head)
  ultimately show ?thesis using row no wf by (simp add: upserted_def wf_users_def)
qed

text \<open>
  An upsert by username resolves to the one row of that username. On success exactly one row,
  a live one, has it and is returned; a field the caller supplied is stored, one it did not supply
  is never cleared; the row keeps its id; every other row is untouched.
\<close>

theorem Upsert_canonical:
  assumes "wf_users d" and run: "userDao_Upsert hasLocks newUserID user d = (Inr x, d')"
  shows "filter (\<lambda>u. uUsername u = uUsername user) (dUsers d') = [x] \<and> \<not> uDeleted x \<and>
     filter (\<lambda>u. uUsername u \<noteq> uUsername user) (dUsers d') = filter (\<lambda>u. uUsername u \<noteq> uUsername user) (dUsers d) \<and>
     (case find (\<lambda>u. uUsername u = uUsername user) (dUsers d) of
        None \<Rightarrow> uEmail x = uEmail user \<and> uName x = uName user
      | Some old \<Rightarrow> x = old\<lparr>uEmail := mergeField (uEmail user) (uEmail old), uName := mergeField (uName user) (uName old)\<rparr>) \<and>
     wf_users d'"
proof -
  let ?q = "\<lambda>d. find (\<lambda>u. uUsername u = uUsername user) (liveUsers d)"
  from run obtain r d1 where r: "userDao_GetByUsername (uUsername user) d = (r, d1)"
    and go: "(case r of Inr old \<Rightarrow> updateChangedFields hasLocks old user
       | Inl e \<Rightarrow> if e = RecordNotFound then insertIfAbsent newUserID user else fail e) d1 = (Inr x, d')"
    by (cases "userDao_GetByUsername (uUsername user) d") (auto simp: userDao_Upsert_def andThen_def)
  have "upserted user x d d'"
  proof (cases r)
    case (Inr old)
    with r obtain fs where "d1 = d\<lparr>dFaults := fs\<rparr>" "?q d = Some old"
      by (blast dest: userDao_GetByUsername_success)
    with go Inr assms(1) updateChangedFields_upserted [of d1 user old hasLocks x d'] show ?thesis
      by (simp add: wf_users_def upserted_def)
  next
    case (Inl e)
    with go have e: "e = RecordNotFound" by (auto split: if_splits)
    with r Inl obtain fs where "d1 = d\<lparr>dFaults := fs\<rparr>" "?q d = None"
      by (cases d rule: query_run [of ?q])
        (auto simp: userDao_GetByUsername_def take_row_def andThen_def split: option.splits)
    with go Inl e assms(1) insertIfAbsent_upserted [of d1 user newUserID x d'] show ?thesis
      by (simp add: wf_users_def upserted_def)
  qed
  then show ?thesis unfolding upserted_def .
qed

theorem Upsert_canonical_witness:
  "\<exists>x d'. userDao_Upsert True freshID (newUser ''u2'' (Some ''e'') None) twoOwners = (Inr x, d') \<and>
     uID x = ''u2'' \<and> uEmail x = Some ''e'' \<and> wf_users d'"
proof -
  let ?run = "userDao_Upsert True freshID (newUser ''u2'' (Some ''e'') None) twoOwners"
  have "case fst ?run of Inr _ \<Rightarrow> True | Inl _ \<Rightarrow> False" by code_simp
  then obtain x d' where run: "?run = (Inr x, d')" by (cases ?run) (auto split: sum.splits)
  have wf: "wf_users twoOwners" by code_simp
  have "find (\<lambda>u. uUsername u = uUsername (newUser ''u2'' (Some ''e'') None)) (dUsers twoOwners) =
     Some \<lparr>uID = ''u2'', uUsername = ''u2'', uName = None, uEmail = None, uDeleted = False\<rparr>" by code_simp
  with Upsert_canonical [OF wf run] have "x = \<lparr>uID = ''u2'', uUsername = ''u2'', uName = None, uEmail = None, uDeleted = False\<rparr>
      \<lparr>uEmail := mergeField (Some ''e'') None, uName := mergeField None None\<rparr>" "wf_users d'"
    by (simp_all add: newUser_def)
  with run show ?thesis by (simp add: mergeField_def)
qed

end
