(* ===== verification/Gateway_Access.thy ===== *)
theory Gateway_Access
  imports Users "HOL-Library.Word"
begin

text \<open>
  The access facade of a gateway: \<^verbatim>\<open>plugins/gatewayAccess\<close>. Its service (\<^verbatim>\<open>service.go\<close>) grants,
  changes, revokes and lists the access of users to a gateway in the console's three tiers, over
  the role bindings and the users; \<^verbatim>\<open>dao.go\<close> joins the three tables for the list;
  \<^verbatim>\<open>handler.go\<close> parses the list's query. The identity directory is an argument
  (\<^verbatim>\<open>DirectoryResolver\<close>), of which the unconfigured one is modelled.

  What the database does with text is an argument too: \<open>sqlLower\<close> is \<^verbatim>\<open>LOWER\<close> and \<open>collate\<close> gives
  the sort key of a text. \<^verbatim>\<open>LIKE\<close> with an escape character is \<open>sql_like\<close>.
\<close>

section \<open>Tiers\<close>

abbreviation TierOwner :: string where "TierOwner \<equiv> ''owner''"
abbreviation TierAdmin :: string where "TierAdmin \<equiv> ''admin''"
abbreviation TierUser :: string where "TierUser \<equiv> ''user''"

definition tierToRoleName :: "string \<Rightarrow> string" where
  "tierToRoleName tier =
     (if tier = TierOwner then RoleGatewayOwner
      else if tier = TierAdmin then RoleGatewayAdmin
      else if tier = TierUser then RoleGatewayViewer
      else [])"

definition roleNameToTier :: "string \<Rightarrow> string" where
  "roleNameToTier name =
     (if name = RoleGatewayOwner then TierOwner
      else if name = RoleGatewayAdmin then TierAdmin
      else if name = RoleGatewayViewer then TierUser
      else [])"

text \<open>A look-up in the map of ranks: zero when the tier is absent.\<close>

definition tierRank :: "string \<Rightarrow> int" where
  "tierRank t = (if t = TierUser then 1 else if t = TierAdmin then 2 else if t = TierOwner then 3 else 0)"

section \<open>Data\<close>

record ListOptions =
  loPage :: int
  loSize :: int
  loSearch :: string
  loRole :: string
  loSort :: string
  loOrder :: string

record GrantInput =
  giUsername :: string
  giSubject :: string
  giRole :: string

record GrantItem =
  gRoleBindingID :: string
  gUserID :: string
  gUsername :: string
  gName :: "string option"
  gEmail :: "string option"
  gRole :: string
  gGrantedAt :: int

record Capabilities =
  CallerRole :: string
  CanManageAccess :: bool
  CanManageOwners :: bool

record DirectoryUser =
  duUsername :: string
  duName :: string
  duEmail :: string
  duSubject :: string

type_synonym DirectoryCandidate = DirectoryUser

record accessRow =
  arRoleBindingID :: string
  arUserID :: string
  arUsername :: string
  arName :: "string option"
  arEmail :: "string option"
  arRoleName :: string
  arGrantedAt :: int

section \<open>Errors\<close>

definition validationProblem :: "string \<Rightarrow> err" where
  "validationProblem msg = Api 400 ''invalid-request'' msg []"

definition forbidden :: "string \<Rightarrow> err" where
  "forbidden msg = Api 403 ''forbidden'' msg []"

definition notFound_access :: "string \<Rightarrow> string list \<Rightarrow> err" where
  "notFound_access msg args = Api 404 ''not-found'' msg args"

definition conflictErr :: "string \<Rightarrow> err" where
  "conflictErr msg = Api 409 ''conflict'' msg []"

definition serverError :: "string \<Rightarrow> err" where
  "serverError msg = Api 500 ''server-error'' msg []"

definition serviceUnavailable :: "string \<Rightarrow> err" where
  "serviceUnavailable msg = Api 503 ''service-unavailable'' msg []"

text \<open>The translation of a service error keeps its status, code and reason.\<close>

definition fromServiceError :: "err \<Rightarrow> err" where
  "fromServiceError serr = FromService serr"

section \<open>The directory\<close>

datatype directory_error = ErrDirectoryUnavailable | DirectoryFailed

record DirectoryResolver =
  dirSearch :: "string \<Rightarrow> int \<Rightarrow> directory_error + DirectoryUser list"
  dirResolve :: "string \<Rightarrow> directory_error + (DirectoryUser \<times> bool)"

definition unconfiguredResolver :: DirectoryResolver where
  "unconfiguredResolver = \<lparr>dirSearch = (\<lambda>_ _. Inl ErrDirectoryUnavailable),
     dirResolve = (\<lambda>_. Inl ErrDirectoryUnavailable)\<rparr>"

text \<open>\<open>override\<close> is the installed resolver, \<open>address\<close> the environment's, \<open>newGRPC\<close> the client's constructor.\<close>

definition newDirectoryResolverFromEnvironment ::
  "DirectoryResolver option \<Rightarrow> string \<Rightarrow> (string \<Rightarrow> DirectoryResolver option) \<Rightarrow> DirectoryResolver" where
  "newDirectoryResolverFromEnvironment override address newGRPC =
     (case override of
        Some r \<Rightarrow> r
      | None \<Rightarrow> if address = [] then unconfiguredResolver
                else (case newGRPC address of None \<Rightarrow> unconfiguredResolver | Some r \<Rightarrow> r))"

section \<open>Text in queries\<close>

text \<open>
  \<^verbatim>\<open>LIKE\<close> with the backslash as escape character: \<^verbatim>\<open>%\<close> matches any text, \<^verbatim>\<open>_\<close> one character, an
  escaped character itself. A pattern that ends in the escape character matches nothing here; the
  database refuses it.
\<close>

definition backslash :: char where "backslash = CHR 0x5C"

fun sql_like :: "string \<Rightarrow> string \<Rightarrow> bool" where
  "sql_like [] t = (t = [])"
| "sql_like (p # ps) t =
     (if p = CHR ''%'' then
        (case t of [] \<Rightarrow> sql_like ps [] | c # cs \<Rightarrow> sql_like ps (c # cs) \<or> sql_like (p # ps) cs)
      else if p = backslash then
        (case ps of [] \<Rightarrow> False
         | e # qs \<Rightarrow> (case t of [] \<Rightarrow> False | c # cs \<Rightarrow> c = e \<and> sql_like qs cs))
      else
        (case t of [] \<Rightarrow> False
         | c # cs \<Rightarrow> (p = CHR ''_'' \<or> p = c) \<and> sql_like ps cs))"

text \<open>A replacer of single characters replaces each character on its own.\<close>

definition escapeLike :: "string \<Rightarrow> string" where
  "escapeLike s = concat (map (\<lambda>c. if c = backslash \<or> c = CHR ''%'' \<or> c = CHR ''_''
     then [backslash, c] else [c]) s)"

section \<open>The access object\<close>

text \<open>A binding joined with its live role and its live user.\<close>

definition accessRowOf :: "db \<Rightarrow> RoleBinding \<Rightarrow> accessRow option" where
  "accessRowOf d b =
     (case (find (\<lambda>r. rID r = bRoleID b) (liveRoles d), find (\<lambda>u. Some (uID u) = bUserID b) (liveUsers d)) of
        (Some r, Some u) \<Rightarrow>
          Some \<lparr>arRoleBindingID = bID b, arUserID = uID u, arUsername = uUsername u, arName = uName u,
                arEmail = uEmail u, arRoleName = rName r, arGrantedAt = bCreatedAt b\<rparr>
      | _ \<Rightarrow> None)"

definition gatewayRows :: "db \<Rightarrow> string \<Rightarrow> accessRow list" where
  "gatewayRows d g = List.map_filter (accessRowOf d)
     (filter (\<lambda>b. bGatewayID b = Some g \<and> bScope b = ScopeGateway) (liveBindings d))"

definition filtered :: "(string \<Rightarrow> string) \<Rightarrow> db \<Rightarrow> string \<Rightarrow> ListOptions \<Rightarrow> accessRow list" where
  "filtered sqlLower d g opts =
     (let roleName = tierToRoleName (loRole opts);
          s = strings_TrimSpace (loSearch opts);
          pat = ''%'' @ escapeLike (strings_ToLower s) @ ''%''
      in filter (\<lambda>r. (roleName \<noteq> [] \<longrightarrow> arRoleName r = roleName) \<and>
           (s \<noteq> [] \<longrightarrow> sql_like pat (sqlLower (arUsername r)) \<or>
                      sql_like pat (sqlLower (case arName r of None \<Rightarrow> [] | Some n \<Rightarrow> n))))
         (gatewayRows d g))"

datatype sort_column = ColCreatedAt | ColUsername | ColName | ColRole

definition sortColumns :: "string \<rightharpoonup> sort_column" where
  "sortColumns = [''granted_at'' \<mapsto> ColCreatedAt, ''username'' \<mapsto> ColUsername, ''name'' \<mapsto> ColName,
     ''role'' \<mapsto> ColRole]"

text \<open>The key a row is ordered by: a null is larger than every text.\<close>

definition columnKey :: "(string \<Rightarrow> string) \<Rightarrow> sort_column \<Rightarrow> accessRow \<Rightarrow> nat \<times> int \<times> string" where
  "columnKey collate col r =
     (case col of
        ColCreatedAt \<Rightarrow> (0, arGrantedAt r, [])
      | ColUsername \<Rightarrow> (0, 0, collate (arUsername r))
      | ColName \<Rightarrow> (case arName r of None \<Rightarrow> (1, 0, []) | Some n \<Rightarrow> (0, 0, collate n))
      | ColRole \<Rightarrow> (0, 0, collate (arRoleName r)))"

text \<open>Ordered by the column, equal rows by id: a stable sort of the rows sorted by id.\<close>

definition orderRows :: "(string \<Rightarrow> string) \<Rightarrow> sort_column \<Rightarrow> bool \<Rightarrow> accessRow list \<Rightarrow> accessRow list" where
  "orderRows collate col asc rows =
     (let byID = sort_key (\<lambda>r. collate (arRoleBindingID r)) rows
      in if asc then sort_key (columnKey collate col) byID
         else rev (sort_key (columnKey collate col) (rev byID)))"

text \<open>\<^verbatim>\<open>(Page - 1) * Size\<close> in 64-bit integers; an offset that is not positive is no offset.\<close>

definition pageOffset :: "int \<Rightarrow> int \<Rightarrow> int" where
  "pageOffset p s = sint ((word_of_int p - 1 :: 64 word) * word_of_int s)"

definition pageRows :: "ListOptions \<Rightarrow> accessRow list \<Rightarrow> accessRow list" where
  "pageRows opts rows =
     (if loSize opts > 0
      then take (nat (loSize opts)) (drop (nat (pageOffset (loPage opts) (loSize opts))) rows)
      else rows)"

definition accessDao_list ::
  "(string \<Rightarrow> string) \<Rightarrow> (string \<Rightarrow> string) \<Rightarrow> string \<Rightarrow> ListOptions \<Rightarrow> (db, accessRow list \<times> nat) prog" where
  "accessDao_list sqlLower collate g opts =
     andThen (query (\<lambda>d. length (filtered sqlLower d g opts))) (\<lambda>total.
     (let sortCol = (case sortColumns (loSort opts) of None \<Rightarrow> ColCreatedAt | Some c \<Rightarrow> c);
          asc = strings_EqualFold (loOrder opts) ''asc''
      in andThen (query (\<lambda>d. pageRows opts (orderRows collate sortCol asc (filtered sqlLower d g opts))))
           (\<lambda>rows. ret (rows, total))))"

definition accessDao_getForUser :: "(string \<Rightarrow> string) \<Rightarrow> string \<Rightarrow> string \<Rightarrow> (db, accessRow option) prog" where
  "accessDao_getForUser collate g u = query (\<lambda>d.
     (case sort_key (\<lambda>r. (arGrantedAt r, collate (arRoleBindingID r)))
             (filter (\<lambda>r. arUserID r = u) (gatewayRows d g)) of
        [] \<Rightarrow> None | row # _ \<Rightarrow> Some row))"

text \<open>A null user among the owners cannot be read into a Go string.\<close>

definition accessDao_ownerUserIDs :: "string \<Rightarrow> (db, string list) prog" where
  "accessDao_ownerUserIDs g =
     andThen (query (\<lambda>d. (map bUserID (ownerBindings d g), ownerIDs d g))) (\<lambda>(users, ids).
       if None \<in> set users then fail DriverError else ret ids)"

section \<open>The service\<close>

record ga_service =
  gaDirectory :: DirectoryResolver
  gaLocks :: bool
  gaUserLocks :: bool
  gaNewBindingID :: "db \<Rightarrow> string"
  gaNewUserID :: "db \<Rightarrow> string"
  gaSqlLower :: "string \<Rightarrow> string"
  gaCollate :: "string \<Rightarrow> string"

text \<open>The loop over the summaries keeps the best tier so far.\<close>

fun bestTier :: "string \<Rightarrow> string \<Rightarrow> BindingSummary list \<Rightarrow> string" where
  "bestTier gatewayID best [] = best"
| "bestTier gatewayID best (b # bs) =
     (if bsScope b \<noteq> ScopeGateway \<or> bsGatewayID b \<noteq> Some gatewayID then bestTier gatewayID best bs
      else (let t = roleNameToTier (bsRoleName b)
            in bestTier gatewayID (if t \<noteq> [] \<and> tierRank t > tierRank best then t else best) bs))"

definition highestGatewayTier :: "BindingSummary list \<Rightarrow> string \<Rightarrow> string" where
  "highestGatewayTier sums gatewayID = bestTier gatewayID [] sums"

definition userTier :: "string \<Rightarrow> string \<Rightarrow> (db, string) prog" where
  "userTier userID gatewayID =
     andThen (mapErr (\<lambda>_. serverError ''unable to resolve access'') (rb_FindBindingsByUserID userID))
       (\<lambda>sums. ret (highestGatewayTier sums gatewayID))"

definition callerTier :: "string \<Rightarrow> string \<Rightarrow> (db, string) prog" where
  "callerTier userID gatewayID =
     andThen (mapErr (\<lambda>_. serverError ''unable to resolve access'') (rb_FindBindingsByUserID userID))
       (\<lambda>sums. if list_ex (\<lambda>b. bsRoleName b = RolePlatformAdmin) sums then ret TierOwner
               else ret (highestGatewayTier sums gatewayID))"

definition grantItemFromRow :: "accessRow \<Rightarrow> GrantItem" where
  "grantItemFromRow r =
     \<lparr>gRoleBindingID = arRoleBindingID r, gUserID = arUserID r, gUsername = arUsername r,
      gName = arName r, gEmail = arEmail r, gRole = roleNameToTier (arRoleName r),
      gGrantedAt = arGrantedAt r\<rparr>"

definition List_access ::
  "ga_service \<Rightarrow> string \<Rightarrow> string \<Rightarrow> ListOptions \<Rightarrow> (db, GrantItem list \<times> nat \<times> Capabilities) prog" where
  "List_access s gatewayID callerUserID opts =
     andThen (mapErr (\<lambda>_. serverError ''unable to list gateway access'')
                (accessDao_list (gaSqlLower s) (gaCollate s) gatewayID opts)) (\<lambda>(rows, total).
     andThen (callerTier callerUserID gatewayID) (\<lambda>tier.
       ret (map grantItemFromRow rows, total,
         \<lparr>CallerRole = tier, CanManageAccess = (tier = TierOwner \<or> tier = TierAdmin),
          CanManageOwners = (tier = TierOwner)\<rparr>)))"

definition authorizeManage :: "string \<Rightarrow> string \<Rightarrow> string \<Rightarrow> string \<Rightarrow> (db, unit) prog" where
  "authorizeManage callerUserID gatewayID newTier currentTier =
     andThen (callerTier callerUserID gatewayID) (\<lambda>caller.
       if caller \<noteq> TierOwner \<and> caller \<noteq> TierAdmin
       then fail (forbidden ''only gateway owners and admins can manage access'')
       else if (newTier = TierOwner \<or> currentTier = TierOwner) \<and> caller \<noteq> TierOwner
       then fail (forbidden ''only gateway owners can assign, change, or revoke the owner role'')
       else ret ())"

definition guardLastOwner :: "string \<Rightarrow> string \<Rightarrow> string \<Rightarrow> (db, unit) prog" where
  "guardLastOwner gatewayID targetUserID newTier =
     andThen (mapErr (\<lambda>_. serverError ''unable to evaluate gateway owners'')
                (accessDao_ownerUserIDs gatewayID)) (\<lambda>owners.
       if \<not> list_ex (\<lambda>i. i = targetUserID) owners \<or> newTier = TierOwner then ret ()
       else if length owners \<le> 1
       then fail (conflictErr ''this gateway must keep at least one owner; assign another owner before demoting or removing this one'')
       else ret ())"

definition grantItem :: "ga_service \<Rightarrow> string \<Rightarrow> string \<Rightarrow> (db, GrantItem) prog" where
  "grantItem s gatewayID userID =
     andThen (mapErr (\<lambda>_. serverError ''unable to load grant'')
                (accessDao_getForUser (gaCollate s) gatewayID userID)) (\<lambda>row. case row of
          None \<Rightarrow> fail (serverError ''grant not found after write'')
        | Some r \<Rightarrow> ret (grantItemFromRow r))"

definition gaLock :: "ga_service \<Rightarrow> string \<Rightarrow> (db, 'a) prog \<Rightarrow> (db, 'a) prog" where
  "gaLock s gatewayID =
     withLock (gaLocks s) (\<lambda>_. serverError ''unable to acquire access lock'') (GatewayAccessLockID gatewayID)"

definition optStr :: "string \<Rightarrow> string option" where
  "optStr s = (if s = [] then None else Some s)"

text \<open>The last steps of a grant and a change: the guard, the write and the response.\<close>

definition writeTier :: "ga_service \<Rightarrow> string \<Rightarrow> string \<Rightarrow> string \<Rightarrow> (db, GrantItem) prog" where
  "writeTier s gatewayID targetUserID tier =
     andThen (guardLastOwner gatewayID targetUserID tier) (\<lambda>_.
     andThen (mapErr fromServiceError
                (SetGatewayRole (gaNewBindingID s) targetUserID gatewayID (tierToRoleName tier))) (\<lambda>_.
     grantItem s gatewayID targetUserID))"

definition Grant :: "ga_service \<Rightarrow> string \<Rightarrow> string \<Rightarrow> GrantInput \<Rightarrow> (db, GrantItem) prog" where
  "Grant s gatewayID callerUserID input =
     (if tierToRoleName (giRole input) = []
      then fail (validationProblem ''role must be one of owner, admin, user'')
      else if strings_TrimSpace (giUsername input) = []
      then fail (validationProblem ''username is required'')
      else
        andThen (authorizeManage callerUserID gatewayID (giRole input) []) (\<lambda>_.
        case dirResolve (gaDirectory s) (giUsername input) of
          Inl ErrDirectoryUnavailable \<Rightarrow>
            fail (serviceUnavailable ''the identity directory is not available'')
        | Inl DirectoryFailed \<Rightarrow> fail (serviceUnavailable ''directory lookup failed'')
        | Inr (dirUser, found) \<Rightarrow>
            if \<not> found
            then fail (notFound_access ''user %q was not found in the identity directory and cannot be granted access''
                         [giUsername input])
            else
              andThen (mapErr (\<lambda>_. serverError ''unable to provision user record'')
                 (UpsertByUsername (gaUserLocks s) (gaNewUserID s) (strings_ToLower (duUsername dirUser))
                    (optStr (duEmail dirUser)) (optStr (duName dirUser)))) (\<lambda>targetUserID.
              gaLock s gatewayID
                (andThen (userTier targetUserID gatewayID) (\<lambda>current.
                 andThen (authorizeManage callerUserID gatewayID (giRole input) current) (\<lambda>_.
                 writeTier s gatewayID targetUserID (giRole input)))))))"

definition ChangeRole ::
  "ga_service \<Rightarrow> string \<Rightarrow> string \<Rightarrow> string \<Rightarrow> string \<Rightarrow> (db, GrantItem) prog" where
  "ChangeRole s gatewayID callerUserID targetUserID tier =
     (if tierToRoleName tier = []
      then fail (validationProblem ''role must be one of owner, admin, user'')
      else
        gaLock s gatewayID
          (andThen (userTier targetUserID gatewayID) (\<lambda>current.
           if current = [] then fail (notFound_access ''user has no access to this gateway'' [])
           else andThen (authorizeManage callerUserID gatewayID tier current) (\<lambda>_.
                writeTier s gatewayID targetUserID tier))))"

definition Revoke :: "ga_service \<Rightarrow> string \<Rightarrow> string \<Rightarrow> string \<Rightarrow> (db, unit) prog" where
  "Revoke s gatewayID callerUserID targetUserID =
     gaLock s gatewayID
       (andThen (userTier targetUserID gatewayID) (\<lambda>current.
        if current = [] then fail (notFound_access ''user has no access to this gateway'' [])
        else andThen (authorizeManage callerUserID gatewayID [] current) (\<lambda>_.
             andThen (guardLastOwner gatewayID targetUserID []) (\<lambda>_.
             andThen (mapErr fromServiceError (RevokeGatewayAccess targetUserID gatewayID)) (\<lambda>_. ret ())))))"

definition SearchDirectory ::
  "ga_service \<Rightarrow> string \<Rightarrow> string \<Rightarrow> string \<Rightarrow> (db, DirectoryCandidate list) prog" where
  "SearchDirectory s gatewayID callerUserID q =
     andThen (callerTier callerUserID gatewayID) (\<lambda>tier.
       if tier \<noteq> TierOwner \<and> tier \<noteq> TierAdmin
       then fail (forbidden ''only gateway owners and admins can search the directory'')
       else (case dirSearch (gaDirectory s) q 50 of
               Inl ErrDirectoryUnavailable \<Rightarrow>
                 fail (serviceUnavailable ''the identity directory is not available'')
             | Inl DirectoryFailed \<Rightarrow> fail (serviceUnavailable ''directory search failed'')
             | Inr candidates \<Rightarrow> ret candidates))"

section \<open>The query of the list\<close>

text \<open>\<^verbatim>\<open>strconv.Atoi\<close>: an optional sign and decimal digits, in the range of a 64-bit integer.\<close>

definition decDigit :: "char \<Rightarrow> bool" where
  "decDigit c \<longleftrightarrow> of_char c \<ge> (48::nat) \<and> of_char c \<le> (57::nat)"

definition decValue :: "string \<Rightarrow> int" where
  "decValue ds = foldl (\<lambda>n c. 10 * n + (of_char c - 48)) 0 ds"

definition strconv_Atoi :: "string \<Rightarrow> int option" where
  "strconv_Atoi s =
     (let (neg, ds) = (case s of
            [] \<Rightarrow> (False, [])
          | c # cs \<Rightarrow> if c = CHR ''-'' then (True, cs) else if c = CHR ''+'' then (False, cs) else (False, s));
          v = (if neg then - decValue ds else decValue ds)
      in if ds = [] \<or> \<not> list_all decDigit ds then None
         else if v < - (2 ^ 63) \<or> v > 2 ^ 63 - 1 then None
         else Some v)"

text \<open>\<open>urlQuery\<close> gives the value of a parameter of the URL, empty when absent.\<close>

definition parseListOptions :: "(string \<Rightarrow> string) \<Rightarrow> err + ListOptions" where
  "parseListOptions urlQuery =
     (let p = (if urlQuery ''page'' = [] then Some 1 else strconv_Atoi (urlQuery ''page''));
          sz = (if urlQuery ''size'' = [] then Some 20 else strconv_Atoi (urlQuery ''size''));
          srt = (if urlQuery ''sort'' = [] then ''granted_at'' else urlQuery ''sort'');
          ord = (if urlQuery ''order'' = [] then ''desc'' else urlQuery ''order'');
          role = urlQuery ''role''
      in case p of
           None \<Rightarrow> Inl (validationProblem ''page must be an integer greater than zero'')
         | Some page \<Rightarrow>
             if page < 1 then Inl (validationProblem ''page must be an integer greater than zero'')
             else (case sz of
               None \<Rightarrow> Inl (validationProblem ''size must be between 1 and 100'')
             | Some siz \<Rightarrow>
                 if siz < 1 \<or> siz > 100 then Inl (validationProblem ''size must be between 1 and 100'')
                 else if role \<notin> {[], TierOwner, TierAdmin, TierUser}
                 then Inl (validationProblem ''role filter must be one of owner, admin, user'')
                 else if srt \<notin> {''granted_at'', ''username'', ''name'', ''role''}
                 then Inl (validationProblem ''sort is not valid'')
                 else if ord \<noteq> ''asc'' \<and> ord \<noteq> ''desc''
                 then Inl (validationProblem ''order must be asc or desc'')
                 else Inr \<lparr>loPage = page, loSize = siz, loSearch = urlQuery ''search'', loRole = role,
                           loSort = srt, loOrder = ord\<rparr>))"

section \<open>Search, order and pages\<close>

lemma like_percent: "sql_like (CHR ''%'' # ps) t \<longleftrightarrow> (\<exists>a b. t = a @ b \<and> sql_like ps b)"
proof (induction t)
  case (Cons c cs)
  have "sql_like (CHR ''%'' # ps) (c # cs) \<longleftrightarrow> sql_like ps (c # cs) \<or> (\<exists>a b. cs = a @ b \<and> sql_like ps b)"
    using Cons.IH by simp
  also have "\<dots> \<longleftrightarrow> (\<exists>a b. c # cs = a @ b \<and> sql_like ps b)"
    by (metis append_Cons append_Nil list.exhaust list.inject)
  finally show ?case .
qed simp

lemma like_escaped: "sql_like (escapeLike s @ q) t \<longleftrightarrow> (\<exists>b. t = s @ b \<and> sql_like q b)"
proof (induction s arbitrary: t)
  case Nil
  show ?case by (simp add: escapeLike_def)
next
  case (Cons c s)
  let ?q = "escapeLike s @ q"
  have "escapeLike (c # s) @ q =
      (if c = backslash \<or> c = CHR ''%'' \<or> c = CHR ''_'' then backslash # c # ?q else c # ?q)"
    by (simp add: escapeLike_def)
  then have "sql_like (escapeLike (c # s) @ q) t \<longleftrightarrow> (\<exists>t'. t = c # t' \<and> sql_like ?q t')"
    by (auto simp: backslash_def split: list.splits)
  then show ?case by (auto simp: Cons.IH)
qed

text \<open>
  The search of the access list is literal. Whatever characters the term has, percent signs,
  underscores and backslashes included, the pattern built from it matches exactly the texts that
  contain the term.
\<close>

theorem search_is_literal:
  "sql_like (''%'' @ escapeLike s @ ''%'') t \<longleftrightarrow> strings_Contains t s"
proof -
  have "sql_like (''%'' @ escapeLike s @ ''%'') t \<longleftrightarrow> (\<exists>a b. t = a @ b \<and> (\<exists>c. b = s @ c \<and> sql_like ''%'' c))"
    by (simp add: like_percent like_escaped del: sql_like.simps)
  moreover have "sql_like ''%'' c" for c by (induction c) auto
  ultimately show ?thesis by (auto simp: strings_Contains_iff)
qed

lemma mset_orderRows [simp]: "mset (orderRows collate col asc rows) = mset rows"
  by (simp add: orderRows_def Let_def)

lemma pageOffset_exact:
  assumes "1 \<le> p" "p \<le> 2 ^ 56" "1 \<le> s" "s \<le> 100"
  shows "pageOffset p s = (p - 1) * s"
proof -
  have "(p - 1) * s \<le> 2 ^ 56 * 100" using assms by (intro mult_mono) auto
  moreover have "0 \<le> (p - 1) * s" using assms by simp
  moreover have "(word_of_int p - 1 :: 64 word) * word_of_int s = word_of_int ((p - 1) * s)"
    by simp
  then have "pageOffset p s = ((p - 1) * s + 2 ^ 63) mod 2 ^ 64 - 2 ^ 63"
    unfolding pageOffset_def by (simp only: int_word_sint) simp
  ultimately show ?thesis by simp
qed

text \<open>Beyond that the product wraps around, and a page far behind the last one is the first again.\<close>

lemma page_offset_wraps:
  "pageOffset (2 ^ 58 + 1) 64 = 0 \<and> parseListOptions (\<lambda>k. if k = ''page'' then ''288230376151711745''
     else if k = ''size'' then ''64'' else []) =
     Inr \<lparr>loPage = 2 ^ 58 + 1, loSize = 64, loSearch = [], loRole = [], loSort = ''granted_at'', loOrder = ''desc''\<rparr>"
  by code_simp

lemma concat_pages:
  "n > 0 \<Longrightarrow> concat (map (\<lambda>i. take n (drop (i * n) xs)) [0..<k]) = take (k * n) xs"
proof (induction k)
  case (Suc k)
  have "take (k * n) xs @ take n (drop (k * n) xs) = take (k * n + n) xs" by (simp add: take_add)
  with Suc show ?case by (simp add: add.commute)
qed simp

lemma pageRows_nth:
  assumes "1 \<le> loSize opts" "loSize opts \<le> 100" "i < 2 ^ 56"
  shows "pageRows (opts\<lparr>loPage := int i + 1\<rparr>) rows =
    take (nat (loSize opts)) (drop (i * nat (loSize opts)) rows)"
proof -
  have "pageOffset (int i + 1) (loSize opts) = int i * loSize opts"
    using assms by (simp add: pageOffset_exact)
  moreover have "nat (int i * loSize opts) = i * nat (loSize opts)" by (simp add: nat_mult_distrib)
  ultimately show ?thesis using assms(1) by (simp add: pageRows_def)
qed

definition rowOrder :: "ListOptions \<Rightarrow> sort_column \<times> bool" where
  "rowOrder opts = (case sortColumns (loSort opts) of None \<Rightarrow> ColCreatedAt | Some c \<Rightarrow> c,
     strings_EqualFold (loOrder opts) ''asc'')"

lemma accessDao_list_run:
  assumes "dFaults d = []"
  shows "accessDao_list sqlLower collate g opts d =
    (Inr (pageRows opts (orderRows collate (fst (rowOrder opts)) (snd (rowOrder opts)) (filtered sqlLower d g opts)),
          length (filtered sqlLower d g opts)), d)"
  using assms by (simp add: accessDao_list_def andThen_def no_fault_run rowOrder_def Let_def)

text \<open>
  C38: the pages of the access list are complete. For every page size the handler admits, the pages
  of a quiet database report the number of matching grants and together list each of them exactly
  once, whatever the order asked for.
\<close>

theorem list_pages_complete:
  assumes "1 \<le> loSize opts" "loSize opts \<le> 100" "k \<le> 2 ^ 56" and quiet: "dFaults d = []"
    and enough: "length (filtered sqlLower d g opts) \<le> k * nat (loSize opts)"
  shows "\<exists>pages. length pages = k \<and>
     (\<forall>i<k. accessDao_list sqlLower collate g (opts\<lparr>loPage := int i + 1\<rparr>) d =
        (Inr (pages ! i, length (filtered sqlLower d g opts)), d)) \<and>
     mset (concat pages) = mset (filtered sqlLower d g opts)"
proof -
  let ?n = "nat (loSize opts)" and ?f = "filtered sqlLower d g opts"
  let ?rows = "orderRows collate (fst (rowOrder opts)) (snd (rowOrder opts)) ?f"
  let ?pages = "map (\<lambda>i. take ?n (drop (i * ?n) ?rows)) [0..<k]"
  have same: "filtered sqlLower d g (opts\<lparr>loPage := p\<rparr>) = ?f" "rowOrder (opts\<lparr>loPage := p\<rparr>) = rowOrder opts" for p
    by (simp_all add: filtered_def rowOrder_def)
  have "accessDao_list sqlLower collate g (opts\<lparr>loPage := int i + 1\<rparr>) d = (Inr (?pages ! i, length ?f), d)"
    if "i < k" for i
    using that assms(1-3) by (simp add: accessDao_list_run [OF quiet] same pageRows_nth)
  moreover have "mset (concat ?pages) = mset ?f"
  proof -
    have "length ?rows = length ?f" by (metis mset_orderRows size_mset)
    with enough assms(1) concat_pages [of ?n ?rows k] show ?thesis by simp
  qed
  ultimately show ?thesis by (intro exI [of _ ?pages]) simp
qed

definition listQuery :: ListOptions where
  "listQuery = \<lparr>loPage = 1, loSize = 1, loSearch = ''U'', loRole = [], loSort = ''username'', loOrder = ''asc''\<rparr>"

theorem list_pages_complete_witness:
  "\<exists>pages. length pages = 3 \<and>
     accessDao_list strings_ToLower id ''g1'' (listQuery\<lparr>loPage := 2\<rparr>) twoOwners = (Inr (pages ! 1, 3), twoOwners) \<and>
     length (concat pages) = 3"
proof -
  have h: "1 \<le> loSize listQuery" "loSize listQuery \<le> 100" "(3::nat) \<le> 2 ^ 56" "dFaults twoOwners = []"
    by (simp_all add: listQuery_def twoOwners_def sampleDB_def)
  have n: "length (filtered strings_ToLower twoOwners ''g1'' listQuery) = 3" by code_simp
  have enough: "length (filtered strings_ToLower twoOwners ''g1'' listQuery) \<le> 3 * nat (loSize listQuery)"
    unfolding n by (simp add: listQuery_def)
  obtain pages where p: "length pages = 3" "\<forall>i<3. accessDao_list strings_ToLower id ''g1''
       (listQuery\<lparr>loPage := int i + 1\<rparr>) twoOwners = (Inr (pages ! i, 3), twoOwners)"
      "mset (concat pages) = mset (filtered strings_ToLower twoOwners ''g1'' listQuery)"
    using list_pages_complete [OF h enough, of id] unfolding n by blast
  from p(3) n have "length (concat pages) = 3" by (metis size_mset)
  moreover from p(2) have "accessDao_list strings_ToLower id ''g1''
       (listQuery\<lparr>loPage := int 1 + 1\<rparr>) twoOwners = (Inr (pages ! 1, 3), twoOwners)" by (rule allE [of _ 1]) simp
  ultimately show ?thesis using p(1) by auto
qed

section \<open>What the service reads\<close>

context db_order
begin

lemma steps_summaries [intro]: "steps R (rb_FindBindingsByUserID u)"
  unfolding rb_FindBindingsByUserID_def
  by (auto intro!: steps_andThen steps_mapErr split: sum.split)

lemma steps_tiers [intro]: "steps R (userTier u g)" "steps R (callerTier u g)"
  unfolding userTier_def callerTier_def by (auto intro!: steps_andThen steps_mapErr)

lemma steps_authorizeManage [intro]: "steps R (authorizeManage c g n t)"
  unfolding authorizeManage_def by (auto intro!: steps_andThen)

lemma steps_guardLastOwner [intro]: "steps R (guardLastOwner g u n)"
proof -
  have "steps R (accessDao_ownerUserIDs g)"
    unfolding accessDao_ownerUserIDs_def by (auto intro!: steps_andThen split: prod.split)
  then show ?thesis unfolding guardLastOwner_def by (auto intro!: steps_andThen)
qed

lemma steps_grantItem [intro]: "steps R (grantItem s g u)"
  unfolding grantItem_def accessDao_getForUser_def
  by (auto intro!: steps_andThen steps_mapErr split: option.split)

end

text \<open>What a binding looks like in a summary, and the summaries of a user.\<close>

definition summaryOf :: "db \<Rightarrow> RoleBinding \<Rightarrow> BindingSummary" where
  "summaryOf d b = \<lparr>bsRoleName = the (roleNameOf d b), bsScope = bScope b, bsGatewayID = bGatewayID b\<rparr>"

definition summariesOf :: "db \<Rightarrow> string \<Rightarrow> BindingSummary list" where
  "summariesOf d u = map (summaryOf d) (filter (\<lambda>b. bUserID b = Some u) (liveBindings d))"

lemma find_rev_filter:
  assumes "distinct (map f xs)" "k \<in> set ks"
  shows "find (\<lambda>x. f x = k) (rev (filter (\<lambda>x. f x \<in> set ks) xs)) = find (\<lambda>x. f x = k) xs"
proof (cases "\<exists>x\<in>set xs. f x = k")
  case True
  then obtain x where x: "x \<in> set xs" "f x = k" by blast
  let ?ys = "rev (filter (\<lambda>x. f x \<in> set ks) xs)"
  have "distinct (map f ?ys)" using assms(1) by (simp add: distinct_map_filter rev_map [symmetric])
  with x assms find_key [of f ?ys x] find_key [of f xs x] show ?thesis by simp
next
  case False
  then show ?thesis by (auto simp: find_None_iff [THEN iffD2])
qed

lemma summaries_success:
  assumes "summaries rl bs = Inr ss" "\<And>b. b \<in> set bs \<Longrightarrow>
      find (\<lambda>r. rID r = bRoleID b) (rev rl) = find (\<lambda>r. rID r = bRoleID b) (liveRoles d)"
  shows "ss = map (summaryOf d) bs \<and> (\<forall>b\<in>set bs. roleNameOf d b \<noteq> None)"
  using assms
  by (induction bs arbitrary: ss)
    (auto simp: summaryOf_def roleNameOf_def split: option.splits sum.splits)

lemma FindBindings_success:
  assumes "wf_db d" "rb_FindBindingsByUserID u d = (Inr ss, d1)"
  shows "ss = summariesOf d u \<and> (\<forall>b\<in>set (liveBindings d). bUserID b = Some u \<longrightarrow> roleNameOf d b \<noteq> None)"
proof -
  let ?bs = "filter (\<lambda>b. bUserID b = Some u) (liveBindings d)"
  show ?thesis
  proof (cases "?bs = []")
    case True
    with assms(2) have "ss = []"
      by (auto simp: rb_FindBindingsByUserID_def elim!: andThen_successE dest!: rbDao_FindByUserID_success)
    with True show ?thesis by (auto simp: summariesOf_def filter_empty_conv)
  next
    case False
    let ?rl = "filter (\<lambda>r. rID r \<in> set (map bRoleID ?bs)) (liveRoles d)"
    have "summaries ?rl ?bs = Inr ss"
      using assms(2) False by (auto simp: rb_FindBindingsByUserID_def roleDao_FindByIDs_def
          elim!: andThen_successE dest!: rbDao_FindByUserID_success query_success split: sum.splits)
    moreover have "find (\<lambda>r. rID r = bRoleID b) (rev ?rl) = find (\<lambda>r. rID r = bRoleID b) (liveRoles d)"
      if "b \<in> set ?bs" for b
      using find_rev_filter [of rID "liveRoles d" "bRoleID b" "map bRoleID ?bs"] assms(1) that
      by (simp add: wf_db_def)
    ultimately have "ss = map (summaryOf d) ?bs \<and> (\<forall>b\<in>set ?bs. roleNameOf d b \<noteq> None)"
      by (rule summaries_success)
    then show ?thesis by (simp add: summariesOf_def)
  qed
qed

lemma tier_cases:
  "roleNameToTier n = TierOwner \<longleftrightarrow> n = RoleGatewayOwner"
  "roleNameToTier n = TierAdmin \<longleftrightarrow> n = RoleGatewayAdmin"
  "roleNameToTier n = TierUser \<longleftrightarrow> n = RoleGatewayViewer"
  "roleNameToTier n \<in> {[], TierUser, TierAdmin, TierOwner}"
  by (simp_all add: roleNameToTier_def)

lemma tierRank_tier:
  "t \<in> {[], TierUser, TierAdmin, TierOwner} \<Longrightarrow> s \<in> {[], TierUser, TierAdmin, TierOwner} \<Longrightarrow>
   tierRank t = tierRank s \<longleftrightarrow> t = s"
  by (auto simp: tierRank_def)

text \<open>The loop computes a maximum: the best tier is the start or one of a binding, and above all.\<close>

lemma bestTier_max:
  assumes "best \<in> {[], TierUser, TierAdmin, TierOwner}"
  shows "bestTier g best ss \<in> insert best {roleNameToTier (bsRoleName s) |s. s \<in> set ss \<and> onGateway g s} \<and>
    tierRank best \<le> tierRank (bestTier g best ss) \<and>
    (\<forall>s\<in>set ss. onGateway g s \<longrightarrow> tierRank (roleNameToTier (bsRoleName s)) \<le> tierRank (bestTier g best ss))"
  using assms
proof (induction ss arbitrary: best)
  case (Cons x xs)
  let ?t = "roleNameToTier (bsRoleName x)"
  let ?b = "if \<not> onGateway g x then best else if ?t \<noteq> [] \<and> tierRank ?t > tierRank best then ?t else best"
  have step: "bestTier g best (x # xs) = bestTier g ?b xs" by (simp add: onGateway_def Let_def)
  have b: "?b \<in> {[], TierUser, TierAdmin, TierOwner}" "tierRank best \<le> tierRank ?b"
      "onGateway g x \<Longrightarrow> tierRank ?t \<le> tierRank ?b" "?b = best \<or> onGateway g x \<and> ?b = ?t"
    using Cons.prems tier_cases(4) [of "bsRoleName x"] by (auto simp: tierRank_def)
  note ih = Cons.IH [OF b(1)]
  have "bestTier g ?b xs \<in> insert best {roleNameToTier (bsRoleName s) |s. s \<in> set (x # xs) \<and> onGateway g s}"
    using ih b(4) by auto
  moreover have "tierRank best \<le> tierRank (bestTier g ?b xs)" using ih b(2) by linarith
  moreover have "tierRank (roleNameToTier (bsRoleName s)) \<le> tierRank (bestTier g ?b xs)"
    if "s \<in> set (x # xs)" "onGateway g s" for s
  proof (cases "s = x")
    case True
    with b(3) that(2) have "tierRank ?t \<le> tierRank ?b" by blast
    also have "\<dots> \<le> tierRank (bestTier g ?b xs)" using ih by blast
    finally show ?thesis using True by simp
  next
    case False
    with that ih show ?thesis by simp
  qed
  ultimately show ?case unfolding step by blast
qed simp

lemma highestGatewayTier_owner:
  "highestGatewayTier ss g = TierOwner \<longleftrightarrow> (\<exists>s\<in>set ss. onGateway g s \<and> bsRoleName s = RoleGatewayOwner)"
proof -
  have m: "bestTier g [] ss \<in> insert [] {roleNameToTier (bsRoleName s) |s. s \<in> set ss \<and> onGateway g s}"
    "\<forall>s\<in>set ss. onGateway g s \<longrightarrow> tierRank (roleNameToTier (bsRoleName s)) \<le> tierRank (bestTier g [] ss)"
    using bestTier_max [of "[]" g ss] by simp_all
  show ?thesis
  proof
    assume "highestGatewayTier ss g = TierOwner"
    with m(1) have "TierOwner \<in> {roleNameToTier (bsRoleName s) |s. s \<in> set ss \<and> onGateway g s}"
      by (simp add: highestGatewayTier_def)
    then obtain s where s: "s \<in> set ss" "onGateway g s" "roleNameToTier (bsRoleName s) = TierOwner" by force
    from s(1,2) tier_cases(1) [THEN iffD1, OF s(3)]
    show "\<exists>s\<in>set ss. onGateway g s \<and> bsRoleName s = RoleGatewayOwner" by blast
  next
    assume "\<exists>s\<in>set ss. onGateway g s \<and> bsRoleName s = RoleGatewayOwner"
    with m(2) have "tierRank TierOwner \<le> tierRank (bestTier g [] ss)"
      by (metis tier_cases(1))
    then show "highestGatewayTier ss g = TierOwner"
      unfolding highestGatewayTier_def by (simp add: tierRank_def split: if_splits)
  qed
qed

section \<open>A gateway keeps an owner\<close>

text \<open>
  What the facade relies on in the store of bindings: setting or revoking the access of one user to
  one gateway takes no other owner away, of this gateway or of another, and setting the owner role
  makes the user an owner. The client's lemma is that the guard before a write is enough.
\<close>

locale owner_store =
  fixes inv :: "db \<Rightarrow> bool"
    and setRole :: "string \<Rightarrow> string \<Rightarrow> string \<Rightarrow> (db, 'b) prog"
    and revoke :: "string \<Rightarrow> string \<Rightarrow> (db, 'c) prog"
  assumes inv_rows: "inv d \<Longrightarrow> sameRows d d1 \<Longrightarrow> inv d1"
    and setRole_frame: "inv d \<Longrightarrow> setRole u g n d = (Inr b, d1) \<Longrightarrow> v \<noteq> u \<or> h \<noteq> g \<Longrightarrow>
      v \<in> set (ownerIDs d h) \<Longrightarrow> v \<in> set (ownerIDs d1 h)"
    and setRole_owner: "inv d \<Longrightarrow> setRole u g RoleGatewayOwner d = (Inr b, d1) \<Longrightarrow> u \<in> set (ownerIDs d1 g)"
    and revoke_frame: "inv d \<Longrightarrow> revoke u g d = (Inr c, d1) \<Longrightarrow> v \<noteq> u \<or> h \<noteq> g \<Longrightarrow>
      v \<in> set (ownerIDs d h) \<Longrightarrow> v \<in> set (ownerIDs d1 h)"
    and setRole_inv: "inv d \<Longrightarrow> setRole u g n d = (Inr b, d1) \<Longrightarrow> inv d1"
    and revoke_inv: "inv d \<Longrightarrow> revoke u g d = (Inr c, d1) \<Longrightarrow> inv d1"

lemma guardLastOwner_success:
  assumes "guardLastOwner g u tier d = (Inr x, d1)"
  shows "sameRows d d1 \<and> (u \<in> set (ownerIDs d g) \<and> tier \<noteq> TierOwner \<longrightarrow> length (ownerIDs d g) > 1)"
proof -
  have "sameRows d d1" using rows_at [OF rows.steps_guardLastOwner assms] .
  moreover have "u \<in> set (ownerIDs d g) \<and> tier \<noteq> TierOwner \<longrightarrow> length (ownerIDs d g) > 1"
    using assms by (auto simp: guardLastOwner_def accessDao_ownerUserIDs_def list_ex_iff
        elim!: andThen_successE dest!: query_success split: if_splits)
  ultimately show ?thesis by blast
qed

context owner_store
begin

text \<open>Some owner of \<open>h\<close> is not the user the write is about, or the write is not one that takes it away.\<close>

lemma spared_owner:
  assumes "ownerIDs d h \<noteq> []" "guardLastOwner g u tier d = (Inr x, d1)" "tier \<noteq> TierOwner \<or> h \<noteq> g"
  shows "\<exists>v\<in>set (ownerIDs d h). v \<noteq> u \<or> h \<noteq> g"
proof (cases "h = g \<and> u \<in> set (ownerIDs d g)")
  case True
  with assms(3) guardLastOwner_success [OF assms(2)] have "length (ownerIDs d g) > 1" by simp
  from another_owner [OF this, of "Some u"] True show ?thesis by auto
next
  case False
  with assms(1) show ?thesis by (metis list.set_sel(1))
qed

lemma guarded_set:
  assumes "inv d" "ownerIDs d h \<noteq> []" and guard: "guardLastOwner g u tier d = (Inr x, d1)"
    and set: "setRole u g (tierToRoleName tier) d1 = (Inr b, d2)"
  shows "ownerIDs d2 h \<noteq> [] \<and> inv d2"
proof -
  from guardLastOwner_success [OF guard] have same: "sameRows d d1" by blast
  with assms(1) have inv: "inv d1" by (rule inv_rows)
  have owners: "ownerIDs d1 = ownerIDs d" by (rule sameRows_tables(5) [OF same])
  have "ownerIDs d2 h \<noteq> []"
  proof (cases "tier \<noteq> TierOwner \<or> h \<noteq> g")
    case True
    from spared_owner [OF assms(2) guard True] obtain v
      where "v \<in> set (ownerIDs d1 h)" "v \<noteq> u \<or> h \<noteq> g" by (auto simp: owners)
    from setRole_frame [OF inv set this(2,1)] show ?thesis by auto
  next
    case False
    with set have "setRole u g RoleGatewayOwner d1 = (Inr b, d2)" by (simp add: tierToRoleName_def)
    from setRole_owner [OF inv this] False show ?thesis by auto
  qed
  with setRole_inv [OF inv set] show ?thesis by blast
qed

lemma guarded_revoke:
  assumes "inv d" "ownerIDs d h \<noteq> []" and guard: "guardLastOwner g u [] d = (Inr x, d1)"
    and revoke: "revoke u g d1 = (Inr c, d2)"
  shows "ownerIDs d2 h \<noteq> [] \<and> inv d2"
proof -
  from guardLastOwner_success [OF guard] have same: "sameRows d d1" by blast
  with assms(1) have inv: "inv d1" by (rule inv_rows)
  have "[] \<noteq> TierOwner \<or> h \<noteq> g" by simp
  from spared_owner [OF assms(2) guard this] obtain v
    where "v \<in> set (ownerIDs d1 h)" "v \<noteq> u \<or> h \<noteq> g" by (auto simp: sameRows_tables(5) [OF same])
  from revoke_frame [OF inv revoke this(2,1)] revoke_inv [OF inv revoke] show ?thesis by auto
qed

end

text \<open>An owner binding of another user or gateway is among the others' bindings, which stay.\<close>

lemma owner_frame:
  assumes "others d1 u g = others d u g" "dRoles d1 = dRoles d" "v \<noteq> u \<or> h \<noteq> g"
    and "v \<in> set (ownerIDs d h)"
  shows "v \<in> set (ownerIDs d1 h)"
proof -
  from assms(4) obtain b where b: "b \<in> set (ownerBindings d h)" "bUserID b = Some v"
    by (auto simp: set_ownerIDs)
  then have "b \<in> set (others d u g)"
    using assms(3) by (auto simp: ownerBindings_def others_def onUserGateway_def)
  then have "b \<in> set (liveBindings d1)" using assms(1) by (metis others_def filter_is_subset subsetD)
  moreover have "roleNameOf d1 = roleNameOf d"
    by (simp add: fun_eq_iff roleNameOf_def liveRoles_def assms(2))
  ultimately have "b \<in> set (ownerBindings d1 h)" using b by (simp add: ownerBindings_def)
  with b(2) show ?thesis by (auto simp: set_ownerIDs)
qed

lemma wf_db_rows: "dBindings d1 = dBindings d \<Longrightarrow> dRoles d1 = dRoles d \<Longrightarrow> wf_db d1 = wf_db d"
  by (simp add: wf_db_def liveRoles_def)

lemma wf_run: "steps wf_step m \<Longrightarrow> wf_db d \<Longrightarrow> m d = (r, d1) \<Longrightarrow> wf_db d1 \<and> dRoles d1 = dRoles d"
  by (metis steps_def snd_conv wf_step_def)

lemma bID_newBinding: "bID (newBinding r sc x y) = []"
  by (simp add: newBinding_def)

interpretation bindings: owner_store "\<lambda>d. wf_db d \<and> fresh newID" "SetGatewayRole newID" RevokeGatewayAccess
  for newID
proof unfold_locales
  fix d d1 u g n b c v h
  show "wf_db d \<and> fresh newID \<Longrightarrow> sameRows d d1 \<Longrightarrow> wf_db d1 \<and> fresh newID"
    by (simp add: sameRows_def wf_db_rows [of d1 d])
  assume inv: "wf_db d \<and> fresh newID"
  then have wf: "wf_db d" and fr: "fresh newID" by auto
  note keeps = rb_service_wf [OF fr bID_newBinding [of "[]" "[]" None None]]
  have sets: "steps wf_step (SetGatewayRole newID u g n)" and revs: "steps wf_step (RevokeGatewayAccess u g)" for u g n
    using keeps by blast+
  show "wf_db d1 \<and> fresh newID" if "SetGatewayRole newID u g n d = (Inr b, d1)"
    using wf_run [OF sets wf that] fr by blast
  show "wf_db d1 \<and> fresh newID" if "RevokeGatewayAccess u g d = (Inr c, d1)"
    using wf_run [OF revs wf that] fr by blast
  show "v \<in> set (ownerIDs d1 h)" if run: "SetGatewayRole newID u g n d = (Inr b, d1)"
    and "v \<noteq> u \<or> h \<noteq> g" "v \<in> set (ownerIDs d h)"
    using SetGatewayRole_effect [OF wf fr run] wf_run [OF sets wf run] that(2,3) by (blast intro: owner_frame)
  show "v \<in> set (ownerIDs d1 h)" if run: "RevokeGatewayAccess u g d = (Inr c, d1)"
    and "v \<noteq> u \<or> h \<noteq> g" "v \<in> set (ownerIDs d h)"
    using RevokeGatewayAccess_effect [OF wf run] wf_run [OF revs wf run] that(2,3) by (blast intro: owner_frame)
  show "u \<in> set (ownerIDs d1 g)" if run: "SetGatewayRole newID u g RoleGatewayOwner d = (Inr b, d1)"
  proof -
    from SetGatewayRole_effect [OF wf fr run]
    have one: "userOn d1 u g = [b]" and name: "roleNameOf d1 b = Some RoleGatewayOwner" by simp_all
    from one have "b \<in> set (userOn d1 u g)" by simp
    with name have "b \<in> set (ownerBindings d1 g)" "bUserID b = Some u"
      by (auto simp: userOn_def ownerBindings_def onUserGateway_def)
    then show ?thesis by (auto simp: set_ownerIDs)
  qed
qed

text \<open>Programs that leave the bindings and roles alone.\<close>

definition sameAccess :: "db \<Rightarrow> db \<Rightarrow> bool" where
  "sameAccess d d1 \<longleftrightarrow> dBindings d1 = dBindings d \<and> dRoles d1 = dRoles d"

interpretation acc: db_order sameAccess
  by unfold_locales (auto simp: sameAccess_def)

lemma acc_at: "steps sameAccess m \<Longrightarrow> m d = (r, d1) \<Longrightarrow> sameAccess d d1"
  by (metis steps_def snd_conv)

lemma sameAccess_tables:
  assumes "sameAccess d d1"
  shows "liveBindings d1 = liveBindings d" "roleNameOf d1 = roleNameOf d" "ownerIDs d1 = ownerIDs d"
    "summariesOf d1 = summariesOf d" "wf_db d1 = wf_db d"
proof -
  show 1: "liveBindings d1 = liveBindings d" "roleNameOf d1 = roleNameOf d"
    using assms by (simp_all add: sameAccess_def liveBindings_def roleNameOf_def liveRoles_def fun_eq_iff)
  from 1 show "ownerIDs d1 = ownerIDs d" "summariesOf d1 = summariesOf d"
    by (simp_all add: ownerIDs_def ownerBindings_def summariesOf_def summaryOf_def fun_eq_iff)
  from assms show "wf_db d1 = wf_db d" by (simp add: sameAccess_def wf_db_rows [of d1 d])
qed

lemma acc_Upsert: "steps sameAccess (UpsertByUsername h newUserID n e m)"
proof -
  have get: "steps sameAccess (userDao_GetByUsername k)" for k
    unfolding userDao_GetByUsername_def by (rule acc.steps_take_row)
  have "steps sameAccess (exec (\<lambda>d. (Inr (), d\<lparr>dUsers := f d\<rparr>)))" for f
    by (rule acc.steps_exec) (simp add: sameAccess_def)
  with get have "steps sameAccess (updateChangedFields h a b)" for a b
    unfolding updateChangedFields_def Let_def
    by (auto intro!: acc.steps_withLock acc.steps_andThen)
  moreover have "steps sameAccess (insertIfAbsent newUserID a)" for a
    unfolding insertIfAbsent_def
    by (intro acc.steps_andThen acc.steps_exec get) (simp add: sameAccess_def insertUser_def Let_def)
  ultimately show ?thesis
    unfolding UpsertByUsername_def userDao_Upsert_def
    by (auto intro!: acc.steps_andThen acc.steps_attempt get split: sum.split)
qed

lemma gaLock_success:
  assumes "gaLock s g body d = (Inr x, d')"
  shows "\<exists>d0 d1. sameAccess d d0 \<and> body d0 = (Inr x, d1) \<and> sameAccess d1 d'"
proof (cases d rule: withLock_cases [of "gaLocks s" "\<lambda>_. serverError ''unable to acquire access lock''"
      "GatewayAccessLockID g" body])
  case unlocked
  with assms have "body d = (Inr x, d')" by (simp add: gaLock_def)
  with acc.refl show ?thesis by blast
next
  case (refused fs)
  with assms show ?thesis by (simp add: gaLock_def)
next
  case (locked fs)
  let ?d0 = "d\<lparr>dFaults := fs, dLocks := GatewayAccessLockID g # dLocks d\<rparr>"
  from locked assms obtain d1 where "body ?d0 = (Inr x, d1)" "d' = releaseLock (GatewayAccessLockID g) d1"
    by (auto simp: gaLock_def split: prod.splits)
  moreover have "sameAccess d ?d0" "sameAccess d1 (releaseLock (GatewayAccessLockID g) d1)"
    by (simp_all add: sameAccess_def releaseLock_def)
  ultimately show ?thesis by blast
qed

text \<open>The tier the facade acts on for a caller: the platform admin counts as an owner everywhere.\<close>

definition effectiveTier :: "db \<Rightarrow> string \<Rightarrow> string \<Rightarrow> string" where
  "effectiveTier d c g =
     (if list_ex (\<lambda>b. bsRoleName b = RolePlatformAdmin) (summariesOf d c) then TierOwner
      else highestGatewayTier (summariesOf d c) g)"

definition resolved :: "db \<Rightarrow> string \<Rightarrow> bool" where
  "resolved d u \<longleftrightarrow> (\<forall>b\<in>set (liveBindings d). bUserID b = Some u \<longrightarrow> roleNameOf d b \<noteq> None)"

definition mayManage :: "db \<Rightarrow> string \<Rightarrow> string \<Rightarrow> string \<Rightarrow> string \<Rightarrow> bool" where
  "mayManage d c g newTier currentTier \<longleftrightarrow> resolved d c \<and>
     (effectiveTier d c g = TierOwner \<or> effectiveTier d c g = TierAdmin) \<and>
     (newTier = TierOwner \<or> currentTier = TierOwner \<longrightarrow> effectiveTier d c g = TierOwner)"

lemma sameAccess_tier: "sameAccess d d1 \<Longrightarrow> effectiveTier d1 = effectiveTier d \<and> resolved d1 = resolved d"
  using sameAccess_tables(1,2,4) [of d d1] by (simp add: effectiveTier_def resolved_def fun_eq_iff)

lemma callerTier_success:
  "wf_db d \<Longrightarrow> callerTier c g d = (Inr t, d1) \<Longrightarrow> t = effectiveTier d c g \<and> resolved d c"
  by (auto simp: callerTier_def effectiveTier_def resolved_def elim!: andThen_successE
      dest!: FindBindings_success split: if_splits)

lemma userTier_success:
  "wf_db d \<Longrightarrow> userTier u g d = (Inr t, d1) \<Longrightarrow> t = highestGatewayTier (summariesOf d u) g"
  by (auto simp: userTier_def elim!: andThen_successE dest!: FindBindings_success)

lemma authorizeManage_success:
  assumes "wf_db d" "authorizeManage c g newTier currentTier d = (Inr x, d1)"
  shows "mayManage d c g newTier currentTier"
proof -
  from assms(2) obtain t d2 where t: "callerTier c g d = (Inr t, d2)"
    and "t = TierOwner \<or> t = TierAdmin" "newTier = TierOwner \<or> currentTier = TierOwner \<longrightarrow> t = TierOwner"
    unfolding authorizeManage_def
    by (elim andThen_successE) (auto split: if_splits)
  with callerTier_success [OF assms(1) t] show ?thesis by (simp add: mayManage_def)
qed

text \<open>What a successful request of the facade did: it was permitted, guarded, and wrote.\<close>

definition managed :: "ga_service \<Rightarrow> string \<Rightarrow> string \<Rightarrow> string \<Rightarrow> string \<Rightarrow> db \<Rightarrow> db \<Rightarrow> bool" where
  "managed s c g u newTier d d' \<longleftrightarrow>
     mayManage d c g newTier (highestGatewayTier (summariesOf d u) g) \<and>
     (\<exists>d0 x d1 d2. sameAccess d d0 \<and> guardLastOwner g u newTier d0 = (Inr x, d1) \<and> sameAccess d2 d' \<and>
        (if newTier = [] then \<exists>n. RevokeGatewayAccess u g d1 = (Inr n, d2)
         else \<exists>b. SetGatewayRole (gaNewBindingID s) u g (tierToRoleName newTier) d1 = (Inr b, d2)))"

lemma writeTier_success:
  assumes "writeTier s g u t d = (Inr item, d')"
  shows "\<exists>x d1 b d2. guardLastOwner g u t d = (Inr x, d1) \<and>
    SetGatewayRole (gaNewBindingID s) u g (tierToRoleName t) d1 = (Inr b, d2) \<and> sameAccess d2 d'"
  using assms unfolding writeTier_def
  by (auto elim!: andThen_successE dest!: acc_at [OF acc.steps_grantItem])

lemma managed_intro:
  assumes wf: "wf_db d" and same: "sameAccess d d0" and tier: "userTier u g d0 = (Inr cur, d1)"
    and auth: "authorizeManage c g newTier cur d1 = (Inr y, d2)"
  shows "mayManage d c g newTier (highestGatewayTier (summariesOf d u) g) \<and> sameAccess d d2"
proof -
  from sameAccess_tables(4,5) [OF same] wf have d0: "summariesOf d0 = summariesOf d" "wf_db d0" by auto
  from acc_at [OF acc.steps_tiers(1) tier] same have s1: "sameAccess d d1" by (auto simp: sameAccess_def)
  with acc_at [OF acc.steps_authorizeManage auth] have "sameAccess d d2" by (auto simp: sameAccess_def)
  moreover from sameAccess_tables(5) [OF s1] wf have "wf_db d1" by simp
  from authorizeManage_success [OF this auth] userTier_success [OF d0(2) tier]
  have "mayManage d c g newTier (highestGatewayTier (summariesOf d u) g)"
    by (simp add: mayManage_def sameAccess_tier [OF s1] d0(1))
  ultimately show ?thesis by blast
qed

lemma managed_set:
  assumes wf: "wf_db d" and same: "sameAccess d d0" and tier: "userTier u g d0 = (Inr cur, d1)"
    and auth: "authorizeManage c g t cur d1 = (Inr y, d2)" and run: "writeTier s g u t d2 = (Inr item, d3)"
    and fin: "sameAccess d3 d'" and t: "tierToRoleName t \<noteq> []"
  shows "managed s c g u t d d'"
proof -
  from managed_intro [OF wf same tier auth]
  have may: "mayManage d c g t (highestGatewayTier (summariesOf d u) g)" and s2: "sameAccess d d2" by auto
  from writeTier_success [OF run] obtain x d4 b d5 where
      "guardLastOwner g u t d2 = (Inr x, d4)"
      "SetGatewayRole (gaNewBindingID s) u g (tierToRoleName t) d4 = (Inr b, d5)" "sameAccess d5 d3" by blast
  moreover from \<open>sameAccess d5 d3\<close> fin have "sameAccess d5 d'" by (rule acc.trans)
  moreover from t have "t \<noteq> []" by (auto simp: tierToRoleName_def)
  ultimately show ?thesis using may s2 unfolding managed_def by auto
qed

lemma ChangeRole_managed:
  assumes wf: "wf_db d" and run: "ChangeRole s g c u t d = (Inr item, d')"
  shows "managed s c g u t d d'"
proof -
  let ?body = "andThen (userTier u g) (\<lambda>current.
     if current = [] then fail (notFound_access ''user has no access to this gateway'' [])
     else andThen (authorizeManage c g t current) (\<lambda>_. writeTier s g u t))"
  from run have t: "tierToRoleName t \<noteq> []" and lock: "gaLock s g ?body d = (Inr item, d')"
    by (auto simp: ChangeRole_def split: if_splits)
  from gaLock_success [OF lock] obtain d0 d3 where
    s: "sameAccess d d0" "?body d0 = (Inr item, d3)" "sameAccess d3 d'" by blast
  from s(2) obtain cur d1 y d2 where "userTier u g d0 = (Inr cur, d1)"
      "authorizeManage c g t cur d1 = (Inr y, d2)" "writeTier s g u t d2 = (Inr item, d3)"
    by (auto elim!: andThen_successE split: if_splits)
  from managed_set [OF wf s(1) this s(3) t] show ?thesis .
qed

lemma Grant_managed:
  assumes wf: "wf_db d" and run: "Grant s g c input d = (Inr item, d')"
  shows "\<exists>u. managed s c g u (giRole input) d d'"
proof -
  let ?t = "giRole input"
  let ?body = "\<lambda>u. andThen (userTier u g) (\<lambda>current.
     andThen (authorizeManage c g ?t current) (\<lambda>_. writeTier s g u ?t))"
  let ?up = "\<lambda>du::DirectoryUser. UpsertByUsername (gaUserLocks s) (gaNewUserID s) (strings_ToLower (duUsername du))
     (optStr (duEmail du)) (optStr (duName du))"
  have "\<exists>y d1 du u d2. tierToRoleName ?t \<noteq> [] \<and> authorizeManage c g ?t [] d = (Inr y, d1) \<and>
      ?up du d1 = (Inr u, d2) \<and> gaLock s g (?body u) d2 = (Inr item, d')"
    using run unfolding Grant_def
    by (auto elim!: andThen_successE split: if_splits sum.splits prod.splits directory_error.splits) blast
  then obtain y d1 du u d2 where t: "tierToRoleName ?t \<noteq> []"
    and auth: "authorizeManage c g ?t [] d = (Inr y, d1)" and up: "?up du d1 = (Inr u, d2)"
    and lock: "gaLock s g (?body u) d2 = (Inr item, d')" by blast
  from acc_at [OF acc.steps_authorizeManage auth] acc_at [OF acc_Upsert up]
  have s2: "sameAccess d d2" by (rule acc.trans)
  from gaLock_success [OF lock] obtain d0 d3 where
    s: "sameAccess d2 d0" "?body u d0 = (Inr item, d3)" "sameAccess d3 d'" by blast
  from s(2) obtain cur d1 y d4 where "userTier u g d0 = (Inr cur, d1)"
      "authorizeManage c g ?t cur d1 = (Inr y, d4)" "writeTier s g u ?t d4 = (Inr item, d3)"
    by (auto elim!: andThen_successE)
  from managed_set [OF wf acc.trans [OF s2 s(1)] this s(3) t] show ?thesis by blast
qed

lemma Revoke_managed:
  assumes wf: "wf_db d" and run: "Revoke s g c u d = (Inr v, d')"
  shows "managed s c g u [] d d'"
proof -
  let ?body = "andThen (userTier u g) (\<lambda>current.
     if current = [] then fail (notFound_access ''user has no access to this gateway'' [])
     else andThen (authorizeManage c g [] current) (\<lambda>_. andThen (guardLastOwner g u []) (\<lambda>_.
       andThen (mapErr fromServiceError (RevokeGatewayAccess u g)) (\<lambda>_. ret ()))))"
  from run have lock: "gaLock s g ?body d = (Inr v, d')" by (simp add: Revoke_def)
  from gaLock_success [OF lock] obtain d0 d3 where
    s: "sameAccess d d0" "?body d0 = (Inr v, d3)" "sameAccess d3 d'" by blast
  from s(2) obtain cur d1 y d2 x d4 n where "userTier u g d0 = (Inr cur, d1)"
      "authorizeManage c g [] cur d1 = (Inr y, d2)" and w: "guardLastOwner g u [] d2 = (Inr x, d4)"
      "RevokeGatewayAccess u g d4 = (Inr n, d3)"
    by (auto elim!: andThen_successE split: if_splits)
  from managed_intro [OF wf s(1) this(1,2)] w s(3) show ?thesis unfolding managed_def by auto
qed

lemma managed_keeps_owner:
  assumes wf: "wf_db d" and fr: "fresh (gaNewBindingID s)" and m: "managed s c g u t d d'"
    and own: "ownerIDs d h \<noteq> []"
  shows "ownerIDs d' h \<noteq> [] \<and> wf_db d'"
proof -
  from m obtain d0 x d1 d2 where same: "sameAccess d d0" "sameAccess d2 d'"
    and guard: "guardLastOwner g u t d0 = (Inr x, d1)"
    and wr: "if t = [] then \<exists>n. RevokeGatewayAccess u g d1 = (Inr n, d2)
       else \<exists>b. SetGatewayRole (gaNewBindingID s) u g (tierToRoleName t) d1 = (Inr b, d2)"
    unfolding managed_def by blast
  note to0 = sameAccess_tables(3,5) [OF same(1)] and to' = sameAccess_tables(3,5) [OF same(2)]
  from wf fr to0(2) have inv: "wf_db d0 \<and> fresh (gaNewBindingID s)" by simp
  from own to0(1) have own0: "ownerIDs d0 h \<noteq> []" by simp
  have "ownerIDs d2 h \<noteq> [] \<and> wf_db d2"
  proof (cases "t = []")
    case True
    with wr obtain n where "RevokeGatewayAccess u g d1 = (Inr n, d2)" by auto
    with bindings.guarded_revoke [OF inv own0 guard [unfolded True]] show ?thesis by blast
  next
    case False
    with wr obtain b where "SetGatewayRole (gaNewBindingID s) u g (tierToRoleName t) d1 = (Inr b, d2)" by auto
    with bindings.guarded_set [OF inv own0 guard] show ?thesis by blast
  qed
  with to' show ?thesis by simp
qed

text \<open>Who counts as an owner, read off the bindings.\<close>

definition isAdminUser :: "db \<Rightarrow> string \<Rightarrow> bool" where
  "isAdminUser d u \<longleftrightarrow> (\<exists>b\<in>set (liveBindings d). bUserID b = Some u \<and> roleNameOf d b = Some RolePlatformAdmin)"

lemma owner_has_tier: "u \<in> set (ownerIDs d g) \<Longrightarrow> highestGatewayTier (summariesOf d u) g = TierOwner"
proof -
  assume "u \<in> set (ownerIDs d g)"
  then obtain b where "b \<in> set (ownerBindings d g)" "bUserID b = Some u" by (auto simp: set_ownerIDs)
  then have "summaryOf d b \<in> set (summariesOf d u)"
    and "onGateway g (summaryOf d b)" "bsRoleName (summaryOf d b) = RoleGatewayOwner"
    by (simp add: ownerBindings_def summariesOf_def, simp_all add: ownerBindings_def summaryOf_def onGateway_def)
  then show ?thesis unfolding highestGatewayTier_owner by blast
qed

lemma effective_owner:
  assumes "resolved d c" "effectiveTier d c g = TierOwner"
  shows "c \<in> set (ownerIDs d g) \<or> isAdminUser d c"
proof -
  have name: "roleNameOf d b = Some n"
    if "b \<in> set (liveBindings d)" "bUserID b = Some c" "bsRoleName (summaryOf d b) = n" for b n
    using that assms(1) by (auto simp: resolved_def summaryOf_def)
  show ?thesis
  proof (cases "list_ex (\<lambda>b. bsRoleName b = RolePlatformAdmin) (summariesOf d c)")
    case True
    then obtain b where "b \<in> set (liveBindings d)" "bUserID b = Some c"
        "bsRoleName (summaryOf d b) = RolePlatformAdmin"
      by (auto simp: list_ex_iff summariesOf_def)
    with name show ?thesis unfolding isAdminUser_def by blast
  next
    case False
    with assms(2) have "highestGatewayTier (summariesOf d c) g = TierOwner" by (simp add: effectiveTier_def)
    then obtain b where b: "b \<in> set (liveBindings d)" "bUserID b = Some c" "onGateway g (summaryOf d b)"
        "bsRoleName (summaryOf d b) = RoleGatewayOwner"
      unfolding highestGatewayTier_owner by (auto simp: summariesOf_def)
    from name [OF b(1,2,4)] b(1,3) have "b \<in> set (ownerBindings d g)"
      by (simp add: ownerBindings_def onGateway_def summaryOf_def)
    with b(2) show ?thesis by (auto simp: set_ownerIDs)
  qed
qed

text \<open>A write that is neither to nor from the owner tier leaves the owners of every gateway as they are.\<close>

lemma owners_unchanged:
  assumes "others d1 u g = others d u g" "dRoles d1 = dRoles d"
    and "u \<notin> set (ownerIDs d g)" "\<And>b. b \<in> set (userOn d1 u g) \<Longrightarrow> roleNameOf d1 b \<noteq> Some RoleGatewayOwner"
  shows "set (ownerIDs d1 h) = set (ownerIDs d h)"
proof -
  have "u \<notin> set (ownerIDs d1 g)"
    using assms(4) by (auto simp: set_ownerIDs ownerBindings_def userOn_def onUserGateway_def)
  moreover have "v \<in> set (ownerIDs d1 h) \<longleftrightarrow> v \<in> set (ownerIDs d h)" if "v \<noteq> u \<or> h \<noteq> g" for v
    using owner_frame [OF assms(1,2) that] owner_frame [OF assms(1,2) [symmetric] that] by blast
  ultimately have "v \<in> set (ownerIDs d1 h) \<longleftrightarrow> v \<in> set (ownerIDs d h)" for v
    using assms(3) by (cases "v \<noteq> u \<or> h \<noteq> g") auto
  then show ?thesis by (rule set_eqI)
qed

lemma tierToRoleName_owner: "tierToRoleName t = RoleGatewayOwner \<longleftrightarrow> t = TierOwner"
  by (simp add: tierToRoleName_def)

lemma managed_owners:
  assumes wf: "wf_db d" and fr: "fresh (gaNewBindingID s)" and m: "managed s c g u t d d'"
    and t: "t \<noteq> TierOwner" and u: "u \<notin> set (ownerIDs d g)"
  shows "set (ownerIDs d' h) = set (ownerIDs d h)"
proof -
  from m obtain d0 x d1 d2 where same: "sameAccess d d0" "sameAccess d2 d'"
    and guard: "guardLastOwner g u t d0 = (Inr x, d1)"
    and wr: "if t = [] then \<exists>n. RevokeGatewayAccess u g d1 = (Inr n, d2)
       else \<exists>b. SetGatewayRole (gaNewBindingID s) u g (tierToRoleName t) d1 = (Inr b, d2)"
    unfolding managed_def by blast
  from acc_at [OF acc.steps_guardLastOwner guard] same(1) have s1: "sameAccess d d1" by (blast intro: acc.trans)
  note to1 = sameAccess_tables(3,5) [OF s1]
  from wf to1(2) have wf1: "wf_db d1" by simp
  from u to1(1) have u1: "u \<notin> set (ownerIDs d1 g)" by simp
  have revs: "steps wf_step (RevokeGatewayAccess u g)"
    and sets: "steps wf_step (SetGatewayRole (gaNewBindingID s) u g n)" for n
    using rb_service_wf [OF fr bID_newBinding [of "[]" "[]" None None]] by blast+
  have "set (ownerIDs d2 h) = set (ownerIDs d1 h)"
  proof (cases "t = []")
    case True
    with wr obtain n where run: "RevokeGatewayAccess u g d1 = (Inr n, d2)" by auto
    from wf_run [OF revs wf1 run] have "dRoles d2 = dRoles d1" by blast
    with RevokeGatewayAccess_effect [OF wf1 run] u1 show ?thesis by (intro owners_unchanged) auto
  next
    case False
    with wr obtain b where run: "SetGatewayRole (gaNewBindingID s) u g (tierToRoleName t) d1 = (Inr b, d2)" by auto
    from wf_run [OF sets wf1 run] have "dRoles d2 = dRoles d1" by blast
    moreover have "roleNameOf d2 b \<noteq> Some RoleGatewayOwner"
      using SetGatewayRole_effect [OF wf1 fr run] t tierToRoleName_owner by auto
    ultimately show ?thesis using SetGatewayRole_effect [OF wf1 fr run] u1 by (intro owners_unchanged) auto
  qed
  with to1(1) sameAccess_tables(3) [OF same(2)] show ?thesis by simp
qed

lemma managed_gating:
  assumes wf: "wf_db d" and fr: "fresh (gaNewBindingID s)" and m: "managed s c g u t d d'"
    and changed: "set (ownerIDs d' h) \<noteq> set (ownerIDs d h)"
  shows "c \<in> set (ownerIDs d g) \<or> isAdminUser d c"
proof -
  have may: "mayManage d c g t (highestGatewayTier (summariesOf d u) g)" using m by (simp add: managed_def)
  from managed_owners [OF wf fr m] changed have "t = TierOwner \<or> u \<in> set (ownerIDs d g)" by blast
  then have "t = TierOwner \<or> highestGatewayTier (summariesOf d u) g = TierOwner"
    using owner_has_tier by blast
  with may have "effectiveTier d c g = TierOwner" "resolved d c" by (auto simp: mayManage_def)
  then show ?thesis by (intro effective_owner)
qed

text \<open>
  C11: only owners change who owns a gateway. When a grant, a change or a revocation of the facade
  succeeds and the owners of some gateway are not the same afterwards, the caller was an owner of
  the gateway of the request or a platform admin; an admin of the gateway can neither make nor
  unmake an owner.
\<close>

theorem owners_change_needs_owner:
  assumes "wf_db d" "fresh (gaNewBindingID s)"
    and "(\<exists>item. ChangeRole s g c u t d = (Inr item, d')) \<or> (\<exists>item. Grant s g c input d = (Inr item, d')) \<or>
      (\<exists>v. Revoke s g c u d = (Inr v, d'))"
    and "set (ownerIDs d' h) \<noteq> set (ownerIDs d h)"
  shows "c \<in> set (ownerIDs d g) \<or> isAdminUser d c"
proof -
  have "\<exists>u t. managed s c g u t d d'" 
    using assms(3) ChangeRole_managed [OF assms(1), of s g c u t _ d'] Grant_managed [OF assms(1), of s g c input _ d']
      Revoke_managed [OF assms(1), of s g c u _ d'] by blast
  with managed_gating [OF assms(1,2) _ assms(4)] show ?thesis by blast
qed

text \<open>A sample facade over the sample database: a directory that knows one user.\<close>

definition sampleFacade :: ga_service where
  "sampleFacade = \<lparr>gaDirectory = \<lparr>dirSearch = (\<lambda>_ _. Inr []),
       dirResolve = (\<lambda>n. Inr (\<lparr>duUsername = n, duName = [], duEmail = ''e'', duSubject = []\<rparr>, n = ''U3''))\<rparr>,
     gaLocks = True, gaUserLocks = True, gaNewBindingID = freshID, gaNewUserID = freshID,
     gaSqlLower = strings_ToLower, gaCollate = id\<rparr>"

lemma fresh_sampleFacade: "fresh (gaNewBindingID sampleFacade)"
  by (simp add: sampleFacade_def fresh_freshID)

theorem owners_change_needs_owner_witness:
  "\<exists>item d'. Grant sampleFacade ''g1'' ''u1'' \<lparr>giUsername = ''U3'', giSubject = [], giRole = TierOwner\<rparr> twoOwners
      = (Inr item, d') \<and> set (ownerIDs d' ''g1'') \<noteq> set (ownerIDs twoOwners ''g1'') \<and>
     (''u1'' \<in> set (ownerIDs twoOwners ''g1'') \<or> isAdminUser twoOwners ''u1'')"
proof -
  let ?in = "\<lparr>giUsername = ''U3'', giSubject = [], giRole = TierOwner\<rparr>"
  let ?run = "Grant sampleFacade ''g1'' ''u1'' ?in twoOwners"
  have "case fst ?run of Inr _ \<Rightarrow> ''u3'' \<in> set (ownerIDs (snd ?run) ''g1'') | Inl _ \<Rightarrow> False" by code_simp
  then obtain item d' where run: "?run = (Inr item, d')" and "''u3'' \<in> set (ownerIDs d' ''g1'')"
    by (cases ?run) (auto split: sum.splits)
  moreover have "''u3'' \<notin> set (ownerIDs twoOwners ''g1'')" by code_simp
  ultimately have changed: "set (ownerIDs d' ''g1'') \<noteq> set (ownerIDs twoOwners ''g1'')" by metis
  from run have "(\<exists>item. ChangeRole sampleFacade ''g1'' ''u1'' [] [] twoOwners = (Inr item, d')) \<or>
      (\<exists>item. Grant sampleFacade ''g1'' ''u1'' ?in twoOwners = (Inr item, d')) \<or>
      (\<exists>v. Revoke sampleFacade ''g1'' ''u1'' [] twoOwners = (Inr v, d'))" by metis
  from owners_change_needs_owner [OF wf_twoOwners fresh_sampleFacade this changed] run changed
  show ?thesis by metis
qed

subsection \<open>Interleaved requests\<close>

text \<open>
  Bindings outside a set of ids stay. With the empty set this is a program that removes nothing;
  with the ids of the global bindings it is the synchronisation of the roles of a token.
\<close>

definition keepsRows :: "string set \<Rightarrow> db \<Rightarrow> db \<Rightarrow> bool" where
  "keepsRows S d d1 \<longleftrightarrow> dRoles d1 = dRoles d \<and>
     (\<forall>b\<in>set (liveBindings d). bID b \<notin> S \<longrightarrow> b \<in> set (liveBindings d1))"

interpretation kept: db_order "keepsRows S" for S
  by unfold_locales (auto simp: keepsRows_def)

lemma steps_at: "steps R m \<Longrightarrow> R s (snd (m s))"
  by (simp add: steps_def)

lemma kept_Create: "steps (keepsRows S) (rbDao_Create newID rb)"
  unfolding rbDao_Create_def by (rule kept.steps_exec) (auto simp: keepsRows_def liveBindings_def Let_def)

lemma kept_Delete: "i \<in> S \<Longrightarrow> steps (keepsRows S) (rbDao_Delete i)"
  unfolding rbDao_Delete_def
  by (rule kept.steps_exec) (auto simp: keepsRows_def liveBindings_def softDelete_def)

lemma kept_owners:
  assumes "keepsRows S d d1" "\<And>b. b \<in> set (ownerBindings d g) \<Longrightarrow> bID b \<notin> S" "ownerIDs d g \<noteq> []"
  shows "ownerIDs d1 g \<noteq> []"
proof -
  from assms(3) obtain u where "u \<in> set (ownerIDs d g)" by (metis list.set_sel(1))
  then obtain b where b: "b \<in> set (ownerBindings d g)" "bUserID b = Some u" by (auto simp: set_ownerIDs)
  have "roleNameOf d1 = roleNameOf d"
    using assms(1) by (simp add: fun_eq_iff roleNameOf_def liveRoles_def keepsRows_def)
  with assms(1,2) b(1) have "b \<in> set (ownerBindings d1 g)" by (auto simp: keepsRows_def ownerBindings_def)
  with b(2) have "u \<in> set (ownerIDs d1 g)" by (auto simp: set_ownerIDs)
  then show ?thesis by auto
qed

lemma kept_rbService_Create: "steps (keepsRows S) (rbService_Create r newID c rb)"
proof -
  have "steps (keepsRows S) (validateTargetUser r rb)"
    unfolding validateTargetUser_def by (auto intro!: kept.steps_andThen split: option.split)
  then show ?thesis unfolding rbService_Create_def
    by (auto intro!: kept.steps_andThen kept.steps_mapErr kept_Create)
qed

lemma kept_CreateGatewayOwnerBinding: "steps (keepsRows S) (CreateGatewayOwnerBinding newID u g)"
  unfolding CreateGatewayOwnerBinding_def by (auto intro!: kept.steps_andThen kept_Create)

lemma collectSynced_global:
  assumes "collectSynced bs acc d = (Inr m, d1)" "m n = Some b"
  shows "acc n = Some b \<or> b \<in> set bs \<and> bScope b = ScopeGlobal"
  using assms
proof (induction bs arbitrary: acc d)
  case (Cons x xs)
  show ?case
  proof (cases "bScope x = ScopeGlobal")
    case True
    with Cons.prems(1) obtain acc' d2 where "collectSynced xs acc' d2 = (Inr m, d1)"
        "acc' = acc \<or> (\<exists>k. acc' = acc(k \<mapsto> x))"
      by (auto simp: andThen_def split: sum.splits if_splits)
    with Cons.IH [of acc' d2] Cons.prems(2) True show ?thesis by (auto split: if_splits)
  next
    case False
    with Cons show ?thesis by auto
  qed
qed simp

lemma kept_SyncJWTRoles:
  assumes wf: "wf_db d" and own: "ownerIDs d g \<noteq> []"
    and run: "SyncJWTRoles order newID u js d = (r, d1)"
  shows "ownerIDs d1 g \<noteq> []"
proof -
  let ?S = "bID ` {b \<in> set (liveBindings d). bScope b = ScopeGlobal}"
  have create: "steps (keepsRows ?S) (syncCreate newID u m n)" for m n
    unfolding syncCreate_def by (auto intro!: kept.steps_andThen kept.steps_mapErr kept_Create)
  have "keepsRows ?S d (snd (SyncJWTRoles order newID u js d))"
    unfolding SyncJWTRoles_def Let_def
  proof (rule kept.run_andThen)
    show "keepsRows ?S d (snd (mapErr e (rbDao_FindByUserID u) d))" for e :: "err \<Rightarrow> err"
      by (rule steps_at [OF kept.steps_mapErr [OF kept.steps_dao(6)]])
    fix bs d2
    assume "mapErr (Wrapped ''unable to find bindings for user %s: %w'' [u]) (rbDao_FindByUserID u) d = (Inr bs, d2)"
    then have "rbDao_FindByUserID u d = (Inr bs, d2)" by simp
    from rbDao_FindByUserID_success [OF this]
    have bs: "bs = filter (\<lambda>b. bUserID b = Some u) (liveBindings d)" by blast
    show "keepsRows ?S d2 (snd (andThen (collectSynced bs Map.empty) (\<lambda>m.
        andThen (forEach (syncCreate newID u m) (order (filter (\<lambda>r. r \<in> set js) JWTSyncedRoles))) (\<lambda>_.
        forEach (syncDelete (set (filter (\<lambda>r. r \<in> set js) JWTSyncedRoles)) m)
          (order (filter (\<lambda>r. m r \<noteq> None) JWTSyncedRoles)))) d2))"
    proof (rule kept.run_andThen)
      show "keepsRows ?S d2 (snd (collectSynced bs Map.empty d2))"
        by (rule steps_at [OF kept.steps_collectSynced])
      fix m d3
      assume "collectSynced bs Map.empty d2 = (Inr m, d3)"
      then have "m n = Some b \<Longrightarrow> bID b \<in> ?S" for n b
        using bs by (auto dest!: collectSynced_global)
      then have "steps (keepsRows ?S) (syncDelete X m n)" for X n
        unfolding syncDelete_def by (auto intro!: kept.steps_mapErr kept_Delete split: option.split)
      with create have "steps (keepsRows ?S) (andThen (forEach (syncCreate newID u m) xs) (\<lambda>_. forEach (syncDelete X m) ys))" for xs ys X
        by (auto intro!: kept.steps_andThen kept.steps_forEach)
      then show "keepsRows ?S d3 (snd (andThen (forEach (syncCreate newID u m)
          (order (filter (\<lambda>r. r \<in> set js) JWTSyncedRoles))) (\<lambda>_.
          forEach (syncDelete (set (filter (\<lambda>r. r \<in> set js) JWTSyncedRoles)) m)
            (order (filter (\<lambda>r. m r \<noteq> None) JWTSyncedRoles))) d3))" by (rule steps_at)
    qed
  qed
  moreover have "bID b \<notin> ?S" if "b \<in> set (ownerBindings d g)" for b
    using that wf_db_live [OF wf] by (auto simp: ownerBindings_def distinct_map inj_on_def)
  ultimately show ?thesis using kept_owners [OF _ _ own] run by (metis (no_types, lifting) snd_conv)
qed

text \<open>
  The requests that change bindings, one after the other: those of the facade, of the low-level
  resource, the synchronisation of a token's roles, and the owner binding of a new gateway. A
  request that fails is rolled back and is no step.
\<close>

inductive access_step :: "ga_service \<Rightarrow> rb_service \<Rightarrow> db \<Rightarrow> db \<Rightarrow> bool" for s r where
  step_grant: "Grant s g c input d = (Inr item, d') \<Longrightarrow> access_step s r d d'"
| step_change: "ChangeRole s g c u t d = (Inr item, d') \<Longrightarrow> access_step s r d d'"
| step_revoke: "Revoke s g c u d = (Inr v, d') \<Longrightarrow> access_step s r d d'"
| step_create: "bID rb = [] \<Longrightarrow> rbService_Create r (gaNewBindingID s) ctx rb d = (Inr row, d') \<Longrightarrow>
    access_step s r d d'"
| step_delete: "rbService_Delete r ctx i d = (Inr v, d') \<Longrightarrow> access_step s r d d'"
| step_sync: "SyncJWTRoles order (gaNewBindingID s) u js d = (Inr v, d') \<Longrightarrow> access_step s r d d'"
| step_gateway: "CreateGatewayOwnerBinding (gaNewBindingID s) u g d = (Inr v, d') \<Longrightarrow> access_step s r d d'"

lemma access_step_keeps_owner:
  assumes "access_step s r d d'" and wf: "wf_db d" and fr: "fresh (gaNewBindingID s)"
    and own: "ownerIDs d h \<noteq> []"
  shows "ownerIDs d' h \<noteq> [] \<and> wf_db d'"
  using assms(1)
proof cases
  case (step_grant g c input item)
  from Grant_managed [OF wf this] managed_keeps_owner [OF wf fr _ own] show ?thesis by blast
next
  case (step_change g c u t item)
  from ChangeRole_managed [OF wf this] managed_keeps_owner [OF wf fr _ own] show ?thesis by blast
next
  case (step_revoke g c u v)
  from Revoke_managed [OF wf this] managed_keeps_owner [OF wf fr _ own] show ?thesis by blast
next
  case (step_create rb ctx row)
  have "steps wf_step (rbService_Create r (gaNewBindingID s) ctx rb)"
    using rb_service_wf [OF fr step_create(1)] by blast
  from wf_run [OF this wf step_create(2)] have "wf_db d'" by blast
  moreover from steps_at [OF kept_rbService_Create, of "{}" d r "gaNewBindingID s" ctx rb]
  have "keepsRows {} d d'" by (simp add: step_create(2))
  from kept_owners [OF this _ own] have "ownerIDs d' h \<noteq> []" by simp
  ultimately show ?thesis by blast
next
  case (step_delete ctx i v)
  from rbService_Delete_owners [OF wf this own] have "ownerIDs d' h \<noteq> []" by blast
  moreover have "steps wf_step (rbService_Delete r ctx i)"
    using rb_service_wf [OF fr bID_newBinding [of "[]" "[]" None None]] by blast
  from wf_run [OF this wf step_delete] have "wf_db d'" by blast
  ultimately show ?thesis by blast
next
  case (step_sync order u js v)
  have "steps wf_step (SyncJWTRoles order (gaNewBindingID s) u js)"
    using rb_service_wf [OF fr bID_newBinding [of "[]" "[]" None None]] by blast
  from wf_run [OF this wf step_sync] kept_SyncJWTRoles [OF wf own step_sync] show ?thesis by blast
next
  case (step_gateway u g v)
  have "steps wf_step (CreateGatewayOwnerBinding (gaNewBindingID s) u g)"
    using rb_service_wf [OF fr bID_newBinding [of "[]" "[]" None None]] by blast
  from wf_run [OF this wf step_gateway] have "wf_db d'" by blast
  moreover from steps_at [OF kept_CreateGatewayOwnerBinding, of "{}" d "gaNewBindingID s" u g]
  have "keepsRows {} d d'" by (simp add: step_gateway)
  from kept_owners [OF this _ own] have "ownerIDs d' h \<noteq> []" by simp
  ultimately show ?thesis by blast
qed

text \<open>
  C1: a gateway that has an owner keeps one, through any sequence of requests that are processed
  one after the other: grants, changes and revocations of the facade, creations and deletions on
  the low-level resource, synchronisations of token roles, by whatever callers and on whatever
  gateways.
\<close>

theorem gateway_keeps_an_owner:
  assumes "(access_step s r)\<^sup>*\<^sup>* d d'" and "wf_db d" and "fresh (gaNewBindingID s)" and "ownerIDs d g \<noteq> []"
  shows "ownerIDs d' g \<noteq> [] \<and> wf_db d'"
  using assms(1)
proof (induction rule: rtranclp_induct)
  case base
  with assms show ?case by blast
next
  case (step d1 d2)
  with access_step_keeps_owner [OF step.hyps(2) _ assms(3)] show ?case by blast
qed

theorem gateway_keeps_an_owner_witness:
  "\<exists>d1 d2. access_step sampleFacade wired twoOwners d1 \<and> access_step sampleFacade wired d1 d2 \<and>
     ownerIDs d2 ''g1'' \<noteq> []"
proof -
  let ?one = "Revoke sampleFacade ''g1'' ''u1'' ''u2'' twoOwners"
  let ?two = "ChangeRole sampleFacade ''g1'' ''u1'' ''u1'' TierOwner (snd ?one)"
  have "case fst ?one of Inr _ \<Rightarrow> True | Inl _ \<Rightarrow> False" by code_simp
  then obtain v d1 where one: "?one = (Inr v, d1)" by (cases ?one) (auto split: sum.splits)
  have "case fst ?two of Inr _ \<Rightarrow> True | Inl _ \<Rightarrow> False" by code_simp
  then obtain w d2 where "?two = (Inr w, d2)" by (cases ?two) (auto split: sum.splits)
  then have two: "ChangeRole sampleFacade ''g1'' ''u1'' ''u1'' TierOwner d1 = (Inr w, d2)" by (simp add: one)
  note steps = step_revoke [OF one, of wired] step_change [OF two, of wired]
  then have run: "(access_step sampleFacade wired)\<^sup>*\<^sup>* twoOwners d2" by (metis rtranclp.simps)
  have "ownerIDs twoOwners ''g1'' \<noteq> []" by code_simp
  from gateway_keeps_an_owner [OF run wf_twoOwners fresh_sampleFacade this] steps show ?thesis by blast
qed

definition adminAndOwner :: db where
  "adminAndOwner = sampleDB [sampleBinding ''b1'' RoleGatewayAdmin ''u1'' ''g1'',
     sampleBinding ''b2'' RoleGatewayOwner ''u2'' ''g1'']"

text \<open>
  Requests that interleave can take the last owner away. The delete of a binding reads the
  role of the binding before it takes any lock, and takes the lock and evaluates the last-owner
  guard only when the role read was owner. When the binding of the caller, an admin, is deleted,
  and between that read and the rest of the delete the other owner makes the caller an owner and is
  then revoked, every request succeeds and the gateway has no owner left.
\<close>

lemma stale_delete_drops_last_owner:
  "(case deleteRead ''b1'' adminAndOwner of
      (Inr (rb, role), d1) \<Rightarrow>
        (case ChangeRole sampleFacade ''g1'' ''u2'' ''u1'' TierOwner d1 of
           (Inr _, d2) \<Rightarrow>
             (case Revoke sampleFacade ''g1'' ''u1'' ''u2'' d2 of
                (Inr _, d3) \<Rightarrow>
                  (case deleteCommit wired (callerCtx ''u1'') ''b1'' rb role d3 of
                     (Inr _, d4) \<Rightarrow> ownerIDs adminAndOwner ''g1'' = [''u2''] \<and> ownerIDs d2 ''g1'' = [''u1'', ''u2''] \<and>
                       ownerIDs d3 ''g1'' = [''u1''] \<and> ownerIDs d4 ''g1'' = []
                   | _ \<Rightarrow> False)
              | _ \<Rightarrow> False)
         | _ \<Rightarrow> False)
    | _ \<Rightarrow> False)"
  by code_simp

end
