(* ===== verification/Reconcile_Queue.thy ===== *)
theory Reconcile_Queue
  imports Go_Prelude "HOL-Library.Multiset"
begin

text \<open>
  The reconcile queue of the control plane (\<^verbatim>\<open>control-plane/internal/watcher/requeue.go\<close>): the
  latest event per resource, the marks and times kept beside it, and the worker that takes a key,
  hands the latest event to the handler and retries a failure.

  The queue's maps are protected by one lock; every section of the code under that lock is a
  function here, and the queue as a whole is a step relation in which enqueuers, workers and the
  pruning seed interleave between those sections, in any number. The handler is not modelled: it
  may return any error or none. The work queue of client-go is an argument: a record of its
  operations over a state of its own. What the code relies on of it is the locale \<open>workqueue\<close>, in
  the terms of its documentation: the keys that are dirty, being processed, and waiting for their
  delay. A queue that has been shut down is not considered. Metrics and log records are left out,
  the times for the metric of queue wait are kept. Times are integers (nanoseconds), the generation
  counter is unbounded.
\<close>

section \<open>Events\<close>

datatype EventType = EventCreated | EventUpdated | EventDeleted

definition EventType_String :: "EventType \<Rightarrow> string" where
  "EventType_String e =
     (case e of EventCreated \<Rightarrow> ''reconcile'' | EventUpdated \<Rightarrow> ''reconcile'' | EventDeleted \<Rightarrow> ''delete'')"

record 'r Event =
  evType :: EventType
  evResourceID :: string
  evResource :: "'r option"
  evPhaseBeforeRetry :: string

section \<open>Errors\<close>

text \<open>
  The chain of an error: a plain error with its text, a gRPC status, an error of the Kubernetes API
  with its reason and text, one of the database driver with its code, a named error value, the two
  typed errors of the Keycloak client, the marker of a missing one, the two wrappers of this package, the wrappers of an
  invalid client identity and of an invalid rendered configuration, the join of two errors, and any
  other wrapper with its own text. A nil error is \<open>None\<close>.
\<close>

datatype chain =
    PlainErr string
  | StatusErr grpc_code string
  | K8sErr string string
  | PqErr string string
  | SentinelErr string
  | ClientNotFoundError string
  | UserNotFoundError string
  | errGatewayKeycloakClientMissing
  | preservePayloadForRetryError chain
  | retryReasonError chain string
  | gatewayKeycloakClientIdentityError chain
  | RenderedConfigValidationError chain
  | JoinedErr chain chain
  | OtherWrap string chain

definition PreservePayloadForRetry :: "chain option \<Rightarrow> chain option" where
  "PreservePayloadForRetry err = (case err of None \<Rightarrow> None | Some e \<Rightarrow> Some (preservePayloadForRetryError e))"

definition WithRetryableReason :: "chain option \<Rightarrow> string \<Rightarrow> chain option" where
  "WithRetryableReason err reason = (case err of None \<Rightarrow> None | Some e \<Rightarrow> Some (retryReasonError e reason))"

text \<open>\<^verbatim>\<open>errors.As\<close> along the chain; of a join, the first that is found.\<close>

fun PreservesPayloadForRetry :: "chain \<Rightarrow> bool" where
  "PreservesPayloadForRetry (PlainErr m) = False"
| "PreservesPayloadForRetry (StatusErr c m) = False"
| "PreservesPayloadForRetry (K8sErr r m) = False"
| "PreservesPayloadForRetry (PqErr c m) = False"
| "PreservesPayloadForRetry (SentinelErr m) = False"
| "PreservesPayloadForRetry (ClientNotFoundError i) = False"
| "PreservesPayloadForRetry (UserNotFoundError u) = False"
| "PreservesPayloadForRetry errGatewayKeycloakClientMissing = False"
| "PreservesPayloadForRetry (preservePayloadForRetryError e) = True"
| "PreservesPayloadForRetry (gatewayKeycloakClientIdentityError e) = PreservesPayloadForRetry e"
| "PreservesPayloadForRetry (RenderedConfigValidationError e) = PreservesPayloadForRetry e"
| "PreservesPayloadForRetry (JoinedErr a b) = (PreservesPayloadForRetry a \<or> PreservesPayloadForRetry b)"
| "PreservesPayloadForRetry (retryReasonError e r) = PreservesPayloadForRetry e"
| "PreservesPayloadForRetry (OtherWrap m e) = PreservesPayloadForRetry e"

fun retryReasonOf :: "chain \<Rightarrow> string option" where
  "retryReasonOf (PlainErr m) = None"
| "retryReasonOf (StatusErr c m) = None"
| "retryReasonOf (K8sErr r m) = None"
| "retryReasonOf (PqErr c m) = None"
| "retryReasonOf (SentinelErr m) = None"
| "retryReasonOf (ClientNotFoundError i) = None"
| "retryReasonOf (UserNotFoundError u) = None"
| "retryReasonOf errGatewayKeycloakClientMissing = None"
| "retryReasonOf (preservePayloadForRetryError e) = retryReasonOf e"
| "retryReasonOf (retryReasonError e r) = Some r"
| "retryReasonOf (gatewayKeycloakClientIdentityError e) = retryReasonOf e"
| "retryReasonOf (RenderedConfigValidationError e) = retryReasonOf e"
| "retryReasonOf (JoinedErr a b) = (case retryReasonOf a of Some r \<Rightarrow> Some r | None \<Rightarrow> retryReasonOf b)"
| "retryReasonOf (OtherWrap m e) = retryReasonOf e"

definition retryableReasonFromErr :: "chain \<Rightarrow> string" where
  "retryableReasonFromErr err = (case retryReasonOf err of Some r \<Rightarrow> r | None \<Rightarrow> ''unknown'')"

section \<open>The queue and its options\<close>

record 'r queueConfig =
  cfgWorkers :: int
  cfgMaxRetries :: int
  cfgRetryIf :: "(chain \<Rightarrow> bool) option"
  cfgRetryTransform :: "('r Event \<Rightarrow> 'r Event) option"
  cfgVersionOf :: "('r Event \<Rightarrow> int) option"
  cfgRecordQueueWait :: bool

abbreviation gatewayReconcileWorkers :: int where "gatewayReconcileWorkers \<equiv> 4"

definition defaultConfig :: "'r queueConfig" where
  "defaultConfig = \<lparr>cfgWorkers = gatewayReconcileWorkers, cfgMaxRetries = -1, cfgRetryIf = None,
     cfgRetryTransform = None, cfgVersionOf = None, cfgRecordQueueWait = False\<rparr>"

definition withRetryTransform :: "('r Event \<Rightarrow> 'r Event) \<Rightarrow> 'r queueConfig \<Rightarrow> 'r queueConfig" where
  "withRetryTransform f c = c\<lparr>cfgRetryTransform := Some f\<rparr>"

definition withWorkers :: "int \<Rightarrow> 'r queueConfig \<Rightarrow> 'r queueConfig" where
  "withWorkers n c = c\<lparr>cfgWorkers := n\<rparr>"

definition withMaxRetries :: "int \<Rightarrow> 'r queueConfig \<Rightarrow> 'r queueConfig" where
  "withMaxRetries n c = c\<lparr>cfgMaxRetries := n\<rparr>"

definition withRetryIf :: "(chain \<Rightarrow> bool) \<Rightarrow> 'r queueConfig \<Rightarrow> 'r queueConfig" where
  "withRetryIf f c = c\<lparr>cfgRetryIf := Some f\<rparr>"

definition withVersion :: "('r Event \<Rightarrow> int) \<Rightarrow> 'r queueConfig \<Rightarrow> 'r queueConfig" where
  "withVersion f c = c\<lparr>cfgVersionOf := Some f\<rparr>"

definition withQueueWaitRecorder :: "'r queueConfig \<Rightarrow> 'r queueConfig" where
  "withQueueWaitRecorder c = c\<lparr>cfgRecordQueueWait := True\<rparr>"

text \<open>
  A map to booleans is the set of keys whose value is true: the code stores no false. The
  generation of an absent key is zero.
\<close>

record 'r reconcileQueue =
  latest :: "string \<rightharpoonup> 'r Event"
  forced :: "string set"
  preservePayload :: "string set"
  readyAt :: "string \<rightharpoonup> int"
  notBefore :: "string \<rightharpoonup> int"
  gen :: "string \<Rightarrow> int"

definition newReconcileQueue :: "'r reconcileQueue" where
  "newReconcileQueue = \<lparr>latest = Map.empty, forced = {}, preservePayload = {}, readyAt = Map.empty,
     notBefore = Map.empty, gen = (\<lambda>_. 0)\<rparr>"

section \<open>Sections under the lock\<close>

definition markReadyLocked :: "'r queueConfig \<Rightarrow> int \<Rightarrow> string \<Rightarrow> 'r reconcileQueue \<Rightarrow> 'r reconcileQueue" where
  "markReadyLocked cfg now i q =
     (if \<not> cfgRecordQueueWait cfg then q
      else if readyAt q i \<noteq> None then q
      else (let r = (case notBefore q i of Some nb \<Rightarrow> if nb > now then nb else now | None \<Rightarrow> now)
            in q\<lparr>readyAt := (readyAt q)(i \<mapsto> r)\<rparr>))"

text \<open>An event is stored, with the next generation.\<close>

definition acceptLocked :: "'r Event \<Rightarrow> 'r reconcileQueue \<Rightarrow> 'r reconcileQueue" where
  "acceptLocked ev q =
     q\<lparr>latest := (latest q)(evResourceID ev \<mapsto> ev), gen := (gen q)(evResourceID ev := gen q (evResourceID ev) + 1)\<rparr>"

definition older :: "'r queueConfig \<Rightarrow> 'r Event \<Rightarrow> 'r Event \<Rightarrow> bool" where
  "older cfg ev prev \<longleftrightarrow> (case cfgVersionOf cfg of None \<Rightarrow> False | Some v \<Rightarrow> v ev < v prev)"

text \<open>
  The section of \<^verbatim>\<open>enqueueWithForce\<close>: the new maps, and whether the key is added to the work queue
  once the lock is released.
\<close>

definition enqueueLocked ::
  "'r queueConfig \<Rightarrow> int \<Rightarrow> 'r Event \<Rightarrow> bool \<Rightarrow> 'r reconcileQueue \<Rightarrow> 'r reconcileQueue \<times> bool" where
  "enqueueLocked cfg now ev force q =
     (let i = evResourceID ev;
          store = (let q1 = acceptLocked ev q;
                       q2 = (if force then q1\<lparr>forced := insert i (forced q1)\<rparr> else q1)
                   in (markReadyLocked cfg now i q2, True))
      in if evType ev = EventDeleted then
           (let q1 = acceptLocked ev q
            in (markReadyLocked cfg now i
                  (q1\<lparr>forced := forced q1 - {i}, preservePayload := preservePayload q1 - {i}\<rparr>), True))
         else (case latest q i of
                 None \<Rightarrow> store
               | Some prev \<Rightarrow>
                   if evType prev = EventDeleted then (q, False)
                   else if older cfg ev prev then
                     (if force then (markReadyLocked cfg now i (q\<lparr>forced := insert i (forced q)\<rparr>), True)
                      else (q, False))
                   else store))"

definition readyDepth :: "int \<Rightarrow> string list \<Rightarrow> 'r reconcileQueue \<Rightarrow> nat" where
  "readyDepth now keys q =
     length (filter (\<lambda>k. case readyAt q k of None \<Rightarrow> False | Some r \<Rightarrow> \<not> r > now) (remdups keys))"

definition knownKeys :: "'r reconcileQueue \<Rightarrow> (string \<rightharpoonup> 'r Event)" where
  "knownKeys q = latest q"

definition pruneIfNonDelete ::
  "'r queueConfig \<Rightarrow> string \<Rightarrow> 'r Event \<Rightarrow> 'r reconcileQueue \<Rightarrow> bool \<times> 'r reconcileQueue" where
  "pruneIfNonDelete cfg i snapshot q =
     (case latest q i of
        None \<Rightarrow> (False, q)
      | Some cur \<Rightarrow>
          if evType cur = EventDeleted then (False, q)
          else if (case cfgVersionOf cfg of None \<Rightarrow> False | Some v \<Rightarrow> v cur \<noteq> v snapshot) then (False, q)
          else if evType cur \<noteq> evType snapshot then (False, q)
          else (True, q\<lparr>latest := (latest q)(i := None), notBefore := (notBefore q)(i := None),
                  forced := forced q - {i}, preservePayload := preservePayload q - {i},
                  readyAt := (readyAt q)(i := None), gen := (gen q)(i := 0)\<rparr>))"

definition clearBackoff :: "string \<Rightarrow> 'r reconcileQueue \<Rightarrow> 'r reconcileQueue" where
  "clearBackoff i q = q\<lparr>notBefore := (notBefore q)(i := None), preservePayload := preservePayload q - {i}\<rparr>"

text \<open>The sections of \<^verbatim>\<open>processNext\<close>, in its order. The claim gives the recorded end of the backoff.\<close>

definition claimLocked :: "string \<Rightarrow> 'r reconcileQueue \<Rightarrow> int option \<times> 'r reconcileQueue" where
  "claimLocked i q = (notBefore q i, q\<lparr>readyAt := (readyAt q)(i := None)\<rparr>)"

definition redeferLocked :: "'r queueConfig \<Rightarrow> string \<Rightarrow> int \<Rightarrow> 'r reconcileQueue \<Rightarrow> 'r reconcileQueue" where
  "redeferLocked cfg i nb q = (if cfgRecordQueueWait cfg then q\<lparr>readyAt := (readyAt q)(i \<mapsto> nb)\<rparr> else q)"

record snapshot =
  snGen :: int
  snPreserve :: bool
  snForced :: bool

definition deferredForced :: "snapshot \<Rightarrow> bool" where
  "deferredForced sn \<longleftrightarrow> snPreserve sn \<and> snForced sn"

definition snapshotLocked ::
  "string \<Rightarrow> 'r reconcileQueue \<Rightarrow> ('r Event \<times> snapshot) option \<times> 'r reconcileQueue" where
  "snapshotLocked i q =
     (map_option (\<lambda>ev. (ev, \<lparr>snGen = gen q i, snPreserve = i \<in> preservePayload q, snForced = i \<in> forced q\<rparr>))
        (latest q i),
      if i \<in> preservePayload q then q else q\<lparr>forced := forced q - {i}\<rparr>)"

definition dropForcedLocked :: "string \<Rightarrow> 'r reconcileQueue \<Rightarrow> 'r reconcileQueue" where
  "dropForcedLocked i q = q\<lparr>forced := forced q - {i}\<rparr>"

text \<open>The event of the attempt: transformed on a retry or a forced pass, unless it is preserved.\<close>

definition attemptEvent :: "'r queueConfig \<Rightarrow> int \<Rightarrow> snapshot \<Rightarrow> 'r Event \<Rightarrow> 'r Event" where
  "attemptEvent cfg numRequeues sn ev =
     (case cfgRetryTransform cfg of
        None \<Rightarrow> ev
      | Some f \<Rightarrow> if \<not> snPreserve sn \<and> (snForced sn \<or> numRequeues > 0) then f ev else ev)"

definition retryAllowed :: "'r queueConfig \<Rightarrow> int \<Rightarrow> chain \<Rightarrow> bool" where
  "retryAllowed cfg numRequeues err =
     (let allowed = (cfgMaxRetries cfg < 0 \<or> numRequeues < cfgMaxRetries cfg)
      in case cfgRetryIf cfg of None \<Rightarrow> allowed | Some f \<Rightarrow> if \<not> f err then False else allowed)"

definition backoffLocked ::
  "'r queueConfig \<Rightarrow> int \<Rightarrow> string \<Rightarrow> int \<Rightarrow> chain \<Rightarrow> 'r reconcileQueue \<Rightarrow> 'r reconcileQueue" where
  "backoffLocked cfg now i delay err q =
     (let q1 = q\<lparr>notBefore := (notBefore q)(i \<mapsto> now + delay)\<rparr>;
          q2 = (if cfgRecordQueueWait cfg then q1\<lparr>readyAt := (readyAt q1)(i \<mapsto> now + delay)\<rparr> else q1)
      in if PreservesPayloadForRetry err then q2\<lparr>preservePayload := insert i (preservePayload q2)\<rparr>
         else q2\<lparr>preservePayload := preservePayload q2 - {i}\<rparr>)"

definition rearmLocked ::
  "'r queueConfig \<Rightarrow> int \<Rightarrow> string \<Rightarrow> snapshot \<Rightarrow> 'r reconcileQueue \<Rightarrow> bool \<times> 'r reconcileQueue" where
  "rearmLocked cfg now i sn q =
     (if deferredForced sn \<and> i \<in> forced q then (True, markReadyLocked cfg now i q) else (False, q))"

definition tombstone :: "string \<Rightarrow> 'r Event" where
  "tombstone i = \<lparr>evType = EventDeleted, evResourceID = i, evResource = None, evPhaseBeforeRetry = []\<rparr>"

definition compactLocked :: "string \<Rightarrow> 'r Event \<Rightarrow> snapshot \<Rightarrow> 'r reconcileQueue \<Rightarrow> 'r reconcileQueue" where
  "compactLocked i ev sn q =
     (if evType ev = EventDeleted \<and>
         (case latest q i of None \<Rightarrow> False | Some cur \<Rightarrow> evType cur = EventDeleted) \<and> gen q i = snGen sn
      then q\<lparr>latest := (latest q)(i \<mapsto> tombstone i)\<rparr> else q)"

section \<open>The work queue\<close>

text \<open>
  \<^verbatim>\<open>Get\<close> gives the next key, or nothing while there is none; \<^verbatim>\<open>Deliver\<close> is the queue's own doing,
  the delay of a waiting key is over; \<^verbatim>\<open>When\<close> is the rate limiter's.
\<close>

record 'w workqueue_ops =
  wqAdd :: "string \<Rightarrow> 'w \<Rightarrow> 'w"
  wqGet :: "'w \<Rightarrow> (string \<times> 'w) option"
  wqDone :: "string \<Rightarrow> 'w \<Rightarrow> 'w"
  wqAddAfter :: "string \<Rightarrow> int \<Rightarrow> 'w \<Rightarrow> 'w"
  wqDeliver :: "string \<Rightarrow> 'w \<Rightarrow> 'w"
  wqForget :: "string \<Rightarrow> 'w \<Rightarrow> 'w"
  wqNumRequeues :: "string \<Rightarrow> 'w \<Rightarrow> int"
  wqWhen :: "string \<Rightarrow> 'w \<Rightarrow> int \<times> 'w"

text \<open>
  What client-go documents: a key that is added is dirty until a worker gets it, also while it is
  being processed; a key being processed is not handed out; a key added after a delay is dirty or
  waiting; the limiter's bookkeeping schedules nothing.
\<close>

locale workqueue =
  fixes W :: "'w workqueue_ops"
    and dirty :: "'w \<Rightarrow> string set" and processing :: "'w \<Rightarrow> string set" and waiting :: "'w \<Rightarrow> string set"
    and wfq :: "'w \<Rightarrow> bool"
  assumes add_law: "wfq w \<Longrightarrow> wfq (wqAdd W i w) \<and> dirty (wqAdd W i w) = insert i (dirty w) \<and>
      processing (wqAdd W i w) = processing w \<and> waiting (wqAdd W i w) = waiting w"
    and get_law: "wfq w \<Longrightarrow> wqGet W w = Some (i, w1) \<Longrightarrow> wfq w1 \<and> i \<in> dirty w \<and> i \<notin> processing w \<and>
      dirty w1 = dirty w - {i} \<and> processing w1 = insert i (processing w) \<and> waiting w1 = waiting w"
    and get_some: "wfq w \<Longrightarrow> i \<in> dirty w \<Longrightarrow> i \<notin> processing w \<Longrightarrow> wqGet W w \<noteq> None"
    and done_key: "wfq w \<Longrightarrow> i \<in> processing w \<Longrightarrow> wfq (wqDone W i w) \<and> dirty (wqDone W i w) = dirty w \<and>
      processing (wqDone W i w) = processing w - {i} \<and> waiting (wqDone W i w) = waiting w"
    and addAfter: "wfq w \<Longrightarrow> wfq (wqAddAfter W i t w) \<and> i \<in> dirty (wqAddAfter W i t w) \<union> waiting (wqAddAfter W i t w) \<and>
      dirty w \<subseteq> dirty (wqAddAfter W i t w) \<and> waiting w \<subseteq> waiting (wqAddAfter W i t w) \<and>
      processing (wqAddAfter W i t w) = processing w"
    and deliver_law: "wfq w \<Longrightarrow> i \<in> waiting w \<Longrightarrow> wfq (wqDeliver W i w) \<and> dirty (wqDeliver W i w) = insert i (dirty w) \<and>
      processing (wqDeliver W i w) = processing w \<and> waiting w \<subseteq> insert i (waiting (wqDeliver W i w))"
    and forget_law: "wfq w \<Longrightarrow> wfq (wqForget W i w) \<and> dirty (wqForget W i w) = dirty w \<and>
      processing (wqForget W i w) = processing w \<and> waiting (wqForget W i w) = waiting w"
    and when_delay: "wfq w \<Longrightarrow> wqWhen W i w = (t, w1) \<Longrightarrow> wfq w1 \<and> dirty w1 = dirty w \<and>
      processing w1 = processing w \<and> waiting w1 = waiting w"

section \<open>The queue at work\<close>

text \<open>
  Where a worker is in \<^verbatim>\<open>processNext\<close>: it has a key; it has claimed it, with the end of its
  backoff; it found no event; the handler runs; the retry is to be added; the handler has
  returned; the force is to be added again; the delete is to be compacted; the key is to be
  released.
\<close>

datatype 'r phase =
    Fetched string
  | Claimed string "int option"
  | Gone string
  | Handling string "'r Event" snapshot
  | Retrying string int
  | Handled string "'r Event" snapshot
  | Rearming string "'r Event" snapshot bool
  | Compacting string "'r Event" snapshot
  | Finishing string

fun keyOf :: "'r phase \<Rightarrow> string" where
  "keyOf (Fetched i) = i"
| "keyOf (Claimed i nb) = i"
| "keyOf (Gone i) = i"
| "keyOf (Handling i ev sn) = i"
| "keyOf (Retrying i t) = i"
| "keyOf (Handled i ev sn) = i"
| "keyOf (Rearming i ev sn p) = i"
| "keyOf (Compacting i ev sn) = i"
| "keyOf (Finishing i) = i"

text \<open>
  \<open>sAdds\<close> are the keys whose enqueuer has released the lock and is about to add them. \<open>sTodo\<close> is
  history: the keys whose stored event no attempt has been made on, or whose last attempt failed
  and is to be retried.
\<close>

record ('r, 'w) qsys =
  sQ :: "'r reconcileQueue"
  sW :: 'w
  sAdds :: "string multiset"
  sWorkers :: "nat \<rightharpoonup> 'r phase"
  sNow :: int
  sTodo :: "string set"

definition elapsed :: "int option \<Rightarrow> int \<Rightarrow> bool" where
  "elapsed nb now \<longleftrightarrow> (case nb of None \<Rightarrow> True | Some t \<Rightarrow> t \<le> now)"

inductive q_step :: "'r queueConfig \<Rightarrow> 'w workqueue_ops \<Rightarrow> ('w \<Rightarrow> string set) \<Rightarrow> bool \<Rightarrow>
    ('r, 'w) qsys \<Rightarrow> ('r, 'w) qsys \<Rightarrow> bool"
  for cfg W waiting prunes where
  tick: "t \<ge> sNow s \<Longrightarrow> q_step cfg W waiting prunes s (s\<lparr>sNow := t\<rparr>)"
| enqueue: "enqueueLocked cfg (sNow s) ev force (sQ s) = (q1, add) \<Longrightarrow>
    q_step cfg W waiting prunes s (s\<lparr>sQ := q1,
      sAdds := (if add then add_mset (evResourceID ev) (sAdds s) else sAdds s),
      sTodo := (if gen q1 (evResourceID ev) \<noteq> gen (sQ s) (evResourceID ev)
                then insert (evResourceID ev) (sTodo s) else sTodo s)\<rparr>)"
| add: "i \<in># sAdds s \<Longrightarrow>
    q_step cfg W waiting prunes s (s\<lparr>sAdds := sAdds s - {#i#}, sW := wqAdd W i (sW s)\<rparr>)"
| deliver: "i \<in> waiting (sW s) \<Longrightarrow> q_step cfg W waiting prunes s (s\<lparr>sW := wqDeliver W i (sW s)\<rparr>)"
| prune: "prunes \<Longrightarrow> pruneIfNonDelete cfg i ev (sQ s) = (True, q1) \<Longrightarrow>
    q_step cfg W waiting prunes s (s\<lparr>sQ := q1, sTodo := sTodo s - {i}\<rparr>)"
| get: "sWorkers s k = None \<Longrightarrow> wqGet W (sW s) = Some (i, w1) \<Longrightarrow>
    q_step cfg W waiting prunes s (s\<lparr>sW := w1, sWorkers := (sWorkers s)(k \<mapsto> Fetched i)\<rparr>)"
| claim: "sWorkers s k = Some (Fetched i) \<Longrightarrow> claimLocked i (sQ s) = (nb, q1) \<Longrightarrow>
    q_step cfg W waiting prunes s (s\<lparr>sQ := q1, sWorkers := (sWorkers s)(k \<mapsto> Claimed i nb)\<rparr>)"
| redefer: "sWorkers s k = Some (Claimed i (Some t)) \<Longrightarrow> t > sNow s \<Longrightarrow>
    q_step cfg W waiting prunes s (s\<lparr>sQ := redeferLocked cfg i t (sQ s),
      sW := wqAddAfter W i (t - sNow s) (sW s), sWorkers := (sWorkers s)(k \<mapsto> Finishing i)\<rparr>)"
| gone: "sWorkers s k = Some (Claimed i nb) \<Longrightarrow> elapsed nb (sNow s) \<Longrightarrow>
    snapshotLocked i (sQ s) = (None, q1) \<Longrightarrow>
    q_step cfg W waiting prunes s (s\<lparr>sQ := q1, sWorkers := (sWorkers s)(k \<mapsto> Gone i)\<rparr>)"
| forget: "sWorkers s k = Some (Gone i) \<Longrightarrow>
    q_step cfg W waiting prunes s (s\<lparr>sQ := clearBackoff i (dropForcedLocked i (sQ s)),
      sW := wqForget W i (sW s), sWorkers := (sWorkers s)(k \<mapsto> Finishing i)\<rparr>)"
| snap: "sWorkers s k = Some (Claimed i nb) \<Longrightarrow> elapsed nb (sNow s) \<Longrightarrow>
    snapshotLocked i (sQ s) = (Some (ev, sn), q1) \<Longrightarrow>
    q_step cfg W waiting prunes s (s\<lparr>sQ := q1, sTodo := sTodo s - {i},
      sWorkers := (sWorkers s)(k \<mapsto> Handling i (attemptEvent cfg (wqNumRequeues W i (sW s)) sn ev) sn)\<rparr>)"
| giveUp: "sWorkers s k = Some (Handling i ev sn) \<Longrightarrow>
    \<not> retryAllowed cfg (wqNumRequeues W i (sW s)) err \<Longrightarrow>
    q_step cfg W waiting prunes s (s\<lparr>sQ := clearBackoff i (sQ s), sW := wqForget W i (sW s),
      sWorkers := (sWorkers s)(k \<mapsto> Finishing i)\<rparr>)"
| failed: "sWorkers s k = Some (Handling i ev sn) \<Longrightarrow>
    retryAllowed cfg (wqNumRequeues W i (sW s)) err \<Longrightarrow> wqWhen W i (sW s) = (delay, w1) \<Longrightarrow>
    q_step cfg W waiting prunes s (s\<lparr>sQ := backoffLocked cfg (sNow s) i delay err (sQ s), sW := w1,
      sWorkers := (sWorkers s)(k \<mapsto> Retrying i delay),
      sTodo := (if latest (sQ s) i = None then sTodo s else insert i (sTodo s))\<rparr>)"
| retry: "sWorkers s k = Some (Retrying i delay) \<Longrightarrow>
    q_step cfg W waiting prunes s (s\<lparr>sW := wqAddAfter W i delay (sW s),
      sWorkers := (sWorkers s)(k \<mapsto> Finishing i)\<rparr>)"
| succeeded: "sWorkers s k = Some (Handling i ev sn) \<Longrightarrow>
    q_step cfg W waiting prunes s (s\<lparr>sQ := clearBackoff i (sQ s), sW := wqForget W i (sW s),
      sWorkers := (sWorkers s)(k \<mapsto> Handled i ev sn)\<rparr>)"
| checkForce: "sWorkers s k = Some (Handled i ev sn) \<Longrightarrow> rearmLocked cfg (sNow s) i sn (sQ s) = (p, q1) \<Longrightarrow>
    q_step cfg W waiting prunes s (s\<lparr>sQ := q1, sWorkers := (sWorkers s)(k \<mapsto> Rearming i ev sn p)\<rparr>)"
| rearm: "sWorkers s k = Some (Rearming i ev sn p) \<Longrightarrow>
    q_step cfg W waiting prunes s (s\<lparr>sW := (if p then wqAdd W i (sW s) else sW s),
      sWorkers := (sWorkers s)(k \<mapsto> Compacting i ev sn)\<rparr>)"
| compact: "sWorkers s k = Some (Compacting i ev sn) \<Longrightarrow>
    q_step cfg W waiting prunes s (s\<lparr>sQ := compactLocked i ev sn (sQ s),
      sWorkers := (sWorkers s)(k \<mapsto> Finishing i)\<rparr>)"
| finish: "sWorkers s k = Some (Finishing i) \<Longrightarrow>
    q_step cfg W waiting prunes s (s\<lparr>sW := wqDone W i (sW s), sWorkers := (sWorkers s)(k := None)\<rparr>)"

definition q_init :: "'w \<Rightarrow> ('r, 'w) qsys" where
  "q_init w = \<lparr>sQ = newReconcileQueue, sW = w, sAdds = {#}, sWorkers = Map.empty, sNow = 0, sTodo = {}\<rparr>"

section \<open>Coalescing\<close>

lemma markReadyLocked_same [simp]:
  "latest (markReadyLocked cfg now i q) = latest q" "gen (markReadyLocked cfg now i q) = gen q"
  "forced (markReadyLocked cfg now i q) = forced q" "notBefore (markReadyLocked cfg now i q) = notBefore q"
  "preservePayload (markReadyLocked cfg now i q) = preservePayload q"
  by (simp_all add: markReadyLocked_def Let_def)

lemma acceptLocked_same [simp]:
  "latest (acceptLocked ev q) = (latest q)(evResourceID ev \<mapsto> ev)"
  "gen (acceptLocked ev q) = (gen q)(evResourceID ev := gen q (evResourceID ev) + 1)"
  "forced (acceptLocked ev q) = forced q" "notBefore (acceptLocked ev q) = notBefore q"
  "preservePayload (acceptLocked ev q) = preservePayload q"
  by (simp_all add: acceptLocked_def)

text \<open>The three outcomes of an enqueue.\<close>

lemma enqueueLocked_cases:
  assumes "enqueueLocked cfg now ev force q = (q1, add)"
  obtains (stored) "add" "latest q1 = (latest q)(evResourceID ev \<mapsto> ev)"
      "gen q1 = (gen q)(evResourceID ev := gen q (evResourceID ev) + 1)" "notBefore q1 = notBefore q"
      "forced q1 \<subseteq> insert (evResourceID ev) (forced q)"
      "evType ev = EventDeleted \<or> (\<forall>prev. latest q (evResourceID ev) = Some prev \<longrightarrow>
         evType prev \<noteq> EventDeleted \<and> \<not> older cfg ev prev)"
  | (marked) prev where "add" "force" "latest q1 = latest q" "gen q1 = gen q" "notBefore q1 = notBefore q"
      "forced q1 = insert (evResourceID ev) (forced q)" "latest q (evResourceID ev) = Some prev"
      "evType ev \<noteq> EventDeleted" "evType prev \<noteq> EventDeleted" "older cfg ev prev"
  | (dropped) prev where "\<not> add" "q1 = q" "latest q (evResourceID ev) = Some prev"
      "evType ev \<noteq> EventDeleted" "evType prev = EventDeleted \<or> older cfg ev prev"
proof (cases "evType ev = EventDeleted")
  case True
  have "forced q - {evResourceID ev} \<subseteq> insert (evResourceID ev) (forced q)" by blast
  with True assms stored show ?thesis by (auto simp: enqueueLocked_def Let_def)
next
  case False
  show ?thesis
  proof (cases "latest q (evResourceID ev)")
    case None
    with False assms stored show ?thesis by (cases force) (auto simp: enqueueLocked_def Let_def subset_insertI)
  next
    case (Some prev)
    consider "evType prev = EventDeleted \<or> older cfg ev prev \<and> \<not> force"
      | "evType prev \<noteq> EventDeleted" "older cfg ev prev" "force"
      | "evType prev \<noteq> EventDeleted" "\<not> older cfg ev prev" by blast
    then show ?thesis
    proof cases
      case 1
      with False Some assms dropped [of prev] show ?thesis
        by (auto simp: enqueueLocked_def Let_def split: if_splits)
    next
      case 2
      with False Some assms marked [of prev] show ?thesis by (auto simp: enqueueLocked_def Let_def)
    next
      case 3
      with False Some assms stored show ?thesis by (cases force) (auto simp: enqueueLocked_def Let_def subset_insertI)
    qed
  qed
qed

text \<open>
  The reference: of the events observed for a resource, the last delete, or without one the last
  of those with the highest version.
\<close>

definition newest :: "('r Event \<Rightarrow> int) \<Rightarrow> 'r Event list \<Rightarrow> 'r Event" where
  "newest v evs =
     (if \<exists>e\<in>set evs. evType e = EventDeleted then last (filter (\<lambda>e. evType e = EventDeleted) evs)
      else last (filter (\<lambda>e. \<forall>x\<in>set evs. v x \<le> v e) evs))"

definition enqueueAll :: "'r queueConfig \<Rightarrow> (int \<times> 'r Event \<times> bool) list \<Rightarrow> 'r reconcileQueue \<Rightarrow> 'r reconcileQueue" where
  "enqueueAll cfg xs q = fold (\<lambda>(now, ev, force) q. fst (enqueueLocked cfg now ev force q)) xs q"

lemma max_version_exists: "evs \<noteq> [] \<Longrightarrow> filter (\<lambda>e. \<forall>x\<in>set evs. (v x :: int) \<le> v e) evs \<noteq> []"
proof -
  assume "evs \<noteq> []"
  then obtain e where "e \<in> set evs" "v e = Max (v ` set evs)"
    by (metis (no_types, opaque_lifting) List.finite_set Max_in finite_imageI image_iff image_is_empty set_empty)
  then show ?thesis by (auto simp: filter_empty_conv intro!: bexI [of _ e])
qed

lemma newest_props:
  assumes "evs \<noteq> []"
  shows "newest v evs \<in> set evs \<and>
    (evType (newest v evs) = EventDeleted \<longleftrightarrow> (\<exists>e\<in>set evs. evType e = EventDeleted)) \<and>
    ((\<forall>e\<in>set evs. evType e \<noteq> EventDeleted) \<longrightarrow> (\<forall>x\<in>set evs. v x \<le> v (newest v evs)))"
proof (cases "\<exists>e\<in>set evs. evType e = EventDeleted")
  case True
  then have "filter (\<lambda>e. evType e = EventDeleted) evs \<noteq> []" by (auto simp: filter_empty_conv)
  from last_in_set [OF this] True show ?thesis by (auto simp: newest_def)
next
  case False
  from last_in_set [OF max_version_exists [OF assms, of v]] False show ?thesis by (auto simp: newest_def)
qed

lemma newest_snoc:
  "newest v (evs @ [e]) =
     (if evType e = EventDeleted \<or> evs = [] then e
      else if evType (newest v evs) = EventDeleted \<or> v e < v (newest v evs) then newest v evs else e)"
proof (cases "evs = []")
  case False
  note p = newest_props [OF False, of v]
  show ?thesis
  proof (cases "evType e = EventDeleted \<or> (\<exists>x\<in>set evs. evType x = EventDeleted)")
    case True
    with p False show ?thesis by (auto simp: newest_def)
  next
    case no: False
    then have p': "\<forall>x\<in>set evs. v x \<le> v (newest v evs)" "evType (newest v evs) \<noteq> EventDeleted"
        "newest v evs \<in> set evs" using p by auto
    show ?thesis
    proof (cases "v e < v (newest v evs)")
      case True
      with p' have "filter (\<lambda>y. \<forall>x\<in>set (evs @ [e]). v x \<le> v y) (evs @ [e]) =
          filter (\<lambda>y. \<forall>x\<in>set evs. v x \<le> v y) evs"
        by (auto intro!: filter_cong)
      with no True False p' show ?thesis by (simp add: newest_def)
    next
      case ge: False
      with p' have "\<forall>x\<in>set (evs @ [e]). v x \<le> v e" by fastforce
      with no ge False p' show ?thesis by (simp add: newest_def)
    qed
  qed
qed (simp add: newest_def)

text \<open>
  C12: the queue coalesces to the newest observed state, whatever the order of arrival. After any
  sequence of enqueues, forced or not, the stored event of a resource is the last delete observed
  for it, and without a delete the last of those with the highest version: a stale snapshot never
  replaces newer state, and a delete is never undone.
\<close>

theorem queue_coalesces:
  assumes "cfgVersionOf cfg = Some v"
  shows "latest (enqueueAll cfg xs newReconcileQueue) i =
    (case filter (\<lambda>e. evResourceID e = i) (map (\<lambda>x. fst (snd x)) xs) of
       [] \<Rightarrow> None | e # es \<Rightarrow> Some (newest v (e # es)))"
proof (induction xs rule: rev_induct)
  case Nil
  show ?case by (simp add: enqueueAll_def newReconcileQueue_def)
next
  case (snoc x xs)
  obtain now ev force where x: "x = (now, ev, force)" by (cases x)
  let ?q = "enqueueAll cfg xs newReconcileQueue"
  let ?es = "filter (\<lambda>e. evResourceID e = i) (map (\<lambda>x. fst (snd x)) xs)"
  obtain q1 add where step: "enqueueLocked cfg now ev force ?q = (q1, add)" by force
  have q1: "enqueueAll cfg (xs @ [x]) newReconcileQueue = q1" by (simp add: enqueueAll_def x step [unfolded enqueueAll_def])
  have ih: "latest ?q i = (if ?es = [] then None else Some (newest v ?es))"
    using snoc.IH by (simp split: list.splits)
  have "latest q1 i = (if evResourceID ev = i then Some (newest v (?es @ [ev])) else latest ?q i)"
    using step
  proof (cases rule: enqueueLocked_cases)
    case stored
    with ih assms show ?thesis by (auto simp: newest_snoc older_def)
  next
    case (marked prev)
    with ih assms show ?thesis by (auto simp: newest_snoc older_def split: if_splits)
  next
    case (dropped prev)
    with ih assms show ?thesis by (auto simp: newest_snoc older_def split: if_splits)
  qed
  with ih show ?case unfolding q1 by (auto simp: x split: list.splits)
qed

definition versionSample :: "int Event \<Rightarrow> int" where
  "versionSample e = (case evResource e of None \<Rightarrow> 0 | Some n \<Rightarrow> n)"

definition sampleEvent :: "EventType \<Rightarrow> string \<Rightarrow> int \<Rightarrow> int Event" where
  "sampleEvent t i n = \<lparr>evType = t, evResourceID = i, evResource = Some n, evPhaseBeforeRetry = []\<rparr>"

theorem queue_coalesces_witness:
  "latest (enqueueAll (withVersion versionSample defaultConfig)
     [(0, sampleEvent EventUpdated ''g'' 5, False), (1, sampleEvent EventUpdated ''h'' 1, False),
      (2, sampleEvent EventUpdated ''g'' 3, True)] newReconcileQueue) ''g'' =
   Some (sampleEvent EventUpdated ''g'' 5)"
proof -
  have v: "cfgVersionOf (withVersion versionSample defaultConfig) = Some versionSample"
    by (simp add: withVersion_def)
  show ?thesis unfolding queue_coalesces [OF v]
    by (simp add: sampleEvent_def newest_def versionSample_def)
qed

section \<open>Invariants of the running queue\<close>

inductive_cases q_stepE: "q_step cfg W waiting prunes s t"

lemma snapshotLocked_eq:
  "snapshotLocked i q = (None, q1) \<longleftrightarrow> latest q i = None \<and>
     q1 = (if i \<in> preservePayload q then q else q\<lparr>forced := forced q - {i}\<rparr>)"
  "snapshotLocked i q = (Some (ev, sn), q1) \<longleftrightarrow> latest q i = Some ev \<and>
     sn = \<lparr>snGen = gen q i, snPreserve = i \<in> preservePayload q, snForced = i \<in> forced q\<rparr> \<and>
     q1 = (if i \<in> preservePayload q then q else q\<lparr>forced := forced q - {i}\<rparr>)"
  by (auto simp: snapshotLocked_def)

lemma pruneIfNonDelete_True:
  assumes "pruneIfNonDelete cfg i ev q = (True, q1)"
  shows "(\<exists>cur. latest q i = Some cur \<and> evType cur \<noteq> EventDeleted) \<and> latest q1 = (latest q)(i := None) \<and>
    notBefore q1 = (notBefore q)(i := None) \<and> forced q1 = forced q - {i}"
  using assms by (auto simp: pruneIfNonDelete_def split: option.splits if_splits)

lemma section_same [simp]:
  "latest (clearBackoff i q) = latest q" "forced (clearBackoff i q) = forced q"
  "notBefore (clearBackoff i q) = (notBefore q)(i := None)"
  "latest (dropForcedLocked i q) = latest q" "forced (dropForcedLocked i q) = forced q - {i}"
  "notBefore (dropForcedLocked i q) = notBefore q"
  "latest (redeferLocked cfg i t q) = latest q" "forced (redeferLocked cfg i t q) = forced q"
  "notBefore (redeferLocked cfg i t q) = notBefore q"
  "latest (backoffLocked cfg now i delay err q) = latest q" "forced (backoffLocked cfg now i delay err q) = forced q"
  "notBefore (backoffLocked cfg now i delay err q) = (notBefore q)(i \<mapsto> now + delay)"
  "forced (compactLocked i ev sn q) = forced q" "notBefore (compactLocked i ev sn q) = notBefore q"
  by (simp_all add: clearBackoff_def dropForcedLocked_def redeferLocked_def backoffLocked_def compactLocked_def Let_def)

lemma claimLocked_same:
  "claimLocked i q = (nb, q1) \<Longrightarrow> latest q1 = latest q \<and> forced q1 = forced q \<and> notBefore q1 = notBefore q \<and> nb = notBefore q i"
  by (auto simp: claimLocked_def)

lemma rearmLocked_same:
  "rearmLocked cfg now i sn q = (p, q1) \<Longrightarrow> latest q1 = latest q \<and> forced q1 = forced q \<and> notBefore q1 = notBefore q \<and>
    (p \<longleftrightarrow> deferredForced sn \<and> i \<in> forced q)"
  by (auto simp: rearmLocked_def split: if_splits)

lemma compactLocked_latest:
  "latest (compactLocked i ev sn q) j = None \<longleftrightarrow> latest q j = None"
  "latest q j = Some e \<Longrightarrow> \<exists>e'. latest (compactLocked i ev sn q) j = Some e' \<and> evType e' = evType e"
  by (auto simp: compactLocked_def tombstone_def split: option.splits)

lemmas section_facts = claimLocked_same rearmLocked_same pruneIfNonDelete_True

subsection \<open>Deletes are terminal\<close>

definition deletedIn :: "string \<Rightarrow> ('r, 'w) qsys \<Rightarrow> bool" where
  "deletedIn i s \<longleftrightarrow> (\<exists>ev. latest (sQ s) i = Some ev \<and> evType ev = EventDeleted)"

lemma step_deletedIn: "q_step cfg W waiting prunes s t \<Longrightarrow> deletedIn i s \<Longrightarrow> deletedIn i t"
proof (induction rule: q_step.induct)
  case (enqueue s ev force q1 add)
  from enqueue.hyps show ?case
    by (cases rule: enqueueLocked_cases) (use enqueue.prems in \<open>auto simp: deletedIn_def\<close>)
next
  case (prune i' ev s q1)
  note p = pruneIfNonDelete_True [OF prune.hyps(2)]
  with prune.prems have "i \<noteq> i'" unfolding deletedIn_def by (metis option.inject)
  with p prune.prems show ?case by (simp add: deletedIn_def)
next
  case (compact s k i' ev sn)
  then show ?case using compactLocked_latest(2) [of "sQ s" i] by (fastforce simp: deletedIn_def)
qed (auto simp: deletedIn_def snapshotLocked_eq dest!: section_facts)

lemma steps_deletedIn: "(q_step cfg W waiting prunes)\<^sup>*\<^sup>* s t \<Longrightarrow> deletedIn i s \<Longrightarrow> deletedIn i t"
  by (induction rule: rtranclp_induct) (auto intro: step_deletedIn)

subsection \<open>Workers hold distinct keys\<close>

definition workersOK :: "('w \<Rightarrow> bool) \<Rightarrow> ('w \<Rightarrow> string set) \<Rightarrow> ('r, 'w) qsys \<Rightarrow> bool" where
  "workersOK wfq processing s \<longleftrightarrow> wfq (sW s) \<and>
     (\<forall>k p. sWorkers s k = Some p \<longrightarrow> keyOf p \<in> processing (sW s)) \<and>
     (\<forall>k k' p p'. sWorkers s k = Some p \<longrightarrow> sWorkers s k' = Some p' \<longrightarrow> keyOf p = keyOf p' \<longrightarrow> k = k')"

lemma workersOK_move:
  assumes "workersOK wfq processing s" "sWorkers s k = Some p" "sWorkers t = (sWorkers s)(k \<mapsto> p')"
    "keyOf p' = keyOf p" "wfq (sW t)" "processing (sW t) = processing (sW s)"
  shows "workersOK wfq processing t"
  using assms unfolding workersOK_def by (simp add: fun_upd_apply) metis

lemma workersOK_same:
  "workersOK wfq processing s \<Longrightarrow> sWorkers t = sWorkers s \<Longrightarrow> wfq (sW t) \<Longrightarrow>
   processing (sW t) = processing (sW s) \<Longrightarrow> workersOK wfq processing t"
  by (simp add: workersOK_def)

context workqueue
begin

lemma step_workersOK:
  "q_step cfg W waiting prunes s t \<Longrightarrow> workersOK wfq processing s \<Longrightarrow> workersOK wfq processing t"
proof (induction rule: q_step.induct)
  case (get s k i w1)
  then have w: "wfq (sW s)" by (simp add: workersOK_def)
  note g = get_law [OF w get.hyps(2)]
  from get.prems g show ?case
    unfolding workersOK_def by (simp add: fun_upd_apply) (metis keyOf.simps(1))
next
  case (finish s k i)
  then have w: "wfq (sW s)" "i \<in> processing (sW s)"
    unfolding workersOK_def by (simp_all, metis keyOf.simps(9))
  note d = done_key [OF w]
  from finish d show ?case
    unfolding workersOK_def by (simp add: fun_upd_apply) (metis keyOf.simps(9))
next
  case (add i s)
  then show ?case by (intro workersOK_same [OF add.prems]) (auto simp: workersOK_def add_law)
next
  case (deliver i s)
  then have "wfq (sW s)" by (simp add: workersOK_def)
  from deliver_law [OF this deliver.hyps] show ?case by (intro workersOK_same [OF deliver.prems]) auto
next
  case (redefer s k i t)
  then have "wfq (sW s)" by (simp add: workersOK_def)
  from addAfter [OF this, of i "t - sNow s"] show ?case
    by (intro workersOK_move [OF redefer.prems redefer.hyps(1)]) auto
next
  case (retry s k i delay)
  then have "wfq (sW s)" by (simp add: workersOK_def)
  from addAfter [OF this, of i delay] show ?case
    by (intro workersOK_move [OF retry.prems retry.hyps(1)]) auto
next
  case (failed s k i ev sn err delay w1)
  then have "wfq (sW s)" by (simp add: workersOK_def)
  from when_delay [OF this failed.hyps(3)] show ?case
    by (intro workersOK_move [OF failed.prems failed.hyps(1)]) auto
next
  case (rearm s k i ev sn p)
  then have w: "wfq (sW s)" by (simp add: workersOK_def)
  from w add_law [OF w, of i] show ?case by (intro workersOK_move [OF rearm.prems rearm.hyps(1)]) auto
next
  case (claim s k i nb q1)
  then show ?case by (intro workersOK_move [OF claim.prems claim.hyps(1)]) (auto simp: workersOK_def)
next
  case (gone s k i nb q1)
  then show ?case by (intro workersOK_move [OF gone.prems gone.hyps(1)]) (auto simp: workersOK_def)
next
  case (forget s k i)
  then have "wfq (sW s)" by (simp add: workersOK_def)
  from forget_law [OF this, of i] show ?case by (intro workersOK_move [OF forget.prems forget.hyps(1)]) auto
next
  case (snap s k i nb ev sn q1)
  then show ?case by (intro workersOK_move [OF snap.prems snap.hyps(1)]) (auto simp: workersOK_def)
next
  case (giveUp s k i ev sn err)
  then have "wfq (sW s)" by (simp add: workersOK_def)
  from forget_law [OF this, of i] show ?case
    by (intro workersOK_move [OF giveUp.prems giveUp.hyps(1)]) auto
next
  case (succeeded s k i ev sn)
  then have "wfq (sW s)" by (simp add: workersOK_def)
  from forget_law [OF this, of i] show ?case
    by (intro workersOK_move [OF succeeded.prems succeeded.hyps(1)]) auto
next
  case (checkForce s k i ev sn p q1)
  then show ?case by (intro workersOK_move [OF checkForce.prems checkForce.hyps(1)]) (auto simp: workersOK_def)
next
  case (compact s k i ev sn)
  then show ?case by (intro workersOK_move [OF compact.prems compact.hyps(1)]) (auto simp: workersOK_def)
qed (auto simp: workersOK_def)

end

subsection \<open>No work is lost\<close>

text \<open>
  A key is scheduled when the work queue holds it, an enqueuer is about to add it, or a worker has
  it and, where it stands, will look at the stored event or add the key again.
\<close>

definition scheduledBy :: "('r phase \<Rightarrow> bool) \<Rightarrow> ('w \<Rightarrow> string set) \<Rightarrow> ('w \<Rightarrow> string set) \<Rightarrow> ('r, 'w) qsys \<Rightarrow> string \<Rightarrow> bool" where
  "scheduledBy P dirty waiting s i \<longleftrightarrow> i \<in> dirty (sW s) \<or> i \<in> waiting (sW s) \<or> i \<in># sAdds s \<or>
     (\<exists>k p. sWorkers s k = Some p \<and> P p \<and> keyOf p = i)"

fun pending :: "'r phase \<Rightarrow> bool" where
  "pending (Fetched i) = True"
| "pending (Claimed i nb) = True"
| "pending (Retrying i t) = True"
| "pending p = False"

text \<open>A worker that will still schedule a forced pass, or found nothing to force.\<close>

fun forcing :: "'r phase \<Rightarrow> bool" where
  "forcing (Fetched i) = True"
| "forcing (Claimed i nb) = True"
| "forcing (Retrying i t) = True"
| "forcing (Gone i) = True"
| "forcing (Handling i ev sn) = deferredForced sn"
| "forcing (Handled i ev sn) = deferredForced sn"
| "forcing (Rearming i ev sn p) = p"
| "forcing (Compacting i ev sn) = False"
| "forcing (Finishing i) = False"

definition todoOK :: "('w \<Rightarrow> string set) \<Rightarrow> ('w \<Rightarrow> string set) \<Rightarrow> ('r, 'w) qsys \<Rightarrow> bool" where
  "todoOK dirty waiting s \<longleftrightarrow>
     (\<forall>i. i \<in> sTodo s \<and> latest (sQ s) i \<noteq> None \<longrightarrow> scheduledBy pending dirty waiting s i)"

definition forceOK :: "('w \<Rightarrow> string set) \<Rightarrow> ('w \<Rightarrow> string set) \<Rightarrow> ('r, 'w) qsys \<Rightarrow> bool" where
  "forceOK dirty waiting s \<longleftrightarrow> (\<forall>i. i \<in> forced (sQ s) \<longrightarrow> scheduledBy forcing dirty waiting s i)"

text \<open>A step takes the worker that has a key out of the phases that count, and the key is not held.\<close>

definition dropsFrom :: "('r phase \<Rightarrow> bool) \<Rightarrow> ('w \<Rightarrow> string set) \<Rightarrow> ('w \<Rightarrow> string set) \<Rightarrow>
    ('r, 'w) qsys \<Rightarrow> ('r, 'w) qsys \<Rightarrow> string \<Rightarrow> bool" where
  "dropsFrom P dirty waiting s t i \<longleftrightarrow> (\<exists>k p. sWorkers s k = Some p \<and> P p \<and> keyOf p = i \<and>
     i \<notin> dirty (sW t) \<and> i \<notin> waiting (sW t) \<and>
     (\<forall>p'. sWorkers t k = Some p' \<longrightarrow> \<not> (P p' \<and> keyOf p' = i)))"

context workqueue
begin

lemma law_get: "workersOK wfq processing s \<Longrightarrow> wqGet W (sW s) = Some (i, w1) \<Longrightarrow>
    dirty w1 = dirty (sW s) - {i} \<and> waiting w1 = waiting (sW s)"
  using get_law [of "sW s" i w1] by (simp add: workersOK_def)

lemma law_rest:
  assumes "workersOK wfq processing s"
  shows "dirty (wqAdd W i (sW s)) = insert i (dirty (sW s))" "waiting (wqAdd W i (sW s)) = waiting (sW s)"
    and "dirty (wqForget W i (sW s)) = dirty (sW s)" "waiting (wqForget W i (sW s)) = waiting (sW s)"
    and "i \<in> dirty (wqAddAfter W i d (sW s)) \<union> waiting (wqAddAfter W i d (sW s))"
    and "dirty (sW s) \<subseteq> dirty (wqAddAfter W i d (sW s))" "waiting (sW s) \<subseteq> waiting (wqAddAfter W i d (sW s))"
    and "wqWhen W i (sW s) = (d, w1) \<Longrightarrow> dirty w1 = dirty (sW s) \<and> waiting w1 = waiting (sW s)"
    and "sWorkers s k = Some (Finishing i) \<Longrightarrow> dirty (wqDone W i (sW s)) = dirty (sW s) \<and>
      waiting (wqDone W i (sW s)) = waiting (sW s)"
    and "i \<in> waiting (sW s) \<Longrightarrow> dirty (wqDeliver W i (sW s)) = insert i (dirty (sW s)) \<and>
      waiting (sW s) \<subseteq> insert i (waiting (wqDeliver W i (sW s)))"
proof -
  have w: "wfq (sW s)" using assms by (simp add: workersOK_def)
  show "sWorkers s k = Some (Finishing i) \<Longrightarrow> dirty (wqDone W i (sW s)) = dirty (sW s) \<and>
      waiting (wqDone W i (sW s)) = waiting (sW s)"
    using done_key [OF w] assms unfolding workersOK_def by (metis keyOf.simps(9))
qed (use assms add_law forget_law addAfter when_delay deliver_law in \<open>auto simp: workersOK_def\<close>)

lemma step_wq:
  assumes "q_step cfg W waiting prunes s t" and ok: "workersOK wfq processing s"
  shows "waiting (sW s) \<subseteq> dirty (sW t) \<union> waiting (sW t) \<and>
    set_mset (sAdds s) \<subseteq> dirty (sW t) \<union> set_mset (sAdds t) \<and>
    (\<forall>i\<in>dirty (sW s). i \<in> dirty (sW t) \<or> (\<exists>k. sWorkers s k = None \<and> sWorkers t k = Some (Fetched i)))"
  using assms(1)
proof cases
  case (get k i w1)
  with law_get [OF ok get(3)] show ?thesis by auto
next
  case (finish k i)
  with law_rest(9) [OF ok finish(2)] show ?thesis by auto
next
  case (deliver i)
  with law_rest(10) [OF ok deliver(2)] show ?thesis by auto
next
  case (failed k i ev sn err delay w1)
  with law_rest(8) [OF ok failed(4)] show ?thesis by auto
next
  case (add i)
  then show ?thesis by (auto simp: law_rest [OF ok] dest: in_diffD split: if_splits)
     (metis insert_DiffM insert_noteq_member)
next
  case (redefer k i t)
  with law_rest(6,7) [OF ok, of i] show ?thesis by auto
next
  case (retry k i delay)
  with law_rest(6,7) [OF ok, of i] show ?thesis by auto
qed (auto simp: law_rest [OF ok])

lemma step_keeps:
  assumes "q_step cfg W waiting prunes s t" "workersOK wfq processing s"
    and "scheduledBy P dirty waiting s i" "\<And>i. P (Fetched i)"
  shows "scheduledBy P dirty waiting t i \<or> dropsFrom P dirty waiting s t i"
proof -
  note wq = step_wq [OF assms(1,2)]
  consider "i \<in> dirty (sW s)" | "i \<in> waiting (sW s)" | "i \<in># sAdds s"
    | k p where "sWorkers s k = Some p" "P p" "keyOf p = i"
    using assms(3) unfolding scheduledBy_def by blast
  then show ?thesis
  proof cases
    case 1
    with wq show ?thesis unfolding scheduledBy_def by (metis assms(4) keyOf.simps(1))
  next
    case 2
    with wq show ?thesis unfolding scheduledBy_def by auto
  next
    case 3
    with wq show ?thesis unfolding scheduledBy_def by auto
  next
    case 4
    then show ?thesis unfolding scheduledBy_def dropsFrom_def by blast
  qed
qed

end

lemma step_todo:
  assumes "q_step cfg W waiting prunes s t" "i \<in> sTodo t" "latest (sQ t) i \<noteq> None"
  shows "(i \<in> sTodo s \<and> latest (sQ s) i \<noteq> None) \<or> scheduledBy pending dirty waiting t i"
  using assms(1)
proof cases
  case (enqueue ev force q1 add)
  from enqueue(2) show ?thesis
    by (cases rule: enqueueLocked_cases)
      (use assms(2,3) enqueue(1) in \<open>auto simp: scheduledBy_def split: if_splits\<close>)
next
  case (failed k j ev sn err delay w1)
  show ?thesis
  proof (cases "i = j")
    case True
    with failed(1) have "sWorkers t k = Some (Retrying i delay)" by simp
    then show ?thesis unfolding scheduledBy_def by (metis keyOf.simps(5) pending.simps(3))
  next
    case False
    with assms(2,3) failed(1) show ?thesis by (auto split: if_splits)
  qed
next
  case (compact k j ev sn)
  with assms(2,3) compactLocked_latest(1) [of j ev sn "sQ s" i] show ?thesis by simp
next
  case (prune j ev q1)
  with assms(2,3) pruneIfNonDelete_True [OF prune(3)] show ?thesis by (simp split: if_splits)
next
  case (claim k j nb q1)
  with assms(2,3) claimLocked_same [OF claim(3)] show ?thesis by simp
next
  case (checkForce k j ev sn p q1)
  with assms(2,3) rearmLocked_same [OF checkForce(3)] show ?thesis by simp
qed (use assms(2,3) in \<open>auto simp: snapshotLocked_eq split: if_splits\<close>)

text \<open>Only a worker that finds no event, or takes the event, lets a key go.\<close>

lemma step_drops_pending:
  assumes "q_step cfg W waiting prunes s t" and "dropsFrom pending dirty waiting s t i"
    and after: "\<And>d. i \<in> dirty (wqAddAfter W i d (sW s)) \<union> waiting (wqAddAfter W i d (sW s))"
  shows "latest (sQ t) i = None \<or> i \<notin> sTodo t"
proof -
  from assms(2) obtain k p where p: "sWorkers s k = Some p" "pending p" "keyOf p = i"
    and q: "i \<notin> dirty (sW t)" "i \<notin> waiting (sW t)" "\<forall>p'. sWorkers t k = Some p' \<longrightarrow> \<not> (pending p' \<and> keyOf p' = i)"
    unfolding dropsFrom_def by blast
  have moved: "sWorkers t k \<noteq> Some p" using p(2,3) q(3) by blast
  from assms(1) show ?thesis
  proof cases
    case (redefer k' j d)
    with moved p(1) have "k' = k" by (auto split: if_splits)
    with redefer p have "j = i" by simp
    with redefer(1) q(1,2) after show ?thesis by auto
  next
    case (retry k' j d)
    with moved p(1) have "k' = k" by (auto split: if_splits)
    with retry p have "j = i" by simp
    with retry(1) q(1,2) after show ?thesis by auto
  next
    case (gone k' j nb q1)
    with moved p(1) have "k' = k" by (auto split: if_splits)
    with gone p have "j = i" by simp
    with gone show ?thesis by (auto simp: snapshotLocked_eq)
  next
    case (snap k' j nb ev sn q1)
    with moved p(1) have "k' = k" by (auto split: if_splits)
    with snap p have "j = i" by simp
    with snap(1) show ?thesis by simp
  next
    case (claim k' j nb q1)
    with moved p(1) have "k' = k" by (auto split: if_splits)
    with claim p q(3) show ?thesis by simp
  qed (use moved p(1,2) in \<open>auto split: if_splits\<close>)
qed

lemma step_force:
  assumes "q_step cfg W waiting prunes s t" "i \<in> forced (sQ t)"
  shows "i \<in> forced (sQ s) \<or> scheduledBy forcing dirty waiting t i"
  using assms(1)
proof cases
  case (enqueue ev force q1 add)
  from enqueue(2) show ?thesis
    by (cases rule: enqueueLocked_cases) (use assms(2) enqueue(1) in \<open>auto simp: scheduledBy_def\<close>)
next
  case (prune j ev q1)
  with assms(2) pruneIfNonDelete_True [OF prune(3)] show ?thesis by simp
next
  case (claim k j nb q1)
  with assms(2) claimLocked_same [OF claim(3)] show ?thesis by simp
next
  case (checkForce k j ev sn p q1)
  with assms(2) rearmLocked_same [OF checkForce(3)] show ?thesis by simp
qed (use assms(2) in \<open>auto simp: snapshotLocked_eq split: if_splits\<close>)

lemma step_drops_forcing:
  assumes "q_step cfg W waiting prunes s t" and "dropsFrom forcing dirty waiting s t i" "i \<in> forced (sQ t)"
    and after: "\<And>d. i \<in> dirty (wqAddAfter W i d (sW s)) \<union> waiting (wqAddAfter W i d (sW s))"
    and add: "i \<in> dirty (wqAdd W i (sW s))"
    and unlimited: "cfgMaxRetries cfg < 0" "cfgRetryIf cfg = None"
  shows False
proof -
  from assms(2) obtain k p where p: "sWorkers s k = Some p" "forcing p" "keyOf p = i"
    and q: "i \<notin> dirty (sW t)" "i \<notin> waiting (sW t)" "\<forall>p'. sWorkers t k = Some p' \<longrightarrow> \<not> (forcing p' \<and> keyOf p' = i)"
    unfolding dropsFrom_def by blast
  have moved: "sWorkers t k \<noteq> Some p" using p(2,3) q(3) by blast
  from assms(1) show ?thesis
  proof cases
    case (redefer k' j d)
    with moved p(1) have "k' = k" by (auto split: if_splits)
    with redefer p have "j = i" by simp
    with redefer(1) q(1,2) after show ?thesis by auto
  next
    case (retry k' j d)
    with moved p(1) have "k' = k" by (auto split: if_splits)
    with retry p have "j = i" by simp
    with retry(1) q(1,2) after show ?thesis by auto
  next
    case (gone k' j nb q1)
    with moved p(1) have "k' = k" by (auto split: if_splits)
    with gone p q(3) show ?thesis by simp
  next
    case (forget k' j)
    with moved p(1) have "k' = k" by (auto split: if_splits)
    with forget p assms(3) show ?thesis by auto
  next
    case (snap k' j nb ev sn q1)
    with moved p(1) have "k' = k" by (auto split: if_splits)
    with snap p have j: "j = i" by simp
    with snap assms(3) have "deferredForced sn" by (auto simp: snapshotLocked_eq deferredForced_def split: if_splits)
    with snap(1) j \<open>k' = k\<close> q(3) show ?thesis by simp
  next
    case (giveUp k' j ev sn err)
    with unlimited show ?thesis by (simp add: retryAllowed_def)
  next
    case (checkForce k' j ev sn p' q1)
    with moved p(1) have "k' = k" by (auto split: if_splits)
    with checkForce p q(3) assms(3) rearmLocked_same [OF checkForce(3)] show ?thesis by simp
  next
    case (rearm k' j ev sn p')
    with moved p(1) have "k' = k" by (auto split: if_splits)
    with rearm p have "j = i" "p'" by auto
    with rearm(1) q(1) add show ?thesis by simp
  next
    case (claim k' j nb q1)
    with moved p(1) have "k' = k" by (auto split: if_splits)
    with claim p q(3) show ?thesis by simp
  next
    case (succeeded k' j ev sn)
    with moved p(1) have "k' = k" by (auto split: if_splits)
    with succeeded p q(3) show ?thesis by simp
  next
    case (failed k' j ev sn err delay w1)
    with moved p(1) have "k' = k" by (auto split: if_splits)
    with failed p q(3) show ?thesis by simp
  qed (use moved p(1,2) in \<open>auto split: if_splits\<close>)
qed

definition claimOK :: "('r, 'w) qsys \<Rightarrow> bool" where
  "claimOK s \<longleftrightarrow> (\<forall>k i nb. sWorkers s k = Some (Claimed i nb) \<longrightarrow>
     notBefore (sQ s) i = nb \<or> notBefore (sQ s) i = None)"

lemma step_claimOK:
  assumes "q_step cfg W waiting prunes s t" "workersOK wfq processing s" "claimOK s"
  shows "claimOK t"
proof -
  have only: "i \<noteq> j" if "sWorkers s k = Some (Claimed i nb)" "sWorkers s k' = Some p" "keyOf p = j" "k \<noteq> k'" for k k' i j nb p
    using assms(2) that unfolding workersOK_def by (metis keyOf.simps(2))
  from assms(1) show ?thesis
  proof cases
    case (enqueue ev force q1 add)
    from enqueue(2) show ?thesis
      by (cases rule: enqueueLocked_cases) (use assms(3) enqueue(1) in \<open>auto simp: claimOK_def\<close>)
  next
    case (prune j ev q1)
    with assms(3) pruneIfNonDelete_True [OF prune(3)] show ?thesis by (auto simp: claimOK_def)
  next
    case (claim k j nb q1)
    with assms(3) claimLocked_same [OF claim(3)] show ?thesis by (auto simp: claimOK_def split: if_splits)
  next
    case (checkForce k j ev sn p q1)
    with assms(3) rearmLocked_same [OF checkForce(3)] show ?thesis by (auto simp: claimOK_def split: if_splits)
  next
    case (failed k j ev sn err delay w1)
    then have "i \<noteq> j" if "sWorkers s k' = Some (Claimed i nb)" "k' \<noteq> k" for k' i nb
      using only [OF that(1) failed(2) _ that(2)] by simp
    with assms(3) failed(1) show ?thesis by (auto simp: claimOK_def split: if_splits)
  qed (use assms(3) in \<open>auto simp: claimOK_def snapshotLocked_eq split: if_splits\<close>)
qed

context workqueue
begin

lemma reach:
  assumes "(q_step cfg W waiting prunes)\<^sup>*\<^sup>* (q_init w0) s" "wfq w0"
  shows "workersOK wfq processing s \<and> todoOK dirty waiting s \<and> claimOK s"
  using assms(1)
proof (induction rule: rtranclp_induct)
  case base
  show ?case using assms(2)
    by (simp add: q_init_def workersOK_def todoOK_def claimOK_def newReconcileQueue_def)
next
  case (step s t)
  then have ok: "workersOK wfq processing s" by blast
  have "scheduledBy pending dirty waiting t i" if i: "i \<in> sTodo t" "latest (sQ t) i \<noteq> None" for i
  proof (rule ccontr)
    assume not: "\<not> scheduledBy pending dirty waiting t i"
    with step_todo [OF step.hyps(2) i] step.IH have "scheduledBy pending dirty waiting s i"
      unfolding todoOK_def by blast
    from step_keeps [OF step.hyps(2) ok this] not have "dropsFrom pending dirty waiting s t i" by simp
    from step_drops_pending [OF step.hyps(2) this law_rest(5) [OF ok]] i show False by blast
  qed
  then have "todoOK dirty waiting t" by (simp add: todoOK_def)
  with step_workersOK [OF step.hyps(2) ok] step_claimOK [OF step.hyps(2) ok] step.IH show ?case by blast
qed

lemma reach_force:
  assumes "(q_step cfg W waiting prunes)\<^sup>*\<^sup>* (q_init w0) s" "wfq w0"
    and unlimited: "cfgMaxRetries cfg < 0" "cfgRetryIf cfg = None"
  shows "forceOK dirty waiting s"
  using assms(1)
proof (induction rule: rtranclp_induct)
  case base
  show ?case by (simp add: q_init_def forceOK_def newReconcileQueue_def)
next
  case (step s t)
  have ok: "workersOK wfq processing s" using reach [OF step.hyps(1) assms(2)] by blast
  have "scheduledBy forcing dirty waiting t i" if i: "i \<in> forced (sQ t)" for i
  proof (rule ccontr)
    assume not: "\<not> scheduledBy forcing dirty waiting t i"
    with step_force [OF step.hyps(2) i] step.IH have "scheduledBy forcing dirty waiting s i"
      unfolding forceOK_def by blast
    from step_keeps [OF step.hyps(2) ok this] not have drop: "dropsFrom forcing dirty waiting s t i" by simp
    have "i \<in> dirty (wqAdd W i (sW s))" by (simp add: law_rest(1) [OF ok])
    from step_drops_forcing [OF step.hyps(2) drop i law_rest(5) [OF ok] this unlimited] show False .
  qed
  then show ?case by (simp add: forceOK_def)
qed

lemma attempt:
  assumes "(q_step cfg W waiting prunes)\<^sup>*\<^sup>* (q_init w0) s" "wfq w0"
    and step: "q_step cfg W waiting prunes s t"
    and from_to: "sWorkers s k = Some (Claimed i nb)" "sWorkers t k = Some (Handling i ev sn)"
  shows "(\<forall>k' p. sWorkers s k' = Some p \<and> keyOf p = i \<longrightarrow> k' = k) \<and>
    elapsed (notBefore (sQ s) i) (sNow s) \<and>
    (\<exists>e. latest (sQ s) i = Some e \<and> ev = attemptEvent cfg (wqNumRequeues W i (sW s)) sn e)"
proof -
  note r = reach [OF assms(1,2)]
  from step have "elapsed nb (sNow s) \<and>
      (\<exists>e. latest (sQ s) i = Some e \<and> ev = attemptEvent cfg (wqNumRequeues W i (sW s)) sn e)"
    by cases (use from_to in \<open>auto simp: snapshotLocked_eq split: if_splits\<close>)
  moreover have "notBefore (sQ s) i = nb \<or> notBefore (sQ s) i = None"
    using r from_to(1) by (simp add: claimOK_def)
  moreover have "k' = k" if "sWorkers s k' = Some p" "keyOf p = i" for k' p
    using r that from_to(1) unfolding workersOK_def by (metis keyOf.simps(2))
  ultimately show ?thesis by (auto simp: elapsed_def)
qed

end

text \<open>
  C2: no work is lost. In every reachable state, whatever enqueuers, workers, retries and prunes
  interleave, a key whose stored event has not been handed to the handler, or whose last attempt
  failed and may be retried, is scheduled: the work queue holds it, or an enqueuer or a worker is
  about to add it or to look at its event.
\<close>

theorem no_lost_work:
  assumes "workqueue W dirty processing waiting wfq" and "wfq w0"
    and "(q_step cfg W waiting prunes)\<^sup>*\<^sup>* (q_init w0) s"
    and "i \<in> sTodo s" and "latest (sQ s) i \<noteq> None"
  shows "scheduledBy pending dirty waiting s i"
  using workqueue.reach [OF assms(1,3,2)] assms(4,5) unfolding todoOK_def by blast

text \<open>
  A forced recovery is not stranded. With unlimited retries, as the gateway queue has them, a
  key marked for a forced pass is in every reachable state scheduled, or in the hands of a worker
  that will schedule the deferred pass when its preserved attempt has succeeded.
\<close>

theorem force_stays_scheduled:
  assumes "workqueue W dirty processing waiting wfq" and "wfq w0"
    and "(q_step cfg W waiting prunes)\<^sup>*\<^sup>* (q_init w0) s"
    and "cfgMaxRetries cfg < 0" and "cfgRetryIf cfg = None"
    and "i \<in> forced (sQ s)"
  shows "scheduledBy forcing dirty waiting s i"
  using workqueue.reach_force [OF assms(1,3,2,4,5)] assms(6) unfolding forceOK_def by blast

text \<open>
  C27: attempts on one key never overlap and respect its backoff. When a worker starts an attempt,
  no other worker has the key, the recorded end of the key's backoff is past, and the handler is
  given the event stored at that moment, transformed or preserved as its marks say.
\<close>

theorem attempts_serial_and_backed_off:
  assumes "workqueue W dirty processing waiting wfq" and "wfq w0"
    and "(q_step cfg W waiting prunes)\<^sup>*\<^sup>* (q_init w0) s" and "q_step cfg W waiting prunes s t"
    and "sWorkers s k = Some (Claimed i nb)" and "sWorkers t k = Some (Handling i ev sn)"
  shows "(\<forall>k' p. sWorkers s k' = Some p \<and> keyOf p = i \<longrightarrow> k' = k) \<and>
    elapsed (notBefore (sQ s) i) (sNow s) \<and>
    (\<exists>e. latest (sQ s) i = Some e \<and> ev = attemptEvent cfg (wqNumRequeues W i (sW s)) sn e)"
  using workqueue.attempt [OF assms(1,3,2,4,5,6)] .

text \<open>
  C28: a delete is terminal. Once the stored event of a key is a delete it stays one, through
  every step of every thread, and so every attempt on the key that starts later is an attempt on a
  delete.
\<close>

theorem delete_is_terminal:
  assumes "latest (sQ s) i = Some del" "evType del = EventDeleted"
    and "(q_step cfg W waiting prunes)\<^sup>*\<^sup>* s t" and "q_step cfg W waiting prunes t u"
    and "\<forall>f e. cfgRetryTransform cfg = Some f \<longrightarrow> evType (f e) = evType e"
    and "sWorkers t k = Some (Claimed i nb)" and "sWorkers u k = Some (Handling i ev sn)"
  shows "evType ev = EventDeleted \<and> (\<exists>e. latest (sQ u) i = Some e \<and> evType e = EventDeleted)"
proof -
  have "deletedIn i s" using assms(1,2) by (simp add: deletedIn_def)
  from steps_deletedIn [OF assms(3) this] have t: "deletedIn i t" .
  with step_deletedIn [OF assms(4)] have "deletedIn i u" .
  moreover from assms(4) have "\<exists>e n. latest (sQ t) i = Some e \<and> ev = attemptEvent cfg n sn e"
    by cases (use assms(6,7) in \<open>auto simp: snapshotLocked_eq split: if_splits\<close>)
  with t assms(5) have "evType ev = EventDeleted"
    by (auto simp: deletedIn_def attemptEvent_def split: option.splits)
  ultimately show ?thesis by (simp add: deletedIn_def)
qed

section \<open>A work queue\<close>

text \<open>
  The work queue as client-go describes it: an ordered queue, the dirty and the processing keys, the
  keys waiting for a delay, and a limiter that doubles from two seconds up to thirty.
\<close>

record refWQ =
  rqQueue :: "string list"
  rqDirty :: "string list"
  rqProcessing :: "string list"
  rqWaiting :: "string list"
  rqFailures :: "string \<Rightarrow> nat"

abbreviation gatewayRequeueBaseDelay :: int where "gatewayRequeueBaseDelay \<equiv> 2000000000"
abbreviation gatewayRequeueMaxDelay :: int where "gatewayRequeueMaxDelay \<equiv> 30000000000"

definition refAdd :: "string \<Rightarrow> refWQ \<Rightarrow> refWQ" where
  "refAdd i w = (if i \<in> set (rqDirty w) then w
     else w\<lparr>rqDirty := i # rqDirty w,
            rqQueue := (if i \<in> set (rqProcessing w) then rqQueue w else rqQueue w @ [i])\<rparr>)"

definition refGet :: "refWQ \<Rightarrow> (string \<times> refWQ) option" where
  "refGet w = (case rqQueue w of [] \<Rightarrow> None
     | i # is \<Rightarrow> Some (i, w\<lparr>rqQueue := is, rqDirty := removeAll i (rqDirty w), rqProcessing := i # rqProcessing w\<rparr>))"

definition refDone :: "string \<Rightarrow> refWQ \<Rightarrow> refWQ" where
  "refDone i w = w\<lparr>rqProcessing := removeAll i (rqProcessing w),
     rqQueue := (if i \<in> set (rqDirty w) then rqQueue w @ [i] else rqQueue w)\<rparr>"

definition refWorkqueue :: "refWQ workqueue_ops" where
  "refWorkqueue = \<lparr>wqAdd = refAdd, wqGet = refGet, wqDone = refDone,
     wqAddAfter = (\<lambda>i t w. if t \<le> 0 then refAdd i w else w\<lparr>rqWaiting := i # rqWaiting w\<rparr>),
     wqDeliver = (\<lambda>i w. refAdd i (w\<lparr>rqWaiting := removeAll i (rqWaiting w)\<rparr>)),
     wqForget = (\<lambda>i w. w\<lparr>rqFailures := (rqFailures w)(i := 0)\<rparr>),
     wqNumRequeues = (\<lambda>i w. int (rqFailures w i)),
     wqWhen = (\<lambda>i w. (min (gatewayRequeueBaseDelay * 2 ^ rqFailures w i) gatewayRequeueMaxDelay,
       w\<lparr>rqFailures := (rqFailures w)(i := rqFailures w i + 1)\<rparr>))\<rparr>"

definition refInv :: "refWQ \<Rightarrow> bool" where
  "refInv w \<longleftrightarrow> distinct (rqQueue w) \<and> set (rqQueue w) = set (rqDirty w) - set (rqProcessing w)"

definition emptyWQ :: refWQ where
  "emptyWQ = \<lparr>rqQueue = [], rqDirty = [], rqProcessing = [], rqWaiting = [], rqFailures = (\<lambda>_. 0)\<rparr>"

abbreviation refDirty :: "refWQ \<Rightarrow> string set" where "refDirty w \<equiv> set (rqDirty w)"
abbreviation refProcessing :: "refWQ \<Rightarrow> string set" where "refProcessing w \<equiv> set (rqProcessing w)"
abbreviation refWaiting :: "refWQ \<Rightarrow> string set" where "refWaiting w \<equiv> set (rqWaiting w)"

interpretation clientgo: workqueue refWorkqueue refDirty refProcessing refWaiting refInv
proof unfold_locales
  fix w w1 :: refWQ and i t
  show "refInv w \<Longrightarrow> refInv (wqAdd refWorkqueue i w) \<and> refDirty (wqAdd refWorkqueue i w) = insert i (refDirty w) \<and>
      refProcessing (wqAdd refWorkqueue i w) = refProcessing w \<and> refWaiting (wqAdd refWorkqueue i w) = refWaiting w"
    by (auto simp: refWorkqueue_def refAdd_def refInv_def)
  show "refInv w1 \<and> i \<in> refDirty w \<and> i \<notin> refProcessing w \<and>
      refDirty w1 = refDirty w - {i} \<and> refProcessing w1 = insert i (refProcessing w) \<and> refWaiting w1 = refWaiting w"
    if "refInv w" "wqGet refWorkqueue w = Some (i, w1)"
  proof -
    from that(2) obtain ks where q: "rqQueue w = i # ks" and w1: "w1 = w\<lparr>rqQueue := ks,
        rqDirty := removeAll i (rqDirty w), rqProcessing := i # rqProcessing w\<rparr>"
      by (simp add: refWorkqueue_def refGet_def split: list.splits)
    from that(1) q have "i \<in> refDirty w" "i \<notin> refProcessing w" "distinct ks" "i \<notin> set ks"
      and s: "insert i (set ks) = refDirty w - refProcessing w" by (auto simp: refInv_def)
    moreover from this have "set ks = (refDirty w - {i}) - insert i (refProcessing w)" by blast
    ultimately show ?thesis by (simp add: w1 refInv_def)
  qed
  show "refInv w \<Longrightarrow> i \<in> refDirty w \<Longrightarrow> i \<notin> refProcessing w \<Longrightarrow> wqGet refWorkqueue w \<noteq> None"
    by (auto simp: refWorkqueue_def refGet_def refInv_def split: list.splits)
  show "refInv w \<Longrightarrow> i \<in> refProcessing w \<Longrightarrow> refInv (wqDone refWorkqueue i w) \<and> refDirty (wqDone refWorkqueue i w) = refDirty w \<and>
      refProcessing (wqDone refWorkqueue i w) = refProcessing w - {i} \<and> refWaiting (wqDone refWorkqueue i w) = refWaiting w"
    by (auto simp: refWorkqueue_def refDone_def refInv_def)
  show "refInv w \<Longrightarrow> refInv (wqAddAfter refWorkqueue i t w) \<and>
      i \<in> refDirty (wqAddAfter refWorkqueue i t w) \<union> refWaiting (wqAddAfter refWorkqueue i t w) \<and>
      refDirty w \<subseteq> refDirty (wqAddAfter refWorkqueue i t w) \<and> refWaiting w \<subseteq> refWaiting (wqAddAfter refWorkqueue i t w) \<and>
      refProcessing (wqAddAfter refWorkqueue i t w) = refProcessing w"
    by (auto simp: refWorkqueue_def refAdd_def refInv_def)
  show "refInv w \<Longrightarrow> i \<in> refWaiting w \<Longrightarrow> refInv (wqDeliver refWorkqueue i w) \<and>
      refDirty (wqDeliver refWorkqueue i w) = insert i (refDirty w) \<and>
      refProcessing (wqDeliver refWorkqueue i w) = refProcessing w \<and> refWaiting w \<subseteq> insert i (refWaiting (wqDeliver refWorkqueue i w))"
    by (auto simp: refWorkqueue_def refAdd_def refInv_def)
qed (auto simp: refWorkqueue_def refInv_def)

lemma clientgo_laws: "workqueue refWorkqueue refDirty refProcessing refWaiting refInv"
  by unfold_locales

lemma refInv_empty: "refInv emptyWQ"
  by (simp add: refInv_def emptyWQ_def)

text \<open>A run of the queue: a delete is enqueued, added, taken, claimed, and its attempt starts.\<close>

definition demoEvent :: "int Event" where "demoEvent = sampleEvent EventDeleted ''g'' 4"

definition demo0 :: "(int, refWQ) qsys" where "demo0 = q_init emptyWQ"

definition demo1 :: "(int, refWQ) qsys" where
  "demo1 = demo0\<lparr>sQ := fst (enqueueLocked defaultConfig 0 demoEvent False (sQ demo0)), sAdds := {#''g''#}, sTodo := {''g''}\<rparr>"

definition demo2 :: "(int, refWQ) qsys" where
  "demo2 = demo1\<lparr>sAdds := {#}, sW := refAdd ''g'' emptyWQ\<rparr>"

definition demo3 :: "(int, refWQ) qsys" where
  "demo3 = demo2\<lparr>sW := snd (the (refGet (sW demo2))), sWorkers := [0 \<mapsto> Fetched ''g'']\<rparr>"

definition demo4 :: "(int, refWQ) qsys" where
  "demo4 = demo3\<lparr>sQ := snd (claimLocked ''g'' (sQ demo3)), sWorkers := [0 \<mapsto> Claimed ''g'' None]\<rparr>"

definition demoSnap :: snapshot where "demoSnap = \<lparr>snGen = 1, snPreserve = False, snForced = False\<rparr>"

definition demo5 :: "(int, refWQ) qsys" where
  "demo5 = demo4\<lparr>sQ := snd (snapshotLocked ''g'' (sQ demo4)), sTodo := {},
     sWorkers := [0 \<mapsto> Handling ''g'' demoEvent demoSnap]\<rparr>"

lemmas demo_defs = demo0_def demo1_def demo2_def demo3_def demo4_def demo5_def demoEvent_def demoSnap_def
  q_init_def newReconcileQueue_def sampleEvent_def emptyWQ_def enqueueLocked_def acceptLocked_def
  markReadyLocked_def defaultConfig_def refAdd_def refGet_def claimLocked_def snapshotLocked_def

lemma demo_steps:
  shows "q_step defaultConfig refWorkqueue refWaiting False demo0 demo1"
    and "q_step defaultConfig refWorkqueue refWaiting False demo1 demo2"
    and "q_step defaultConfig refWorkqueue refWaiting False demo2 demo3"
    and "q_step defaultConfig refWorkqueue refWaiting False demo3 demo4"
    and "q_step defaultConfig refWorkqueue refWaiting False demo4 demo5"
proof -
  let ?q1 = "fst (enqueueLocked defaultConfig (sNow demo0) demoEvent False (sQ demo0))"
  have d1: "demo1 = demo0\<lparr>sQ := ?q1,
      sAdds := (if True then add_mset (evResourceID demoEvent) (sAdds demo0) else sAdds demo0),
      sTodo := (if gen ?q1 (evResourceID demoEvent) \<noteq> gen (sQ demo0) (evResourceID demoEvent)
        then insert (evResourceID demoEvent) (sTodo demo0) else sTodo demo0)\<rparr>"
    by (simp add: demo_defs Let_def)
  have e1: "enqueueLocked defaultConfig (sNow demo0) demoEvent False (sQ demo0) = (?q1, True)"
    by (simp add: demo_defs Let_def)
  show "q_step defaultConfig refWorkqueue refWaiting False demo0 demo1"
    by (subst d1) (rule q_step.enqueue [OF e1])
  have d2: "demo2 = demo1\<lparr>sAdds := sAdds demo1 - {#''g''#}, sW := wqAdd refWorkqueue ''g'' (sW demo1)\<rparr>"
    and e2: "''g'' \<in># sAdds demo1"
    by (simp_all add: demo_defs refWorkqueue_def)
  show "q_step defaultConfig refWorkqueue refWaiting False demo1 demo2"
    by (subst d2) (rule q_step.add [OF e2])
  have d3: "demo3 = demo2\<lparr>sW := snd (the (refGet (sW demo2))), sWorkers := (sWorkers demo2)(0 \<mapsto> Fetched ''g'')\<rparr>"
    and e3: "sWorkers demo2 0 = None" "wqGet refWorkqueue (sW demo2) = Some (''g'', snd (the (refGet (sW demo2))))"
    by (simp_all add: demo_defs refWorkqueue_def)
  show "q_step defaultConfig refWorkqueue refWaiting False demo2 demo3"
    by (subst d3) (rule q_step.get [OF e3])
  have d4: "demo4 = demo3\<lparr>sQ := snd (claimLocked ''g'' (sQ demo3)), sWorkers := (sWorkers demo3)(0 \<mapsto> Claimed ''g'' None)\<rparr>"
    and e4: "sWorkers demo3 0 = Some (Fetched ''g'')" "claimLocked ''g'' (sQ demo3) = (None, snd (claimLocked ''g'' (sQ demo3)))"
    by (simp_all add: demo_defs Let_def)
  show "q_step defaultConfig refWorkqueue refWaiting False demo3 demo4"
    by (subst d4) (rule q_step.claim [OF e4])
  have d5: "demo5 = demo4\<lparr>sQ := snd (snapshotLocked ''g'' (sQ demo4)), sTodo := sTodo demo4 - {''g''},
      sWorkers := (sWorkers demo4)(0 \<mapsto> Handling ''g''
        (attemptEvent defaultConfig (wqNumRequeues refWorkqueue ''g'' (sW demo4)) demoSnap demoEvent) demoSnap)\<rparr>"
    and e5: "sWorkers demo4 0 = Some (Claimed ''g'' None)" "elapsed None (sNow demo4)"
      "snapshotLocked ''g'' (sQ demo4) = (Some (demoEvent, demoSnap), snd (snapshotLocked ''g'' (sQ demo4)))"
    by (simp_all add: demo_defs attemptEvent_def elapsed_def Let_def)
  show "q_step defaultConfig refWorkqueue refWaiting False demo4 demo5"
    by (subst d5) (rule q_step.snap [OF e5])
qed

lemma demo_reach: "(q_step defaultConfig refWorkqueue refWaiting False)\<^sup>*\<^sup>* demo1 demo4"
    "(q_step defaultConfig refWorkqueue refWaiting False)\<^sup>*\<^sup>* (q_init emptyWQ) demo4"
  using demo_steps unfolding demo0_def by (meson converse_rtranclp_into_rtranclp rtranclp.rtrancl_refl)+

theorem no_lost_work_witness:
  "''g'' \<in> sTodo demo1 \<and> latest (sQ demo1) ''g'' = Some demoEvent \<and>
   scheduledBy pending refDirty refWaiting demo1 ''g''"
proof -
  have run: "(q_step defaultConfig refWorkqueue refWaiting False)\<^sup>*\<^sup>* (q_init emptyWQ) demo1"
    using demo_steps(1) unfolding demo0_def by blast
  have g: "''g'' \<in> sTodo demo1" "latest (sQ demo1) ''g'' = Some demoEvent" by (simp_all add: demo_defs Let_def)
  then have "latest (sQ demo1) ''g'' \<noteq> None" by simp
  from no_lost_work [OF clientgo_laws refInv_empty run g(1) this] g show ?thesis by blast
qed

theorem attempts_serial_and_backed_off_witness:
  "sWorkers demo4 0 = Some (Claimed ''g'' None) \<and> sWorkers demo5 0 = Some (Handling ''g'' demoEvent demoSnap) \<and>
   \<not> (\<exists>k' p. sWorkers demo4 k' = Some p \<and> keyOf p = ''g'' \<and> k' \<noteq> 0) \<and> elapsed (notBefore (sQ demo4) ''g'') (sNow demo4)"
proof -
  have k: "sWorkers demo4 0 = Some (Claimed ''g'' None)" "sWorkers demo5 0 = Some (Handling ''g'' demoEvent demoSnap)"
    by (simp_all add: demo4_def demo5_def)
  from attempts_serial_and_backed_off [OF clientgo_laws refInv_empty demo_reach(2) demo_steps(5) k] k
  show ?thesis by blast
qed

theorem delete_is_terminal_witness:
  "latest (sQ demo1) ''g'' = Some demoEvent \<and> evType demoEvent = EventDeleted \<and>
   (\<exists>e. latest (sQ demo5) ''g'' = Some e \<and> evType e = EventDeleted)"
proof -
  have g: "latest (sQ demo1) ''g'' = Some demoEvent" "evType demoEvent = EventDeleted"
    by (simp_all add: demo_defs Let_def)
  have k: "sWorkers demo4 0 = Some (Claimed ''g'' None)" "sWorkers demo5 0 = Some (Handling ''g'' demoEvent demoSnap)"
    by (simp_all add: demo4_def demo5_def)
  have f: "\<forall>f e. cfgRetryTransform (defaultConfig :: int queueConfig) = Some f \<longrightarrow> evType (f e) = evType e"
    by (simp add: defaultConfig_def)
  from delete_is_terminal [OF g demo_reach(1) demo_steps(5) f k] g show ?thesis by blast
qed

text \<open>A forced seed, on a key the worker has just found pruned.\<close>

definition seedEvent :: "int Event" where "seedEvent = sampleEvent EventUpdated ''g'' 9"

definition seeded :: "(int, refWQ) qsys" where
  "seeded = demo0\<lparr>sQ := fst (enqueueLocked defaultConfig 0 seedEvent True (sQ demo0)), sAdds := {#''g''#}, sTodo := {''g''}\<rparr>"

theorem force_stays_scheduled_witness:
  "''g'' \<in> forced (sQ seeded) \<and> scheduledBy forcing refDirty refWaiting seeded ''g''"
proof -
  let ?q1 = "fst (enqueueLocked defaultConfig (sNow demo0) seedEvent True (sQ demo0))"
  have d: "seeded = demo0\<lparr>sQ := ?q1,
      sAdds := (if True then add_mset (evResourceID seedEvent) (sAdds demo0) else sAdds demo0),
      sTodo := (if gen ?q1 (evResourceID seedEvent) \<noteq> gen (sQ demo0) (evResourceID seedEvent)
        then insert (evResourceID seedEvent) (sTodo demo0) else sTodo demo0)\<rparr>"
    by (simp add: seeded_def seedEvent_def demo_defs Let_def)
  have e: "enqueueLocked defaultConfig (sNow demo0) seedEvent True (sQ demo0) = (?q1, True)"
    by (simp add: seedEvent_def demo_defs Let_def)
  have "q_step defaultConfig refWorkqueue refWaiting False demo0 seeded"
    by (subst d) (rule q_step.enqueue [OF e])
  then have run: "(q_step defaultConfig refWorkqueue refWaiting False)\<^sup>*\<^sup>* (q_init emptyWQ) seeded"
    unfolding demo0_def by blast
  have u: "cfgMaxRetries (defaultConfig :: int queueConfig) < 0" "cfgRetryIf (defaultConfig :: int queueConfig) = None"
    by (simp_all add: defaultConfig_def)
  have g: "''g'' \<in> forced (sQ seeded)" by (simp add: seeded_def seedEvent_def demo_defs Let_def)
  from force_stays_scheduled [OF clientgo_laws refInv_empty run u g] g show ?thesis by blast
qed

text \<open>
  The mark of a forced enqueue can be lost. A worker that finds no event for its key releases the
  lock and takes it again to delete the key's mark; a forced enqueue in between stores its event
  and its mark, and the worker deletes the mark of work that is still to be done.
\<close>

lemma force_mark_lost:
  assumes "latest q i = None" and "evResourceID ev = i" and "evType ev \<noteq> EventDeleted"
  shows "let q1 = snd (snapshotLocked i q);
             q2 = fst (enqueueLocked cfg now ev True q1);
             q3 = clearBackoff i (dropForcedLocked i q2)
         in fst (snapshotLocked i q) = None \<and> latest q3 i = Some ev \<and> i \<in> forced q2 \<and> i \<notin> forced q3"
  using assms by (simp add: snapshotLocked_def enqueueLocked_def Let_def)

end
