(* ===== verification/Watch_Streams.thy ===== *)
theory Watch_Streams
  imports Reconcile_Queue "HOL-Library.Word"
begin

text \<open>
  The watch streams of the control plane (\<^verbatim>\<open>control-plane/internal/watcher/watcher.go\<close>): the events
  of a stream, the seed of the reconcile queue from a list of the gateways, the join of receiver
  and seed, the retry policy of role bindings and the loop that reconnects.

  The API server and the queue are reached through two records of operations over a state of their
  own, the whole of what happens meanwhile: a call may return any state, so other threads and the
  server may act during every call. Metrics, log records and spans are left out. The order in which
  Go ranges over a map is an argument, any enumeration of the keys. A gateway message is never nil,
  its fields that no function here reads are the type variable of the record.
\<close>

section \<open>Events and gateways\<close>

text \<open>The event types of the protocol; every other number is \<open>PbOther\<close>.\<close>

datatype pbEventType = PbUnspecified | PbCreated | PbUpdated | PbDeleted | PbOther int

fun toEventType :: "pbEventType \<Rightarrow> EventType" where
  "toEventType PbCreated = EventCreated"
| "toEventType PbUpdated = EventUpdated"
| "toEventType PbDeleted = EventDeleted"
| "toEventType PbUnspecified = EventCreated"
| "toEventType (PbOther n) = EventCreated"

record pbMeta =
  mId :: string
  mUpdatedAt :: "(int \<times> int) option"

record 'x pbGateway =
  gwMetadata :: "pbMeta option"
  gwPhase :: "string option"
  gwRest :: 'x

definition gwGetId :: "'x pbGateway \<Rightarrow> string" where
  "gwGetId g = (case gwMetadata g of None \<Rightarrow> [] | Some m \<Rightarrow> mId m)"

definition gwGetPhase :: "'x pbGateway \<Rightarrow> string" where
  "gwGetPhase g = (case gwPhase g of None \<Rightarrow> [] | Some p \<Rightarrow> p)"

section \<open>Filters, workers, retries\<close>

definition ErrMissingClusterID :: chain where
  "ErrMissingClusterID = PlainErr ''refusing a cluster-scoped list/watch without this control plane's registered cluster_id''"

definition ClusterFilter :: "string \<Rightarrow> chain + string" where
  "ClusterFilter clusterID =
     (if strings_TrimSpace clusterID = [] then Inl ErrMissingClusterID else Inr clusterID)"

definition gatewayWorkerCount :: "int \<Rightarrow> int" where
  "gatewayWorkerCount configured = (if configured < 1 then gatewayReconcileWorkers else configured)"

definition clearGatewayPhaseForRetry :: "'x pbGateway Event \<Rightarrow> 'x pbGateway Event" where
  "clearGatewayPhaseForRetry ev =
     (case evResource ev of
        None \<Rightarrow> ev
      | Some g \<Rightarrow> ev\<lparr>evPhaseBeforeRetry := gwGetPhase g, evResource := Some (g\<lparr>gwPhase := None\<rparr>)\<rparr>)"

text \<open>\<^verbatim>\<open>AsTime().UnixNano()\<close>: seconds and nanoseconds in a 64-bit integer; zero where one is missing.\<close>

definition gatewayEventVersion :: "'x pbGateway Event \<Rightarrow> int" where
  "gatewayEventVersion ev =
     (case Option.bind (Option.bind (evResource ev) gwMetadata) mUpdatedAt of
        None \<Rightarrow> 0
      | Some (seconds, nanos) \<Rightarrow> sint (word_of_int seconds * 1000000000 + word_of_int nanos :: 64 word))"

definition NewGatewayReconcileQueue :: "int \<Rightarrow> 'x pbGateway queueConfig" where
  "NewGatewayReconcileQueue workers =
     withWorkers (gatewayWorkerCount workers)
       (withVersion gatewayEventVersion (withRetryTransform clearGatewayPhaseForRetry defaultConfig))"

fun errText :: "chain \<Rightarrow> string" where
  "errText (PlainErr m) = m"
| "errText (StatusErr c m) = error_text (StatusError c m)"
| "errText (K8sErr r m) = m"
| "errText (PqErr c m) = m"
| "errText (SentinelErr m) = m"
| "errText (ClientNotFoundError i) = ''keycloak client '' @ i @ '' not found''"
| "errText (UserNotFoundError u) = ''keycloak user '' @ u @ '' not found''"
| "errText errGatewayKeycloakClientMissing = ''gateway Keycloak client is missing''"
| "errText (gatewayKeycloakClientIdentityError e) = errText e"
| "errText (RenderedConfigValidationError e) = errText e"
| "errText (JoinedErr a b) = errText a @ [CHR 0x0A] @ errText b"
| "errText (preservePayloadForRetryError e) = errText e"
| "errText (retryReasonError e r) = errText e"
| "errText (OtherWrap m e) = m"

text \<open>\<^verbatim>\<open>status.FromError\<close>: the first status in the chain; \<^verbatim>\<open>status.Code\<close>.\<close>

fun statusOf :: "chain \<Rightarrow> grpc_code option" where
  "statusOf (PlainErr m) = None"
| "statusOf (StatusErr c m) = Some c"
| "statusOf (K8sErr r m) = None"
| "statusOf (PqErr c m) = None"
| "statusOf (SentinelErr m) = None"
| "statusOf (ClientNotFoundError i) = None"
| "statusOf (UserNotFoundError u) = None"
| "statusOf errGatewayKeycloakClientMissing = None"
| "statusOf (gatewayKeycloakClientIdentityError e) = statusOf e"
| "statusOf (RenderedConfigValidationError e) = statusOf e"
| "statusOf (JoinedErr a b) = (case statusOf a of Some c \<Rightarrow> Some c | None \<Rightarrow> statusOf b)"
| "statusOf (preservePayloadForRetryError e) = statusOf e"
| "statusOf (retryReasonError e r) = statusOf e"
| "statusOf (OtherWrap m e) = statusOf e"

definition status_Code :: "chain \<Rightarrow> grpc_code" where
  "status_Code err = (case statusOf err of None \<Rightarrow> Unknown | Some c \<Rightarrow> c)"

text \<open>\<^verbatim>\<open>fmt.Errorf\<close> with a final \<^verbatim>\<open>%w\<close>.\<close>

definition errorfW :: "string \<Rightarrow> chain \<Rightarrow> chain" where
  "errorfW intro e = OtherWrap (intro @ errText e) e"

section \<open>Listing the gateways\<close>

abbreviation gatewaySeedPageSize :: nat where "gatewaySeedPageSize \<equiv> 500"

text \<open>\<^verbatim>\<open>ListGateways\<close> by page, page size and cluster: the items and the total; \<^verbatim>\<open>GetGateway\<close> by id.\<close>

record ('x, 's) gatewayClient =
  ListGateways :: "32 word \<Rightarrow> nat \<Rightarrow> string \<Rightarrow> 's \<Rightarrow> (chain + 'x pbGateway list \<times> int) \<times> 's"
  GetGateway :: "string \<Rightarrow> 's \<Rightarrow> (chain + 'x pbGateway) \<times> 's"

definition addItems :: "(string \<rightharpoonup> 'x pbGateway) \<Rightarrow> 'x pbGateway list \<Rightarrow> (string \<rightharpoonup> 'x pbGateway)" where
  "addItems inventory items = fold (\<lambda>gw m. m(gwGetId gw \<mapsto> gw)) items inventory"

definition lastPage :: "'x pbGateway list \<Rightarrow> (string \<rightharpoonup> 'x pbGateway) \<Rightarrow> int \<Rightarrow> bool" where
  "lastPage items inventory rows \<longleftrightarrow>
     length items = 0 \<or> length items < gatewaySeedPageSize \<or>
     (rows > 0 \<and> int (card (dom inventory)) \<ge> rows)"

partial_function (option) listPages ::
  "('x, 's) gatewayClient \<Rightarrow> string \<Rightarrow> 32 word \<Rightarrow> (string \<rightharpoonup> 'x pbGateway) \<Rightarrow> 's \<Rightarrow>
     ((chain + (string \<rightharpoonup> 'x pbGateway)) \<times> 's) option" where
  "listPages client clusterFilter page inventory s =
     (case ListGateways client page gatewaySeedPageSize clusterFilter s of
        (Inl err, s1) \<Rightarrow> Some (Inl (errorfW ''listing gateways to seed reconcile queue: '' err), s1)
      | (Inr (items, rows), s1) \<Rightarrow>
          (if lastPage items (addItems inventory items) rows then Some (Inr (addItems inventory items), s1)
           else listPages client clusterFilter (page + 1) (addItems inventory items) s1))"

definition listGatewaysOnce ::
  "('x, 's) gatewayClient \<Rightarrow> string \<Rightarrow> 's \<Rightarrow> ((chain + (string \<rightharpoonup> 'x pbGateway)) \<times> 's) option" where
  "listGatewaysOnce client clusterID s =
     (case ClusterFilter clusterID of
        Inl err \<Rightarrow> Some (Inl err, s)
      | Inr clusterFilter \<Rightarrow> listPages client clusterFilter 1 Map.empty s)"

definition sameIDSet :: "string set \<Rightarrow> string set \<Rightarrow> bool" where
  "sameIDSet a b \<longleftrightarrow> (if card a \<noteq> card b then False else (\<forall>i\<in>a. i \<in> b))"

abbreviation maxSeedListPasses :: nat where "maxSeedListPasses \<equiv> 5"

definition notStable :: chain where
  "notStable = PlainErr ''gateway inventory did not stabilize after 5 list passes; deferring seed so the watch reconnects and retries''"

text \<open>The loop over the passes, with the number of passes left and the ids of the pass before.\<close>

fun stablePasses ::
  "('x, 's) gatewayClient \<Rightarrow> string \<Rightarrow> nat \<Rightarrow> string set option \<Rightarrow> 's \<Rightarrow>
     ((chain + (string \<rightharpoonup> 'x pbGateway)) \<times> 's) option" where
  "stablePasses client clusterID 0 prevIDs s = Some (Inl notStable, s)"
| "stablePasses client clusterID (Suc n) prevIDs s =
     (case listGatewaysOnce client clusterID s of
        None \<Rightarrow> None
      | Some (Inl err, s1) \<Rightarrow> Some (Inl err, s1)
      | Some (Inr current, s1) \<Rightarrow>
          (case prevIDs of
             Some p \<Rightarrow> if sameIDSet p (dom current) then Some (Inr current, s1)
                       else stablePasses client clusterID n (Some (dom current)) s1
           | None \<Rightarrow> stablePasses client clusterID n (Some (dom current)) s1))"

definition listGatewaysStable ::
  "('x, 's) gatewayClient \<Rightarrow> string \<Rightarrow> 's \<Rightarrow> ((chain + (string \<rightharpoonup> 'x pbGateway)) \<times> 's) option" where
  "listGatewaysStable client clusterID s = stablePasses client clusterID maxSeedListPasses None s"

section \<open>Seeding the queue\<close>

definition forceSeedRecovery :: "'x pbGateway \<Rightarrow> bool" where
  "forceSeedRecovery gw \<longleftrightarrow> gwGetPhase gw = ''Provisioning'' \<or> gwGetPhase gw = ''Degraded''"

record ('x, 's) gatewaySeedSink =
  snkEnqueue :: "'x pbGateway Event \<Rightarrow> 's \<Rightarrow> 's"
  snkEnqueueForced :: "'x pbGateway Event \<Rightarrow> 's \<Rightarrow> 's"
  snkKnownKeys :: "'s \<Rightarrow> (string \<rightharpoonup> 'x pbGateway Event)"
  snkPruneIfNonDelete :: "string \<Rightarrow> 'x pbGateway Event \<Rightarrow> 's \<Rightarrow> bool \<times> 's"

definition seedEventOf :: "'x pbGateway \<Rightarrow> 'x pbGateway Event" where
  "seedEventOf gw = \<lparr>evType = EventUpdated, evResourceID = gwGetId gw, evResource = Some gw, evPhaseBeforeRetry = []\<rparr>"

definition enqueueSeed :: "('x, 's) gatewaySeedSink \<Rightarrow> 'x pbGateway \<Rightarrow> 's \<Rightarrow> bool \<times> 's" where
  "enqueueSeed sink gw s =
     (if forceSeedRecovery gw then (True, snkEnqueueForced sink (seedEventOf gw) s)
      else (False, snkEnqueue sink (seedEventOf gw) s))"

text \<open>One tracked key the inventory may omit.\<close>

definition confirmAbsent ::
  "('x, 's) gatewayClient \<Rightarrow> ('x, 's) gatewaySeedSink \<Rightarrow> (string \<rightharpoonup> 'x pbGateway) \<Rightarrow> string \<times> 'x pbGateway Event \<Rightarrow> 's \<Rightarrow> 's" where
  "confirmAbsent client sink inventory x s =
     (case x of (i, ev) \<Rightarrow>
        if inventory i \<noteq> None \<or> evType ev = EventDeleted then s
        else (case GetGateway client i s of
                (Inl err, s1) \<Rightarrow>
                  if status_Code err \<noteq> NotFound then s1 else snd (snkPruneIfNonDelete sink i ev s1)
              | (Inr current, s1) \<Rightarrow> snd (enqueueSeed sink current s1)))"

definition seedGateways ::
  "(string set \<Rightarrow> string list) \<Rightarrow> ('x, 's) gatewayClient \<Rightarrow> ('x, 's) gatewaySeedSink \<Rightarrow> string \<Rightarrow> 's \<Rightarrow>
     (chain option \<times> 's) option" where
  "seedGateways rng client sink clusterID s =
     (case listGatewaysStable client clusterID s of
        None \<Rightarrow> None
      | Some (Inl err, s1) \<Rightarrow> Some (Some err, s1)
      | Some (Inr inventory, s1) \<Rightarrow>
          (let s2 = fold (\<lambda>i s. snd (enqueueSeed sink (the (inventory i)) s)) (rng (dom inventory)) s1;
               known = snkKnownKeys sink s2
           in Some (None, fold (confirmAbsent client sink inventory)
                            (map (\<lambda>i. (i, the (known i))) (rng (dom known))) s2)))"

section \<open>Role bindings and agent runtimes\<close>

text \<open>
  The two seeds that list once and prune nothing. A message is any type with its id; an item of
  the response may be nil and is then skipped.
\<close>

definition updatedEvent :: "('b \<Rightarrow> string) \<Rightarrow> 'b \<Rightarrow> 'b Event" where
  "updatedEvent getId b = \<lparr>evType = EventUpdated, evResourceID = getId b, evResource = Some b, evPhaseBeforeRetry = []\<rparr>"

definition seedRoleBindings ::
  "(string \<Rightarrow> 's \<Rightarrow> (chain + 'b option list) \<times> 's) \<Rightarrow> ('b \<Rightarrow> string) \<Rightarrow> ('b Event \<Rightarrow> 's \<Rightarrow> 's) \<Rightarrow> string \<Rightarrow> 's \<Rightarrow>
     chain option \<times> 's" where
  "seedRoleBindings ListRoleBindings getId enq clusterID s =
     (case ClusterFilter clusterID of
        Inl err \<Rightarrow> (Some err, s)
      | Inr clusterFilter \<Rightarrow>
          (case ListRoleBindings clusterFilter s of
             (Inl err, s1) \<Rightarrow> (Some (errorfW ''listing role bindings to seed reconcile queue: '' err), s1)
           | (Inr items, s1) \<Rightarrow>
               (None, fold (\<lambda>item s. case item of None \<Rightarrow> s | Some rb \<Rightarrow> enq (updatedEvent getId rb) s) items s1)))"

definition seedAgentRuntimes ::
  "(string \<Rightarrow> 's \<Rightarrow> (chain + 'b option list) \<times> 's) \<Rightarrow> ('b \<Rightarrow> string) \<Rightarrow> ('b Event \<Rightarrow> 's \<Rightarrow> 's) \<Rightarrow> string \<Rightarrow> 's \<Rightarrow>
     chain option \<times> 's" where
  "seedAgentRuntimes ListAgentRuntimes getId enq clusterID s =
     (case ClusterFilter clusterID of
        Inl err \<Rightarrow> (Some err, s)
      | Inr clusterFilter \<Rightarrow>
          (case ListAgentRuntimes clusterFilter s of
             (Inl err, s1) \<Rightarrow> (Some (errorfW ''listing agent runtimes to seed reconcile queue: '' err), s1)
           | (Inr items, s1) \<Rightarrow>
               (None, fold (\<lambda>item s. case item of None \<Rightarrow> s | Some ar \<Rightarrow> enq (updatedEvent getId ar) s) items s1)))"

fun isMissingKeycloakClient :: "chain \<Rightarrow> bool" where
  "isMissingKeycloakClient (ClientNotFoundError i) = True"
| "isMissingKeycloakClient (preservePayloadForRetryError e) = isMissingKeycloakClient e"
| "isMissingKeycloakClient (gatewayKeycloakClientIdentityError e) = isMissingKeycloakClient e"
| "isMissingKeycloakClient (RenderedConfigValidationError e) = isMissingKeycloakClient e"
| "isMissingKeycloakClient (JoinedErr a b) = (isMissingKeycloakClient a \<or> isMissingKeycloakClient b)"
| "isMissingKeycloakClient (retryReasonError e r) = isMissingKeycloakClient e"
| "isMissingKeycloakClient (OtherWrap m e) = isMissingKeycloakClient e"
| "isMissingKeycloakClient _ = False"

fun isMissingKeycloakUser :: "chain \<Rightarrow> bool" where
  "isMissingKeycloakUser (UserNotFoundError u) = True"
| "isMissingKeycloakUser (preservePayloadForRetryError e) = isMissingKeycloakUser e"
| "isMissingKeycloakUser (gatewayKeycloakClientIdentityError e) = isMissingKeycloakUser e"
| "isMissingKeycloakUser (RenderedConfigValidationError e) = isMissingKeycloakUser e"
| "isMissingKeycloakUser (JoinedErr a b) = (isMissingKeycloakUser a \<or> isMissingKeycloakUser b)"
| "isMissingKeycloakUser (retryReasonError e r) = isMissingKeycloakUser e"
| "isMissingKeycloakUser (OtherWrap m e) = isMissingKeycloakUser e"
| "isMissingKeycloakUser _ = False"

text \<open>\<^verbatim>\<open>errors.Unwrap\<close>.\<close>

fun errors_Unwrap :: "chain \<Rightarrow> chain option" where
  "errors_Unwrap (preservePayloadForRetryError e) = Some e"
| "errors_Unwrap (retryReasonError e r) = Some e"
| "errors_Unwrap (gatewayKeycloakClientIdentityError e) = Some e"
| "errors_Unwrap (RenderedConfigValidationError e) = Some e"
| "errors_Unwrap (OtherWrap m e) = Some e"
| "errors_Unwrap _ = None"

function isMissingGateway :: "chain \<Rightarrow> bool" where
  "isMissingGateway err =
     (if statusOf err = Some NotFound then True
      else (case errors_Unwrap err of None \<Rightarrow> False | Some e \<Rightarrow> isMissingGateway e))"
  by pat_completeness auto
termination
proof (relation "measure size")
  fix err e assume "errors_Unwrap err = Some e"
  then show "(e, err) \<in> measure size" by (cases err) auto
qed simp

definition isUnresolvedRoleBindingIdentity :: "chain \<Rightarrow> bool" where
  "isUnresolvedRoleBindingIdentity err \<longleftrightarrow>
     strings_Contains (errText err) ''username not yet resolved'' \<or>
     strings_Contains (errText err) ''role name not yet resolved''"

definition isKeycloakHTTPNotFound :: "chain \<Rightarrow> bool" where
  "isKeycloakHTTPNotFound err \<longleftrightarrow> strings_Contains (errText err) ''returned 404''"

definition isRoleBindingRetryable :: "chain option \<Rightarrow> bool" where
  "isRoleBindingRetryable err =
     (case err of
        None \<Rightarrow> False
      | Some e \<Rightarrow>
          if isMissingGateway e then False
          else isMissingKeycloakClient e \<or> isMissingKeycloakUser e \<or>
               isUnresolvedRoleBindingIdentity e \<or> isKeycloakHTTPNotFound e)"

section \<open>Receiver and seed of one connection\<close>

text \<open>
  One attempt of \<^verbatim>\<open>WatchGateways\<close> (and of its two siblings) after the subscription header: the
  receiver cancels the shared context and then publishes how the stream ended; the seed returns,
  looks at the context, and if it saw it live cancels it in a step of its own, then waits for the
  receiver. The context may also be cancelled from outside at any moment. Two fields are history:
  \<open>csCause\<close>, what cancelled the context first, and \<open>csSeedErr\<close>, the error the seed returned with
  whether the context was cancelled by then.
\<close>

datatype recvPhase = Receiving | RecvEnding "chain option" | Published "chain option"

datatype seedPhase =
    Seeding
  | SeedReturned "chain option"
  | SeenLive chain
  | JoinCancelled chain
  | JoinLive chain
  | Waiting
  | Finished "chain option"

datatype cancelCause = ByReceiver "chain option" | BySeed chain | ByParent

record 'r connection =
  csRecv :: recvPhase
  csSeed :: seedPhase
  csCancelled :: bool
  csEnqueued :: "'r Event list"
  csCause :: "cancelCause option"
  csSeedErr :: "(chain \<times> bool) option"

definition runCancel :: "cancelCause \<Rightarrow> 'r connection \<Rightarrow> 'r connection" where
  "runCancel c s = (if csCancelled s then s else s\<lparr>csCancelled := True, csCause := Some c\<rparr>)"

definition newConnection :: "'r connection" where
  "newConnection = \<lparr>csRecv = Receiving, csSeed = Seeding, csCancelled = False, csEnqueued = [], csCause = None,
     csSeedErr = None\<rparr>"

definition streamEvent :: "pbEventType \<Rightarrow> string \<Rightarrow> 'r option \<Rightarrow> 'r Event" where
  "streamEvent t i r = \<lparr>evType = toEventType t, evResourceID = i, evResource = r, evPhaseBeforeRetry = []\<rparr>"

inductive conn_step :: "'r connection \<Rightarrow> 'r connection \<Rightarrow> bool" where
  recv: "csRecv s = Receiving \<Longrightarrow>
    conn_step s (s\<lparr>csEnqueued := csEnqueued s @ [streamEvent t i r]\<rparr>)"
| recvEnd: "csRecv s = Receiving \<Longrightarrow>
    conn_step s (runCancel (ByReceiver (map_option (errorfW ''receiving gateway event: '') e)) s
      \<lparr>csRecv := RecvEnding (map_option (errorfW ''receiving gateway event: '') e)\<rparr>)"
| publish: "csRecv s = RecvEnding e \<Longrightarrow> conn_step s (s\<lparr>csRecv := Published e\<rparr>)"
| parent: "conn_step s (runCancel ByParent s)"
| seeded: "csSeed s = Seeding \<Longrightarrow>
    conn_step s (s\<lparr>csSeed := SeedReturned e, csSeedErr := map_option (\<lambda>x. (x, csCancelled s)) e\<rparr>)"
| seedOK: "csSeed s = SeedReturned None \<Longrightarrow> conn_step s (s\<lparr>csSeed := Waiting\<rparr>)"
| seedAborted: "csSeed s = SeedReturned (Some e) \<Longrightarrow> csCancelled s \<Longrightarrow>
    conn_step s (s\<lparr>csSeed := JoinCancelled e\<rparr>)"
| seedFailed: "csSeed s = SeedReturned (Some e) \<Longrightarrow> \<not> csCancelled s \<Longrightarrow>
    conn_step s (s\<lparr>csSeed := SeenLive e\<rparr>)"
| seedCancels: "csSeed s = SeenLive e \<Longrightarrow>
    conn_step s (runCancel (BySeed e) s\<lparr>csSeed := JoinLive e\<rparr>)"
| joinCancelled: "csSeed s = JoinCancelled e \<Longrightarrow> csRecv s = Published r \<Longrightarrow>
    conn_step s (s\<lparr>csSeed := Finished (case r of Some recvErr \<Rightarrow> Some recvErr | None \<Rightarrow> Some e)\<rparr>)"
| joinLive: "csSeed s = JoinLive e \<Longrightarrow> csRecv s = Published r \<Longrightarrow>
    conn_step s (s\<lparr>csSeed := Finished (Some e)\<rparr>)"
| join: "csSeed s = Waiting \<Longrightarrow> csRecv s = Published r \<Longrightarrow>
    conn_step s (s\<lparr>csSeed := Finished r\<rparr>)"

section \<open>Streams handled inline\<close>

text \<open>
  The platform-level streams hand every event to the handler as it arrives. What \<^verbatim>\<open>Recv\<close> gives is a
  script; the result is the error the connection returns, nothing while \<^verbatim>\<open>Recv\<close> blocks. A failure of
  the handler is logged and the stream goes on.
\<close>

datatype 'r received = Received pbEventType string "'r option" | RecvEOF | RecvFailed chain

fun drainStream ::
  "string \<Rightarrow> ('r Event \<Rightarrow> 's \<Rightarrow> chain option \<times> 's) \<Rightarrow> 'r received list \<Rightarrow> 's \<Rightarrow> chain option option \<times> 's" where
  "drainStream intro handle [] s = (None, s)"
| "drainStream intro handle (RecvEOF # rs) s = (Some None, s)"
| "drainStream intro handle (RecvFailed err # rs) s = (Some (Some (errorfW intro err)), s)"
| "drainStream intro handle (Received t i r # rs) s =
     drainStream intro handle rs
       (snd (handle \<lparr>evType = toEventType t, evResourceID = i, evResource = r, evPhaseBeforeRetry = []\<rparr> s))"

definition inlineStream ::
  "string \<Rightarrow> string \<Rightarrow> chain option \<Rightarrow> ('r Event \<Rightarrow> 's \<Rightarrow> chain option \<times> 's) \<Rightarrow> 'r received list \<Rightarrow> 's \<Rightarrow>
     chain option option \<times> 's" where
  "inlineStream starting receiving openErr handle rs s =
     (case openErr of
        Some err \<Rightarrow> (Some (Some (errorfW starting err)), s)
      | None \<Rightarrow> drainStream receiving handle rs s)"

definition WatchManagedClusters ::
  "chain option \<Rightarrow> ('r Event \<Rightarrow> 's \<Rightarrow> chain option \<times> 's) \<Rightarrow> 'r received list \<Rightarrow> 's \<Rightarrow> chain option option \<times> 's" where
  "WatchManagedClusters = inlineStream ''starting managed cluster watch: '' ''receiving managed cluster event: ''"

definition WatchRepositories ::
  "chain option \<Rightarrow> ('r Event \<Rightarrow> 's \<Rightarrow> chain option \<times> 's) \<Rightarrow> 'r received list \<Rightarrow> 's \<Rightarrow> chain option option \<times> 's" where
  "WatchRepositories = inlineStream ''starting repository watch: '' ''receiving repository event: ''"

definition WatchCIProviders ::
  "chain option \<Rightarrow> ('r Event \<Rightarrow> 's \<Rightarrow> chain option \<times> 's) \<Rightarrow> 'r received list \<Rightarrow> 's \<Rightarrow> chain option option \<times> 's" where
  "WatchCIProviders = inlineStream ''starting CI provider watch: '' ''receiving CI provider event: ''"

definition WatchCITrusts ::
  "chain option \<Rightarrow> ('r Event \<Rightarrow> 's \<Rightarrow> chain option \<times> 's) \<Rightarrow> 'r received list \<Rightarrow> 's \<Rightarrow> chain option option \<times> 's" where
  "WatchCITrusts = inlineStream ''starting CI trust watch: '' ''receiving CI trust event: ''"

text \<open>Every event before the end of the stream is handled, in order, and no failure of the handler ends it.\<close>

lemma drainStream_handles:
  "drainStream intro handle (map (\<lambda>(t, i, r). Received t i r) evs @ rs) s =
   drainStream intro handle rs
     (fold (\<lambda>(t, i, r) s. snd (handle \<lparr>evType = toEventType t, evResourceID = i, evResource = r, evPhaseBeforeRetry = []\<rparr> s)) evs s)"
  by (induction evs arbitrary: s) auto

section \<open>Reconnecting\<close>

text \<open>
  What the loop meets in one round: whether the context is done before the connect, how the attempt
  ended, and whether the context is done after it and during the wait. The loop gives the waits it
  made, in nanoseconds, and whether it has returned the context's error.
\<close>

record watchRound =
  doneBefore :: bool
  attemptErr :: "chain option"
  doneAfter :: bool
  doneWaiting :: bool

abbreviation maxBackoff :: int where "maxBackoff \<equiv> 30000000000"

fun watchRounds :: "int \<Rightarrow> watchRound list \<Rightarrow> int list \<times> bool" where
  "watchRounds backoff [] = ([], False)"
| "watchRounds backoff (r # rs) =
     (if doneBefore r then ([], True)
      else if doneAfter r then ([], True)
      else if doneWaiting r then ([backoff], True)
      else (case watchRounds (let b = backoff * 2 in if b > maxBackoff then maxBackoff else b) rs of
              (waits, ret) \<Rightarrow> (backoff # waits, ret)))"

definition watchLoop :: "watchRound list \<Rightarrow> int list \<times> bool" where
  "watchLoop rs = watchRounds 1000000000 rs"

declare isMissingGateway.simps [simp del]

section \<open>What a seed keeps\<close>

text \<open>
  What the seed relies on of the server and of the queue, for a relation \<open>R\<close> between the states
  before and after. Every call leads to a related state, whatever others do meanwhile; a point read
  answers \<^verbatim>\<open>NotFound\<close> only for a gateway that is gone; a prune is safe once the gateway is gone. Then
  the whole seed leads to a related state.
\<close>

locale seed_world =
  fixes client :: "('x, 's) gatewayClient" and sink :: "('x, 's) gatewaySeedSink"
    and R :: "'s \<Rightarrow> 's \<Rightarrow> bool" and gone :: "'s \<Rightarrow> string \<Rightarrow> bool"
  assumes R_refl [simp]: "R s s"
    and R_trans: "R s t \<Longrightarrow> R t u \<Longrightarrow> R s u"
    and list_call: "R s (snd (ListGateways client p n f s))"
    and get_call: "R s (snd (GetGateway client i s))"
    and get_absent: "GetGateway client i s = (Inl err, s1) \<Longrightarrow> status_Code err = NotFound \<Longrightarrow> gone s1 i"
    and enqueue_call: "R s (snkEnqueue sink ev s)"
    and force_call: "R s (snkEnqueueForced sink ev s)"
    and prune_call: "gone s i \<Longrightarrow> R s (snd (snkPruneIfNonDelete sink i ev s))"
begin

lemma fold_keeps:
  "(\<And>x s. x \<in> set xs \<Longrightarrow> R s (f x s)) \<Longrightarrow> R s (fold f xs s)"
proof (induction xs arbitrary: s)
  case Nil
  show ?case by simp
next
  case (Cons x xs)
  then have "R s (f x s)" "R (f x s) (fold f xs (f x s))" by auto
  then show ?case by (auto intro: R_trans)
qed

lemma listPages_keeps:
  assumes "listPages client f p known s = Some (r, t)"
  shows "R s t"
proof -
  let ?P = "\<lambda>cl f p known s y. cl = client \<longrightarrow> R s (snd y)"
  have "?P client f p known s (r, t)"
  proof (rule listPages.raw_induct [of ?P, OF _ assms])
    fix rec and cl :: "('x, 's) gatewayClient" and f p known s y
    assume ih: "\<And>cl f p known s y. rec cl f p known s = Some y \<Longrightarrow> ?P cl f p known s y"
      and body: "(case ListGateways cl p gatewaySeedPageSize f s of
        (Inl err, s1) \<Rightarrow> Some (Inl (errorfW ''listing gateways to seed reconcile queue: '' err), s1)
      | (Inr (items, rows), s1) \<Rightarrow>
          (if lastPage items (addItems known items) rows then Some (Inr (addItems known items), s1)
           else rec cl f (p + 1) (addItems known items) s1)) = Some y"
    show "?P cl f p known s y"
      using body list_call [of s p 500 f]
      by (auto split: prod.splits sum.splits if_splits dest!: ih intro: R_trans)
  qed
  then show ?thesis by simp
qed

lemma listGatewaysOnce_keeps:
  "listGatewaysOnce client clusterID s = Some (r, t) \<Longrightarrow> R s t"
  by (auto simp: listGatewaysOnce_def dest: listPages_keeps split: sum.splits)

lemma stablePasses_keeps:
  "stablePasses client clusterID n prevIDs s = Some (r, t) \<Longrightarrow> R s t"
proof (induction n arbitrary: prevIDs s)
  case (Suc n)
  from Suc.prems show ?case
    by (auto split: option.splits sum.splits prod.splits if_splits
        dest!: listGatewaysOnce_keeps Suc.IH intro: R_trans)
qed simp

lemma enqueueSeed_keeps: "R s (snd (enqueueSeed sink gw s))"
  by (simp add: enqueueSeed_def enqueue_call force_call)

lemma confirmAbsent_keeps: "R s (confirmAbsent client sink inventory x s)"
proof -
  obtain i ev where x: "x = (i, ev)" by (cases x)
  obtain r s1 where get: "GetGateway client i s = (r, s1)" by force
  have s1: "R s s1" using get_call [of s i] get by simp
  show ?thesis
  proof (cases r)
    case (Inl err)
    with get have "status_Code err = NotFound \<Longrightarrow> R s1 (snd (snkPruneIfNonDelete sink i ev s1))"
      by (simp add: get_absent prune_call)
    with s1 show ?thesis by (auto simp: confirmAbsent_def x get Inl intro: R_trans)
  next
    case (Inr current)
    with s1 enqueueSeed_keeps [of s1 current] show ?thesis
      by (auto simp: confirmAbsent_def x get intro: R_trans)
  qed
qed

theorem seed_keeps:
  "seedGateways rng client sink clusterID s = Some (r, t) \<Longrightarrow> R s t"
proof -
  assume run: "seedGateways rng client sink clusterID s = Some (r, t)"
  then obtain res s1 where list: "listGatewaysStable client clusterID s = Some (res, s1)"
    by (auto simp: seedGateways_def split: option.splits)
  then have s1: "R s s1"
    by (auto simp: listGatewaysStable_def dest: stablePasses_keeps)
  show ?thesis
  proof (cases res)
    case (Inl err)
    with run list s1 show ?thesis by (simp add: seedGateways_def)
  next
    case (Inr inventory)
    let ?s2 = "fold (\<lambda>i s. snd (enqueueSeed sink (the (inventory i)) s)) (rng (dom inventory)) s1"
    have "R s1 ?s2" by (rule fold_keeps) (rule enqueueSeed_keeps)
    moreover have "R ?s2 t"
      using run list Inr by (auto simp: seedGateways_def Let_def intro!: fold_keeps confirmAbsent_keeps)
    ultimately show ?thesis using s1 by (blast intro: R_trans)
  qed
qed

end

section \<open>The queue as a sink\<close>

text \<open>
  The production sink: the reconcile queue at work, beside the state of the server. An enqueue is
  the section under the lock and the addition to the work queue.
\<close>

definition qEnqueue ::
  "'r queueConfig \<Rightarrow> 'w workqueue_ops \<Rightarrow> bool \<Rightarrow> 'r Event \<Rightarrow> ('r, 'w) qsys \<Rightarrow> ('r, 'w) qsys" where
  "qEnqueue cfg W force ev s =
     (case enqueueLocked cfg (sNow s) ev force (sQ s) of
        (q1, add) \<Rightarrow> s\<lparr>sQ := q1, sW := (if add then wqAdd W (evResourceID ev) (sW s) else sW s),
          sTodo := (if gen q1 (evResourceID ev) \<noteq> gen (sQ s) (evResourceID ev)
                    then insert (evResourceID ev) (sTodo s) else sTodo s)\<rparr>)"

definition qPrune ::
  "'r queueConfig \<Rightarrow> string \<Rightarrow> 'r Event \<Rightarrow> ('r, 'w) qsys \<Rightarrow> bool \<times> ('r, 'w) qsys" where
  "qPrune cfg i ev s =
     (case pruneIfNonDelete cfg i ev (sQ s) of
        (ok, q1) \<Rightarrow> (ok, if ok then s\<lparr>sQ := q1, sTodo := sTodo s - {i}\<rparr> else s\<lparr>sQ := q1\<rparr>))"

definition queueSink ::
  "'x pbGateway queueConfig \<Rightarrow> 'w workqueue_ops \<Rightarrow> ('x, ('x pbGateway, 'w) qsys \<times> 'v) gatewaySeedSink" where
  "queueSink cfg W = \<lparr>snkEnqueue = (\<lambda>ev. apfst (qEnqueue cfg W False ev)),
     snkEnqueueForced = (\<lambda>ev. apfst (qEnqueue cfg W True ev)),
     snkKnownKeys = (\<lambda>x. knownKeys (sQ (fst x))),
     snkPruneIfNonDelete = (\<lambda>i ev x. case qPrune cfg i ev (fst x) of (ok, s) \<Rightarrow> (ok, s, snd x))\<rparr>"

lemma qEnqueue_steps: "(q_step cfg W waiting prunes)\<^sup>*\<^sup>* s (qEnqueue cfg W force ev s)"
proof -
  obtain q1 add where e: "enqueueLocked cfg (sNow s) ev force (sQ s) = (q1, add)" by force
  let ?i = "evResourceID ev"
  let ?s1 = "s\<lparr>sQ := q1, sAdds := (if add then add_mset ?i (sAdds s) else sAdds s),
      sTodo := (if gen q1 ?i \<noteq> gen (sQ s) ?i then insert ?i (sTodo s) else sTodo s)\<rparr>"
  have s1: "q_step cfg W waiting prunes s ?s1" by (rule q_step.enqueue [OF e])
  show ?thesis
  proof (cases add)
    case True
    have "q_step cfg W waiting prunes ?s1 (?s1\<lparr>sAdds := sAdds ?s1 - {#?i#}, sW := wqAdd W ?i (sW ?s1)\<rparr>)"
      by (rule q_step.add) (simp add: True)
    moreover have "?s1\<lparr>sAdds := sAdds ?s1 - {#?i#}, sW := wqAdd W ?i (sW ?s1)\<rparr> = qEnqueue cfg W force ev s"
      by (simp add: qEnqueue_def e True)
    ultimately show ?thesis using s1 by (metis converse_rtranclp_into_rtranclp r_into_rtranclp)
  next
    case False
    then have "?s1 = qEnqueue cfg W force ev s" by (simp add: qEnqueue_def e)
    with s1 show ?thesis by (metis r_into_rtranclp)
  qed
qed

lemma qPrune_steps: "(q_step cfg W waiting True)\<^sup>*\<^sup>* s (snd (qPrune cfg i ev s))"
proof -
  obtain ok q1 where p: "pruneIfNonDelete cfg i ev (sQ s) = (ok, q1)" by force
  show ?thesis
  proof (cases ok)
    case True
    with p have "pruneIfNonDelete cfg i ev (sQ s) = (True, q1)" by simp
    from q_step.prune [OF TrueI this, of W waiting] show ?thesis
      by (simp add: qPrune_def p True)
  next
    case False
    with p have "q1 = sQ s" by (auto simp: pruneIfNonDelete_def split: option.splits if_splits)
    then show ?thesis by (simp add: qPrune_def p False)
  qed
qed

lemma step_prunes: "q_step cfg W waiting False s t \<Longrightarrow> q_step cfg W waiting True s t"
  by (induction rule: q_step.induct) (blast intro: q_step.intros)+

lemma steps_prunes: "(q_step cfg W waiting False)\<^sup>*\<^sup>* s t \<Longrightarrow> (q_step cfg W waiting True)\<^sup>*\<^sup>* s t"
proof (induction rule: rtranclp_induct)
  case (step t u)
  from step.IH step_prunes [OF step.hyps(2)] show ?case by (rule rtranclp.rtrancl_into_rtrancl)
qed simp

lemma step_tracked: "q_step cfg W waiting False s t \<Longrightarrow> latest (sQ s) i \<noteq> None \<Longrightarrow> latest (sQ t) i \<noteq> None"
proof (induction rule: q_step.induct)
  case (enqueue s ev force q1 add)
  from enqueue.hyps show ?case by (cases rule: enqueueLocked_cases) (use enqueue.prems in auto)
next
  case (compact s k i' ev sn)
  then show ?case by (simp add: compactLocked_latest)
qed (auto simp: snapshotLocked_eq dest!: section_facts)

lemma steps_tracked: "(q_step cfg W waiting False)\<^sup>*\<^sup>* s t \<Longrightarrow> latest (sQ s) i \<noteq> None \<Longrightarrow> latest (sQ t) i \<noteq> None"
proof (induction rule: rtranclp_induct)
  case (step t u)
  then show ?case using step_tracked by blast
qed

text \<open>
  The calls of the seed beside the queue at work: what other threads do during a call is any
  sequence of steps of the queue without a prune, and what is gone stays gone.
\<close>

definition duringCall ::
  "'r queueConfig \<Rightarrow> 'w workqueue_ops \<Rightarrow> ('w \<Rightarrow> string set) \<Rightarrow> ('v \<Rightarrow> string set) \<Rightarrow>
     ('r, 'w) qsys \<times> 'v \<Rightarrow> ('r, 'w) qsys \<times> 'v \<Rightarrow> bool" where
  "duringCall cfg W waiting absent x y \<longleftrightarrow>
     (q_step cfg W waiting False)\<^sup>*\<^sup>* (fst x) (fst y) \<and> absent (snd x) \<subseteq> absent (snd y)"

definition keepsLive ::
  "'r queueConfig \<Rightarrow> 'w workqueue_ops \<Rightarrow> ('w \<Rightarrow> string set) \<Rightarrow> ('v \<Rightarrow> string set) \<Rightarrow>
     ('r, 'w) qsys \<times> 'v \<Rightarrow> ('r, 'w) qsys \<times> 'v \<Rightarrow> bool" where
  "keepsLive cfg W waiting absent x y \<longleftrightarrow>
     (q_step cfg W waiting True)\<^sup>*\<^sup>* (fst x) (fst y) \<and> absent (snd x) \<subseteq> absent (snd y) \<and>
     (\<forall>i. latest (sQ (fst x)) i \<noteq> None \<and> i \<notin> absent (snd y) \<longrightarrow> latest (sQ (fst y)) i \<noteq> None)"

lemma keepsLive_trans:
  assumes "keepsLive cfg W waiting absent x y" "keepsLive cfg W waiting absent y z"
  shows "keepsLive cfg W waiting absent x z"
proof -
  have "latest (sQ (fst z)) i \<noteq> None" if i: "latest (sQ (fst x)) i \<noteq> None" "i \<notin> absent (snd z)" for i
  proof -
    from i(2) assms(2) have "i \<notin> absent (snd y)" unfolding keepsLive_def by blast
    with i(1) assms(1) have "latest (sQ (fst y)) i \<noteq> None" unfolding keepsLive_def by blast
    with i(2) assms(2) show ?thesis unfolding keepsLive_def by blast
  qed
  with assms show ?thesis unfolding keepsLive_def by (meson rtranclp_trans subset_trans)
qed

lemma duringCall_keepsLive: "duringCall cfg W waiting absent x y \<Longrightarrow> keepsLive cfg W waiting absent x y"
  unfolding duringCall_def keepsLive_def using steps_prunes steps_tracked by blast

lemma apfst_keepsLive:
  "(q_step cfg W waiting False)\<^sup>*\<^sup>* (fst x) s \<Longrightarrow> keepsLive cfg W waiting absent x (s, snd x)"
  by (rule duringCall_keepsLive) (simp add: duringCall_def)

lemma prune_keepsLive:
  assumes "i \<in> absent (snd x)"
  shows "keepsLive cfg W waiting absent x (snd (qPrune cfg i ev (fst x)), snd x)"
proof -
  obtain ok q1 where p: "pruneIfNonDelete cfg i ev (sQ (fst x)) = (ok, q1)" by force
  then have "latest q1 j = latest (sQ (fst x)) j" if "j \<noteq> i" for j
    using that by (auto simp: pruneIfNonDelete_def split: option.splits if_splits)
  with assms p have "latest (sQ (snd (qPrune cfg i ev (fst x)))) j \<noteq> None"
    if "latest (sQ (fst x)) j \<noteq> None" "j \<notin> absent (snd x)" for j
    using that by (cases "j = i") (auto simp: qPrune_def)
  then show ?thesis by (simp add: keepsLive_def qPrune_steps)
qed

lemma queue_seed_world:
  assumes "\<And>p n f x. duringCall cfg W waiting absent x (snd (ListGateways client p n f x))"
    and "\<And>i x. duringCall cfg W waiting absent x (snd (GetGateway client i x))"
    and "\<And>i x err y. GetGateway client i x = (Inl err, y) \<Longrightarrow> status_Code err = NotFound \<Longrightarrow> i \<in> absent (snd y)"
  shows "seed_world client (queueSink cfg W) (keepsLive cfg W waiting absent) (\<lambda>x i. i \<in> absent (snd x))"
proof (unfold_locales, goal_cases)
  case (2 s t u)
  then show ?case by (rule keepsLive_trans)
next
  case (6 s ev)
  then show ?case using apfst_keepsLive [OF qEnqueue_steps] by (simp add: queueSink_def apfst_def map_prod_def split_beta)
next
  case (7 s ev)
  then show ?case using apfst_keepsLive [OF qEnqueue_steps] by (simp add: queueSink_def apfst_def map_prod_def split_beta)
next
  case (8 s i ev)
  then show ?case using prune_keepsLive by (simp add: queueSink_def split_beta)
qed (auto intro: duringCall_keepsLive assms simp: keepsLive_def [of _ _ _ _ x x for x])

text \<open>
  C15: a seed never drops a gateway that still exists. Whatever the server answers, whatever fails,
  and whatever the receiver and the workers do to the queue while the calls are under way, a
  gateway the queue tracks and that has not been deleted is still tracked when the seed returns;
  and the seed together with them is a run of the queue, so what holds of every run holds of it.
\<close>

theorem seed_keeps_live:
  assumes "\<And>p n f x. duringCall cfg W waiting absent x (snd (ListGateways client p n f x))"
    and "\<And>i x. duringCall cfg W waiting absent x (snd (GetGateway client i x))"
    and "\<And>i x err y. GetGateway client i x = (Inl err, y) \<Longrightarrow> status_Code err = NotFound \<Longrightarrow> i \<in> absent (snd y)"
    and "seedGateways rng client (queueSink cfg W) clusterID (s, v) = Some (r, (t, u))"
  shows "(latest (sQ s) i \<noteq> None \<and> i \<notin> absent u \<longrightarrow> latest (sQ t) i \<noteq> None) \<and>
    (q_step cfg W waiting True)\<^sup>*\<^sup>* s t"
proof -
  from seed_world.seed_keeps [OF queue_seed_world [OF assms(1-3)] assms(4)]
  have "keepsLive cfg W waiting absent (s, v) (t, u)" by simp
  then show ?thesis by (simp add: keepsLive_def)
qed

section \<open>The list passes end\<close>

lemma dom_addItems: "dom (addItems m items) = dom m \<union> gwGetId ` set items"
proof (induction items arbitrary: m)
  case (Cons g gs)
  have "addItems m (g # gs) = addItems (m(gwGetId g \<mapsto> g)) gs" by (simp add: addItems_def)
  with Cons.IH show ?case by auto
qed (simp add: addItems_def)

lemma listPages_finite:
  fixes client :: "('x, 's) gatewayClient"
  assumes "listPages client f p known s = Some (Inr inventory, t)" "finite (dom known)"
  shows "finite (dom inventory)"
proof -
  let ?P = "\<lambda>(cl :: ('x, 's) gatewayClient) (f :: string) (p :: 32 word) known (s :: 's) (y :: (chain + (string \<rightharpoonup> 'x pbGateway)) \<times> 's).
    finite (dom (known :: string \<rightharpoonup> 'x pbGateway)) \<longrightarrow> (\<forall>inventory. fst y = Inr inventory \<longrightarrow> finite (dom inventory))"
  have "?P client f p known s (Inr inventory, t)"
  proof (rule listPages.raw_induct [of ?P, OF _ assms(1)])
    fix rec and cl :: "('x, 's) gatewayClient" and f p known s y
    assume ih: "\<And>cl f p known s y. rec cl f p known s = Some y \<Longrightarrow> ?P cl f p known s y"
      and body: "(case ListGateways cl p gatewaySeedPageSize f s of
        (Inl err, s1) \<Rightarrow> Some (Inl (errorfW ''listing gateways to seed reconcile queue: '' err), s1)
      | (Inr (items, rows), s1) \<Rightarrow>
          (if lastPage items (addItems known items) rows then Some (Inr (addItems known items), s1)
           else rec cl f (p + 1) (addItems known items) s1)) = Some y"
    show "?P cl f p known s y"
      using body by (auto simp: dom_addItems split: prod.splits sum.splits if_splits dest!: ih)
  qed
  with assms(2) show ?thesis by simp
qed

lemma listGatewaysOnce_finite:
  "listGatewaysOnce client clusterID s = Some (Inr inventory, t) \<Longrightarrow> finite (dom inventory)"
  by (auto simp: listGatewaysOnce_def dest: listPages_finite split: sum.splits)

lemma sameIDSet_eq: "finite b \<Longrightarrow> sameIDSet a b \<Longrightarrow> a = b"
  by (auto simp: sameIDSet_def card_subset_eq subset_iff split: if_splits)

text \<open>A server on which page \<open>N\<close> is never full: the listing has at most \<open>N\<close> pages.\<close>

definition shortPage :: "('x, 's) gatewayClient \<Rightarrow> string \<Rightarrow> nat \<Rightarrow> bool" where
  "shortPage client f N \<longleftrightarrow> (\<forall>s. case fst (ListGateways client (word_of_nat N) gatewaySeedPageSize f s) of
     Inl err \<Rightarrow> True | Inr (items, rows) \<Rightarrow> length items < gatewaySeedPageSize)"

lemma listPages_ends:
  assumes "shortPage client f N" "N < 2 ^ 31" "p \<le> N"
  shows "\<exists>y. listPages client f (word_of_nat p) known s = Some y"
  using assms(3)
proof (induction "N - p" arbitrary: p known s)
  case 0
  then have p: "p = N" by simp
  show ?case
    using assms(1)[unfolded shortPage_def, rule_format, of s] unfolding p
    by (subst listPages.simps) (auto simp: lastPage_def split: prod.splits sum.splits)
next
  case (Suc d)
  then have "d = N - Suc p" "Suc p \<le> N" by auto
  from Suc.hyps(1)[OF this] have "\<exists>y. listPages client f (word_of_nat p + 1) known' s' = Some y" for known' s'
    by (simp add: add.commute)
  then show ?case
    by (subst listPages.simps) (auto split: prod.splits sum.splits)
qed

lemma listGatewaysOnce_ends:
  assumes "shortPage client clusterID N" "0 < N" "N < 2 ^ 31"
  shows "\<exists>r t. listGatewaysOnce client clusterID s = Some (r, t)"
proof -
  have "\<exists>y. listPages client clusterID (word_of_nat 1) Map.empty s = Some y"
    using assms by (intro listPages_ends) auto
  then show ?thesis by (auto simp: listGatewaysOnce_def ClusterFilter_def)
qed

primrec afterPasses :: "('x, 's) gatewayClient \<Rightarrow> string \<Rightarrow> nat \<Rightarrow> 's \<Rightarrow> 's option" where
  "afterPasses client clusterID 0 s = Some s"
| "afterPasses client clusterID (Suc n) s =
     (case listGatewaysOnce client clusterID s of Some (Inr inventory, s1) \<Rightarrow> afterPasses client clusterID n s1 | _ \<Rightarrow> None)"

text \<open>An inventory two consecutive passes from \<open>s\<close> agree on, after at most \<open>k\<close> passes before them.\<close>

definition confirmed ::
  "('x, 's) gatewayClient \<Rightarrow> string \<Rightarrow> nat \<Rightarrow> 's \<Rightarrow> (string \<rightharpoonup> 'x pbGateway) \<Rightarrow> 's \<Rightarrow> bool" where
  "confirmed client clusterID k s inventory t \<longleftrightarrow> (\<exists>n\<le>k. \<exists>s1 prev s2. afterPasses client clusterID n s = Some s1 \<and>
     listGatewaysOnce client clusterID s1 = Some (Inr prev, s2) \<and>
     listGatewaysOnce client clusterID s2 = Some (Inr inventory, t) \<and> dom prev = dom inventory)"

lemma confirmed_now:
  "listGatewaysOnce client clusterID s0 = Some (Inr prev, s) \<Longrightarrow>
   listGatewaysOnce client clusterID s = Some (Inr inventory, t) \<Longrightarrow> dom prev = dom inventory \<Longrightarrow>
   confirmed client clusterID k s0 inventory t"
  unfolding confirmed_def by (metis afterPasses.simps(1) le0)

lemma confirmed_Suc:
  assumes "listGatewaysOnce client clusterID s = Some (Inr inventory', s1)" "confirmed client clusterID k s1 inventory t"
  shows "confirmed client clusterID (Suc k) s inventory t"
proof -
  from assms(2) obtain n s2 prev s3 where n: "n \<le> k" "afterPasses client clusterID n s1 = Some s2"
    "listGatewaysOnce client clusterID s2 = Some (Inr prev, s3)"
    "listGatewaysOnce client clusterID s3 = Some (Inr inventory, t)" "dom prev = dom inventory"
    by (auto simp: confirmed_def)
  with assms(1) have "afterPasses client clusterID (Suc n) s = Some s2" by simp
  with n show ?thesis unfolding confirmed_def by (meson Suc_le_mono)
qed

lemma stablePasses_result:
  assumes ends: "\<And>s. \<exists>r t. listGatewaysOnce client clusterID s = Some (r, t)"
    and prev: "listGatewaysOnce client clusterID s0 = Some (Inr prev, s)"
  shows "\<exists>r t. stablePasses client clusterID (Suc n) (Some (dom prev)) s = Some (r, t) \<and>
    (\<forall>inventory. r = Inr inventory \<longrightarrow> confirmed client clusterID n s0 inventory t)"
  using prev
proof (induction n arbitrary: prev s0 s)
  case 0
  obtain r t where once: "listGatewaysOnce client clusterID s = Some (r, t)" using ends by blast
  show ?case
  proof (cases r)
    case (Inl err)
    with once show ?thesis by simp
  next
    case (Inr current)
    with once have fin: "finite (dom current)" by (auto dest: listGatewaysOnce_finite)
    with Inr once 0 confirmed_now [of client clusterID s0 prev s current t 0] show ?thesis
      by (auto dest: sameIDSet_eq [OF fin])
  qed
next
  case (Suc n)
  obtain r t where once: "listGatewaysOnce client clusterID s = Some (r, t)" using ends by blast
  show ?case
  proof (cases r)
    case (Inl err)
    with once show ?thesis by simp
  next
    case (Inr current)
    with once have fin: "finite (dom current)" by (auto dest: listGatewaysOnce_finite)
    show ?thesis
    proof (cases "sameIDSet (dom prev) (dom current)")
      case True
      from sameIDSet_eq [OF fin True] Suc.prems once Inr
      have "confirmed client clusterID (Suc n) s0 current t" by (simp add: confirmed_now)
      with True once Inr show ?thesis by simp
    next
      case False
      from Suc.IH [OF once [unfolded Inr]] obtain r' t' where
        rec: "stablePasses client clusterID (Suc n) (Some (dom current)) t = Some (r', t')"
          "\<forall>inventory. r' = Inr inventory \<longrightarrow> confirmed client clusterID n s inventory t'" by blast
      have "stablePasses client clusterID (Suc (Suc n)) (Some (dom prev)) s = Some (r', t')"
        using once Inr False rec(1) by simp
      with rec(2) confirmed_Suc [OF Suc.prems] show ?thesis by blast
    qed
  qed
qed

text \<open>
  C32: gathering the inventory ends. When some page of the listing is never full, whatever the
  server's state, the loop over the pages ends in every pass, the loop over the passes after at most
  five of them, and the inventory that is returned is one whose ids two consecutive passes agreed
  on; sustained change ends in an error and never in an inventory.
\<close>

theorem list_stable_terminates:
  assumes "shortPage client clusterID N" "0 < N" "N < 2 ^ 31"
  shows "\<exists>r t. listGatewaysStable client clusterID s = Some (r, t) \<and>
    (\<forall>inventory. r = Inr inventory \<longrightarrow> confirmed client clusterID 3 s inventory t)"
proof -
  note ends = listGatewaysOnce_ends [OF assms]
  obtain r t where once: "listGatewaysOnce client clusterID s = Some (r, t)" using ends by blast
  show ?thesis
  proof (cases r)
    case (Inl err)
    with once show ?thesis by (simp add: listGatewaysStable_def eval_nat_numeral)
  next
    case (Inr current)
    from stablePasses_result [OF ends once [unfolded Inr], of 3] once Inr show ?thesis
      by (simp add: listGatewaysStable_def eval_nat_numeral)
  qed
qed

section \<open>A seed from an unchanged inventory\<close>

text \<open>The API server while nothing changes: a table of gateways, listed by pages and read by id.\<close>

definition tableClient :: "'x pbGateway list \<Rightarrow> ('x, 's) gatewayClient" where
  "tableClient G = \<lparr>
     ListGateways = (\<lambda>p n f s. (Inr (take n (drop ((unat p - 1) * n) G), int (length G)), s)),
     GetGateway = (\<lambda>i s. (case find (\<lambda>g. gwGetId g = i) G of
        Some g \<Rightarrow> Inr g | None \<Rightarrow> Inl (StatusErr NotFound ''gateway not found''), s))\<rparr>"

lemma addItems_append: "addItems (addItems m xs) ys = addItems m (xs @ ys)"
  by (simp add: addItems_def)

lemma addItems_lookup:
  "distinct (map gwGetId G) \<Longrightarrow> addItems m G i = (case find (\<lambda>g. gwGetId g = i) G of Some g \<Rightarrow> Some g | None \<Rightarrow> m i)"
proof (induction G arbitrary: m)
  case (Cons g gs)
  have "addItems m (g # gs) = addItems (m(gwGetId g \<mapsto> g)) gs" by (simp add: addItems_def)
  moreover from Cons.prems have "find (\<lambda>g'. gwGetId g' = gwGetId g) gs = None"
    by (simp add: find_None_iff) (metis imageI)
  ultimately show ?case using Cons by (auto split: option.splits)
qed (simp add: addItems_def)

lemma tablePages:
  fixes G :: "'x pbGateway list"
  assumes "distinct (map gwGetId G)" "length G < 2 ^ 31" "k * 500 \<le> length G"
  shows "listPages (tableClient G) f (word_of_nat (Suc k)) (addItems Map.empty (take (k * 500) G)) s
    = Some (Inr (addItems Map.empty G), s)"
  using assms(3)
proof (induction "length G - k * 500" arbitrary: k rule: less_induct)
  case less
  have "Suc k < 2 ^ 32" using less.prems assms(2) by simp
  then have "unat (word_of_nat (Suc k) :: 32 word) = Suc k"
    by (simp add: unat_of_nat take_bit_nat_eq_self del: of_nat_Suc)
  then have page: "ListGateways (tableClient G) (word_of_nat (Suc k)) 500 f s =
      (Inr (take 500 (drop (k * 500) G), int (length G)), s)" by (simp add: tableClient_def)
  have items: "addItems (addItems Map.empty (take (k * 500) G)) (take 500 (drop (k * 500) G)) =
      addItems Map.empty (take (Suc k * 500) G)"
    by (simp add: addItems_append take_add [symmetric] add.commute)
  have dist: "distinct (map gwGetId (take (Suc k * 500) G))"
    using assms(1) by (simp add: take_map [symmetric])
  have card: "card (dom (addItems Map.empty (take (Suc k * 500) G))) = length (take (Suc k * 500) G)"
    using distinct_card [OF dist] by (simp add: dom_addItems)
  show ?case
  proof (cases "lastPage (take 500 (drop (k * 500) G)) (addItems Map.empty (take (Suc k * 500) G)) (int (length G))")
    case True
    then have "length G \<le> Suc k * 500"
      unfolding lastPage_def card by auto
    then have "take (Suc k * 500) G = G" by simp
    with True show ?thesis
      by (subst listPages.simps) (simp only: page items prod.case sum.case if_True)
  next
    case False
    then have le: "Suc k * 500 \<le> length G" by (auto simp: lastPage_def)
    from False le have "length G - Suc k * 500 < length G - k * 500" by (auto simp: lastPage_def)
    from less.hyps [OF this le] False show ?thesis
      by (subst listPages.simps) (simp only: page items prod.case sum.case if_False of_nat_Suc [of "Suc k"] add.commute)
  qed
qed

lemma tableStable:
  fixes G :: "'x pbGateway list"
  assumes "distinct (map gwGetId G)" "length G < 2 ^ 31" "strings_TrimSpace clusterID \<noteq> []"
  shows "listGatewaysStable (tableClient G) clusterID s = Some (Inr (addItems Map.empty G), s)"
proof -
  have "listGatewaysOnce (tableClient G) clusterID s = Some (Inr (addItems Map.empty G), s)"
    using tablePages [OF assms(1,2), of 0 clusterID s] assms(3)
    by (simp add: listGatewaysOnce_def ClusterFilter_def addItems_def)
  then show ?thesis by (simp add: listGatewaysStable_def eval_nat_numeral sameIDSet_def)
qed

text \<open>
  What a seed leaves of a key it has enqueued, from the queue before: a delete that was there; or an
  event at least as new as the gateway, new and scheduled or the one that was there, and forced and
  scheduled when the gateway's phase needs recovery.
\<close>

definition seededKey ::
  "('w \<Rightarrow> string set) \<Rightarrow> ('x pbGateway, 'w) qsys \<Rightarrow> 'x pbGateway \<Rightarrow> ('x pbGateway, 'w) qsys \<Rightarrow> bool" where
  "seededKey dirty s g t \<longleftrightarrow> (\<exists>e. latest (sQ t) (gwGetId g) = Some e \<and>
     (evType e = EventDeleted \<and> latest (sQ s) (gwGetId g) = Some e \<or>
      evType e \<noteq> EventDeleted \<and> gatewayEventVersion (seedEventOf g) \<le> gatewayEventVersion e \<and>
      (e = seedEventOf g \<and> gwGetId g \<in> dirty (sW t) \<or> latest (sQ s) (gwGetId g) = Some e) \<and>
      (if forceSeedRecovery g then gwGetId g \<in> forced (sQ t) \<and> gwGetId g \<in> dirty (sW t) else True)))"

text \<open>A step on another key: nothing of the key changes, and it stays scheduled.\<close>

definition sameKey :: "('w \<Rightarrow> string set) \<Rightarrow> string \<Rightarrow> ('r, 'w) qsys \<Rightarrow> ('r, 'w) qsys \<Rightarrow> bool" where
  "sameKey dirty i s t \<longleftrightarrow> latest (sQ t) i = latest (sQ s) i \<and> (i \<in> forced (sQ t) \<longleftrightarrow> i \<in> forced (sQ s)) \<and>
     (i \<in> dirty (sW s) \<longrightarrow> i \<in> dirty (sW t))"

lemma sameKey_trans: "sameKey dirty i s t \<Longrightarrow> sameKey dirty i t u \<Longrightarrow> sameKey dirty i s u"
  by (simp add: sameKey_def)

lemma seededKey_after: "seededKey dirty s g t \<Longrightarrow> sameKey dirty (gwGetId g) t u \<Longrightarrow> seededKey dirty s g u"
  by (auto simp: seededKey_def sameKey_def)

lemma seededKey_before: "sameKey dirty (gwGetId g) s0 s \<Longrightarrow> seededKey dirty s g t \<Longrightarrow> seededKey dirty s0 g t"
  by (auto simp: seededKey_def sameKey_def)

lemma enqueueLocked_other:
  "j \<noteq> evResourceID ev \<Longrightarrow> enqueueLocked cfg now ev force q = (q1, add) \<Longrightarrow>
   latest q1 j = latest q j \<and> (j \<in> forced q1 \<longleftrightarrow> j \<in> forced q)"
  by (auto simp: enqueueLocked_def Let_def split: if_splits option.splits)

context workqueue
begin

lemma qEnqueue_wf: "wfq (sW s) \<Longrightarrow> wfq (sW (qEnqueue cfg W force ev s))"
  by (auto simp: qEnqueue_def add_law split: prod.split)

lemma qEnqueue_other:
  assumes "wfq (sW s)" "j \<noteq> evResourceID ev"
  shows "sameKey dirty j s (qEnqueue cfg W force ev s)"
proof -
  obtain q1 add where e: "enqueueLocked cfg (sNow s) ev force (sQ s) = (q1, add)" by force
  with enqueueLocked_other [OF assms(2) e] add_law [OF assms(1)] show ?thesis
    by (auto simp: sameKey_def qEnqueue_def)
qed

lemma qEnqueue_seeds:
  assumes "wfq (sW s)" "cfgVersionOf cfg = Some gatewayEventVersion"
  shows "seededKey dirty s g (qEnqueue cfg W (forceSeedRecovery g) (seedEventOf g) s)"
proof -
  have d: "gwGetId g \<in> dirty (wqAdd W (gwGetId g) (sW s))" using add_law [OF assms(1)] by simp
  have ev: "evResourceID (seedEventOf g) = gwGetId g" "evType (seedEventOf g) = EventUpdated"
    by (simp_all add: seedEventOf_def)
  show ?thesis
  proof (cases "latest (sQ s) (gwGetId g)")
    case None
    with d ev show ?thesis
      by (simp add: seededKey_def qEnqueue_def enqueueLocked_def Let_def)
  next
    case (Some prev)
    with d ev assms(2) show ?thesis
      by (auto simp: seededKey_def qEnqueue_def enqueueLocked_def Let_def older_def)
  qed
qed

lemma fold_seeds:
  assumes "wfq (sW s)" "cfgVersionOf cfg = Some gatewayEventVersion" "distinct is"
    and "\<And>i. i \<in> set is \<Longrightarrow> gwGetId (h i) = i"
  defines "f \<equiv> \<lambda>i s. qEnqueue cfg W (forceSeedRecovery (h i)) (seedEventOf (h i)) s"
  shows "wfq (sW (fold f is s)) \<and> (\<forall>i\<in>set is. seededKey dirty s (h i) (fold f is s)) \<and>
    (\<forall>j. j \<notin> set is \<longrightarrow> sameKey dirty j s (fold f is s))"
  using assms(1,3,4)
proof (induction "is" arbitrary: s)
  case Nil
  then show ?case by (simp add: sameKey_def)
next
  case (Cons i "is")
  let ?s = "f i s"
  have id: "evResourceID (seedEventOf (h i)) = i" "gwGetId (h i) = i"
    using Cons.prems(3) [of i] by (simp_all add: seedEventOf_def)
  have wf: "wfq (sW ?s)" using Cons.prems(1) by (simp add: f_def qEnqueue_wf)
  have seed: "seededKey dirty s (h i) ?s" unfolding f_def by (rule qEnqueue_seeds [OF Cons.prems(1) assms(2)])
  have other: "sameKey dirty j s ?s" if "j \<noteq> i" for j
    using qEnqueue_other [OF Cons.prems(1)] that id(1) by (simp add: f_def)
  have ih: "wfq (sW (fold f is ?s))" "\<And>j. j \<in> set is \<Longrightarrow> seededKey dirty ?s (h j) (fold f is ?s)"
    "\<And>j. j \<notin> set is \<Longrightarrow> sameKey dirty j ?s (fold f is ?s)"
    using Cons.IH [OF wf] Cons.prems(2,3) by auto
  have "seededKey dirty s (h j) (fold f is ?s)" if j: "j \<in> set (i # is)" for j
  proof (cases "j = i")
    case True
    with Cons.prems(2) seed ih(3) [of i] id(2) show ?thesis by (auto intro: seededKey_after)
  next
    case False
    with j have "j \<in> set is" by simp
    with ih(2) other [OF False] Cons.prems(3) [OF j] show ?thesis by (auto intro: seededKey_before)
  qed
  moreover have "sameKey dirty j s (fold f is ?s)" if "j \<notin> set (i # is)" for j
    using that other ih(3) by (auto intro: sameKey_trans)
  ultimately show ?case using ih(1) by simp
qed

end

text \<open>The prune pass: every tracked key that is neither live nor deleted is dropped, no other changes.\<close>

lemma qPrune_other: "j \<noteq> i \<Longrightarrow> sameKey dirty j s (snd (qPrune cfg i ev s))"
  by (auto simp: sameKey_def qPrune_def pruneIfNonDelete_def split: prod.splits option.splits if_splits)

lemma qPrune_same:
  "latest (sQ s) i = Some ev \<Longrightarrow> evType ev \<noteq> EventDeleted \<Longrightarrow> latest (sQ (snd (qPrune cfg i ev s))) i = None"
  by (auto simp: qPrune_def pruneIfNonDelete_def split: option.splits)

lemma fold_prunes:
  fixes cfg :: "'r queueConfig" and live :: "string \<Rightarrow> bool"
  assumes "distinct is" "\<And>i. i \<in> set is \<Longrightarrow> latest (sQ s) i = Some (ev i)"
  defines "f \<equiv> \<lambda>i s. if live i \<or> evType (ev i) = EventDeleted then s else snd (qPrune cfg i (ev i) s)"
  shows "(\<forall>i\<in>set is. \<not> live i \<and> evType (ev i) \<noteq> EventDeleted \<longrightarrow> latest (sQ (fold f is s)) i = None) \<and>
    (\<forall>j. j \<notin> set is \<or> live j \<or> evType (ev j) = EventDeleted \<longrightarrow> sameKey dirty j s (fold f is s))"
  using assms(1,2)
proof (induction "is" arbitrary: s)
  case Nil
  show ?case by (simp add: sameKey_def)
next
  case (Cons i "is")
  let ?s = "f i s"
  have other: "sameKey dirty j s ?s" if "j \<noteq> i \<or> live j \<or> evType (ev j) = EventDeleted" for j
    using that by (auto simp: f_def qPrune_other sameKey_def [of _ _ s s])
  have "latest (sQ ?s) j = Some (ev j)" if "j \<in> set is" for j
    using that other [of j] Cons.prems by (auto simp: sameKey_def)
  note ih = Cons.IH [OF _ this, unfolded atomize_imp]
  have gone: "latest (sQ ?s) i = None" if "\<not> live i \<and> evType (ev i) \<noteq> EventDeleted"
    using that Cons.prems(2) [of i] by (auto simp: f_def qPrune_same)
  from Cons.prems(1) have d: "distinct is" "i \<notin> set is" by auto
  show ?case
  proof (intro conjI ballI allI impI)
    fix j assume j: "j \<in> set (i # is)" "\<not> live j \<and> evType (ev j) \<noteq> EventDeleted"
    show "latest (sQ (fold f (i # is) s)) j = None"
    proof (cases "j = i")
      case True
      with j gone d ih show ?thesis by (auto simp: sameKey_def)
    next
      case False
      with j d ih show ?thesis by auto
    qed
  next
    fix j assume "j \<notin> set (i # is) \<or> live j \<or> evType (ev j) = EventDeleted"
    with other [of j] d ih show "sameKey dirty j s (fold f (i # is) s)" by (auto intro: sameKey_trans)
  qed
qed

lemma fold_pair:
  "(\<And>x s v. x \<in> set xs \<Longrightarrow> f x (s, v) = (g x s, v)) \<Longrightarrow> fold f xs (s, v) = (fold g xs s, v)"
  by (induction xs arbitrary: s) auto

lemma inventory_Some:
  assumes "distinct (map gwGetId G)"
  shows "addItems Map.empty G i = Some g \<longleftrightarrow> g \<in> set G \<and> gwGetId g = i"
proof -
  have "find (\<lambda>g. gwGetId g = i) G = Some g \<longleftrightarrow> g \<in> set G \<and> gwGetId g = i"
    using assms by (induction G) auto
  then show ?thesis using addItems_lookup [OF assms, of Map.empty i] by (simp split: option.splits)
qed

text \<open>The two passes of a seed over the queue.\<close>

definition seedPass ::
  "'x pbGateway queueConfig \<Rightarrow> 'w workqueue_ops \<Rightarrow> (string \<rightharpoonup> 'x pbGateway) \<Rightarrow> string list \<Rightarrow>
     ('x pbGateway, 'w) qsys \<Rightarrow> ('x pbGateway, 'w) qsys" where
  "seedPass cfg W inventory is s =
     fold (\<lambda>i s. qEnqueue cfg W (forceSeedRecovery (the (inventory i))) (seedEventOf (the (inventory i))) s) is s"

definition prunePass ::
  "'x pbGateway queueConfig \<Rightarrow> (string \<rightharpoonup> 'x pbGateway) \<Rightarrow> string list \<Rightarrow>
     ('x pbGateway, 'w) qsys \<Rightarrow> ('x pbGateway, 'w) qsys" where
  "prunePass cfg inventory is s0 =
     fold (\<lambda>i s. if inventory i \<noteq> None \<or> evType (the (latest (sQ s0) i)) = EventDeleted then s
                 else snd (qPrune cfg i (the (latest (sQ s0) i)) s)) is s0"

lemma confirmAbsent_table:
  assumes "distinct (map gwGetId G)"
  shows "confirmAbsent (tableClient G) (queueSink cfg W) (addItems Map.empty G) (i, ev) (s, v) =
    ((if addItems Map.empty G i \<noteq> None \<or> evType ev = EventDeleted then s else snd (qPrune cfg i ev s)), v)"
  using addItems_lookup [OF assms, of Map.empty i]
  by (auto simp: confirmAbsent_def tableClient_def queueSink_def status_Code_def split: prod.split option.splits)

lemma seed_table_run:
  fixes G :: "'x pbGateway list" and s :: "('x pbGateway, 'w) qsys" and v :: 'v
  assumes G: "distinct (map gwGetId G)" "length G < 2 ^ 31" and c: "strings_TrimSpace clusterID \<noteq> []"
  defines "known \<equiv> addItems Map.empty G"
  shows "seedGateways rng (tableClient G) (queueSink cfg W) clusterID (s, v) =
    (let s2 = seedPass cfg W known (rng (dom known)) s
     in Some (None, (prunePass cfg known (rng (dom (latest (sQ s2)))) s2, v)))"
proof -
  have 1: "fold (\<lambda>i s. snd (enqueueSeed (queueSink cfg W) (the (known i)) s)) is (s, v) = (seedPass cfg W known is s, v)"
    for "is" s unfolding seedPass_def
    by (rule fold_pair) (simp add: enqueueSeed_def queueSink_def)
  have 2: "fold (confirmAbsent (tableClient G) (queueSink cfg W) known) (map (\<lambda>i. (i, the (latest (sQ s2) i))) is) (s2, v) =
      (prunePass cfg known is s2, v)" for "is" s2
    unfolding prunePass_def known_def fold_map comp_def
    by (rule fold_pair) (simp only: confirmAbsent_table [OF G(1)])
  have 3: "snkKnownKeys (queueSink cfg W) x = latest (sQ (fst x))" for x :: "('x pbGateway, 'w) qsys \<times> 'v"
    by (simp add: queueSink_def knownKeys_def)
  show ?thesis
    using tableStable [OF G c, of "(s, v)"] unfolding known_def [symmetric]
    by (simp add: seedGateways_def 1 2 3 Let_def)
qed

lemma gatewayConfig_version: "cfgVersionOf (NewGatewayReconcileQueue workers) = Some gatewayEventVersion"
  by (simp add: NewGatewayReconcileQueue_def withWorkers_def withVersion_def)

lemma seedPass_effect:
  fixes s :: "('x pbGateway, 'w) qsys" and workers :: int
  assumes "workqueue W dirty processing waiting wfq" "wfq (sW s)" "distinct (map gwGetId G)"
    and "set is = gwGetId ` set G" "distinct is"
  defines "s2 \<equiv> seedPass (NewGatewayReconcileQueue workers) W (addItems Map.empty G) is s"
  shows "(\<forall>g\<in>set G. seededKey dirty s g s2) \<and> (\<forall>j. j \<notin> gwGetId ` set G \<longrightarrow> sameKey dirty j s s2)"
proof -
  have h: "the (addItems Map.empty G (gwGetId g)) = g" if "g \<in> set G" for g
  proof -
    from that inventory_Some [OF assms(3), of "gwGetId g" g] have "addItems Map.empty G (gwGetId g) = Some g" by blast
    then show ?thesis by simp
  qed
  then have "gwGetId (the (addItems Map.empty G i)) = i" if "i \<in> set is" for i
    using that assms(4) by auto
  from workqueue.fold_seeds [OF assms(1,2) gatewayConfig_version assms(5) this]
  have "(\<forall>i\<in>set is. seededKey dirty s (the (addItems Map.empty G i)) s2) \<and> (\<forall>j. j \<notin> set is \<longrightarrow> sameKey dirty j s s2)"
    by (simp add: s2_def seedPass_def)
  with h assms(4) show ?thesis by force
qed

text \<open>
  C16: a seed brings the queue to the inventory. While the gateways of the server do not change, a
  seed returns without error; every gateway is then tracked, with an event at least as new as its
  record, scheduled if the event is new, and marked and scheduled for a forced pass if its phase is
  one the reconciler skips; a pending or completed delete is kept; and every other tracked key is
  dropped.
\<close>

theorem seed_converges:
  fixes G :: "'x pbGateway list" and s :: "('x pbGateway, 'w) qsys"
  assumes wq: "workqueue W dirty processing waiting wfq" and wf: "wfq (sW s)"
    and G: "distinct (map gwGetId G)" "length G < 2 ^ 31" and c: "strings_TrimSpace clusterID \<noteq> []"
    and fin: "finite (dom (latest (sQ s)))" and rng: "\<And>A. finite A \<Longrightarrow> set (rng A) = A \<and> distinct (rng A)"
  shows "\<exists>t. seedGateways rng (tableClient G) (queueSink (NewGatewayReconcileQueue workers) W) clusterID (s, v)
      = Some (None, (t, v)) \<and> (\<forall>g\<in>set G. seededKey dirty s g t) \<and>
    (\<forall>i. i \<notin> gwGetId ` set G \<longrightarrow> latest (sQ t) i =
       (case latest (sQ s) i of None \<Rightarrow> None | Some e \<Rightarrow> if evType e = EventDeleted then Some e else None))"
proof -
  let ?cfg = "NewGatewayReconcileQueue workers"
  define inventory where "inventory = addItems Map.empty G"
  have dom: "dom inventory = gwGetId ` set G" by (simp add: inventory_def dom_addItems)
  have ids: "set (rng (dom inventory)) = gwGetId ` set G" "distinct (rng (dom inventory))"
    using rng [of "dom inventory"] dom by auto
  define s2 where "s2 = seedPass ?cfg W inventory (rng (dom inventory)) s"
  have seeds: "\<And>g. g \<in> set G \<Longrightarrow> seededKey dirty s g s2" "\<And>j. j \<notin> gwGetId ` set G \<Longrightarrow> sameKey dirty j s s2"
    using seedPass_effect [OF wq wf G(1) ids] by (auto simp: s2_def inventory_def)
  have "dom (latest (sQ s2)) \<subseteq> dom (latest (sQ s)) \<union> gwGetId ` set G"
    using seeds(2) by (fastforce simp: sameKey_def dom_def)
  then have "finite (dom (latest (sQ s2)))" using fin by (meson List.finite_set finite_UnI finite_imageI finite_subset)
  then have ks: "set (rng (dom (latest (sQ s2)))) = dom (latest (sQ s2))" "distinct (rng (dom (latest (sQ s2))))"
    using rng by auto
  define t where "t = prunePass ?cfg inventory (rng (dom (latest (sQ s2)))) s2"
  have "(\<forall>i\<in>set (rng (dom (latest (sQ s2)))). \<not> inventory i \<noteq> None \<and> evType (the (latest (sQ s2) i)) \<noteq> EventDeleted \<longrightarrow> latest (sQ t) i = None) \<and>
      (\<forall>j. j \<notin> set (rng (dom (latest (sQ s2)))) \<or> inventory j \<noteq> None \<or> evType (the (latest (sQ s2) j)) = EventDeleted \<longrightarrow> sameKey dirty j s2 t)"
    unfolding t_def prunePass_def by (rule fold_prunes [OF ks(2)]) (auto simp: ks(1))
  note prunes = this [unfolded ks(1)]
  have live: "seededKey dirty s g t" if g: "g \<in> set G" for g
  proof -
    from g have "inventory (gwGetId g) \<noteq> None" using dom by blast
    with prunes seeds(1) [OF g] show ?thesis by (blast intro: seededKey_after)
  qed
  have gone: "latest (sQ t) i = (case latest (sQ s) i of None \<Rightarrow> None | Some e \<Rightarrow> if evType e = EventDeleted then Some e else None)"
    if "i \<notin> gwGetId ` set G" for i
  proof -
    from that have n: "inventory i = None" "latest (sQ s2) i = latest (sQ s) i"
      using dom seeds(2) [of i] by (auto simp: sameKey_def)
    from conjunct1 [OF prunes, rule_format, of i] conjunct2 [OF prunes, rule_format, of i] n
    show ?thesis by (cases "latest (sQ s) i") (auto simp: sameKey_def)
  qed
  from seed_table_run [OF G c, of rng ?cfg W s v]
  have "seedGateways rng (tableClient G) (queueSink ?cfg W) clusterID (s, v) = Some (None, (t, v))"
    by (simp add: Let_def t_def s2_def inventory_def)
  with live gone show ?thesis by blast
qed

section \<open>Who ended a connection\<close>

text \<open>
  What a connection may return: the stream's end when the seed was complete; the stream's error, or
  the seed's when the stream just ended, when the seed failed after the cancellation; either error
  when the seed failed before it.
\<close>

definition mayReturn :: "(chain \<times> bool) option \<Rightarrow> chain option \<Rightarrow> chain option \<Rightarrow> bool" where
  "mayReturn seedErr r res = (case seedErr of
     None \<Rightarrow> res = r
   | Some (e, True) \<Rightarrow> res = (if r = None then Some e else r)
   | Some (e, False) \<Rightarrow> res = Some e \<or> r \<noteq> None \<and> res = r)"

lemma mayReturn_simps [simp]:
  "mayReturn None r res \<longleftrightarrow> res = r"
  "mayReturn (Some (e, c)) r res \<longleftrightarrow> (if c then res = (if r = None then Some e else r) else res = Some e \<or> r \<noteq> None \<and> res = r)"
  by (simp_all add: mayReturn_def)

definition seedOK :: "'r connection \<Rightarrow> bool" where
  "seedOK s = (case csSeed s of
     Seeding \<Rightarrow> csSeedErr s = None
   | SeedReturned None \<Rightarrow> csSeedErr s = None
   | SeedReturned (Some e) \<Rightarrow> csSeedErr s = Some (e, False) \<or> csSeedErr s = Some (e, True) \<and> csCancelled s
   | SeenLive e \<Rightarrow> csSeedErr s = Some (e, False)
   | JoinLive e \<Rightarrow> csSeedErr s = Some (e, False) \<and> csCancelled s
   | JoinCancelled e \<Rightarrow> map_option fst (csSeedErr s) = Some e \<and> csCancelled s
   | Waiting \<Rightarrow> csSeedErr s = None
   | Finished res \<Rightarrow> (\<exists>r. csRecv s = Published r \<and> mayReturn (csSeedErr s) r res))"

definition causeOK :: "'r connection \<Rightarrow> bool" where
  "causeOK s = (case csCause s of
     None \<Rightarrow> \<not> csCancelled s \<and> csRecv s = Receiving
   | Some (BySeed e) \<Rightarrow> csCancelled s \<and> (csSeed s = JoinLive e \<or> csSeed s = Finished (Some e))
   | Some (ByReceiver e) \<Rightarrow> csCancelled s \<and> (csRecv s = RecvEnding e \<or> csRecv s = Published e)
   | Some ByParent \<Rightarrow> csCancelled s)"

lemma conn_step_causeOK: "conn_step s t \<Longrightarrow> causeOK s \<Longrightarrow> causeOK t"
  by (induction rule: conn_step.induct)
    (auto simp: causeOK_def runCancel_def split: option.splits cancelCause.splits)

lemma conn_step_seedOK: "conn_step s t \<Longrightarrow> seedOK s \<Longrightarrow> seedOK t"
  by (induction rule: conn_step.induct)
    (auto simp: seedOK_def runCancel_def split: option.split seedPhase.splits option.split_asm)

lemma conn_steps_OK: "conn_step\<^sup>*\<^sup>* newConnection s \<Longrightarrow> causeOK s \<and> seedOK s"
proof (induction rule: rtranclp_induct)
  case base
  show ?case by (simp add: causeOK_def seedOK_def newConnection_def)
next
  case (step t u)
  then show ?case by (auto intro: conn_step_causeOK conn_step_seedOK)
qed

text \<open>
  C33: neither end of a connection masks the other. However receiver, seed and cancellation
  interleave, a connection that returns has been cancelled and its receiver has ended, and what it
  returns is: how the stream ended, if the seed was complete; the stream's error, if it has one, if
  the seed failed after the cancellation, so a failure that the cancellation made never hides the
  stream's error; the seed's error or the stream's, if the seed failed on its own, and the seed's for
  certain if it was the seed that cancelled. When the stream's error cancelled the connection, it is
  returned unless the seed had failed on its own before. That exception is real: between the seed's
  look at the context and its cancelling the stream may break, and the seed's error is returned.
\<close>

theorem no_masking:
  assumes "conn_step\<^sup>*\<^sup>* newConnection s" and "csSeed s = Finished res"
  shows "csCancelled s \<and> (\<exists>r. csRecv s = Published r \<and>
    (case csSeedErr s of
       None \<Rightarrow> res = r
     | Some (e, afterCancel) \<Rightarrow>
         if afterCancel then res = (if r = None then Some e else r)
         else res = Some e \<or> r \<noteq> None \<and> res = r) \<and>
    (case csCause s of
       None \<Rightarrow> False
     | Some (BySeed e) \<Rightarrow> res = Some e
     | Some (ByReceiver streamErr) \<Rightarrow> r = streamErr
     | Some ByParent \<Rightarrow> True))"
proof -
  from conn_steps_OK [OF assms(1)] have ok: "causeOK s" "seedOK s" by auto
  from ok(2) assms(2) obtain r where r: "csRecv s = Published r" "mayReturn (csSeedErr s) r res"
    by (auto simp: seedOK_def)
  from ok(1) r(1) assms(2) have "csCancelled s \<and> (case csCause s of
       None \<Rightarrow> False
     | Some (BySeed e) \<Rightarrow> res = Some e
     | Some (ByReceiver streamErr) \<Rightarrow> r = streamErr
     | Some ByParent \<Rightarrow> True)"
    by (auto simp: causeOK_def split: option.splits cancelCause.splits)
  with r show ?thesis by (cases "csSeedErr s") (auto split: if_splits)
qed

section \<open>Retries of role bindings\<close>

definition roleBindingConfig :: "'r queueConfig" where
  "roleBindingConfig = withRetryIf (\<lambda>err. isRoleBindingRetryable (Some err)) defaultConfig"

lemma isMissingGateway_status: "isMissingGateway err \<longleftrightarrow> statusOf err = Some NotFound"
proof (induction err)
  case (preservePayloadForRetryError e)
  then show ?case by (subst isMissingGateway.simps) auto
next
  case (retryReasonError e r)
  then show ?case by (subst isMissingGateway.simps) auto
next
  case (OtherWrap m e)
  then show ?case by (subst isMissingGateway.simps) auto
next
  case (gatewayKeycloakClientIdentityError e)
  then show ?case by (subst isMissingGateway.simps) auto
next
  case (RenderedConfigValidationError e)
  then show ?case by (subst isMissingGateway.simps) auto
qed (subst isMissingGateway.simps, simp)+

lemma isRoleBindingRetryable_iff:
  "isRoleBindingRetryable (Some err) \<longleftrightarrow> statusOf err \<noteq> Some NotFound \<and>
     (isMissingKeycloakClient err \<or> isMissingKeycloakUser err \<or>
      isUnresolvedRoleBindingIdentity err \<or> isKeycloakHTTPNotFound err)"
  by (simp add: isRoleBindingRetryable_def isMissingGateway_status)

text \<open>
  A role binding is retried, without limit, exactly on a provisioning race. However often it
  has failed, the queue retries it when the error is a missing Keycloak client or user, an
  unresolved name or a Keycloak 404, and never when some error in the chain is the gRPC status
  \<^verbatim>\<open>NotFound\<close> of a deleted gateway; the wrappers for the payload and the reason change nothing.
\<close>

theorem role_binding_retries:
  "(retryAllowed (roleBindingConfig :: 'r queueConfig) n err \<longleftrightarrow> statusOf err \<noteq> Some NotFound \<and>
      (isMissingKeycloakClient err \<or> isMissingKeycloakUser err \<or>
       strings_Contains (errText err) ''username not yet resolved'' \<or>
       strings_Contains (errText err) ''role name not yet resolved'' \<or>
       strings_Contains (errText err) ''returned 404'')) \<and>
   isRoleBindingRetryable (PreservePayloadForRetry e) = isRoleBindingRetryable e \<and>
   isRoleBindingRetryable (WithRetryableReason e reason) = isRoleBindingRetryable e"
proof (intro conjI)
  show "retryAllowed (roleBindingConfig :: 'r queueConfig) n err \<longleftrightarrow> statusOf err \<noteq> Some NotFound \<and>
      (isMissingKeycloakClient err \<or> isMissingKeycloakUser err \<or>
       strings_Contains (errText err) ''username not yet resolved'' \<or>
       strings_Contains (errText err) ''role name not yet resolved'' \<or>
       strings_Contains (errText err) ''returned 404'')"
    by (simp add: retryAllowed_def roleBindingConfig_def withRetryIf_def defaultConfig_def
        isRoleBindingRetryable_iff isUnresolvedRoleBindingIdentity_def isKeycloakHTTPNotFound_def)
next
  show "isRoleBindingRetryable (PreservePayloadForRetry e) = isRoleBindingRetryable e"
    by (cases e) (simp_all add: PreservePayloadForRetry_def isRoleBindingRetryable_iff
        isUnresolvedRoleBindingIdentity_def isKeycloakHTTPNotFound_def)
next
  show "isRoleBindingRetryable (WithRetryableReason e reason) = isRoleBindingRetryable e"
    by (cases e) (simp_all add: WithRetryableReason_def isRoleBindingRetryable_iff
        isUnresolvedRoleBindingIdentity_def isKeycloakHTTPNotFound_def)
qed

section \<open>The waits between connections\<close>

definition waitAt :: "nat \<Rightarrow> int" where
  "waitAt n = min (1000000000 * 2 ^ n) maxBackoff"

lemma waitAt_next: "(let b = waitAt k * 2 in if b > maxBackoff then maxBackoff else b) = waitAt (Suc k)"
  by (simp add: waitAt_def Let_def min_def)

lemma watchRounds_waits:
  "fst (watchRounds (waitAt k) rs) = map waitAt [k..<k + length (fst (watchRounds (waitAt k) rs))]"
proof (induction rs arbitrary: k)
  case (Cons r rs)
  obtain waits ret where w: "watchRounds (waitAt (Suc k)) rs = (waits, ret)" by force
  with Cons.IH [of "Suc k"] have "waits = map waitAt [Suc k..<Suc k + length waits]" by simp
  then have "waitAt k # waits = map waitAt [k..<k + length (waitAt k # waits)]"
    by (metis add_Suc add_Suc_right length_Cons less_add_Suc1 list.simps(9) upt_conv_Cons)
  with w show ?case by (simp only: watchRounds.simps waitAt_next) simp
qed simp

lemma watchRounds_returns:
  "snd (watchRounds b rs) \<longleftrightarrow> (\<exists>r\<in>set rs. doneBefore r \<or> doneAfter r \<or> doneWaiting r)"
  by (induction b rs rule: watchRounds.induct) (auto split: prod.splits simp: Let_def)

text \<open>
  The loop reconnects for ever, with bounded waits. It returns only when its context is done,
  whatever the attempts return, and its waits are one second, then doubled each time, never above
  thirty seconds.
\<close>

theorem watch_backoff:
  "fst (watchLoop rs) = map (\<lambda>n. min (1000000000 * 2 ^ n) 30000000000) [0..<length (fst (watchLoop rs))] \<and>
   (snd (watchLoop rs) \<longleftrightarrow> (\<exists>r\<in>set rs. doneBefore r \<or> doneAfter r \<or> doneWaiting r))"
  using watchRounds_waits [of 0 rs]
  by (simp add: watchLoop_def watchRounds_returns waitAt_def [abs_def])

section \<open>Sample runs\<close>

text \<open>
  The laws the seed relies on hold of the queue beside a table of gateways. A gateway that is
  being provisioned, a queue that tracks it, and a stream that breaks while the seed is under way.
\<close>

interpretation table: seed_world "tableClient G" "queueSink cfg W"
  "keepsLive cfg W waiting (\<lambda>_ :: unit. - gwGetId ` set G)" "\<lambda>x i. i \<in> - gwGetId ` set G"
  for G :: "'x pbGateway list" and cfg :: "'x pbGateway queueConfig" and W :: "'w workqueue_ops" and waiting
  by (rule queue_seed_world)
    (auto simp: duringCall_def tableClient_def find_Some_iff find_None_iff split: option.splits)

definition sampleGateway :: "unit pbGateway" where
  "sampleGateway = \<lparr>gwMetadata = Some \<lparr>mId = ''g1'', mUpdatedAt = Some (1700000000, 5)\<rparr>,
     gwPhase = Some ''Provisioning'', gwRest = ()\<rparr>"

definition trackingQueue :: "(unit pbGateway, refWQ) qsys" where
  "trackingQueue = qEnqueue (NewGatewayReconcileQueue 0) refWorkqueue False (seedEventOf sampleGateway) (q_init emptyWQ)"

lemma sample_table: "distinct (map gwGetId [sampleGateway])" "length [sampleGateway] < 2 ^ 31"
    "strings_TrimSpace ''c1'' \<noteq> []" "gwGetId sampleGateway = ''g1''"
  by (simp_all add: sampleGateway_def gwGetId_def strings_TrimSpace_def go_space_def)

lemma tracking_latest: "latest (sQ trackingQueue) = [''g1'' \<mapsto> seedEventOf sampleGateway]"
proof -
  have "evResourceID (seedEventOf sampleGateway) = ''g1''" "evType (seedEventOf sampleGateway) = EventUpdated"
    by (simp_all add: seedEventOf_def sample_table(4))
  then show ?thesis
    by (simp add: trackingQueue_def qEnqueue_def q_init_def newReconcileQueue_def enqueueLocked_def Let_def)
qed

lemma sorted_rng: "finite (A :: string set) \<Longrightarrow> set (sorted_list_of_set A) = A \<and> distinct (sorted_list_of_set A)"
  by simp

theorem seed_keeps_live_witness:
  "\<exists>r t. seedGateways sorted_list_of_set (tableClient [sampleGateway])
      (queueSink (NewGatewayReconcileQueue 0) refWorkqueue) ''c1'' (trackingQueue, ()) = Some (r, (t, ())) \<and>
    latest (sQ trackingQueue) ''g1'' \<noteq> None \<and> latest (sQ t) ''g1'' \<noteq> None"
proof -
  let ?c = "tableClient [sampleGateway] :: (unit, (unit pbGateway, refWQ) qsys \<times> unit) gatewayClient"
  let ?cfg = "NewGatewayReconcileQueue 0 :: unit pbGateway queueConfig"
  let ?absent = "\<lambda>_ :: unit. - {''g1''}"
  obtain t where run: "seedGateways sorted_list_of_set ?c (queueSink ?cfg refWorkqueue) ''c1'' (trackingQueue, ()) = Some (None, (t, ()))"
    using seed_table_run [OF sample_table(1-3)] by (metis (no_types, lifting))
  have calls: "\<And>p n f x. duringCall ?cfg refWorkqueue refWaiting ?absent x (snd (ListGateways ?c p n f x))"
    "\<And>i x. duringCall ?cfg refWorkqueue refWaiting ?absent x (snd (GetGateway ?c i x))"
    "\<And>i x err y. GetGateway ?c i x = (Inl err, y) \<Longrightarrow> status_Code err = NotFound \<Longrightarrow> i \<in> ?absent (snd y)"
    by (auto simp: duringCall_def tableClient_def sample_table(4) split: if_splits)
  from seed_keeps_live [OF calls run, where i = "''g1''"] have "latest (sQ t) ''g1'' \<noteq> None"
    by (simp add: tracking_latest)
  with run show ?thesis by (auto simp: tracking_latest)
qed

theorem list_stable_terminates_witness:
  "shortPage (tableClient [sampleGateway] :: (unit, unit) gatewayClient) ''c1'' 1 \<and>
   (\<exists>inventory. listGatewaysStable (tableClient [sampleGateway]) ''c1'' () = Some (Inr inventory, ()) \<and>
      confirmed (tableClient [sampleGateway]) ''c1'' 3 () inventory ())"
proof -
  let ?c = "tableClient [sampleGateway] :: (unit, unit) gatewayClient"
  have s: "shortPage ?c ''c1'' 1" by (simp add: shortPage_def tableClient_def)
  from list_stable_terminates [OF this, of "()"] tableStable [OF sample_table(1-3), of "()"]
  have "confirmed ?c ''c1'' 3 () (addItems Map.empty [sampleGateway]) ()" by simp
  with s tableStable [OF sample_table(1-3), of "()"] show ?thesis by blast
qed

theorem seed_converges_witness:
  "\<exists>t. seedGateways sorted_list_of_set (tableClient [sampleGateway])
      (queueSink (NewGatewayReconcileQueue 0) refWorkqueue) ''c1'' (q_init emptyWQ, ()) = Some (None, (t, ())) \<and>
    seededKey refDirty (q_init emptyWQ) sampleGateway t \<and> latest (sQ t) ''g2'' = None"
proof -
  let ?s = "q_init emptyWQ :: (unit pbGateway, refWQ) qsys"
  have wf: "refInv (sW ?s)" by (simp add: q_init_def refInv_empty)
  have fin: "finite (dom (latest (sQ ?s)))" by (simp add: q_init_def newReconcileQueue_def)
  obtain t where t: "seedGateways sorted_list_of_set (tableClient [sampleGateway])
      (queueSink (NewGatewayReconcileQueue 0) refWorkqueue) ''c1'' (?s, ()) = Some (None, (t, ()))"
    "\<forall>g\<in>set [sampleGateway]. seededKey refDirty ?s g t"
    "\<forall>i. i \<notin> gwGetId ` set [sampleGateway] \<longrightarrow> latest (sQ t) i =
       (case latest (sQ ?s) i of None \<Rightarrow> None | Some e \<Rightarrow> if evType e = EventDeleted then Some e else None)"
    using seed_converges [OF clientgo_laws wf sample_table(1-3) fin sorted_rng, of 0 "()"] by blast
  from t(3)[rule_format, of "''g2''"] have "latest (sQ t) ''g2'' = None"
    by (simp add: sample_table(4) q_init_def newReconcileQueue_def)
  with t(1,2) show ?thesis by auto
qed

text \<open>The stream breaks first; the seed fails because of the cancellation and the stream's error is returned.\<close>

definition streamBroke :: "chain option" where
  "streamBroke = Some (errorfW ''receiving gateway event: '' (StatusErr Unavailable ''reset''))"

definition brokenConnection :: "unit connection" where
  "brokenConnection = \<lparr>csRecv = Published streamBroke, csSeed = Finished streamBroke, csCancelled = True,
     csEnqueued = [], csCause = Some (ByReceiver streamBroke),
     csSeedErr = Some (StatusErr Canceled ''context canceled'', True)\<rparr>"

lemma streamBroke_step:
  "csRecv s = Receiving \<Longrightarrow> conn_step s (runCancel (ByReceiver streamBroke) s\<lparr>csRecv := RecvEnding streamBroke\<rparr>)"
  using conn_step.recvEnd [of s "Some (StatusErr Unavailable ''reset'')"] by (simp add: streamBroke_def)

lemma brokenConnection_reached: "conn_step\<^sup>*\<^sup>* newConnection brokenConnection"
proof -
  let ?c = "\<lambda>r sd e. \<lparr>csRecv = r, csSeed = sd, csCancelled = True, csEnqueued = [], csCause = Some (ByReceiver streamBroke),
     csSeedErr = e\<rparr> :: unit connection"
  let ?e = "StatusErr Canceled ''context canceled''"
  let ?s = "Some (?e, True)"
  have "conn_step newConnection (?c (RecvEnding streamBroke) Seeding None)"
    using streamBroke_step [of "newConnection :: unit connection"] by (simp add: newConnection_def runCancel_def)
  moreover have "conn_step (?c (RecvEnding streamBroke) Seeding None) (?c (RecvEnding streamBroke) (SeedReturned (Some ?e)) ?s)"
    using conn_step.seeded [of "?c (RecvEnding streamBroke) Seeding None" "Some ?e"] by simp
  moreover have "conn_step (?c (RecvEnding streamBroke) (SeedReturned (Some ?e)) ?s) (?c (RecvEnding streamBroke) (JoinCancelled ?e) ?s)"
    using conn_step.seedAborted [of "?c (RecvEnding streamBroke) (SeedReturned (Some ?e)) ?s" ?e] by simp
  moreover have "conn_step (?c (RecvEnding streamBroke) (JoinCancelled ?e) ?s) (?c (Published streamBroke) (JoinCancelled ?e) ?s)"
    using conn_step.publish [of "?c (RecvEnding streamBroke) (JoinCancelled ?e) ?s" streamBroke] by simp
  moreover have "conn_step (?c (Published streamBroke) (JoinCancelled ?e) ?s) brokenConnection"
    using conn_step.joinCancelled [of "?c (Published streamBroke) (JoinCancelled ?e) ?s" ?e streamBroke]
    by (simp add: brokenConnection_def streamBroke_def)
  ultimately show ?thesis by (meson converse_rtranclp_into_rtranclp rtranclp.rtrancl_refl)
qed

theorem no_masking_witness:
  "csCause brokenConnection = Some (ByReceiver streamBroke) \<and> csCancelled brokenConnection \<and>
   (\<exists>r. csRecv brokenConnection = Published r \<and> r \<noteq> None \<and> csSeed brokenConnection = Finished r)"
proof -
  have "csSeed brokenConnection = Finished streamBroke" by (simp add: brokenConnection_def)
  from no_masking [OF brokenConnection_reached this] show ?thesis
    by (simp add: brokenConnection_def streamBroke_def)
qed

text \<open>
  The race that is left: the seed has seen the context live, the stream breaks and cancels it, and
  the error of the stream, no consequence of the seed's cancelling, is dropped for the seed's.
\<close>

definition racedConnection :: "unit connection" where
  "racedConnection = \<lparr>csRecv = Published streamBroke, csSeed = Finished (Some (StatusErr Internal ''list'')),
     csCancelled = True, csEnqueued = [], csCause = Some (ByReceiver streamBroke),
     csSeedErr = Some (StatusErr Internal ''list'', False)\<rparr>"

lemma racing_stream_error_is_dropped: "conn_step\<^sup>*\<^sup>* newConnection racedConnection"
proof -
  let ?e = "StatusErr Internal ''list''"
  let ?l = "\<lambda>sd. \<lparr>csRecv = Receiving, csSeed = sd, csCancelled = False, csEnqueued = [], csCause = None,
     csSeedErr = Some (?e, False)\<rparr> :: unit connection"
  let ?c = "\<lambda>r sd. \<lparr>csRecv = r, csSeed = sd, csCancelled = True, csEnqueued = [], csCause = Some (ByReceiver streamBroke),
     csSeedErr = Some (?e, False)\<rparr> :: unit connection"
  have "conn_step newConnection (?l (SeedReturned (Some ?e)))"
    using conn_step.seeded [of "newConnection :: unit connection" "Some ?e"] by (simp add: newConnection_def)
  moreover have "conn_step (?l (SeedReturned (Some ?e))) (?l (SeenLive ?e))"
    using conn_step.seedFailed [of "?l (SeedReturned (Some ?e))" ?e] by simp
  moreover have "conn_step (?l (SeenLive ?e)) (?c (RecvEnding streamBroke) (SeenLive ?e))"
    using streamBroke_step [of "?l (SeenLive ?e)"] by (simp add: runCancel_def)
  moreover have "conn_step (?c (RecvEnding streamBroke) (SeenLive ?e)) (?c (RecvEnding streamBroke) (JoinLive ?e))"
    using conn_step.seedCancels [of "?c (RecvEnding streamBroke) (SeenLive ?e)" ?e] by (simp add: runCancel_def)
  moreover have "conn_step (?c (RecvEnding streamBroke) (JoinLive ?e)) (?c (Published streamBroke) (JoinLive ?e))"
    using conn_step.publish [of "?c (RecvEnding streamBroke) (JoinLive ?e)" streamBroke] by simp
  moreover have "conn_step (?c (Published streamBroke) (JoinLive ?e)) racedConnection"
    using conn_step.joinLive [of "?c (Published streamBroke) (JoinLive ?e)" ?e streamBroke] by (simp add: racedConnection_def)
  ultimately show ?thesis by (meson converse_rtranclp_into_rtranclp rtranclp.rtrancl_refl)
qed

end
