(* ===== verification/Gateways.thy ===== *)
theory Gateways
  imports Role_Bindings
begin

text \<open>
  The gateway records of the API server: the model and its fields (\<^verbatim>\<open>plugins/gateways/model.go\<close>), the
  write policy by field (\<^verbatim>\<open>field_policy.go\<close>, \<^verbatim>\<open>dedicated_route.go\<close>, \<^verbatim>\<open>credential_driver.go\<close>), the
  provisioning conditions (\<^verbatim>\<open>conditions.go\<close>), the table (\<^verbatim>\<open>dao.go\<close>), the service through which every
  write goes (\<^verbatim>\<open>service.go\<close>), and placement (\<^verbatim>\<open>placement.go\<close>, \<^verbatim>\<open>placement_persistence.go\<close>,
  \<^verbatim>\<open>placement_rebind.go\<close>, \<^verbatim>\<open>cluster_reference.go\<close>).

  The gateways table lies beside the tables of the role bindings, with the same schedule of
  failures, locks and rollback mark; the events of source \<^verbatim>\<open>Gateways\<close> are a list of their own. The
  text of a JSON document is decoded by an argument, so every theorem holds for whatever text a
  decoder accepts; a decoded object lists its keys in a fixed order, each once, so equality of
  values is \<^verbatim>\<open>reflect.DeepEqual\<close>. What the API server's generator of ids gives is an argument. A
  generation is an integer without bound, and the range of the column of the sandbox count is not
  considered.
\<close>

named_theorems gateway_defs \<open>definitions of the gateway access operations\<close>

section \<open>The record\<close>

record Gateway =
  gID :: string
  gDeleted :: bool
  gUpdatedAt :: int
  gName :: string
  gClusterId :: string
  gNamespace :: string
  gPlacement :: "string option"
  gExternalDns :: "string option"
  gTlsMode :: "string option"
  gServiceType :: "string option"
  gStatus :: "string option"
  gPhase :: "string option"
  gImage :: "string option"
  gSupervisorImage :: "string option"
  gServerDnsNames :: "string option"
  gRouteAddress :: "string option"
  gConsoleAddress :: "string option"
  gGatewayVersion :: "string option"
  gOidc :: "string option"
  gRoute :: "string option"
  gDedicatedRoute :: "bool option"
  gCredentialDriver :: "string option"
  gWorkspaceMode :: "string option"
  gActiveSandboxCount :: "int option"
  gProvisioningConditions :: "string option"
  gGeneration :: int
  gObservedGeneration :: int
  gRepositoryId :: "string option"

record provisioningCondition =
  pcType :: string
  pcStatus :: string
  pcMessage :: string

record placementIntent =
  piSelector :: "string list"
  piExcluded :: "string list"

text \<open>\<^verbatim>\<open>encoding/json\<close>: decoding a text into a value, into conditions, into a stored placement; encoding conditions.\<close>

record json_codec =
  jsonDecode :: "string \<Rightarrow> json option"
  condsDecode :: "string \<Rightarrow> provisioningCondition list option"
  condsEncode :: "provisioningCondition list \<Rightarrow> string"
  placementDecode :: "string \<Rightarrow> placementIntent option"

section \<open>Comparing fields\<close>

definition strEq :: "string option \<Rightarrow> string option \<Rightarrow> bool" where
  "strEq a b = (case a of None \<Rightarrow> b = None | Some x \<Rightarrow> (case b of None \<Rightarrow> False | Some y \<Rightarrow> x = y))"

definition intPtrEq :: "int option \<Rightarrow> int option \<Rightarrow> bool" where
  "intPtrEq a b = (case a of None \<Rightarrow> b = None | Some x \<Rightarrow> (case b of None \<Rightarrow> False | Some y \<Rightarrow> x = y))"

definition jsonEq :: "json_codec \<Rightarrow> string option \<Rightarrow> string option \<Rightarrow> bool" where
  "jsonEq J a b = (case a of
     None \<Rightarrow> b = None
   | Some x \<Rightarrow> (case b of
       None \<Rightarrow> False
     | Some y \<Rightarrow>
         if x = y then True
         else (case jsonDecode J x of
                 None \<Rightarrow> False
               | Some av \<Rightarrow> (case jsonDecode J y of None \<Rightarrow> False | Some bv \<Rightarrow> av = bv))))"

definition dedicatedRouteRequested :: "bool option \<Rightarrow> bool" where
  "dedicatedRouteRequested value = (case value of None \<Rightarrow> False | Some b \<Rightarrow> b)"

definition dedicatedRouteChanged :: "bool option \<Rightarrow> bool option \<Rightarrow> bool" where
  "dedicatedRouteChanged current next \<longleftrightarrow> dedicatedRouteRequested current \<noteq> dedicatedRouteRequested next"

text \<open>The workload fields, by which the generation is advanced.\<close>

definition desiredStateChanged :: "json_codec \<Rightarrow> Gateway \<Rightarrow> Gateway \<Rightarrow> bool" where
  "desiredStateChanged J current next \<longleftrightarrow>
     gClusterId current \<noteq> gClusterId next \<or>
     \<not> jsonEq J (gPlacement current) (gPlacement next) \<or>
     \<not> strEq (gExternalDns current) (gExternalDns next) \<or>
     \<not> strEq (gTlsMode current) (gTlsMode next) \<or>
     \<not> strEq (gServiceType current) (gServiceType next) \<or>
     \<not> strEq (gImage current) (gImage next) \<or>
     \<not> strEq (gSupervisorImage current) (gSupervisorImage next) \<or>
     \<not> strEq (gServerDnsNames current) (gServerDnsNames next) \<or>
     \<not> jsonEq J (gOidc current) (gOidc next) \<or>
     \<not> jsonEq J (gRoute current) (gRoute next) \<or>
     \<not> strEq (gCredentialDriver current) (gCredentialDriver next) \<or>
     \<not> strEq (gWorkspaceMode current) (gWorkspaceMode next)"

section \<open>The certificate of a route\<close>

definition routeCertificateImmutableReason :: string where
  "routeCertificateImmutableReason = ''route.certificate is provision-time only and cannot be added, removed, or changed after gateway creation; delete and re-create the gateway to change certificate provisioning. PATCH replaces the whole route document, so keep certificate: {} unchanged when editing other route keys on an opted-in gateway''"

definition routeCertificate :: "json_codec \<Rightarrow> string option \<Rightarrow> json option \<times> bool" where
  "routeCertificate J route = (case route of
     None \<Rightarrow> (None, True)
   | Some text \<Rightarrow> (case jsonDecode J text of
       None \<Rightarrow> (None, False)
     | Some (JObj kv) \<Rightarrow> (case map_of kv ''certificate'' of
           None \<Rightarrow> (None, True)
         | Some JNull \<Rightarrow> (None, True)
         | Some cert \<Rightarrow> (Some cert, True))
     | Some _ \<Rightarrow> (None, True)))"

definition routeCertificateChanged :: "json_codec \<Rightarrow> string option \<Rightarrow> string option \<Rightarrow> bool" where
  "routeCertificateChanged J current next =
     (case routeCertificate J current of (currentCert, currentOK) \<Rightarrow>
      case routeCertificate J next of (nextCert, nextOK) \<Rightarrow>
        if \<not> currentOK \<or> \<not> nextOK then False
        else if (currentCert = None) \<noteq> (nextCert = None) then True
        else if currentCert = None then False
        else currentCert \<noteq> nextCert)"

abbreviation BadRequest :: "string \<Rightarrow> string list \<Rightarrow> err" where
  "BadRequest fmt args \<equiv> Svc KBadRequest fmt args None"

definition validateRouteCertificateShape :: "json_codec \<Rightarrow> string option \<Rightarrow> err option" where
  "validateRouteCertificateShape J route = (case route of
     None \<Rightarrow> None
   | Some text \<Rightarrow> (case jsonDecode J text of
       Some (JObj doc) \<Rightarrow> (case map_of doc ''certificate'' of
           None \<Rightarrow> None
         | Some JNull \<Rightarrow> None
         | Some cert \<Rightarrow>
             if (case cert of JObj kv \<Rightarrow> length kv > 0 | _ \<Rightarrow> True)
             then Some (BadRequest ''route.certificate accepts no fields: the certificate issuer is cluster infrastructure (GATEWAY_EXTERNAL_ISSUER on the control plane), never gateway input; write the opt-in as an empty object (\"certificate\": {})'' [])
             else (case map_of doc ''host'' of
                     None \<Rightarrow> None
                   | Some host \<Rightarrow>
                       if host \<noteq> JNull \<and> host \<noteq> JStr []
                       then Some (BadRequest ''route.host is not supported with route.certificate: a dedicated-certificate gateway uses the derived gw-<namespace> hostname'' [])
                       else None))
     | _ \<Rightarrow> None))"

section \<open>The write policy\<close>

datatype gatewayFieldClass = fieldUserWritable | fieldPlatformManaged | fieldObserved | fieldServerOwned

definition gatewayFieldOwnership :: "(string \<times> gatewayFieldClass) list" where
  "gatewayFieldOwnership =
     [(''name'', fieldUserWritable), (''cluster_id'', fieldUserWritable), (''placement'', fieldUserWritable),
      (''dedicated_route'', fieldUserWritable), (''external_dns'', fieldPlatformManaged),
      (''tls_mode'', fieldPlatformManaged), (''service_type'', fieldPlatformManaged),
      (''image'', fieldPlatformManaged), (''supervisor_image'', fieldPlatformManaged),
      (''server_dns_names'', fieldPlatformManaged), (''oidc'', fieldPlatformManaged),
      (''route'', fieldPlatformManaged), (''credential_driver'', fieldPlatformManaged),
      (''workspace_mode'', fieldPlatformManaged), (''status'', fieldObserved), (''phase'', fieldObserved),
      (''route_address'', fieldObserved), (''console_address'', fieldObserved),
      (''gateway_version'', fieldObserved), (''observed_generation'', fieldObserved),
      (''active_sandbox_count'', fieldObserved), (''provisioning_conditions'', fieldObserved),
      (''namespace'', fieldServerOwned), (''generation'', fieldServerOwned), (''repository_id'', fieldServerOwned)]"

definition gatewayCreateWorkloadViolation :: "Gateway \<Rightarrow> string" where
  "gatewayCreateWorkloadViolation g =
     (if gExternalDns g \<noteq> None then ''external_dns''
      else if gTlsMode g \<noteq> None then ''tls_mode''
      else if gServiceType g \<noteq> None then ''service_type''
      else if gImage g \<noteq> None then ''image''
      else if gSupervisorImage g \<noteq> None then ''supervisor_image''
      else if gServerDnsNames g \<noteq> None then ''server_dns_names''
      else if gOidc g \<noteq> None then ''oidc''
      else if gRoute g \<noteq> None then ''route''
      else if gCredentialDriver g \<noteq> None then ''credential_driver''
      else if gWorkspaceMode g \<noteq> None then ''workspace_mode''
      else [])"

definition gatewayUpdateViolation :: "json_codec \<Rightarrow> Gateway \<Rightarrow> Gateway \<Rightarrow> string" where
  "gatewayUpdateViolation J current incoming =
     (if gClusterId current \<noteq> gClusterId incoming then ''cluster_id''
      else if \<not> jsonEq J (gPlacement current) (gPlacement incoming) then ''placement''
      else if \<not> strEq (gExternalDns current) (gExternalDns incoming) then ''external_dns''
      else if \<not> strEq (gTlsMode current) (gTlsMode incoming) then ''tls_mode''
      else if \<not> strEq (gServiceType current) (gServiceType incoming) then ''service_type''
      else if \<not> strEq (gImage current) (gImage incoming) then ''image''
      else if \<not> strEq (gSupervisorImage current) (gSupervisorImage incoming) then ''supervisor_image''
      else if \<not> jsonEq J (gServerDnsNames current) (gServerDnsNames incoming) then ''server_dns_names''
      else if \<not> jsonEq J (gOidc current) (gOidc incoming) then ''oidc''
      else if \<not> jsonEq J (gRoute current) (gRoute incoming) then ''route''
      else if dedicatedRouteChanged (gDedicatedRoute current) (gDedicatedRoute incoming) then ''dedicated_route''
      else if \<not> jsonEq J (gCredentialDriver current) (gCredentialDriver incoming) then ''credential_driver''
      else if \<not> strEq (gWorkspaceMode current) (gWorkspaceMode incoming) then ''workspace_mode''
      else if \<not> strEq (gStatus current) (gStatus incoming) then ''status''
      else if \<not> strEq (gPhase current) (gPhase incoming) then ''phase''
      else if \<not> strEq (gRouteAddress current) (gRouteAddress incoming) then ''route_address''
      else if \<not> strEq (gConsoleAddress current) (gConsoleAddress incoming) then ''console_address''
      else if \<not> strEq (gGatewayVersion current) (gGatewayVersion incoming) then ''gateway_version''
      else if \<not> jsonEq J (gProvisioningConditions current) (gProvisioningConditions incoming) then ''provisioning_conditions''
      else if \<not> intPtrEq (gActiveSandboxCount current) (gActiveSandboxCount incoming) then ''active_sandbox_count''
      else if gObservedGeneration current \<noteq> gObservedGeneration incoming then ''observed_generation''
      else [])"

definition gatewayFieldForbidden :: "GatewayWriterKind \<Rightarrow> string \<Rightarrow> err" where
  "gatewayFieldForbidden kind field =
     Forbidden ''field %q is control-plane-managed and cannot be set by a %s caller'' [field, GatewayWriterKind_String kind]"

definition enforceGatewayFieldPolicyCreate :: "GatewayWriterKind \<Rightarrow> Gateway \<Rightarrow> err option" where
  "enforceGatewayFieldPolicyCreate kind incoming =
     (if Privileged kind then None
      else (let field = gatewayCreateWorkloadViolation incoming
            in if field \<noteq> [] then Some (gatewayFieldForbidden kind field) else None))"

definition enforceGatewayFieldPolicyUpdate :: "json_codec \<Rightarrow> GatewayWriterKind \<Rightarrow> Gateway \<Rightarrow> Gateway \<Rightarrow> err option" where
  "enforceGatewayFieldPolicyUpdate J kind current incoming =
     (if Privileged kind then None
      else (let field = gatewayUpdateViolation J current incoming
            in if field \<noteq> [] then Some (gatewayFieldForbidden kind field) else None))"

definition defaultGatewayWorkspaceMode :: string where
  "defaultGatewayWorkspaceMode = ''managed''"

definition gatewayWorkspaceModes :: "string list" where
  "gatewayWorkspaceModes = [''shared'', ''managed'', ''operator'']"

definition validateGatewayWorkspaceValue :: "string \<Rightarrow> err option" where
  "validateGatewayWorkspaceValue mode =
     (if list_ex (\<lambda>allowed. mode = allowed) gatewayWorkspaceModes then None
      else Some (Validation ''workspace_mode %q is not valid; allowed: %v'' (mode # gatewayWorkspaceModes)))"

definition blank :: "string option \<Rightarrow> bool" where
  "blank v = (case v of None \<Rightarrow> True | Some x \<Rightarrow> strings_TrimSpace x = [])"

definition applyGatewayWorkspaceCreateDefault :: "Gateway \<Rightarrow> err + Gateway" where
  "applyGatewayWorkspaceCreateDefault g =
     (if blank (gWorkspaceMode g) then Inr (g\<lparr>gWorkspaceMode := Some defaultGatewayWorkspaceMode\<rparr>)
      else (let trimmed = strings_TrimSpace (the (gWorkspaceMode g))
            in case validateGatewayWorkspaceValue trimmed of
                 Some svcErr \<Rightarrow> Inl svcErr
               | None \<Rightarrow> Inr (g\<lparr>gWorkspaceMode := Some trimmed\<rparr>)))"

definition enforceGatewayWorkspaceUpdateSemantics :: "Gateway \<Rightarrow> Gateway \<Rightarrow> err + Gateway" where
  "enforceGatewayWorkspaceUpdateSemantics current next =
     (if blank (gWorkspaceMode next) then Inr (next\<lparr>gWorkspaceMode := gWorkspaceMode current\<rparr>)
      else (let trimmed = strings_TrimSpace (the (gWorkspaceMode next))
            in case validateGatewayWorkspaceValue trimmed of
                 Some svcErr \<Rightarrow> Inl svcErr
               | None \<Rightarrow>
                   if gWorkspaceMode current \<noteq> Some trimmed
                   then Inl (Conflict ''workspace mode cannot be changed after the gateway is provisioned; recreate the gateway with the desired mode'' [])
                   else Inr (next\<lparr>gWorkspaceMode := Some trimmed\<rparr>)))"

section \<open>The credential driver\<close>

definition credentialDriverImmutableReason :: string where
  "credentialDriverImmutableReason = ''credential driver cannot be changed after the gateway is created; provider credentials stored in the current driver would be orphaned. Migrate credentials manually, then delete and re-create the gateway with the desired driver''"

text \<open>A driver document as an object, with the default type; a text that is not an object is an error.\<close>

definition effectiveCredentialDriver :: "json_codec \<Rightarrow> string option \<Rightarrow> err + (string \<times> json) list" where
  "effectiveCredentialDriver J raw =
     (let withType = (\<lambda>driver. case map_of driver ''type'' of
            Some (JStr t) \<Rightarrow> if strings_TrimSpace t = [] then (''type'', JStr ''vault'') # driver else driver
          | _ \<Rightarrow> (''type'', JStr ''vault'') # driver)
      in if blank raw \<or> strings_TrimSpace (the raw) = ''null'' then Inr (withType [])
         else (case jsonDecode J (the raw) of
                 Some (JObj kv) \<Rightarrow> Inr (withType kv)
               | Some JNull \<Rightarrow> Inr (withType [])
               | _ \<Rightarrow> Inl (Errorf ''json: cannot unmarshal into a map'' [])))"

text \<open>\<^verbatim>\<open>reflect.DeepEqual\<close> of two objects: the same value under every key.\<close>

definition sameObject :: "(string \<times> json) list \<Rightarrow> (string \<times> json) list \<Rightarrow> bool" where
  "sameObject a b \<longleftrightarrow> list_all (\<lambda>k. map_of a k = map_of b k) (map fst a @ map fst b)"

definition enforceGatewayCredentialDriverUpdateSemantics ::
  "json_codec \<Rightarrow> Gateway \<Rightarrow> Gateway \<Rightarrow> err + Gateway" where
  "enforceGatewayCredentialDriverUpdateSemantics J current next =
     (if blank (gCredentialDriver next) then Inr (next\<lparr>gCredentialDriver := gCredentialDriver current\<rparr>)
      else if strEq (gCredentialDriver current) (gCredentialDriver next) then Inr next
      else (case effectiveCredentialDriver J (gCredentialDriver next) of
              Inl err \<Rightarrow> Inl (Svc KValidation ''credential_driver is not a valid JSON object: %s'' [] (Some err))
            | Inr nextDriver \<Rightarrow>
                (case effectiveCredentialDriver J (gCredentialDriver current) of
                   Inl err \<Rightarrow> Inl (Conflict ''%s'' [credentialDriverImmutableReason])
                 | Inr currentDriver \<Rightarrow>
                     if \<not> sameObject currentDriver nextDriver then Inl (Conflict ''%s'' [credentialDriverImmutableReason])
                     else Inr (next\<lparr>gCredentialDriver := gCredentialDriver current\<rparr>))))"

section \<open>Provisioning conditions\<close>

definition conditionRank :: "string \<Rightarrow> nat" where
  "conditionRank status = (if status = ''InProgress'' then 1 else if status = ''Complete'' then 2 else 0)"

definition pickProvisioningCondition ::
  "provisioningCondition \<Rightarrow> provisioningCondition \<Rightarrow> provisioningCondition" where
  "pickProvisioningCondition current incoming =
     (if pcStatus incoming = ''Failed'' then incoming
      else if pcStatus current = ''Failed'' then incoming
      else if conditionRank (pcStatus incoming) \<ge> conditionRank (pcStatus current) then incoming
      else current)"

definition parseProvisioningConditions :: "json_codec \<Rightarrow> string option \<Rightarrow> provisioningCondition list \<times> bool" where
  "parseProvisioningConditions J raw = (case raw of
     None \<Rightarrow> ([], False)
   | Some text \<Rightarrow>
       if text = [] then ([], False)
       else (case condsDecode J text of
               None \<Rightarrow> ([], False)
             | Some conds \<Rightarrow> if length conds = 0 then ([], False) else (conds, True)))"

text \<open>The last condition of a type, as the map built from the list has it.\<close>

definition currentByType :: "provisioningCondition list \<Rightarrow> (string \<rightharpoonup> provisioningCondition)" where
  "currentByType conds = fold (\<lambda>c m. m(pcType c \<mapsto> c)) conds Map.empty"

definition mergeConditions ::
  "provisioningCondition list \<Rightarrow> provisioningCondition list \<Rightarrow> provisioningCondition list" where
  "mergeConditions currentConds incomingConds =
     map (\<lambda>inc. case currentByType currentConds (pcType inc) of
            Some cur \<Rightarrow> pickProvisioningCondition cur inc
          | None \<Rightarrow> inc) incomingConds @
     filter (\<lambda>cur. pcType cur \<notin> set (map pcType incomingConds)) currentConds"

definition mergeMonotonicProvisioningConditions ::
  "json_codec \<Rightarrow> string option \<Rightarrow> string option \<Rightarrow> string option" where
  "mergeMonotonicProvisioningConditions J current incoming =
     (case parseProvisioningConditions J incoming of
        (incomingConds, ok) \<Rightarrow>
          if \<not> ok then current
          else Some (condsEncode J (mergeConditions (fst (parseProvisioningConditions J current)) incomingConds)))"

section \<open>The table\<close>

text \<open>\<open>gtDeleteErr\<close> is the variable \<^verbatim>\<open>deleteErr\<close> that a running \<^verbatim>\<open>Delete\<close> shares with its callback.\<close>

record gworld =
  gtRows :: "Gateway list"
  gtEvents :: "(string \<times> event_type) list"
  gtDeleteErr :: "err option"
  gtDb :: db

text \<open>A program of the tables beside.\<close>

definition onDb :: "(db, 'a) prog \<Rightarrow> (gworld, 'a) prog" where
  "onDb m w = (case m (gtDb w) of (r, d) \<Rightarrow> (r, w\<lparr>gtDb := d\<rparr>))"

text \<open>A call that may fail, a query, a write: a failing write marks the transaction for rollback.\<close>

definition gcall :: "err \<Rightarrow> (gworld, unit) prog" where
  "gcall e = onDb (faulty e (\<lambda>d. (Inr (), d)))"

definition gquery :: "(gworld \<Rightarrow> 'a) \<Rightarrow> (gworld, 'a) prog" where
  "gquery q = andThen (gcall DriverError) (\<lambda>_ w. (Inr (q w), w))"

definition gtake :: "(gworld \<Rightarrow> 'a option) \<Rightarrow> (gworld, 'a) prog" where
  "gtake q = andThen (gquery q) (\<lambda>r. case r of None \<Rightarrow> fail RecordNotFound | Some x \<Rightarrow> ret x)"

definition markForRollback :: "gworld \<Rightarrow> gworld" where
  "markForRollback w = w\<lparr>gtDb := (gtDb w)\<lparr>dRollback := True\<rparr>\<rparr>"

definition gexec :: "(gworld, 'a) prog \<Rightarrow> (gworld, 'a) prog" where
  "gexec m w =
     (case andThen (gcall DriverError) (\<lambda>_. m) w of
        (Inl e, w1) \<Rightarrow> (Inl e, markForRollback w1)
      | (Inr x, w1) \<Rightarrow> (Inr x, w1))"

text \<open>
  A transaction of its own inside the request: a failure restores the rows and events, marks the
  request for rollback, and leaves the schedule of failures where it is.
\<close>

definition gtransaction :: "(gworld, 'a) prog \<Rightarrow> (gworld, 'a) prog" where
  "gtransaction m w =
     (case m w of
        (Inl e, w1) \<Rightarrow> (Inl e, markForRollback (w1\<lparr>gtRows := gtRows w, gtEvents := gtEvents w\<rparr>))
      | (Inr x, w1) \<Rightarrow> (Inr x, w1))"

definition liveGateways :: "gworld \<Rightarrow> Gateway list" where
  "liveGateways w = filter (\<lambda>g. \<not> gDeleted g) (gtRows w)"

definition gwDao_Get :: "string \<Rightarrow> (gworld, Gateway) prog" where [gateway_defs]:
  "gwDao_Get i = gtake (\<lambda>w. find (\<lambda>g. gID g = i) (liveGateways w))"

definition gwDao_GetUnscoped :: "string \<Rightarrow> (gworld, Gateway) prog" where [gateway_defs]:
  "gwDao_GetUnscoped i = gtake (\<lambda>w. find (\<lambda>g. gID g = i) (gtRows w))"

definition gwDao_ClusterIDByNamespace :: "string \<Rightarrow> (gworld, string) prog" where [gateway_defs]:
  "gwDao_ClusterIDByNamespace ns =
     andThen (gtake (\<lambda>w. find (\<lambda>g. gNamespace g = ns) (liveGateways w))) (\<lambda>g. ret (gClusterId g))"

text \<open>
  \<^verbatim>\<open>BeforeCreate\<close>: a new id, the namespace made of the first eight bytes of its payload, and the
  first generation. What the generator gives is the id and that text.
\<close>

abbreviation gatewayNamespacePrefix :: string where "gatewayNamespacePrefix \<equiv> ''openshell-''"

definition gw_BeforeCreate :: "(gworld \<Rightarrow> string \<times> string) \<Rightarrow> gworld \<Rightarrow> Gateway \<Rightarrow> Gateway" where
  "gw_BeforeCreate newID w g =
     g\<lparr>gID := fst (newID w), gNamespace := gatewayNamespacePrefix @ snd (newID w),
       gGeneration := 1, gObservedGeneration := 0\<rparr>"

definition gwDao_Create :: "(gworld \<Rightarrow> string \<times> string) \<Rightarrow> Gateway \<Rightarrow> (gworld, Gateway) prog" where [gateway_defs]:
  "gwDao_Create newID g = gexec (\<lambda>w.
     let row = (gw_BeforeCreate newID w g)\<lparr>gUpdatedAt := dClock (gtDb w), gDeleted := False\<rparr>
     in (Inr row, w\<lparr>gtRows := gtRows w @ [row]\<rparr>))"

text \<open>\<^verbatim>\<open>Save\<close> without the two columns that have writers of their own.\<close>

definition saveGateway :: "Gateway \<Rightarrow> Gateway list \<Rightarrow> Gateway list" where
  "saveGateway g gs =
     (if \<exists>x\<in>set gs. gID x = gID g
      then map (\<lambda>x. if gID x = gID g
                    then g\<lparr>gActiveSandboxCount := gActiveSandboxCount x, gGatewayVersion := gGatewayVersion x\<rparr>
                    else x) gs
      else gs @ [g\<lparr>gActiveSandboxCount := None, gGatewayVersion := None\<rparr>])"

definition gwDao_Replace :: "Gateway \<Rightarrow> (gworld, Gateway) prog" where [gateway_defs]:
  "gwDao_Replace g = gexec (\<lambda>w.
     let row = g\<lparr>gUpdatedAt := dClock (gtDb w)\<rparr>
     in (Inr row, w\<lparr>gtRows := saveGateway row (gtRows w)\<rparr>))"

definition gwDao_Delete :: "string \<Rightarrow> (gworld, unit) prog" where [gateway_defs]:
  "gwDao_Delete i = gexec (\<lambda>w.
     if i = [] then (Inl MissingWhereClause, w)
     else (Inr (), w\<lparr>gtRows := map (\<lambda>g. if gID g = i \<and> \<not> gDeleted g then g\<lparr>gDeleted := True\<rparr> else g) (gtRows w)\<rparr>))"

definition gwDao_FindByIDs :: "string list \<Rightarrow> (gworld, Gateway list) prog" where [gateway_defs]:
  "gwDao_FindByIDs ids = gquery (\<lambda>w. filter (\<lambda>g. gID g \<in> set ids) (liveGateways w))"

definition gwDao_All :: "(gworld, Gateway list) prog" where [gateway_defs]:
  "gwDao_All = gquery liveGateways"

definition gwDao_FindUnplaced :: "(gworld, Gateway list) prog" where [gateway_defs]:
  "gwDao_FindUnplaced = gquery (\<lambda>w. filter (\<lambda>g. gClusterId g = [] \<and> gPlacement g \<noteq> None) (liveGateways w))"

definition derefCount :: "int option \<Rightarrow> int" where
  "derefCount v = (case v of None \<Rightarrow> 0 | Some n \<Rightarrow> n)"

definition derefString :: "string option \<Rightarrow> string" where
  "derefString v = (case v of None \<Rightarrow> [] | Some s \<Rightarrow> s)"

text \<open>The event is a row of the events table and a notification, two statements that may fail.\<close>

definition emitGatewayEventTx :: "string \<Rightarrow> (gworld, unit) prog" where
  "emitGatewayEventTx i =
     andThen (gcall DriverError) (\<lambda>_. andThen (\<lambda>w. (Inr (), w\<lparr>gtEvents := gtEvents w @ [(i, UpdateEventType)]\<rparr>))
       (\<lambda>_. gcall DriverError))"

text \<open>
  \<^verbatim>\<open>UPDATE ... RETURNING\<close>: the rows of the condition are changed and the first of them is returned.
\<close>

definition updateReturning :: "(Gateway \<Rightarrow> bool) \<Rightarrow> (Gateway \<Rightarrow> Gateway) \<Rightarrow> (gworld, Gateway option) prog" where
  "updateReturning c f = andThen (gcall DriverError) (\<lambda>_ w.
     (Inr (map_option f (find c (gtRows w))), w\<lparr>gtRows := map (\<lambda>g. if c g then f g else g) (gtRows w)\<rparr>))"

definition execSandboxCount :: "string \<Rightarrow> (int option \<Rightarrow> int) \<Rightarrow> (gworld, int) prog" where
  "execSandboxCount ns value = gtransaction (
     andThen (updateReturning
         (\<lambda>g. gNamespace g = ns \<and> \<not> gDeleted g \<and> gActiveSandboxCount g \<noteq> Some (value (gActiveSandboxCount g)))
         (\<lambda>g. g\<lparr>gActiveSandboxCount := Some (value (gActiveSandboxCount g))\<rparr>)) (\<lambda>row.
       case row of
         Some g \<Rightarrow> andThen (emitGatewayEventTx (gID g)) (\<lambda>_. ret (derefCount (gActiveSandboxCount g)))
       | None \<Rightarrow> andThen (gquery (\<lambda>w. find (\<lambda>g. gNamespace g = ns) (liveGateways w))) (\<lambda>current.
           ret (case current of None \<Rightarrow> 0 | Some g \<Rightarrow> derefCount (gActiveSandboxCount g)))))"

definition gwDao_AdjustActiveSandboxCount :: "string \<Rightarrow> int \<Rightarrow> (gworld, int) prog" where [gateway_defs]:
  "gwDao_AdjustActiveSandboxCount ns delta = execSandboxCount ns (\<lambda>v. max 0 (derefCount v + delta))"

definition gwDao_SetActiveSandboxCount :: "string \<Rightarrow> int \<Rightarrow> (gworld, int) prog" where [gateway_defs]:
  "gwDao_SetActiveSandboxCount ns n = execSandboxCount ns (\<lambda>_. max 0 n)"

definition gwDao_SetGatewayVersion :: "string \<Rightarrow> string \<Rightarrow> (gworld, string) prog" where [gateway_defs]:
  "gwDao_SetGatewayVersion i version = gtransaction (
     andThen (\<lambda>w. updateReturning
         (\<lambda>g. gID g = i \<and> \<not> gDeleted g \<and> gGatewayVersion g \<noteq> Some version)
         (\<lambda>g. g\<lparr>gGatewayVersion := Some version, gUpdatedAt := dClock (gtDb w)\<rparr>) w) (\<lambda>row.
       case row of
         Some g \<Rightarrow> andThen (emitGatewayEventTx (gID g)) (\<lambda>_. ret (derefString (gGatewayVersion g)))
       | None \<Rightarrow> andThen (gquery (\<lambda>w. find (\<lambda>g. gID g = i) (liveGateways w))) (\<lambda>current.
           case current of None \<Rightarrow> fail RecordNotFound | Some g \<Rightarrow> ret (derefString (gGatewayVersion g)))))"

section \<open>The service\<close>

text \<open>
  What is wired into the service: the cleaner of the role bindings of a gateway, the cleaner of its
  service accounts, which runs the deletion of the row inside, and the generator of ids.
\<close>

record gw_service =
  svcCodec :: json_codec
  svcNewID :: "gworld \<Rightarrow> string \<times> string"
  svcBindingCleaner :: "(string \<Rightarrow> (gworld, unit) prog) option"
  svcDeletionCleaner :: "(string \<Rightarrow> (gworld, unit) prog \<Rightarrow> (gworld, unit) prog) option"

definition gEvents_Create :: "string \<Rightarrow> event_type \<Rightarrow> (gworld, unit) prog" where [gateway_defs]:
  "gEvents_Create i t = andThen (gcall EventFailed) (\<lambda>_ w. (Inr (), w\<lparr>gtEvents := gtEvents w @ [(i, t)]\<rparr>))"

definition gwWithLock :: "string \<Rightarrow> (gworld, 'a) prog \<Rightarrow> (gworld, 'a) prog" where
  "gwWithLock i body =
     andThen (mapErr (Handled ''DatabaseAdvisoryLock'' []) (onDb (acquireLock i)))
       (\<lambda>_ w. case body w of (r, w1) \<Rightarrow> (r, w1\<lparr>gtDb := releaseLock i (gtDb w1)\<rparr>))"

definition liftErr :: "err + 'a \<Rightarrow> (gworld, 'a) prog" where
  "liftErr r = (case r of Inl e \<Rightarrow> fail e | Inr x \<Rightarrow> ret x)"

definition gwService_Get :: "string \<Rightarrow> (gworld, Gateway) prog" where
  "gwService_Get i = mapErr (Handled ''HandleGetError'' [''Gateway'', ''id'', i]) (gwDao_Get i)"

definition gwService_GetUnscoped :: "string \<Rightarrow> (gworld, Gateway) prog" where
  "gwService_GetUnscoped i = mapErr (Handled ''HandleGetError'' [''Gateway'', ''id'', i]) (gwDao_GetUnscoped i)"

definition dedicatedRouteCertificateJSON :: string where
  "dedicatedRouteCertificateJSON = ''{\"enabled\":true,\"certificate\":{}}''"

definition dedicatedRouteImportForbiddenReason :: string where
  "dedicatedRouteImportForbiddenReason = ''dedicated_route cannot be requested by an import caller: the '' @ RoleGatewayDedicatedRouteCreator @ '' entitlement is granted per user, and a declarative import is authored by a Repository rather than by a user who can hold it; create the gateway directly (hsctl or the web console) to request a dedicated route''"

definition dedicatedRouteImmutableReason :: string where
  "dedicatedRouteImmutableReason = ''dedicated_route is create-only and cannot be added, removed, or changed after gateway creation; delete and re-create the gateway to change dedicated route and certificate provisioning''"

definition dedicatedRouteForbiddenReason :: string where
  "dedicatedRouteForbiddenReason = ''dedicated_route requires the '' @ RoleGatewayDedicatedRouteCreator @ '' role (platform:admin also qualifies): a dedicated per-gateway route and certificate is a rate-limited resource, so it is not granted to every gateway:creator''"

definition applyGatewayDedicatedRouteCreateRequest :: "GatewayWriterKind \<Rightarrow> Gateway \<Rightarrow> err + Gateway" where
  "applyGatewayDedicatedRouteCreateRequest kind g =
     (if \<not> dedicatedRouteRequested (gDedicatedRoute g) then Inr g
      else if kind = GatewayWriterImport then Inl (Forbidden ''%s'' [dedicatedRouteImportForbiddenReason])
      else if gRoute g = None then Inr (g\<lparr>gRoute := Some dedicatedRouteCertificateJSON\<rparr>)
      else Inr g)"

definition gwService_Create :: "gw_service \<Rightarrow> ctx \<Rightarrow> Gateway \<Rightarrow> (gworld, Gateway) prog" where
  "gwService_Create s c g =
     (let kind = GatewayWriterKindFromContext c in
      andThen (guardErr (enforceGatewayFieldPolicyCreate kind g)) (\<lambda>_.
      andThen (liftErr (applyGatewayDedicatedRouteCreateRequest kind g)) (\<lambda>g1.
      andThen (guardErr (validateRouteCertificateShape (svcCodec s) (gRoute g1))) (\<lambda>_.
      andThen (liftErr (applyGatewayWorkspaceCreateDefault g1)) (\<lambda>g2.
      andThen (mapErr (Handled ''HandleCreateError'' [''Gateway'']) (gwDao_Create (svcNewID s) g2)) (\<lambda>row.
      andThen (mapErr (Handled ''HandleCreateError'' [''Gateway'']) (gEvents_Create (gID row) CreateEventType)) (\<lambda>_.
        ret row)))))))"

text \<open>The checks and the new values of \<^verbatim>\<open>Replace\<close>, from the stored record and the given one.\<close>

definition replaceChecked :: "json_codec \<Rightarrow> GatewayWriterKind \<Rightarrow> Gateway \<Rightarrow> Gateway \<Rightarrow> err + Gateway" where
  "replaceChecked J kind current g =
     (if routeCertificateChanged J (gRoute current) (gRoute g)
      then Inl (Conflict ''%s'' [routeCertificateImmutableReason])
      else if dedicatedRouteChanged (gDedicatedRoute current) (gDedicatedRoute g)
      then Inl (Conflict ''%s'' [dedicatedRouteImmutableReason])
      else (case validateRouteCertificateShape J (gRoute g) of
              Some svcErr \<Rightarrow> Inl svcErr
            | None \<Rightarrow>
          (case enforceGatewayFieldPolicyUpdate J kind current g of
             Some svcErr \<Rightarrow> Inl svcErr
           | None \<Rightarrow>
          (case enforceGatewayWorkspaceUpdateSemantics current g of
             Inl svcErr \<Rightarrow> Inl svcErr
           | Inr g1 \<Rightarrow>
          (case enforceGatewayCredentialDriverUpdateSemantics J current g1 of
             Inl svcErr \<Rightarrow> Inl svcErr
           | Inr g2 \<Rightarrow> Inr g2)))))"

definition replaceGeneration :: "json_codec \<Rightarrow> Gateway \<Rightarrow> Gateway \<Rightarrow> err + Gateway" where
  "replaceGeneration J current g =
     (let changed = desiredStateChanged J current g;
          newGeneration = (if changed then gGeneration current + 1 else gGeneration current);
          g1 = g\<lparr>gProvisioningConditions := (if changed then None
                   else mergeMonotonicProvisioningConditions J (gProvisioningConditions current) (gProvisioningConditions g)),
                 gGeneration := newGeneration\<rparr>
      in if gObservedGeneration g1 \<noteq> gObservedGeneration current \<and>
            (gObservedGeneration g1 < gObservedGeneration current \<or> gObservedGeneration g1 > newGeneration)
         then Inl (BadRequest ''observed_generation %d out of range [%d, %d]'' [])
         else Inr g1)"

definition gwService_Replace :: "gw_service \<Rightarrow> ctx \<Rightarrow> Gateway \<Rightarrow> (gworld, Gateway) prog" where
  "gwService_Replace s c g = gwWithLock (gID g) (
     andThen (mapErr (Handled ''HandleGetError'' [''Gateway'', ''id'', gID g]) (gwDao_Get (gID g))) (\<lambda>current.
     andThen (liftErr (replaceChecked (svcCodec s) (GatewayWriterKindFromContext c) current g)) (\<lambda>g1.
     andThen (liftErr (replaceGeneration (svcCodec s) current g1)) (\<lambda>g2.
     andThen (mapErr (Handled ''HandleUpdateError'' [''Gateway'']) (gwDao_Replace g2)) (\<lambda>row.
     andThen (mapErr (Handled ''HandleUpdateError'' [''Gateway'']) (gEvents_Create (gID row) UpdateEventType)) (\<lambda>_.
       ret row))))))"

definition gwService_AdjustActiveSandboxCount :: "string \<Rightarrow> int \<Rightarrow> (gworld, int) prog" where
  "gwService_AdjustActiveSandboxCount ns delta =
     mapErr (Handled ''HandleUpdateError'' [''Gateway'']) (gwDao_AdjustActiveSandboxCount ns delta)"

definition gwService_SetActiveSandboxCount :: "string \<Rightarrow> int \<Rightarrow> (gworld, int) prog" where
  "gwService_SetActiveSandboxCount ns n =
     mapErr (Handled ''HandleUpdateError'' [''Gateway'']) (gwDao_SetActiveSandboxCount ns n)"

definition gwService_SetGatewayVersion :: "string \<Rightarrow> string \<Rightarrow> (gworld, string) prog" where
  "gwService_SetGatewayVersion i version =
     mapErr (\<lambda>e. if e = RecordNotFound then Handled ''HandleGetError'' [''Gateway'', ''id'', i] e
                 else Handled ''HandleUpdateError'' [''Gateway''] e) (gwDao_SetGatewayVersion i version)"

text \<open>
  The deletion of the row runs inside the cleaner of the service accounts; its own failure is told
  apart from the cleaner's by the variable it sets.
\<close>

definition cleanBeforeDeletion :: "gw_service \<Rightarrow> string \<Rightarrow> (gworld, unit) prog \<Rightarrow> (gworld, unit) prog" where
  "cleanBeforeDeletion s i finalize = (case svcDeletionCleaner s of
     None \<Rightarrow> finalize
   | Some cleaner \<Rightarrow> cleaner i finalize)"

definition finalizeDelete :: "string \<Rightarrow> (gworld, unit) prog" where
  "finalizeDelete i w = (case gwDao_Delete i w of
     (Inl e, w1) \<Rightarrow> (Inl e, w1\<lparr>gtDeleteErr := Some e\<rparr>)
   | (Inr u, w1) \<Rightarrow> (Inr u, w1\<lparr>gtDeleteErr := None\<rparr>))"

definition deleteRow :: "gw_service \<Rightarrow> string \<Rightarrow> (gworld, unit) prog" where
  "deleteRow s i w = (case cleanBeforeDeletion s i (finalizeDelete i) (w\<lparr>gtDeleteErr := None\<rparr>) of
     (Inl e, w1) \<Rightarrow> (case gtDeleteErr w1 of
         Some deleteErr \<Rightarrow> (Inl (Handled ''HandleDeleteError'' [''Gateway''] (GeneralError ''Unable to delete gateway: %s'' deleteErr)), w1)
       | None \<Rightarrow> (Inl (Svc KUnavailable ''gateway service-account cleanup is unavailable'' [] None), w1))
   | (Inr u, w1) \<Rightarrow> (Inr u, w1))"

definition cleanBindings :: "gw_service \<Rightarrow> string \<Rightarrow> (gworld, unit) prog" where
  "cleanBindings s i = (case svcBindingCleaner s of
     None \<Rightarrow> ret ()
   | Some cleaner \<Rightarrow> (\<lambda>w. case cleaner i w of
       (Inl svcErr, w1) \<Rightarrow> (Inl svcErr, markForRollback w1)
     | (Inr u, w1) \<Rightarrow> (Inr u, w1)))"

definition gwService_Delete :: "gw_service \<Rightarrow> string \<Rightarrow> (gworld, unit) prog" where
  "gwService_Delete s i =
     andThen (gwService_Get i) (\<lambda>_.
     andThen (deleteRow s i) (\<lambda>_.
     andThen (cleanBindings s i) (\<lambda>_.
     mapErr (Handled ''HandleDeleteError'' [''Gateway'']) (gEvents_Create i DeleteEventType))))"

definition gwService_ClusterIDByNamespace :: "string \<Rightarrow> (gworld, string \<times> bool) prog" where
  "gwService_ClusterIDByNamespace ns = andThen (attempt (gwDao_ClusterIDByNamespace ns)) (\<lambda>r. case r of
     Inl e \<Rightarrow> if e = RecordNotFound then ret ([], False)
              else fail (Svc KGeneral ''Unable to look up the gateway in namespace %s: %s'' [ns] (Some e))
   | Inr clusterID \<Rightarrow> ret (clusterID, True))"

definition gwService_FindByIDs :: "string list \<Rightarrow> (gworld, Gateway list) prog" where
  "gwService_FindByIDs ids = mapErr (GeneralError ''Unable to get all gateways: %s'') (gwDao_FindByIDs ids)"

definition gwService_FindUnplaced :: "(gworld, Gateway list) prog" where
  "gwService_FindUnplaced = mapErr (GeneralError ''Unable to list unplaced gateways: %s'') gwDao_FindUnplaced"

definition gwService_All :: "(gworld, Gateway list) prog" where
  "gwService_All = mapErr (GeneralError ''Unable to get all gateways: %s'') gwDao_All"

text \<open>The cleaner of the role bindings as the plugin wires it: the service's \<open>DeleteGatewayBindings\<close>.\<close>

definition bindingCleaner :: "string \<Rightarrow> (gworld, unit) prog" where
  "bindingCleaner i = onDb (andThen (DeleteGatewayBindings i) (\<lambda>_. ret ()))"

section \<open>The entitlement to a dedicated route\<close>

record dedicatedRouteAuthorizer =
  draLookup :: "(string \<Rightarrow> (gworld, BindingSummary list) prog) option"
  draEnforce :: bool

definition authorizeCreate :: "dedicatedRouteAuthorizer \<Rightarrow> ctx \<Rightarrow> bool option \<Rightarrow> (gworld, unit) prog" where
  "authorizeCreate a c requested =
     (if \<not> dedicatedRouteRequested requested then ret ()
      else if \<not> draEnforce a then ret ()
      else if GatewayWriterKindFromContext c \<noteq> GatewayWriterUser then ret ()
      else (let userID = GetUserIDFromContext c in
        case draLookup a of
          None \<Rightarrow> fail (Forbidden ''%s'' [dedicatedRouteForbiddenReason])
        | Some FindBindings \<Rightarrow>
            if userID = [] then fail (Forbidden ''%s'' [dedicatedRouteForbiddenReason])
            else andThen (mapErr (\<lambda>e. Svc KGeneral ''failed to look up the role bindings of user %s: %s'' [userID] (Some e))
                            (FindBindings userID)) (\<lambda>bindings.
                 if CanRequestGatewayDedicatedRoute bindings then ret ()
                 else fail (Forbidden ''%s'' [dedicatedRouteForbiddenReason]))))"

section \<open>Placement\<close>

record PlacementCandidate =
  candID :: string
  candCapabilities :: "string list"
  candConnected :: bool

abbreviation managedClusterConnectedMaxAge :: int where "managedClusterConnectedMaxAge \<equiv> 300000000000"

definition PlacementControlPlaneConnected :: "int option \<Rightarrow> int \<Rightarrow> bool" where
  "PlacementControlPlaneConnected lastSeen now = (case lastSeen of
     None \<Rightarrow> False
   | Some seen \<Rightarrow> (let age = now - seen in age \<ge> 0 \<and> age < managedClusterConnectedMaxAge))"

definition capabilitySetContains :: "string list \<Rightarrow> string list \<Rightarrow> bool" where
  "capabilitySetContains capabilities selector = list_all (\<lambda>label. label \<in> set capabilities) selector"

definition capabilitySetExcludes :: "string list \<Rightarrow> string list \<Rightarrow> bool" where
  "capabilitySetExcludes capabilities excluded = list_all (\<lambda>label. label \<notin> set capabilities) excluded"

definition eligiblePlacementCandidates :: "placementIntent \<Rightarrow> PlacementCandidate list \<Rightarrow> PlacementCandidate list" where
  "eligiblePlacementCandidates intent candidates =
     filter (\<lambda>c. candConnected c \<and> capabilitySetContains (candCapabilities c) (piSelector intent) \<and>
       capabilitySetExcludes (candCapabilities c) (piExcluded intent)) candidates"

definition errNoEligiblePlacement :: err where
  "errNoEligiblePlacement = Errorf ''no eligible placement is available'' []"

definition resolvePlacement ::
  "placementIntent \<Rightarrow> PlacementCandidate list \<Rightarrow> (nat \<Rightarrow> err + int) \<Rightarrow> err + string" where
  "resolvePlacement intent candidates selectIndex =
     (let eligible = eligiblePlacementCandidates intent candidates in
      if length eligible = 0 then Inl errNoEligiblePlacement
      else (case selectIndex (length eligible) of
              Inl err \<Rightarrow> Inl err
            | Inr index \<Rightarrow>
                if index < 0 \<or> index \<ge> int (length eligible)
                then Inl (Errorf ''placement selector returned invalid index %d'' [])
                else Inr (candID (eligible ! nat index))))"

definition storedPlacementToIntent :: "json_codec \<Rightarrow> string option \<Rightarrow> placementIntent option" where
  "storedPlacementToIntent J stored = (case stored of
     None \<Rightarrow> None
   | Some text \<Rightarrow>
       if text = [] then None
       else (case placementDecode J text of
               None \<Rightarrow> None
             | Some parsed \<Rightarrow> if length (piSelector parsed) = 0 then None else Some parsed))"

text \<open>A resolver gives the selected cluster, nothing while none is eligible, or an error.\<close>

type_synonym placementResolver = "placementIntent \<Rightarrow> (gworld, string option) prog"

definition rebindGateway :: "gw_service \<Rightarrow> ctx \<Rightarrow> placementResolver \<Rightarrow> Gateway \<Rightarrow> (gworld, unit) prog" where
  "rebindGateway s c resolve g = (case storedPlacementToIntent (svcCodec s) (gPlacement g) of
     None \<Rightarrow> ret ()
   | Some intent \<Rightarrow>
       andThen (attempt (resolve intent)) (\<lambda>r. case r of
         Inl resolveErr \<Rightarrow> ret ()
       | Inr None \<Rightarrow> ret ()
       | Inr (Some clusterID) \<Rightarrow>
           andThen (attempt (gwService_Replace s c (g\<lparr>gClusterId := clusterID, gStatus := None\<rparr>))) (\<lambda>_. ret ())))"

definition resolvePendingPlacements ::
  "gw_service option \<Rightarrow> ctx \<Rightarrow> placementResolver option \<Rightarrow> (gworld, unit) prog" where
  "resolvePendingPlacements svc c resolver = (case svc of
     None \<Rightarrow> ret ()
   | Some s \<Rightarrow> (case resolver of
       None \<Rightarrow> ret ()
     | Some resolve \<Rightarrow>
         (let c1 = WithGatewayWriterKind c GatewayWriterControlPlane in
          andThen (mapErr (Wrapped ''list unplaced gateways: %w'' []) gwService_FindUnplaced) (\<lambda>gateways.
            forEach (rebindGateway s c1 resolve) gateways))))"

definition validateClusterReference ::
  "(string \<Rightarrow> (gworld, bool) prog) option \<Rightarrow> string \<Rightarrow> (gworld, unit) prog" where
  "validateClusterReference lookup clusterID =
     (if strings_TrimSpace clusterID = [] then
        fail (Validation ''cluster_id is required: a gateway must reference a registered ManagedCluster (discover it by name from GET /api/hypershell/v1/managed_clusters)'' [])
      else (case lookup of
        None \<Rightarrow> fail (Svc KGeneral ''managed cluster registry is not available to validate cluster_id'' [] None)
      | Some isRegistered \<Rightarrow> andThen (isRegistered clusterID) (\<lambda>registered.
          if registered then ret ()
          else fail (Validation ''cluster_id %q does not reference a ManagedCluster with a registered control plane; gateways assigned to it would never be reconciled'' [clusterID]))))"

section \<open>Running the table operations\<close>

lemma gcall_cases:
  obtains (failed) fs where "gcall e w = (Inl e, w\<lparr>gtDb := (gtDb w)\<lparr>dFaults := fs\<rparr>\<rparr>)"
  | (worked) fs where "gcall e w = (Inr (), w\<lparr>gtDb := (gtDb w)\<lparr>dFaults := fs\<rparr>\<rparr>)"
  by (cases "gtDb w" rule: faulty_cases [of e "\<lambda>d. (Inr (), d)"]) (auto simp: gcall_def onDb_def)

text \<open>What a call, a lock or a rollback mark never changes: rows, events, and the tables beside.\<close>

definition sameTables :: "gworld \<Rightarrow> gworld \<Rightarrow> bool" where
  "sameTables w w1 \<longleftrightarrow> gtRows w1 = gtRows w \<and> gtEvents w1 = gtEvents w \<and>
     dBindings (gtDb w1) = dBindings (gtDb w) \<and> dRoles (gtDb w1) = dRoles (gtDb w) \<and> dUsers (gtDb w1) = dUsers (gtDb w)"

lemma sameTables_refl [simp]: "sameTables w w"
  by (simp add: sameTables_def)

lemma sameTables_trans: "sameTables w w1 \<Longrightarrow> sameTables w1 w2 \<Longrightarrow> sameTables w w2"
  by (simp add: sameTables_def)

lemma gcall_same: "gcall e w = (r, w1) \<Longrightarrow> sameTables w w1"
  by (cases rule: gcall_cases [of e w]) (auto simp: sameTables_def)

lemma gquery_success: "gquery q w = (Inr x, w1) \<Longrightarrow> \<exists>w0. sameTables w w0 \<and> x = q w0 \<and> w1 = w0"
  unfolding gquery_def by (auto elim!: andThen_successE dest!: gcall_same)

lemma gtake_success:
  assumes "gtake q w = (Inr x, w1)"
  shows "sameTables w w1 \<and> q w1 = Some x"
  using assms unfolding gtake_def
  by (auto elim!: andThen_successE dest!: gquery_success split: option.splits)

lemma liveGateways_same: "sameTables w w1 \<Longrightarrow> liveGateways w1 = liveGateways w"
  by (simp add: sameTables_def liveGateways_def)

lemma gexec_success:
  assumes "gexec m w = (Inr x, w1)"
  shows "\<exists>w0. sameTables w w0 \<and> m w0 = (Inr x, w1)"
  using assms unfolding gexec_def
  by (auto split: prod.splits sum.splits elim!: andThen_successE dest!: gcall_same)

lemma gEvents_Create_success:
  assumes "gEvents_Create i t w = (Inr u, w1)"
  shows "\<exists>w0. sameTables w w0 \<and> w1 = w0\<lparr>gtEvents := gtEvents w0 @ [(i, t)]\<rparr>"
  using assms unfolding gEvents_Create_def by (auto elim!: andThen_successE dest!: gcall_same)

lemma liftErr_success [simp]: "liftErr r w = (Inr x, w1) \<longleftrightarrow> r = Inr x \<and> w1 = w"
  by (cases r) (auto simp: liftErr_def)

lemma gwWithLock_success:
  assumes "gwWithLock i body w = (Inr x, w')"
  shows "\<exists>w0 w1. sameTables w w0 \<and> body w0 = (Inr x, w1) \<and> sameTables w1 w'"
proof -
  from assms obtain w0 where lock: "onDb (acquireLock i) w = (Inr (), w0)"
    and body: "(case body w0 of (r, w1) \<Rightarrow> (r, w1\<lparr>gtDb := releaseLock i (gtDb w1)\<rparr>)) = (Inr x, w')"
    unfolding gwWithLock_def by (auto elim!: andThen_successE)
  have "sameTables w w0" using lock
    by (cases "gtDb w" rule: faulty_cases [of LockFailed "\<lambda>d. (Inr (), d\<lparr>dLocks := i # dLocks d\<rparr>)"])
      (auto simp: onDb_def acquireLock_def sameTables_def)
  moreover from body obtain w1 where "body w0 = (Inr x, w1)" "w' = w1\<lparr>gtDb := releaseLock i (gtDb w1)\<rparr>"
    by (auto split: prod.splits)
  ultimately show ?thesis by (auto simp: sameTables_def releaseLock_def)
qed

text \<open>A successful \<^verbatim>\<open>Replace\<close>: the stored record, what the checks made of the given one, and the new table.\<close>

lemma Replace_success:
  assumes "gwService_Replace s c g w = (Inr row, w')"
  obtains current g1 g2 now where
    "find (\<lambda>x. gID x = gID g) (liveGateways w) = Some current"
    "replaceChecked (svcCodec s) (GatewayWriterKindFromContext c) current g = Inr g1"
    "replaceGeneration (svcCodec s) current g1 = Inr g2" "row = g2\<lparr>gUpdatedAt := now\<rparr>"
    "gtRows w' = saveGateway row (gtRows w)" "gtEvents w' = gtEvents w @ [(gID row, UpdateEventType)]"
proof -
  from gwWithLock_success [OF assms [unfolded gwService_Replace_def]]
  obtain w0 w1 where lock: "sameTables w w0" "sameTables w1 w'"
    and body: "andThen (mapErr (Handled ''HandleGetError'' [''Gateway'', ''id'', gID g]) (gwDao_Get (gID g))) (\<lambda>current.
     andThen (liftErr (replaceChecked (svcCodec s) (GatewayWriterKindFromContext c) current g)) (\<lambda>g1.
     andThen (liftErr (replaceGeneration (svcCodec s) current g1)) (\<lambda>g2.
     andThen (mapErr (Handled ''HandleUpdateError'' [''Gateway'']) (gwDao_Replace g2)) (\<lambda>row.
     andThen (mapErr (Handled ''HandleUpdateError'' [''Gateway'']) (gEvents_Create (gID row) UpdateEventType)) (\<lambda>_.
       ret row))))) w0 = (Inr row, w1)"
    by (elim exE conjE) (rule that)
  from body obtain current w2 g1 g2 w3 where
    get: "gwDao_Get (gID g) w0 = (Inr current, w2)"
    and checks: "replaceChecked (svcCodec s) (GatewayWriterKindFromContext c) current g = Inr g1"
      "replaceGeneration (svcCodec s) current g1 = Inr g2"
    and rep: "gwDao_Replace g2 w2 = (Inr row, w3)"
    and ev: "gEvents_Create (gID row) UpdateEventType w3 = (Inr (), w1)"
    by (auto elim!: andThen_successE)
  from get have 1: "sameTables w0 w2" "find (\<lambda>x. gID x = gID g) (liveGateways w2) = Some current"
    by (auto simp: gwDao_Get_def dest: gtake_success)
  from rep obtain w4 where 2: "sameTables w2 w4" "row = g2\<lparr>gUpdatedAt := dClock (gtDb w4)\<rparr>"
    "w3 = w4\<lparr>gtRows := saveGateway row (gtRows w4)\<rparr>"
    by (auto simp: gwDao_Replace_def Let_def dest!: gexec_success)
  from gEvents_Create_success [OF ev] obtain w5 where 3: "sameTables w3 w5"
    "w1 = w5\<lparr>gtEvents := gtEvents w5 @ [(gID row, UpdateEventType)]\<rparr>" by blast
  from lock(1) 1(1) have "sameTables w w2" by (rule sameTables_trans)
  with 1(2) have cur: "find (\<lambda>x. gID x = gID g) (liveGateways w) = Some current" by (simp add: liveGateways_same)
  show ?thesis
  proof (rule that [OF cur checks 2(2)])
    show "gtRows w' = saveGateway row (gtRows w)" "gtEvents w' = gtEvents w @ [(gID row, UpdateEventType)]"
      using \<open>sameTables w w2\<close> 2 3 lock(2) by (auto simp: sameTables_def)
  qed
qed

section \<open>Properties of every path\<close>

text \<open>
  What a property of every path through the service needs: it is kept whenever the rows stay as
  they are.
\<close>

locale gw_order = step_order R for R :: "gworld \<Rightarrow> gworld \<Rightarrow> bool" +
  assumes same_rows: "gtRows w1 = gtRows w \<Longrightarrow> R w w1"
begin

lemma run_at: "steps R m \<Longrightarrow> R w (snd (m w))"
  by (simp add: steps_def)

lemma run_onDb: "steps R (onDb m)"
  by (auto simp: steps_def onDb_def split: prod.split intro!: same_rows)

lemma run_gcall [intro]: "steps R (gcall e)"
  unfolding gcall_def by (rule run_onDb)

lemma run_state [intro]: "(\<And>w. gtRows (h w) = gtRows w) \<Longrightarrow> steps R (\<lambda>w. (r w, h w))"
  by (simp add: steps_def same_rows)

lemma run_gquery [intro]: "steps R (gquery q)"
  unfolding gquery_def by (auto intro!: steps_andThen)

lemma run_gtake [intro]: "steps R (gtake q)"
  unfolding gtake_def by (auto intro!: steps_andThen split: option.split)

lemma run_mark: "R w w1 \<Longrightarrow> R w (markForRollback w1)"
  by (rule trans) (auto simp: markForRollback_def intro: same_rows)

lemma run_gexec: "steps R m \<Longrightarrow> steps R (gexec m)"
  unfolding steps_def gexec_def
proof
  fix w assume m: "\<forall>w. R w (snd (m w))"
  then have "steps R (andThen (gcall DriverError) (\<lambda>_. m))"
    by (intro steps_andThen) (auto simp: steps_def run_at [OF run_gcall])
  from run_at [OF this, of w] show "R w (snd (case andThen (gcall DriverError) (\<lambda>_. m) w of
      (Inl e, w1) \<Rightarrow> (Inl e, markForRollback w1) | (Inr x, w1) \<Rightarrow> (Inr x, w1)))"
    by (auto split: prod.splits sum.splits intro: run_mark)
qed

lemma run_gtransaction:
  assumes "steps R m"
  shows "steps R (gtransaction m)"
  unfolding steps_def
proof
  fix w
  obtain r w1 where m: "m w = (r, w1)" by force
  with run_at [OF assms, of w] show "R w (snd (gtransaction m w))"
    by (cases r) (auto simp: gtransaction_def markForRollback_def intro!: same_rows [of _ w])
qed

lemma run_liftErr [intro]: "steps R (liftErr r)"
  by (cases r) (simp_all add: liftErr_def)

lemma run_event [intro]: "steps R (gEvents_Create i t)"
  unfolding gEvents_Create_def by (auto intro!: steps_andThen run_state)

lemma run_emit [intro]: "steps R (emitGatewayEventTx i)"
  unfolding emitGatewayEventTx_def by (auto intro!: steps_andThen run_state)

lemma run_withLock: "steps R body \<Longrightarrow> steps R (gwWithLock i body)"
  unfolding gwWithLock_def
proof (intro steps_andThen steps_mapErr run_onDb)
  fix u assume body: "steps R body"
  show "steps R (\<lambda>w. case body w of (r, w1) \<Rightarrow> (r, w1\<lparr>gtDb := releaseLock i (gtDb w1)\<rparr>))"
    unfolding steps_def
  proof
    fix w
    obtain r w1 where b: "body w = (r, w1)" by force
    have "R w1 (w1\<lparr>gtDb := releaseLock i (gtDb w1)\<rparr>)" by (rule same_rows) simp
    with b run_at [OF body, of w] have "R w (w1\<lparr>gtDb := releaseLock i (gtDb w1)\<rparr>)"
      by (auto intro: trans)
    with b show "R w (snd (case body w of (r, w1) \<Rightarrow> (r, w1\<lparr>gtDb := releaseLock i (gtDb w1)\<rparr>)))" by simp
  qed
qed

end

section \<open>What the checks leave\<close>

lemma strEq_iff [simp]: "strEq a b \<longleftrightarrow> a = b"
  by (auto simp: strEq_def split: option.splits)

lemma intPtrEq_iff [simp]: "intPtrEq a b \<longleftrightarrow> a = b"
  by (auto simp: intPtrEq_def split: option.splits)

lemma jsonEq_refl [simp]: "jsonEq J a a"
  by (auto simp: jsonEq_def split: option.splits)

lemma workspaceUpdate_success:
  assumes "enforceGatewayWorkspaceUpdateSemantics current g = Inr g1"
  shows "g1 = g\<lparr>gWorkspaceMode := gWorkspaceMode current\<rparr>"
  using assms by (auto simp: enforceGatewayWorkspaceUpdateSemantics_def Let_def split: if_splits option.splits)

lemma credentialUpdate_success:
  assumes "enforceGatewayCredentialDriverUpdateSemantics J current g = Inr g1"
  shows "g1 = g\<lparr>gCredentialDriver := gCredentialDriver current\<rparr>"
  using assms
  by (auto simp: enforceGatewayCredentialDriverUpdateSemantics_def split: if_splits sum.splits)

lemma replaceChecked_success:
  assumes "replaceChecked J kind current g = Inr g1"
  shows "g1 = g\<lparr>gWorkspaceMode := gWorkspaceMode current, gCredentialDriver := gCredentialDriver current\<rparr>"
    and "enforceGatewayFieldPolicyUpdate J kind current g = None"
    and "\<not> routeCertificateChanged J (gRoute current) (gRoute g)"
    and "\<not> dedicatedRouteChanged (gDedicatedRoute current) (gDedicatedRoute g)"
    and "validateRouteCertificateShape J (gRoute g) = None"
  using assms
  by (auto simp: replaceChecked_def dest!: workspaceUpdate_success credentialUpdate_success
      split: if_splits option.splits sum.splits)

lemma replaceGeneration_success:
  assumes "replaceGeneration J current g = Inr g1"
  shows "g1 = g\<lparr>gProvisioningConditions := (if desiredStateChanged J current g then None
             else mergeMonotonicProvisioningConditions J (gProvisioningConditions current) (gProvisioningConditions g)),
           gGeneration := gGeneration current + (if desiredStateChanged J current g then 1 else 0)\<rparr>"
    and "gObservedGeneration g = gObservedGeneration current \<or>
      gObservedGeneration current \<le> gObservedGeneration g \<and> gObservedGeneration g \<le> gGeneration g1"
  using assms by (auto simp: replaceGeneration_def Let_def split: if_splits)

section \<open>Updates by users\<close>

text \<open>
  The value of a field by its name, read without the comparisons of the code: a plain text, a number,
  a flag, a JSON document by its value when the text has one. A dedicated route is asked for or it is
  not. The texts of \<open>workloadFields\<close> are what provisioning is made from, those of \<open>observedFields\<close> what
  a control plane reports of it beside the conditions.
\<close>

datatype fieldReading = Absent | Words string | Amount int | Asked bool | Document json

definition textReading :: "string option \<Rightarrow> fieldReading" where
  "textReading v = (case v of None \<Rightarrow> Absent | Some t \<Rightarrow> Words t)"

definition documentReading :: "json_codec \<Rightarrow> string option \<Rightarrow> fieldReading" where
  "documentReading J v = (case v of None \<Rightarrow> Absent | Some t \<Rightarrow>
     (case jsonDecode J t of None \<Rightarrow> Words t | Some x \<Rightarrow> Document x))"

definition fieldReading :: "json_codec \<Rightarrow> string \<Rightarrow> Gateway \<Rightarrow> fieldReading" where
  "fieldReading J f g =
     (if f = ''cluster_id'' then Words (gClusterId g)
      else if f = ''placement'' then documentReading J (gPlacement g)
      else if f = ''external_dns'' then textReading (gExternalDns g)
      else if f = ''tls_mode'' then textReading (gTlsMode g)
      else if f = ''service_type'' then textReading (gServiceType g)
      else if f = ''image'' then textReading (gImage g)
      else if f = ''supervisor_image'' then textReading (gSupervisorImage g)
      else if f = ''server_dns_names'' then documentReading J (gServerDnsNames g)
      else if f = ''oidc'' then documentReading J (gOidc g)
      else if f = ''route'' then documentReading J (gRoute g)
      else if f = ''credential_driver'' then textReading (gCredentialDriver g)
      else if f = ''workspace_mode'' then textReading (gWorkspaceMode g)
      else if f = ''dedicated_route'' then Asked (gDedicatedRoute g = Some True)
      else if f = ''status'' then textReading (gStatus g)
      else if f = ''phase'' then textReading (gPhase g)
      else if f = ''route_address'' then textReading (gRouteAddress g)
      else if f = ''console_address'' then textReading (gConsoleAddress g)
      else if f = ''gateway_version'' then textReading (gGatewayVersion g)
      else if f = ''active_sandbox_count'' then (case gActiveSandboxCount g of None \<Rightarrow> Absent | Some n \<Rightarrow> Amount n)
      else if f = ''observed_generation'' then Amount (gObservedGeneration g)
      else Absent)"

definition workloadFields :: "string list" where
  "workloadFields = [''cluster_id'', ''placement'', ''external_dns'', ''tls_mode'', ''service_type'', ''image'',
     ''supervisor_image'', ''server_dns_names'', ''oidc'', ''route'', ''credential_driver'', ''workspace_mode'']"

definition observedFields :: "string list" where
  "observedFields = [''status'', ''phase'', ''route_address'', ''console_address'', ''gateway_version'',
     ''observed_generation'', ''active_sandbox_count'']"

text \<open>The last condition of a type, which is the one a merge goes by.\<close>

definition effectiveCondition :: "provisioningCondition list \<Rightarrow> string \<Rightarrow> provisioningCondition option" where
  "effectiveCondition cs t = find (\<lambda>c. pcType c = t) (rev cs)"

definition storedConditions :: "json_codec \<Rightarrow> Gateway \<Rightarrow> provisioningCondition list" where
  "storedConditions J g = (case gProvisioningConditions g of None \<Rightarrow> []
     | Some t \<Rightarrow> if t = [] then [] else (case condsDecode J t of None \<Rightarrow> [] | Some cs \<Rightarrow> cs))"

lemma jsonEq_iff: "jsonEq J a b \<longleftrightarrow> documentReading J a = documentReading J b"
  by (auto simp: jsonEq_def documentReading_def split: option.splits)

lemma textReading_inj [simp]: "textReading a = textReading b \<longleftrightarrow> a = b"
  by (simp add: textReading_def split: option.splits)

lemma dedicatedRouteChanged_iff: "dedicatedRouteChanged a b \<longleftrightarrow> (a = Some True) \<noteq> (b = Some True)"
  by (auto simp: dedicatedRouteChanged_def dedicatedRouteRequested_def split: option.splits)

lemma fieldReading_simps [simp]:
  "fieldReading J ''cluster_id'' g = Words (gClusterId g)"
  "fieldReading J ''placement'' g = documentReading J (gPlacement g)"
  "fieldReading J ''external_dns'' g = textReading (gExternalDns g)"
  "fieldReading J ''tls_mode'' g = textReading (gTlsMode g)"
  "fieldReading J ''service_type'' g = textReading (gServiceType g)"
  "fieldReading J ''image'' g = textReading (gImage g)"
  "fieldReading J ''supervisor_image'' g = textReading (gSupervisorImage g)"
  "fieldReading J ''server_dns_names'' g = documentReading J (gServerDnsNames g)"
  "fieldReading J ''oidc'' g = documentReading J (gOidc g)"
  "fieldReading J ''route'' g = documentReading J (gRoute g)"
  "fieldReading J ''credential_driver'' g = textReading (gCredentialDriver g)"
  "fieldReading J ''workspace_mode'' g = textReading (gWorkspaceMode g)"
  "fieldReading J ''dedicated_route'' g = Asked (gDedicatedRoute g = Some True)"
  "fieldReading J ''status'' g = textReading (gStatus g)"
  "fieldReading J ''phase'' g = textReading (gPhase g)"
  "fieldReading J ''route_address'' g = textReading (gRouteAddress g)"
  "fieldReading J ''console_address'' g = textReading (gConsoleAddress g)"
  "fieldReading J ''gateway_version'' g = textReading (gGatewayVersion g)"
  "fieldReading J ''active_sandbox_count'' g = (case gActiveSandboxCount g of None \<Rightarrow> Absent | Some n \<Rightarrow> Amount n)"
  "fieldReading J ''observed_generation'' g = Amount (gObservedGeneration g)"
  by (simp_all add: fieldReading_def)

text \<open>The code's predicate of the desired state, by the readings: the DNS names count by their text.\<close>

lemma desiredStateChanged_iff:
  "desiredStateChanged J a b \<longleftrightarrow>
     (\<exists>f\<in>set workloadFields. fieldReading J f b \<noteq> fieldReading J f a) \<or> gServerDnsNames b \<noteq> gServerDnsNames a"
proof -
  have ne: "x \<noteq> y \<longleftrightarrow> y \<noteq> x" for x y :: 'x by blast
  have "(\<exists>f\<in>set workloadFields. fieldReading J f b \<noteq> fieldReading J f a) \<longleftrightarrow>
     list_ex (\<lambda>f. fieldReading J f a \<noteq> fieldReading J f b) workloadFields"
    unfolding list_ex_iff by (metis ne)
  also have "\<dots> \<or> gServerDnsNames b \<noteq> gServerDnsNames a \<longleftrightarrow> desiredStateChanged J a b"
    unfolding desiredStateChanged_def workloadFields_def jsonEq_iff strEq_iff
    by (simp only: list_ex_Cons_iff list_ex_Nil_iff fieldReading_simps textReading_inj fieldReading.inject ne [of "gServerDnsNames b"])
      (cases "gServerDnsNames a = gServerDnsNames b"; simp)
  finally show ?thesis by (rule sym)
qed

lemma noViolation:
  assumes "gatewayUpdateViolation J current g = []"
  shows "list_all (\<lambda>f. f \<in> {''credential_driver'', ''workspace_mode''} \<or> fieldReading J f g = fieldReading J f current)
      (workloadFields @ observedFields @ [''dedicated_route''])"
    and "documentReading J (gProvisioningConditions g) = documentReading J (gProvisioningConditions current)"
proof -
  have chain: "(if P then c # cs else r) = [] \<longleftrightarrow> \<not> P \<and> r = []" for P :: bool and c :: char and cs r by simp
  note v = assms [unfolded gatewayUpdateViolation_def jsonEq_iff strEq_iff intPtrEq_iff dedicatedRouteChanged_iff chain not_not]
  from v show "documentReading J (gProvisioningConditions g) = documentReading J (gProvisioningConditions current)"
    by simp
  from v show "list_all (\<lambda>f. f \<in> {''credential_driver'', ''workspace_mode''} \<or> fieldReading J f g = fieldReading J f current)
      (workloadFields @ observedFields @ [''dedicated_route''])"
    unfolding workloadFields_def observedFields_def by simp
qed

section \<open>Merged conditions\<close>

text \<open>
  What is relied on of \<^verbatim>\<open>encoding/json\<close>: it reads back the conditions it wrote, texts of one JSON value
  give the same conditions, and the empty text is no JSON.
\<close>

definition reads_back :: "json_codec \<Rightarrow> bool" where
  "reads_back J \<longleftrightarrow> (\<forall>cs. condsDecode J (condsEncode J cs) = Some cs \<and> condsEncode J cs \<noteq> [])"

definition reads_values :: "json_codec \<Rightarrow> bool" where
  "reads_values J \<longleftrightarrow> jsonDecode J [] = None \<and>
     (\<forall>x y. jsonDecode J x \<noteq> None \<longrightarrow> jsonDecode J x = jsonDecode J y \<longrightarrow> condsDecode J x = condsDecode J y)"

lemma effective_Nil [simp]: "effectiveCondition [] t = None"
  by (simp add: effectiveCondition_def)

lemma effective_snoc [simp]: "effectiveCondition (cs @ [c]) t = (if pcType c = t then Some c else effectiveCondition cs t)"
  by (simp add: effectiveCondition_def)

lemma effective_append:
  "effectiveCondition (xs @ ys) t = (case effectiveCondition ys t of None \<Rightarrow> effectiveCondition xs t | Some c \<Rightarrow> Some c)"
  by (induction ys rule: rev_induct) (simp_all flip: append_assoc)

lemma effective_map: "(\<And>x. pcType (f x) = pcType x) \<Longrightarrow> effectiveCondition (map f xs) t = map_option f (effectiveCondition xs t)"
  by (induction xs rule: rev_induct) simp_all

lemma effective_filter: "effectiveCondition (filter (\<lambda>c. pcType c \<notin> T) cs) t = (if t \<in> T then None else effectiveCondition cs t)"
  by (induction cs rule: rev_induct) auto

lemma effective_None_iff: "effectiveCondition cs t = None \<longleftrightarrow> t \<notin> pcType ` set cs"
  by (induction cs rule: rev_induct) auto

lemma effective_type: "effectiveCondition cs t = Some c \<Longrightarrow> pcType c = t"
  by (induction cs rule: rev_induct) (auto split: if_splits)

lemma currentByType_effective: "currentByType cs t = effectiveCondition cs t"
  unfolding currentByType_def by (induction cs rule: rev_induct) simp_all

lemma pick_type: "pcType cur = pcType inc \<Longrightarrow> pcType (pickProvisioningCondition cur inc) = pcType inc"
  by (simp add: pickProvisioningCondition_def)

lemma effective_merge:
  "effectiveCondition (mergeConditions cs inc) t = (case effectiveCondition inc t of
     None \<Rightarrow> effectiveCondition cs t
   | Some x \<Rightarrow> Some (case effectiveCondition cs t of None \<Rightarrow> x | Some c \<Rightarrow> pickProvisioningCondition c x))"
proof -
  let ?m = "\<lambda>x. case effectiveCondition cs (pcType x) of Some cur \<Rightarrow> pickProvisioningCondition cur x | None \<Rightarrow> x"
  have type: "pcType (?m x) = pcType x" for x by (auto simp: pick_type dest: effective_type split: option.split)
  have mapped: "effectiveCondition (map ?m inc) t = map_option ?m (effectiveCondition inc t)"
    by (rule effective_map) (rule type)
  have mapped: "effectiveCondition (map ?m inc) t = map_option ?m (effectiveCondition inc t)"
    by (rule effective_map) (rule type)
  have "effectiveCondition (mergeConditions cs inc) t =
     (case if t \<in> pcType ` set inc then None else effectiveCondition cs t of
        None \<Rightarrow> map_option ?m (effectiveCondition inc t) | Some c \<Rightarrow> Some c)"
    unfolding mergeConditions_def currentByType_effective effective_append set_map effective_filter mapped ..
  then show ?thesis using effective_None_iff [of inc t]
    by (cases "effectiveCondition inc t") (auto dest: effective_type split: option.split)
qed

lemma storedConditions_parse: "storedConditions J g = fst (parseProvisioningConditions J (gProvisioningConditions g))"
  by (auto simp: storedConditions_def parseProvisioningConditions_def split: option.split)

lemma storedConditions_merge:
  assumes "reads_back J"
    and "gProvisioningConditions (s :: Gateway) = mergeMonotonicProvisioningConditions J (gProvisioningConditions (c :: Gateway)) (gProvisioningConditions (g :: Gateway))"
  shows "storedConditions J s = (if storedConditions J g = [] then storedConditions J c
    else mergeConditions (storedConditions J c) (storedConditions J g))"
proof (cases "snd (parseProvisioningConditions J (gProvisioningConditions g))")
  case False
  then have "storedConditions J g = []"
    by (auto simp: storedConditions_parse parseProvisioningConditions_def split: option.splits if_splits)
  with False assms(2) show ?thesis
    by (simp add: storedConditions_parse mergeMonotonicProvisioningConditions_def split_beta)
next
  case True
  then have ne: "storedConditions J g \<noteq> []"
    by (auto simp: storedConditions_parse parseProvisioningConditions_def split: option.splits if_splits)
  then have "mergeConditions (storedConditions J c) (storedConditions J g) \<noteq> []" by (simp add: mergeConditions_def)
  moreover from True assms(2) have
    "gProvisioningConditions s = Some (condsEncode J (mergeConditions (storedConditions J c) (storedConditions J g)))"
    by (simp add: storedConditions_parse mergeMonotonicProvisioningConditions_def split_beta)
  ultimately show ?thesis using ne assms(1) by (simp add: storedConditions_def [of J s] reads_back_def)
qed

text \<open>Conditions sent again as they are stored leave every effective condition.\<close>

lemma merge_same:
  assumes "reads_back J" "reads_values J"
    and "gProvisioningConditions (s :: Gateway) = mergeMonotonicProvisioningConditions J (gProvisioningConditions (c :: Gateway)) (gProvisioningConditions (g :: Gateway))"
    and "documentReading J (gProvisioningConditions g) = documentReading J (gProvisioningConditions c)"
  shows "effectiveCondition (storedConditions J s) t = effectiveCondition (storedConditions J c) t"
proof -
  have "storedConditions J g = storedConditions J c"
  proof (cases "gProvisioningConditions g = gProvisioningConditions c")
    case False
    with assms(4) obtain x y v where "gProvisioningConditions g = Some x" "gProvisioningConditions c = Some y"
      "jsonDecode J x = Some v" "jsonDecode J y = Some v"
      by (auto simp: documentReading_def split: option.splits)
    moreover from this assms(2) have "condsDecode J x = condsDecode J y" "x \<noteq> []" "y \<noteq> []"
      by (force simp: reads_values_def)+
    ultimately show ?thesis by (simp add: storedConditions_def)
  qed (simp add: storedConditions_def)
  then have "storedConditions J s = (if storedConditions J c = [] then storedConditions J c
      else mergeConditions (storedConditions J c) (storedConditions J c))"
    using storedConditions_merge [OF assms(1,3)] by simp
  moreover have "pickProvisioningCondition x x = x" for x by (simp add: pickProvisioningCondition_def)
  ultimately show ?thesis by (auto simp: effective_merge split: option.split)
qed

section \<open>Stored updates\<close>

lemma find_distinct:
  "distinct (map gID xs) \<Longrightarrow> x \<in> set xs \<Longrightarrow> gID x = i \<Longrightarrow> P x \<Longrightarrow> find (\<lambda>y. gID y = i \<and> P y) xs = Some x"
  by (induction xs) (auto simp: rev_image_eqI)

lemma find_in: "find P xs = Some x \<Longrightarrow> x \<in> set xs \<and> P x"
  by (auto simp: find_Some_iff)

lemma saveGateway_distinct:
  assumes "distinct (map gID gs)" "current \<in> set gs" "gID current = gID g"
  shows "saveGateway g gs = map (\<lambda>x. if gID x = gID g
    then g\<lparr>gActiveSandboxCount := gActiveSandboxCount current, gGatewayVersion := gGatewayVersion current\<rparr> else x) gs"
proof -
  have "x = current" if "x \<in> set gs" "gID x = gID g" for x
    using that assms by (auto simp: distinct_map inj_on_def)
  with assms(2,3) show ?thesis by (auto simp: saveGateway_def intro!: map_cong)
qed

lemma Replace_stored:
  assumes "gwService_Replace s c g w = (Inr row, w')" and "distinct (map gID (gtRows w))"
  obtains current g1 g2 now stored where
    "current \<in> set (liveGateways w)" "gID current = gID g"
    "replaceChecked (svcCodec s) (GatewayWriterKindFromContext c) current g = Inr g1"
    "replaceGeneration (svcCodec s) current g1 = Inr g2"
    "stored = g2\<lparr>gUpdatedAt := now, gActiveSandboxCount := gActiveSandboxCount current, gGatewayVersion := gGatewayVersion current\<rparr>"
    "gtRows w' = map (\<lambda>x. if gID x = gID g then stored else x) (gtRows w)"
    "gID stored = gID g" "gtEvents w' = gtEvents w @ [(gID g, UpdateEventType)]"
proof -
  from Replace_success [OF assms(1)] obtain current g1 g2 now where
    r: "find (\<lambda>x. gID x = gID g) (liveGateways w) = Some current"
      "replaceChecked (svcCodec s) (GatewayWriterKindFromContext c) current g = Inr g1"
      "replaceGeneration (svcCodec s) current g1 = Inr g2" "row = g2\<lparr>gUpdatedAt := now\<rparr>"
      "gtRows w' = saveGateway row (gtRows w)" "gtEvents w' = gtEvents w @ [(gID row, UpdateEventType)]" .
  from r(1) have cur: "current \<in> set (liveGateways w)" "gID current = gID g" by (auto dest: find_in)
  then have rows: "current \<in> set (gtRows w)" by (simp add: liveGateways_def)
  have id: "gID row = gID g"
    using replaceChecked_success(1) [OF r(2)] replaceGeneration_success(1) [OF r(3)] r(4) by simp
  let ?stored = "row\<lparr>gActiveSandboxCount := gActiveSandboxCount current, gGatewayVersion := gGatewayVersion current\<rparr>"
  show ?thesis
    by (rule that [OF cur r(2,3), of ?stored now])
      (use id r(4,5,6) saveGateway_distinct [OF assms(2) rows, of row] cur(2) in simp_all)
qed

lemma desiredStateChanged_cong:
  "desiredStateChanged J a (g\<lparr>gUpdatedAt := t, gActiveSandboxCount := n, gGatewayVersion := v\<rparr>) = desiredStateChanged J a g"
  "desiredStateChanged J a (g\<lparr>gProvisioningConditions := p, gGeneration := k\<rparr>) = desiredStateChanged J a g"
  by (simp_all add: desiredStateChanged_def)


section \<open>Generations\<close>

text \<open>
  The invariant: ids are unique and no observed generation is ahead of the generation. The relation:
  it is kept, and no row disappears or goes back in either number.
\<close>

definition wf_gateways :: "gworld \<Rightarrow> bool" where
  "wf_gateways w \<longleftrightarrow> distinct (map gID (gtRows w)) \<and> (\<forall>g\<in>set (gtRows w). gObservedGeneration g \<le> gGeneration g)"

definition forward :: "gworld \<Rightarrow> gworld \<Rightarrow> bool" where
  "forward w w1 \<longleftrightarrow> (wf_gateways w \<longrightarrow> wf_gateways w1 \<and>
     (\<forall>x\<in>set (gtRows w). \<exists>y\<in>set (gtRows w1). gID y = gID x \<and> gGeneration x \<le> gGeneration y \<and>
        gObservedGeneration x \<le> gObservedGeneration y))"

lemma forward_same: "gtRows w1 = gtRows w \<Longrightarrow> forward w w1"
  by (auto simp: forward_def wf_gateways_def)

lemma forward_trans:
  assumes "forward w w1" "forward w1 w2"
  shows "forward w w2"
  unfolding forward_def
proof (intro impI)
  assume "wf_gateways w"
  with assms(1) have 1: "wf_gateways w1" "\<And>x. x \<in> set (gtRows w) \<Longrightarrow> \<exists>y\<in>set (gtRows w1). gID y = gID x \<and>
      gGeneration x \<le> gGeneration y \<and> gObservedGeneration x \<le> gObservedGeneration y"
    by (simp_all add: forward_def)
  with assms(2) have 2: "wf_gateways w2" "\<And>x. x \<in> set (gtRows w1) \<Longrightarrow> \<exists>y\<in>set (gtRows w2). gID y = gID x \<and>
      gGeneration x \<le> gGeneration y \<and> gObservedGeneration x \<le> gObservedGeneration y"
    by (simp_all add: forward_def)
  show "wf_gateways w2 \<and> (\<forall>x\<in>set (gtRows w). \<exists>y\<in>set (gtRows w2). gID y = gID x \<and> gGeneration x \<le> gGeneration y \<and>
        gObservedGeneration x \<le> gObservedGeneration y)"
    using 1(2) 2 by (metis order_trans)
qed

interpretation fwd: gw_order forward
  by unfold_locales (auto intro: forward_same forward_trans)

text \<open>A change of every row to one with the same id and no smaller numbers.\<close>

lemma forward_map:
  assumes "\<And>x. x \<in> set (gtRows w) \<Longrightarrow> wf_gateways w \<Longrightarrow> gID (f x) = gID x \<and> gGeneration x \<le> gGeneration (f x) \<and>
      gObservedGeneration x \<le> gObservedGeneration (f x) \<and> gObservedGeneration (f x) \<le> gGeneration (f x)"
    and "wf_gateways w \<Longrightarrow> gtRows w1 = map f (gtRows w)"
  shows "forward w w1"
  unfolding forward_def
proof (intro impI conjI ballI)
  assume wf: "wf_gateways w"
  then have "map gID (gtRows w1) = map gID (gtRows w)" using assms by auto
  then have "distinct (map gID (gtRows w1))" using wf by (simp only: wf_gateways_def)
  with wf assms show "wf_gateways w1" by (auto simp: wf_gateways_def)
  fix x assume "x \<in> set (gtRows w)"
  with assms wf show "\<exists>y\<in>set (gtRows w1). gID y = gID x \<and> gGeneration x \<le> gGeneration y \<and>
      gObservedGeneration x \<le> gObservedGeneration y" by auto
qed

lemma fwd_update:
  assumes "\<And>g. gID (f g) = gID g \<and> gGeneration (f g) = gGeneration g \<and> gObservedGeneration (f g) = gObservedGeneration g"
  shows "steps forward (updateReturning c f)"
proof -
  have "forward w (w\<lparr>gtRows := map (\<lambda>g. if c g then f g else g) (gtRows w)\<rparr>)" for w
    by (rule forward_map [of w "\<lambda>g. if c g then f g else g"]) (use assms in \<open>auto simp: wf_gateways_def\<close>)
  then have "steps forward (\<lambda>w. (Inr (map_option f (find c (gtRows w))), w\<lparr>gtRows := map (\<lambda>g. if c g then f g else g) (gtRows w)\<rparr>))"
    by (simp add: steps_def)
  then show ?thesis unfolding updateReturning_def by (intro fwd.steps_andThen fwd.run_gcall)
qed

lemma fwd_sandboxCount: "steps forward (execSandboxCount ns v)"
  unfolding execSandboxCount_def
  by (auto intro!: fwd.run_gtransaction fwd.steps_andThen fwd_update split: option.split)

lemma fwd_version: "steps forward (gwDao_SetGatewayVersion i v)"
proof -
  have "steps forward (\<lambda>w. updateReturning (\<lambda>g. gID g = i \<and> \<not> gDeleted g \<and> gGatewayVersion g \<noteq> Some v)
      (\<lambda>g. g\<lparr>gGatewayVersion := Some v, gUpdatedAt := dClock (gtDb w)\<rparr>) w)"
    unfolding steps_def by (intro allI fwd.run_at fwd_update) simp
  then show ?thesis unfolding gwDao_SetGatewayVersion_def
    by (auto intro!: fwd.run_gtransaction fwd.steps_andThen split: option.split)
qed

lemma fwd_create:
  assumes "\<And>w. fst (newID w) \<notin> gID ` set (gtRows w)"
  shows "steps forward (gwDao_Create newID g)"
proof -
  have "forward w (w\<lparr>gtRows := gtRows w @ [(gw_BeforeCreate newID w g)\<lparr>gUpdatedAt := t, gDeleted := False\<rparr>]\<rparr>)" for w t
    using assms [of w] by (force simp: forward_def wf_gateways_def gw_BeforeCreate_def)
  then have "steps forward (\<lambda>w. let row = (gw_BeforeCreate newID w g)\<lparr>gUpdatedAt := dClock (gtDb w), gDeleted := False\<rparr>
     in (Inr row, w\<lparr>gtRows := gtRows w @ [row]\<rparr>))" by (simp add: steps_def Let_def)
  then show ?thesis unfolding gwDao_Create_def by (rule fwd.run_gexec)
qed

lemma fwd_deleteDao: "steps forward (gwDao_Delete i)"
proof -
  have "forward w (w\<lparr>gtRows := map (\<lambda>g. if gID g = i \<and> \<not> gDeleted g then g\<lparr>gDeleted := True\<rparr> else g) (gtRows w)\<rparr>)" for w
    by (rule forward_map [of w "\<lambda>g. if gID g = i \<and> \<not> gDeleted g then g\<lparr>gDeleted := True\<rparr> else g"])
      (auto simp: wf_gateways_def)
  then show ?thesis unfolding gwDao_Delete_def
    by (intro fwd.run_gexec) (auto simp: steps_def fwd.refl)
qed

lemma fwd_replaceDao:
  assumes "current \<in> set (liveGateways w)" "gID current = gID g" "gGeneration current \<le> gGeneration g"
    and "gObservedGeneration current \<le> gObservedGeneration g"
    and "gObservedGeneration current \<le> gGeneration current \<Longrightarrow> gObservedGeneration g \<le> gGeneration g"
  shows "forward w (snd (gwDao_Replace g w))"
proof -
  obtain r w1 where run: "gwDao_Replace g w = (r, w1)" by force
  show ?thesis
  proof (cases r)
    case (Inl e)
    with run have "gtRows w1 = gtRows w"
      by (cases rule: gcall_cases [of DriverError w])
        (auto simp: gwDao_Replace_def gexec_def andThen_def markForRollback_def Let_def)
    with run show ?thesis by (simp add: forward_same)
  next
    case (Inr row)
    with run obtain w0 where w0: "sameTables w w0" "row = g\<lparr>gUpdatedAt := dClock (gtDb w0)\<rparr>"
      "w1 = w0\<lparr>gtRows := saveGateway row (gtRows w0)\<rparr>"
      by (auto simp: gwDao_Replace_def Let_def dest!: gexec_success)
    have cur: "current \<in> set (gtRows w)" using assms(1) by (simp add: liveGateways_def)
    let ?stored = "row\<lparr>gActiveSandboxCount := gActiveSandboxCount current, gGatewayVersion := gGatewayVersion current\<rparr>"
    have same: "x = current" if "x \<in> set (gtRows w)" "gID x = gID current" "wf_gateways w" for x
      using that cur by (auto simp: wf_gateways_def distinct_map inj_on_def)
    have "forward w w1"
    proof (rule forward_map)
      assume "wf_gateways w"
      then show "gtRows w1 = map (\<lambda>x. if gID x = gID row then ?stored else x) (gtRows w)"
        using saveGateway_distinct [OF _ cur, of row] w0 assms(2) by (simp add: wf_gateways_def sameTables_def)
    next
      fix x assume x: "x \<in> set (gtRows w)" "wf_gateways w"
      let ?f = "if gID x = gID row then ?stored else x"
      show "gID ?f = gID x \<and> gGeneration x \<le> gGeneration ?f \<and> gObservedGeneration x \<le> gObservedGeneration ?f \<and>
          gObservedGeneration ?f \<le> gGeneration ?f"
        using x same [OF x(1) _ x(2)] assms w0(2) by (auto simp: wf_gateways_def)
    qed
    with run show ?thesis by simp
  qed
qed

lemma replaceGeneration_forward:
  assumes "replaceChecked J kind current g = Inr g1" "replaceGeneration J current g1 = Inr g2"
  shows "gID g2 = gID g" "gGeneration current \<le> gGeneration g2" "gObservedGeneration current \<le> gObservedGeneration g2"
    "gObservedGeneration current \<le> gGeneration current \<Longrightarrow> gObservedGeneration g2 \<le> gGeneration g2"
  using replaceChecked_success(1) [OF assms(1)] replaceGeneration_success [OF assms(2)] by auto

context gw_order
begin

lemma run_replace:
  assumes rep: "\<And>w current g1 g2. current \<in> set (liveGateways w) \<Longrightarrow> gID current = gID g \<Longrightarrow>
      replaceChecked (svcCodec s) (GatewayWriterKindFromContext c) current g = Inr g1 \<Longrightarrow>
      replaceGeneration (svcCodec s) current g1 = Inr g2 \<Longrightarrow> R w (snd (gwDao_Replace g2 w))"
  shows "steps R (gwService_Replace s c g)"
  unfolding gwService_Replace_def
proof (rule run_withLock, unfold steps_def, rule allI, rule run_andThen)
  fix w
  show "R w (snd (mapErr (Handled ''HandleGetError'' [''Gateway'', ''id'', gID g]) (gwDao_Get (gID g)) w))"
    unfolding gwDao_Get_def by (intro run_at steps_mapErr run_gtake)
next
  fix w current w1
  assume "mapErr (Handled ''HandleGetError'' [''Gateway'', ''id'', gID g]) (gwDao_Get (gID g)) w = (Inr current, w1)"
  then have cur: "current \<in> set (liveGateways w1)" "gID current = gID g"
    by (auto simp: gwDao_Get_def dest!: gtake_success find_in)
  show "R w1 (snd (andThen (liftErr (replaceChecked (svcCodec s) (GatewayWriterKindFromContext c) current g)) (\<lambda>g1.
     andThen (liftErr (replaceGeneration (svcCodec s) current g1)) (\<lambda>g2.
     andThen (mapErr (Handled ''HandleUpdateError'' [''Gateway'']) (gwDao_Replace g2)) (\<lambda>row.
     andThen (mapErr (Handled ''HandleUpdateError'' [''Gateway'']) (gEvents_Create (gID row) UpdateEventType)) (\<lambda>_.
       ret row)))) w1))"
    by (intro run_andThen)
      (auto intro!: rep [OF cur] run_at [OF run_liftErr] run_at [OF run_event] simp: refl)
qed

end

lemma fwd_replace: "steps forward (gwService_Replace s c g)"
proof (rule fwd.run_replace)
  fix w current g1 g2
  assume "current \<in> set (liveGateways w)" "gID current = gID g"
    "replaceChecked (svcCodec s) (GatewayWriterKindFromContext c) current g = Inr g1"
    "replaceGeneration (svcCodec s) current g1 = Inr g2"
  with replaceGeneration_forward [OF this(3,4)] show "forward w (snd (gwDao_Replace g2 w))"
    by (intro fwd_replaceDao [of current]) auto
qed

lemma fwd_bindingCleaner: "steps forward (bindingCleaner i)"
  unfolding bindingCleaner_def by (rule fwd.run_onDb)

lemma fwd_finalize: "steps forward (finalizeDelete i)"
  unfolding steps_def
proof
  fix w
  obtain r w1 where d: "gwDao_Delete i w = (r, w1)" by force
  have "forward w1 (w1\<lparr>gtDeleteErr := e\<rparr>)" for e by (rule forward_same) simp
  with d fwd.run_at [OF fwd_deleteDao, of w i] show "forward w (snd (finalizeDelete i w))"
    by (cases r) (auto simp: finalizeDelete_def intro: forward_trans)
qed

lemma fwd_deleteRow:
  assumes "\<And>f m. svcDeletionCleaner s = Some f \<Longrightarrow> steps forward m \<Longrightarrow> steps forward (f i m)"
  shows "steps forward (deleteRow s i)"
  unfolding steps_def
proof
  fix w
  have clean: "steps forward (cleanBeforeDeletion s i (finalizeDelete i))"
    using assms fwd_finalize by (cases "svcDeletionCleaner s") (simp_all add: cleanBeforeDeletion_def)
  obtain r w1 where d: "cleanBeforeDeletion s i (finalizeDelete i) (w\<lparr>gtDeleteErr := None\<rparr>) = (r, w1)" by force
  have "forward w (w\<lparr>gtDeleteErr := None\<rparr>)" by (rule forward_same) simp
  moreover have "forward (w\<lparr>gtDeleteErr := None\<rparr>) w1" using fwd.run_at [OF clean, of "w\<lparr>gtDeleteErr := None\<rparr>"] d by simp
  ultimately have "forward w w1" by (rule forward_trans)
  with d show "forward w (snd (deleteRow s i w))"
    by (cases r) (auto simp: deleteRow_def split: option.split)
qed

lemma fwd_cleanBindings:
  assumes "\<And>f. svcBindingCleaner s = Some f \<Longrightarrow> steps forward (f i)"
  shows "steps forward (cleanBindings s i)"
proof (cases "svcBindingCleaner s")
  case None
  then show ?thesis by (simp add: cleanBindings_def)
next
  case (Some f)
  show ?thesis
    unfolding steps_def
  proof
    fix w
    obtain r w1 where d: "f i w = (r, w1)" by force
    with fwd.run_at [OF assms [OF Some], of w] show "forward w (snd (cleanBindings s i w))"
      by (cases r) (auto simp: cleanBindings_def Some intro: fwd.run_mark)
  qed
qed

text \<open>
  C29: generations only move forward. Whatever an operation of the gateway service returns, errors
  and injected failures included, no gateway loses generations or observed generations, and no
  observed generation is ever ahead of the generation; a late-binding sweep over any number of
  gateways keeps this as well. The cleaners wired into the service and the resolver of placements
  are only taken not to write gateway records themselves.
\<close>

theorem generation_latch:
  assumes "\<And>w. fst (svcNewID s w) \<notin> gID ` set (gtRows w)"
    and "\<And>f i m. svcDeletionCleaner s = Some f \<Longrightarrow> steps forward m \<Longrightarrow> steps forward (f i m)"
    and "\<And>f i. svcBindingCleaner s = Some f \<Longrightarrow> steps forward (f i)"
    and "\<And>f x. resolver = Some f \<Longrightarrow> steps forward (f x)"
  shows "steps forward (gwService_Create s c g) \<and> steps forward (gwService_Replace s c g) \<and>
    steps forward (gwService_Delete s i) \<and> steps forward (gwService_AdjustActiveSandboxCount ns n) \<and>
    steps forward (gwService_SetActiveSandboxCount ns n) \<and> steps forward (gwService_SetGatewayVersion i v) \<and>
    steps forward (resolvePendingPlacements (Some s) c resolver)"
proof (intro conjI)
  show "steps forward (gwService_Create s c g)"
    unfolding gwService_Create_def Let_def
    by (intro fwd.steps_andThen fwd.steps_guardErr fwd.run_liftErr fwd.steps_mapErr fwd_create fwd.run_event fwd.steps_ret)
      (rule assms(1))
  show "steps forward (gwService_Replace s c g)" by (rule fwd_replace)
  show "steps forward (gwService_Delete s i)"
    unfolding gwService_Delete_def gwService_Get_def gwDao_Get_def
    by (intro fwd.steps_andThen fwd.steps_mapErr fwd.run_gtake fwd.run_event fwd_deleteRow fwd_cleanBindings) (auto intro: assms(2,3))
  show "steps forward (gwService_AdjustActiveSandboxCount ns n)" "steps forward (gwService_SetActiveSandboxCount ns n)"
    unfolding gwService_AdjustActiveSandboxCount_def gwService_SetActiveSandboxCount_def
      gwDao_AdjustActiveSandboxCount_def gwDao_SetActiveSandboxCount_def
    by (intro fwd.steps_mapErr fwd_sandboxCount)+
  show "steps forward (gwService_SetGatewayVersion i v)"
    unfolding gwService_SetGatewayVersion_def by (intro fwd.steps_mapErr fwd_version)
  have "steps forward (rebindGateway s c' f x)" if "resolver = Some f" for c' f x
    unfolding rebindGateway_def
    by (auto intro!: fwd.steps_andThen fwd.steps_attempt fwd_replace assms(4) [OF that] split: option.split sum.split)
  then show "steps forward (resolvePendingPlacements (Some s) c resolver)"
    unfolding resolvePendingPlacements_def Let_def gwService_FindUnplaced_def gwDao_FindUnplaced_def
    by (auto intro!: fwd.steps_andThen fwd.steps_mapErr split: option.split)
qed

text \<open>The certificate a route document asks for, as the code's parser of it reads it.\<close>

definition certificateIn :: "json_codec \<Rightarrow> string option \<Rightarrow> json option" where
  "certificateIn J route = (case documentReading J route of
     Document (JObj kv) \<Rightarrow> (case map_of kv ''certificate'' of Some v \<Rightarrow> if v = JNull then None else Some v | None \<Rightarrow> None)
   | _ \<Rightarrow> None)"

definition readable :: "json_codec \<Rightarrow> string option \<Rightarrow> bool" where
  "readable J route \<longleftrightarrow> (case route of None \<Rightarrow> True | Some t \<Rightarrow> jsonDecode J t \<noteq> None)"

lemma routeCertificate_read:
  "routeCertificate J route = (certificateIn J route, readable J route)"
  by (auto simp: routeCertificate_def certificateIn_def documentReading_def readable_def split: option.split json.split)

lemma routeCertificateChanged_iff:
  "routeCertificateChanged J a b \<longleftrightarrow> readable J a \<and> readable J b \<and> certificateIn J a \<noteq> certificateIn J b"
  by (auto simp: routeCertificateChanged_def routeCertificate_read)

lemma Replace_generation:
  assumes "gwService_Replace s c g w = (Inr row, w')" and "distinct (map gID (gtRows w))"
  obtains current now stored where "current \<in> set (liveGateways w)" "gID current = gID g"
    "gtRows w' = map (\<lambda>x. if gID x = gID g then stored else x) (gtRows w)"
    "stored = g\<lparr>gWorkspaceMode := gWorkspaceMode current, gCredentialDriver := gCredentialDriver current,
       gActiveSandboxCount := gActiveSandboxCount current, gGatewayVersion := gGatewayVersion current, gUpdatedAt := now,
       gGeneration := gGeneration current + (if desiredStateChanged (svcCodec s) current stored then 1 else 0),
       gProvisioningConditions := (if desiredStateChanged (svcCodec s) current stored then None
         else mergeMonotonicProvisioningConditions (svcCodec s) (gProvisioningConditions current) (gProvisioningConditions g))\<rparr>"
    "\<not> routeCertificateChanged (svcCodec s) (gRoute current) (gRoute stored)"
    "\<not> dedicatedRouteChanged (gDedicatedRoute current) (gDedicatedRoute stored)"
proof -
  from Replace_stored [OF assms] obtain current g1 g2 now stored where
    r: "current \<in> set (liveGateways w)" "gID current = gID g"
      "replaceChecked (svcCodec s) (GatewayWriterKindFromContext c) current g = Inr g1"
      "replaceGeneration (svcCodec s) current g1 = Inr g2"
      "stored = g2\<lparr>gUpdatedAt := now, gActiveSandboxCount := gActiveSandboxCount current, gGatewayVersion := gGatewayVersion current\<rparr>"
      "gtRows w' = map (\<lambda>x. if gID x = gID g then stored else x) (gtRows w)" .
  note c = replaceChecked_success [OF r(3)]
  have d: "desiredStateChanged (svcCodec s) current stored = desiredStateChanged (svcCodec s) current g1"
    unfolding r(5) replaceGeneration_success(1) [OF r(4)] by (simp only: desiredStateChanged_cong)
  have conds: "gProvisioningConditions g1 = gProvisioningConditions g" by (simp add: c(1))
  have stored: "stored = g\<lparr>gWorkspaceMode := gWorkspaceMode current, gCredentialDriver := gCredentialDriver current,
       gActiveSandboxCount := gActiveSandboxCount current, gGatewayVersion := gGatewayVersion current, gUpdatedAt := now,
       gGeneration := gGeneration current + (if desiredStateChanged (svcCodec s) current stored then 1 else 0),
       gProvisioningConditions := (if desiredStateChanged (svcCodec s) current stored then None
         else mergeMonotonicProvisioningConditions (svcCodec s) (gProvisioningConditions current) (gProvisioningConditions g))\<rparr>"
    unfolding d unfolding r(5) replaceGeneration_success(1) [OF r(4)] unfolding conds c(1) by simp
  have "gRoute stored = gRoute g" "gDedicatedRoute stored = gDedicatedRoute g"
    by (subst stored, simp)+
  with c(3,4) show thesis by (intro that [OF r(1,2,6) stored]) simp_all
qed


section \<open>Provisioning conditions only move forward\<close>

text \<open>
  C31: within a generation no provisioning step goes back. When a \<open>Replace\<close> succeeds without
  advancing the generation, whatever an overlapping or repeated reconcile pass sent, every type that
  had a condition still has one; where it was \<open>Complete\<close> it is \<open>Complete\<close> or \<open>Failed\<close>, and where it was
  \<open>InProgress\<close> it is that, \<open>Complete\<close> or \<open>Failed\<close>. Nothing keeps a list from naming a type twice: the
  condition of a type is the last of that type, which is the one a merge goes by.
\<close>

theorem conditions_never_regress:
  assumes run: "gwService_Replace s c g w = (Inr row, w')" and ids: "distinct (map gID (gtRows w))"
    and codec: "reads_back (svcCodec s)"
  shows "\<exists>current\<in>set (liveGateways w). \<exists>stored. gID current = gID g \<and>
    gtRows w' = map (\<lambda>x. if gID x = gID g then stored else x) (gtRows w) \<and>
    (gGeneration stored = gGeneration current \<longrightarrow>
      (\<forall>t before. effectiveCondition (storedConditions (svcCodec s) current) t = Some before \<longrightarrow>
        (\<exists>after. effectiveCondition (storedConditions (svcCodec s) stored) t = Some after \<and>
          (pcStatus before = ''Complete'' \<longrightarrow> pcStatus after \<in> {''Complete'', ''Failed''}) \<and>
          (pcStatus before = ''InProgress'' \<longrightarrow> pcStatus after \<in> {''InProgress'', ''Complete'', ''Failed''}))))"
proof -
  let ?J = "svcCodec s"
  from Replace_generation [OF run ids] obtain current now stored where
    r: "current \<in> set (liveGateways w)" "gID current = gID g"
      "gtRows w' = map (\<lambda>x. if gID x = gID g then stored else x) (gtRows w)"
    and stored: "stored = g\<lparr>gWorkspaceMode := gWorkspaceMode current, gCredentialDriver := gCredentialDriver current,
       gActiveSandboxCount := gActiveSandboxCount current, gGatewayVersion := gGatewayVersion current, gUpdatedAt := now,
       gGeneration := gGeneration current + (if desiredStateChanged ?J current stored then 1 else 0),
       gProvisioningConditions := (if desiredStateChanged ?J current stored then None
         else mergeMonotonicProvisioningConditions ?J (gProvisioningConditions current) (gProvisioningConditions g))\<rparr>" .
  have "gGeneration stored = gGeneration current + (if desiredStateChanged ?J current stored then 1 else 0)"
    "gProvisioningConditions stored = (if desiredStateChanged ?J current stored then None
       else mergeMonotonicProvisioningConditions ?J (gProvisioningConditions current) (gProvisioningConditions g))"
    by (subst stored, simp)+
  then have "gGeneration stored = gGeneration current \<Longrightarrow> storedConditions ?J stored =
      (if storedConditions ?J g = [] then storedConditions ?J current
       else mergeConditions (storedConditions ?J current) (storedConditions ?J g))"
    using storedConditions_merge [OF codec, of stored current g] by (simp split: if_splits)
  then have forward: "\<exists>after. effectiveCondition (storedConditions ?J stored) t = Some after \<and>
      (after = before \<or> (\<exists>x. after = pickProvisioningCondition before x))"
    if "gGeneration stored = gGeneration current" "effectiveCondition (storedConditions ?J current) t = Some before" for t before
    using that by (auto simp: effective_merge split: option.split)
  have ranks: "(a = ''Complete'' \<longrightarrow> pcStatus (pickProvisioningCondition x y) \<in> {''Complete'', ''Failed''}) \<and>
      (a = ''InProgress'' \<longrightarrow> pcStatus (pickProvisioningCondition x y) \<in> {''InProgress'', ''Complete'', ''Failed''})"
    if "pcStatus x = a" for a x y
    using that by (auto simp: pickProvisioningCondition_def conditionRank_def split: if_splits)
  show ?thesis
  proof (intro bexI [OF _ r(1)] exI [of _ stored] conjI impI allI)
    fix t before
    assume "gGeneration stored = gGeneration current"
      and "effectiveCondition (storedConditions ?J current) t = Some before"
    from forward [OF this] ranks [OF refl, of before]
    show "\<exists>after. effectiveCondition (storedConditions ?J stored) t = Some after \<and>
          (pcStatus before = ''Complete'' \<longrightarrow> pcStatus after \<in> {''Complete'', ''Failed''}) \<and>
          (pcStatus before = ''InProgress'' \<longrightarrow> pcStatus after \<in> {''InProgress'', ''Complete'', ''Failed''})"
      by fastforce
  qed (use r in simp_all)
qed

section \<open>Deleting a gateway\<close>

lemma gwDao_Delete_success:
  assumes "gwDao_Delete i w = (Inr (), w1)"
  shows "liveGateways w1 = filter (\<lambda>g. gID g \<noteq> i) (liveGateways w) \<and> gtEvents w1 = gtEvents w \<and>
    dBindings (gtDb w1) = dBindings (gtDb w) \<and> dRoles (gtDb w1) = dRoles (gtDb w)"
proof -
  from assms obtain w0 where w0: "sameTables w w0" "w1 = w0\<lparr>gtRows := map (\<lambda>g. if gID g = i \<and> \<not> gDeleted g then g\<lparr>gDeleted := True\<rparr> else g) (gtRows w0)\<rparr>"
    by (auto simp: gwDao_Delete_def dest!: gexec_success split: if_splits)
  have "filter (\<lambda>g. \<not> gDeleted g) (map (\<lambda>g. if gID g = i \<and> \<not> gDeleted g then g\<lparr>gDeleted := True\<rparr> else g) gs) =
      filter (\<lambda>g. gID g \<noteq> i) (filter (\<lambda>g. \<not> gDeleted g) gs)" for gs
    by (induction gs) auto
  with w0 show ?thesis by (simp add: liveGateways_def sameTables_def)
qed

lemma bindingCleaner_success:
  assumes "bindingCleaner i w = (Inr (), w1)" "wf_db (gtDb w)"
  shows "liveBindings (gtDb w1) = filter (\<lambda>b. bGatewayID b \<noteq> Some i) (liveBindings (gtDb w)) \<and>
    gtRows w1 = gtRows w \<and> gtEvents w1 = gtEvents w"
proof -
  from assms(1) obtain n d where "DeleteGatewayBindings i (gtDb w) = (Inr n, d)" "w1 = w\<lparr>gtDb := d\<rparr>"
    by (auto simp: bindingCleaner_def onDb_def split: prod.splits elim!: andThen_successE)
  with DeleteGatewayBindings_complete [OF assms(2)] show ?thesis by auto
qed

lemma Delete_leaves_nothing:
  assumes wired: "svcBindingCleaner s = Some bindingCleaner"
    and cleaner: "\<And>f m w w'. svcDeletionCleaner s = Some f \<Longrightarrow> f i m w = (Inr (), w') \<Longrightarrow>
      \<exists>w1 w2. sameTables w w1 \<and> m w1 = (Inr (), w2) \<and> sameTables w2 w'"
    and wf: "wf_db (gtDb w)" and run: "gwService_Delete s i w = (Inr (), w')"
  shows "(\<exists>g\<in>set (liveGateways w). gID g = i) \<and> liveGateways w' = filter (\<lambda>g. gID g \<noteq> i) (liveGateways w) \<and>
    liveBindings (gtDb w') = filter (\<lambda>b. bGatewayID b \<noteq> Some i) (liveBindings (gtDb w)) \<and>
    gtEvents w' = gtEvents w @ [(i, DeleteEventType)]"
proof -
  from run obtain g w1 w2 w3 where
    get: "gwDao_Get i w = (Inr g, w1)" and del: "deleteRow s i w1 = (Inr (), w2)"
    and bind: "cleanBindings s i w2 = (Inr (), w3)" and ev: "gEvents_Create i DeleteEventType w3 = (Inr (), w')"
    unfolding gwService_Delete_def gwService_Get_def by (auto elim!: andThen_successE)
  from get have 1: "sameTables w w1" "\<exists>g\<in>set (liveGateways w1). gID g = i"
    by (auto simp: gwDao_Get_def dest!: gtake_success find_in)
  from del have clean: "cleanBeforeDeletion s i (finalizeDelete i) (w1\<lparr>gtDeleteErr := None\<rparr>) = (Inr (), w2)"
    by (auto simp: deleteRow_def split: prod.splits sum.splits option.splits)
  obtain wa wb where fin: "sameTables (w1\<lparr>gtDeleteErr := None\<rparr>) wa" "finalizeDelete i wa = (Inr (), wb)" "sameTables wb w2"
  proof (cases "svcDeletionCleaner s")
    case None
    with clean that [OF sameTables_refl _ sameTables_refl] show ?thesis by (simp add: cleanBeforeDeletion_def)
  next
    case (Some f)
    with clean have "f i (finalizeDelete i) (w1\<lparr>gtDeleteErr := None\<rparr>) = (Inr (), w2)" by (simp add: cleanBeforeDeletion_def)
    from cleaner [OF Some this] that show ?thesis by blast
  qed
  from fin(2) obtain wc where del: "gwDao_Delete i wa = (Inr (), wc)" "wb = wc\<lparr>gtDeleteErr := None\<rparr>"
    by (auto simp: finalizeDelete_def split: prod.splits sum.splits)
  have 2: "liveGateways w2 = filter (\<lambda>g. gID g \<noteq> i) (liveGateways w)" "gtEvents w2 = gtEvents w"
      "dBindings (gtDb w2) = dBindings (gtDb w)" "dRoles (gtDb w2) = dRoles (gtDb w)"
    using gwDao_Delete_success [OF del(1)] del(2) fin(1,3) 1(1) by (auto simp: sameTables_def liveGateways_def)
  then have db: "wf_db (gtDb w2)" "liveBindings (gtDb w2) = liveBindings (gtDb w)"
    using wf by (simp_all add: wf_db_def liveBindings_def liveRoles_def)
  from bind have "bindingCleaner i w2 = (Inr (), w3)"
    by (auto simp: cleanBindings_def wired split: prod.splits sum.splits)
  note 3 = bindingCleaner_success [OF this db(1)]
  from gEvents_Create_success [OF ev] obtain w4 where "sameTables w3 w4" "w' = w4\<lparr>gtEvents := gtEvents w4 @ [(i, DeleteEventType)]\<rparr>"
    by blast
  with 1 2 3 db(2) show ?thesis
    by (simp add: sameTables_def liveGateways_def liveBindings_def)
qed

text \<open>
  C13: a deleted gateway leaves nothing behind. When \<open>Delete\<close> succeeds, with the role bindings'
  cleaner as it is wired and a service-account cleaner that reports success only after it has run
  the deletion, the gateway existed and is gone from the live gateways, no live role binding names
  it, every other gateway and binding is what it was, and the delete event follows.
\<close>

theorem delete_leaves_nothing:
  assumes wired: "svcBindingCleaner s = Some bindingCleaner"
    and cleaner: "\<And>f m w w'. svcDeletionCleaner s = Some f \<Longrightarrow> f i m w = (Inr (), w') \<Longrightarrow>
      \<exists>w1 w2. sameTables w w1 \<and> m w1 = (Inr (), w2) \<and> sameTables w2 w'"
    and wf: "wf_db (gtDb w)" and run: "gwService_Delete s i w = (Inr (), w')"
  shows "(\<exists>g\<in>set (liveGateways w). gID g = i) \<and> liveGateways w' = filter (\<lambda>g. gID g \<noteq> i) (liveGateways w) \<and>
    liveBindings (gtDb w') = filter (\<lambda>b. bGatewayID b \<noteq> Some i) (liveBindings (gtDb w)) \<and>
    gtEvents w' = gtEvents w @ [(i, DeleteEventType)]"
  using Delete_leaves_nothing [OF assms] .

section \<open>Creating a gateway\<close>

lemma gwDao_Create_success:
  assumes "gwDao_Create newID g w = (Inr row, w1)"
  shows "\<exists>w0 t. sameTables w w0 \<and> row = (gw_BeforeCreate newID w0 g)\<lparr>gUpdatedAt := t, gDeleted := False\<rparr> \<and>
    gtRows w1 = gtRows w @ [row] \<and> gtEvents w1 = gtEvents w"
proof -
  from assms obtain w0 where w0: "sameTables w w0"
    "row = (gw_BeforeCreate newID w0 g)\<lparr>gUpdatedAt := dClock (gtDb w0), gDeleted := False\<rparr>"
    "w1 = w0\<lparr>gtRows := gtRows w0 @ [row]\<rparr>"
    by (auto simp: gwDao_Create_def Let_def dest!: gexec_success)
  then have "gtRows w1 = gtRows w @ [row]" "gtEvents w1 = gtEvents w" by (simp_all add: sameTables_def)
  with w0(1,2) show ?thesis by blast
qed

lemma createPolicy_None:
  assumes "gatewayCreateWorkloadViolation g = []"
  shows "gExternalDns g = None \<and> gTlsMode g = None \<and> gServiceType g = None \<and> gImage g = None \<and>
    gSupervisorImage g = None \<and> gServerDnsNames g = None \<and> gOidc g = None \<and> gRoute g = None \<and>
    gCredentialDriver g = None \<and> gWorkspaceMode g = None"
  using assms by (simp add: gatewayCreateWorkloadViolation_def split: if_splits)

text \<open>
  What a user or an import creates starts clean. When such a caller's \<open>Create\<close> succeeds, one
  row is added, at generation one with nothing observed; it carries no workload field but the
  managed workspace mode and, exactly when a user asked for a dedicated route, the route document
  the server writes for it; an import that asks for one never succeeds.
\<close>

theorem create_starts_clean:
  assumes run: "gwService_Create s c g w = (Inr row, w')"
    and kind: "\<not> Privileged (GatewayWriterKindFromContext c)"
  shows "gtRows w' = gtRows w @ [row] \<and> gtEvents w' = gtEvents w @ [(gID row, CreateEventType)] \<and>
    gGeneration row = 1 \<and> gObservedGeneration row = 0 \<and> gName row = gName g \<and> gClusterId row = gClusterId g \<and>
    gExternalDns row = None \<and> gTlsMode row = None \<and> gServiceType row = None \<and> gImage row = None \<and>
    gSupervisorImage row = None \<and> gServerDnsNames row = None \<and> gOidc row = None \<and> gCredentialDriver row = None \<and>
    gWorkspaceMode row = Some ''managed'' \<and>
    gRoute row = (if dedicatedRouteRequested (gDedicatedRoute g) then Some dedicatedRouteCertificateJSON else None) \<and>
    \<not> (dedicatedRouteRequested (gDedicatedRoute g) \<and> GatewayWriterKindFromContext c = GatewayWriterImport)"
proof -
  let ?k = "GatewayWriterKindFromContext c"
  from run obtain g1 g2 w1 where
    pol: "enforceGatewayFieldPolicyCreate ?k g = None"
    and ded: "applyGatewayDedicatedRouteCreateRequest ?k g = Inr g1"
    and wsp: "applyGatewayWorkspaceCreateDefault g1 = Inr g2"
    and ins: "gwDao_Create (svcNewID s) g2 w = (Inr row, w1)"
    and ev: "gEvents_Create (gID row) CreateEventType w1 = (Inr (), w')"
    unfolding gwService_Create_def Let_def by (auto elim!: andThen_successE)
  from pol kind have none: "gatewayCreateWorkloadViolation g = []"
    by (simp add: enforceGatewayFieldPolicyCreate_def Let_def split: if_splits)
  note n = createPolicy_None [OF none]
  have g1: "g1 = g\<lparr>gRoute := (if dedicatedRouteRequested (gDedicatedRoute g) then Some dedicatedRouteCertificateJSON else None)\<rparr>"
      "\<not> (dedicatedRouteRequested (gDedicatedRoute g) \<and> ?k = GatewayWriterImport)"
    using ded n by (auto simp: applyGatewayDedicatedRouteCreateRequest_def split: if_splits)
  have g2: "g2 = g1\<lparr>gWorkspaceMode := Some ''managed''\<rparr>"
    using wsp n by (simp add: applyGatewayWorkspaceCreateDefault_def blank_def g1(1) defaultGatewayWorkspaceMode_def)
  from gwDao_Create_success [OF ins] obtain w0 t where
    row: "row = (gw_BeforeCreate (svcNewID s) w0 g2)\<lparr>gUpdatedAt := t, gDeleted := False\<rparr>"
      "gtRows w1 = gtRows w @ [row]" "gtEvents w1 = gtEvents w" by blast
  from gEvents_Create_success [OF ev] row(2,3)
  have "gtRows w' = gtRows w @ [row]" "gtEvents w' = gtEvents w @ [(gID row, CreateEventType)]"
    by (auto simp: sameTables_def)
  moreover have "gGeneration row = 1" "gObservedGeneration row = 0" "gName row = gName g" "gClusterId row = gClusterId g"
      "gExternalDns row = None" "gTlsMode row = None" "gServiceType row = None" "gImage row = None"
      "gSupervisorImage row = None" "gServerDnsNames row = None" "gOidc row = None" "gCredentialDriver row = None"
      "gWorkspaceMode row = Some ''managed''"
      "gRoute row = (if dedicatedRouteRequested (gDedicatedRoute g) then Some dedicatedRouteCertificateJSON else None)"
    unfolding row(1) gw_BeforeCreate_def g2 g1(1) using n by simp_all
  ultimately show ?thesis using g1(2) by blast
qed

section \<open>Late binding\<close>

definition keepsOthers :: "string set \<Rightarrow> gworld \<Rightarrow> gworld \<Rightarrow> bool" where
  "keepsOthers K w w1 \<longleftrightarrow> (\<forall>x\<in>set (gtRows w). gID x \<notin> K \<longrightarrow> x \<in> set (gtRows w1))"

interpretation othersKept: gw_order "keepsOthers K" for K
  by unfold_locales (auto simp: keepsOthers_def)

lemma saveGateway_others: "x \<in> set gs \<Longrightarrow> gID x \<noteq> gID g \<Longrightarrow> x \<in> set (saveGateway g gs)"
  by (auto simp: saveGateway_def)

lemma others_replaceDao:
  assumes "gID g \<in> K"
  shows "steps (keepsOthers K) (gwDao_Replace g)"
proof -
  have "keepsOthers K w (w\<lparr>gtRows := saveGateway (g\<lparr>gUpdatedAt := t\<rparr>) (gtRows w)\<rparr>)" for w t
    using assms by (auto simp: keepsOthers_def intro!: saveGateway_others)
  then show ?thesis unfolding gwDao_Replace_def
    by (intro othersKept.run_gexec) (simp add: steps_def Let_def)
qed

lemma others_replace:
  assumes "gID g \<in> K"
  shows "steps (keepsOthers K) (gwService_Replace s c g)"
proof (rule othersKept.run_replace)
  fix w current g1 g2
  assume "replaceChecked (svcCodec s) (GatewayWriterKindFromContext c) current g = Inr g1"
    "replaceGeneration (svcCodec s) current g1 = Inr g2"
  from replaceGeneration_forward(1) [OF this] assms show "keepsOthers K w (snd (gwDao_Replace g2 w))"
    by (intro othersKept.run_at [OF others_replaceDao]) simp
qed

text \<open>
  Late binding touches only what awaits placement. A sweep, whatever fails in it, leaves every
  gateway that is deleted, that already has a cluster, or that has no placement selector exactly as
  it was.
\<close>

theorem late_binding_only_unplaced:
  assumes run: "resolvePendingPlacements svc c resolver w = (r, w')"
    and res: "\<And>f x w. resolver = Some f \<Longrightarrow> gtRows (snd (f x w)) = gtRows w"
    and ids: "distinct (map gID (gtRows w))" and x: "x \<in> set (gtRows w)"
    and placed: "gDeleted x \<or> gClusterId x \<noteq> [] \<or> gPlacement x = None"
  shows "x \<in> set (gtRows w')"
proof (cases "svc = None \<or> resolver = None")
  case True
  with run x show ?thesis by (auto simp: resolvePendingPlacements_def split: option.splits)
next
  case False
  then obtain s f where sf: "svc = Some s" "resolver = Some f" by auto
  obtain q w1 where find: "gwService_FindUnplaced w = (q, w1)" by force
  then have rows: "gtRows w1 = gtRows w"
    by (cases rule: gcall_cases [of DriverError w])
      (auto simp: gwService_FindUnplaced_def gwDao_FindUnplaced_def gquery_def mapErr_def andThen_def)
  show ?thesis
  proof (cases q)
    case (Inl e)
    with find run sf rows x show ?thesis by (auto simp: resolvePendingPlacements_def Let_def mapErr_def andThen_def)
  next
    case (Inr gs)
    then have gs: "gs = filter (\<lambda>g. gClusterId g = [] \<and> gPlacement g \<noteq> None) (liveGateways w)"
      using find rows by (auto simp: gwService_FindUnplaced_def gwDao_FindUnplaced_def liveGateways_def dest!: gquery_success)
    let ?c = "WithGatewayWriterKind c GatewayWriterControlPlane"
    have "steps (keepsOthers (gID ` set gs)) (rebindGateway s ?c f g)" if "g \<in> set gs" for g
      unfolding rebindGateway_def using that res [OF sf(2)]
      by (auto intro!: othersKept.steps_andThen othersKept.steps_attempt others_replace split: option.split sum.split)
        (simp add: steps_def othersKept.same_rows)
    then have "steps (keepsOthers (gID ` set gs)) (forEach (rebindGateway s ?c f) gs)" by (rule othersKept.steps_forEach)
    from othersKept.run_at [OF this, of w1] have "keepsOthers (gID ` set gs) w1 w'"
      using find run sf Inr by (simp add: resolvePendingPlacements_def Let_def mapErr_def andThen_def)
    moreover have "gID x \<notin> gID ` set gs"
    proof
      assume "gID x \<in> gID ` set gs"
      then obtain g where "g \<in> set gs" "gID g = gID x" by auto
      with ids x have "g = x" by (auto simp: gs liveGateways_def distinct_map inj_on_def)
      with \<open>g \<in> set gs\<close> placed show False by (auto simp: gs liveGateways_def)
    qed
    ultimately show ?thesis using x rows by (simp add: keepsOthers_def)
  qed
qed

section \<open>Placement\<close>

text \<open>
  A placement is always an eligible cluster: connected, with every selected label and none of the
  excluded ones; and it fails for want of one exactly when there is none.
\<close>

lemma resolvePlacement_eligible:
  assumes "\<And>n. 0 < n \<Longrightarrow> \<exists>k. selectIndex n = Inr (int k) \<and> k < n"
  shows "(case resolvePlacement intent candidates selectIndex of
      Inr i \<Rightarrow> \<exists>x\<in>set candidates. candID x = i \<and> candConnected x \<and> set (piSelector intent) \<subseteq> set (candCapabilities x) \<and>
        set (piExcluded intent) \<inter> set (candCapabilities x) = {}
    | Inl e \<Rightarrow> e = errNoEligiblePlacement \<and> eligiblePlacementCandidates intent candidates = [])"
proof (cases "eligiblePlacementCandidates intent candidates")
  case Nil
  then show ?thesis by (simp add: resolvePlacement_def)
next
  case (Cons a as)
  let ?es = "eligiblePlacementCandidates intent candidates"
  obtain k where k: "selectIndex (length ?es) = Inr (int k)" "k < length ?es" using assms Cons by auto
  then have "?es ! k \<in> set ?es" by simp
  then have e: "?es ! k \<in> set candidates \<and> candConnected (?es ! k) \<and>
      set (piSelector intent) \<subseteq> set (candCapabilities (?es ! k)) \<and>
      set (piExcluded intent) \<inter> set (candCapabilities (?es ! k)) = {}"
    by (auto simp: eligiblePlacementCandidates_def capabilitySetContains_def capabilitySetExcludes_def list_all_iff)
  have "resolvePlacement intent candidates selectIndex = Inr (candID (?es ! k))"
    using k Cons by (simp add: resolvePlacement_def Let_def)
  with e show ?thesis by auto
qed

section \<open>Samples\<close>

text \<open>A codec for the samples: conditions as escaped fields, and the JSON texts the samples use.\<close>

definition encField :: "string \<Rightarrow> string" where
  "encField s = concat (map (\<lambda>c. [CHR ''x'', c]) s) @ ''..''"

definition encCond :: "provisioningCondition \<Rightarrow> string" where
  "encCond c = encField (pcType c) @ encField (pcStatus c) @ encField (pcMessage c)"

definition sampleEncode :: "provisioningCondition list \<Rightarrow> string" where
  "sampleEncode cs = CHR ''['' # concat (map encCond cs)"

fun fields :: "string \<Rightarrow> string \<Rightarrow> string list" where
  "fields acc (x # c # r) = (if x = CHR ''x'' then fields (c # acc) r else rev acc # fields [] r)"
| "fields acc _ = []"

fun groups :: "string list \<Rightarrow> provisioningCondition list" where
  "groups (a # b # c # r) = \<lparr>pcType = a, pcStatus = b, pcMessage = c\<rparr> # groups r"
| "groups _ = []"

definition sampleDecode :: "string \<Rightarrow> provisioningCondition list option" where
  "sampleDecode t = (case t of [] \<Rightarrow> None | x # r \<Rightarrow> Some (groups (fields [] r)))"

lemma fields_encField: "fields acc (encField s @ r) = (rev acc @ s) # fields [] r"
  unfolding encField_def by (induction s arbitrary: acc) auto

lemma sampleDecode_encode: "sampleDecode (sampleEncode cs) = Some cs \<and> sampleEncode cs \<noteq> []"
proof -
  have "groups (fields [] (concat (map encCond cs))) = cs"
    by (induction cs) (simp_all add: encCond_def fields_encField)
  then show ?thesis by (simp add: sampleDecode_def sampleEncode_def)
qed

definition sampleJson :: "string \<Rightarrow> json option" where
  "sampleJson t =
     (if t = ''[1]'' \<or> t = ''[ 1 ]'' then Some (JArr [JNum 1])
      else if t = dedicatedRouteCertificateJSON then Some (JObj [(''enabled'', JBool True), (''certificate'', JObj [])])
      else None)"

definition sampleCodec :: json_codec where
  "sampleCodec = \<lparr>jsonDecode = sampleJson, condsDecode = sampleDecode, condsEncode = sampleEncode,
     placementDecode = (\<lambda>t. if t = ''zone'' then Some \<lparr>piSelector = [''gpu''], piExcluded = []\<rparr> else None)\<rparr>"

definition newGatewayID :: "gworld \<Rightarrow> string \<times> string" where
  "newGatewayID w = (let i = replicate (Suc (sum_list (map (length \<circ> gID) (gtRows w)))) CHR ''g'' in (i, i))"

lemma newGatewayID_fresh: "fst (newGatewayID w) \<notin> gID ` set (gtRows w)"
proof
  assume "fst (newGatewayID w) \<in> gID ` set (gtRows w)"
  then obtain g where g: "g \<in> set (gtRows w)" "fst (newGatewayID w) = gID g" by blast
  then have "length (gID g) = Suc (sum_list (map (length \<circ> gID) (gtRows w)))" by (auto simp: newGatewayID_def Let_def dest!: arg_cong [of _ _ length])
  moreover have "length (gID g) \<le> sum_list (map (length \<circ> gID) (gtRows w))"
    using g(1) by (intro member_le_sum_list) auto
  ultimately show False by simp
qed

text \<open>A service wired as the plugin wires it, with a service-account cleaner that has nothing to clean.\<close>

definition sampleService :: gw_service where
  "sampleService = \<lparr>svcCodec = sampleCodec, svcNewID = newGatewayID, svcBindingCleaner = Some bindingCleaner,
     svcDeletionCleaner = Some (\<lambda>_ finalize. finalize)\<rparr>"

definition gatewayRow :: "string \<Rightarrow> string \<Rightarrow> Gateway" where
  "gatewayRow i cluster = \<lparr>gID = i, gDeleted = False, gUpdatedAt = 0, gName = ''one'', gClusterId = cluster,
     gNamespace = ''openshell-'' @ i, gPlacement = Some ''zone'', gExternalDns = None, gTlsMode = None, gServiceType = None,
     gStatus = None, gPhase = None, gImage = Some ''img'', gSupervisorImage = None, gServerDnsNames = Some ''[1]'',
     gRouteAddress = None, gConsoleAddress = None, gGatewayVersion = None, gOidc = None, gRoute = None,
     gDedicatedRoute = None, gCredentialDriver = None, gWorkspaceMode = Some ''managed'', gActiveSandboxCount = Some 2,
     gProvisioningConditions = Some (sampleEncode [\<lparr>pcType = ''Route'', pcStatus = ''Complete'', pcMessage = []\<rparr>]),
     gGeneration = 1, gObservedGeneration = 1, gRepositoryId = None\<rparr>"

definition sampleWorld :: gworld where
  "sampleWorld = \<lparr>gtRows = [gatewayRow ''g1'' ''c1'', gatewayRow ''g2'' []], gtEvents = [], gtDeleteErr = None,
     gtDb = twoOwners\<lparr>dClock := 7\<rparr>\<rparr>"

definition writer :: "GatewayWriterKind \<Rightarrow> ctx" where
  "writer k = \<lparr>cToken = None, cPayload = None, cUsername = ''u1'', cMetadata = None, cIsGRPC = False, cUserID = None,
     cJWTRoles = None, cWriterKind = Some k, cHolder = None\<rparr>"

lemmas sample_defs = sampleWorld_def gatewayRow_def sampleService_def sampleCodec_def

lemma sample_ids: "distinct (map gID (gtRows sampleWorld))"
  by (simp add: sample_defs)

lemma succeeds: "\<not> isl (fst (m w)) \<Longrightarrow> \<exists>x w'. m w = (Inr x, w')"
  by (cases "m w"; cases "fst (m w)") auto

text \<open>A rename by a user, an update of the image by the control plane, and one that reports an earlier status.\<close>

definition renamed :: Gateway where "renamed = (gatewayRow ''g1'' ''c1'')\<lparr>gName := ''two''\<rparr>"

definition upgraded :: Gateway where "upgraded = (gatewayRow ''g1'' ''c1'')\<lparr>gImage := Some ''img2''\<rparr>"

definition stale :: Gateway where
  "stale = (gatewayRow ''g1'' ''c1'')\<lparr>gProvisioningConditions :=
     Some (sampleEncode [\<lparr>pcType = ''Route'', pcStatus = ''InProgress'', pcMessage = []\<rparr>])\<rparr>"

lemma sample_reads_back: "reads_back (svcCodec sampleService)"
  by (simp add: reads_back_def sample_defs sampleDecode_encode)

lemma sample_reads_values: "reads_values (svcCodec sampleService)"
proof -
  have codec: "jsonDecode (svcCodec sampleService) = sampleJson" "condsDecode (svcCodec sampleService) = sampleDecode"
    by (simp_all add: sample_defs)
  have same: "sampleDecode ''[1]'' = sampleDecode ''[ 1 ]''" by code_simp
  have "sampleDecode x = sampleDecode y" if "sampleJson x \<noteq> None" "sampleJson x = sampleJson y" for x y
  proof -
    have "x = y \<or> (x = ''[1]'' \<or> x = ''[ 1 ]'') \<and> (y = ''[1]'' \<or> y = ''[ 1 ]'')"
      using that unfolding sampleJson_def by (auto split: if_split_asm)
    with same show ?thesis by (elim disjE conjE) (simp_all only:)
  qed
  moreover have "sampleJson [] = None" by code_simp
  ultimately show ?thesis unfolding reads_values_def codec by blast
qed



theorem conditions_never_regress_witness:
  "\<exists>row w' (current :: Gateway) stored. gwService_Replace sampleService (writer GatewayWriterControlPlane) stale sampleWorld = (Inr row, w') \<and>
    gID current = ''g1'' \<and> gtRows w' = map (\<lambda>x. if gID x = ''g1'' then stored else x) (gtRows sampleWorld) \<and>
    (gGeneration stored = gGeneration current \<longrightarrow>
      (\<forall>t before. effectiveCondition (storedConditions sampleCodec current) t = Some before \<longrightarrow>
        (\<exists>after. effectiveCondition (storedConditions sampleCodec stored) t = Some after \<and>
          (pcStatus before = ''Complete'' \<longrightarrow> pcStatus after \<in> {''Complete'', ''Failed''}) \<and>
          (pcStatus before = ''InProgress'' \<longrightarrow> pcStatus after \<in> {''InProgress'', ''Complete'', ''Failed''}))))"
proof -
  have "\<not> isl (fst (gwService_Replace sampleService (writer GatewayWriterControlPlane) stale sampleWorld))" by code_simp
  then obtain row w' where run: "gwService_Replace sampleService (writer GatewayWriterControlPlane) stale sampleWorld = (Inr row, w')"
    by (auto dest: succeeds)
  have s: "gID stale = ''g1''" "svcCodec sampleService = sampleCodec"
    by (simp_all add: stale_def sample_defs)
  from conditions_never_regress [OF run sample_ids sample_reads_back, unfolded s] run show ?thesis by blast
qed

definition sampleResolver :: placementResolver where
  "sampleResolver = (\<lambda>_. ret (Some ''c9''))"

theorem generation_latch_witness:
  "wf_gateways sampleWorld \<and> (steps forward (gwService_Create sampleService (writer GatewayWriterUser) renamed) \<and>
    steps forward (gwService_Replace sampleService (writer GatewayWriterUser) renamed) \<and>
    steps forward (gwService_Delete sampleService ''g1'') \<and> steps forward (gwService_AdjustActiveSandboxCount ''openshell-g1'' 1) \<and>
    steps forward (gwService_SetActiveSandboxCount ''openshell-g1'' 1) \<and> steps forward (gwService_SetGatewayVersion ''g1'' ''v1'') \<and>
    steps forward (resolvePendingPlacements (Some sampleService) (writer GatewayWriterUser) (Some sampleResolver)))"
proof (rule conjI, goal_cases)
  case 1
  show ?case by (simp add: wf_gateways_def sample_defs)
next
  case 2
  show ?case
  proof (rule generation_latch)
    show "fst (svcNewID sampleService w) \<notin> gID ` set (gtRows w)" for w
      by (simp add: sampleService_def newGatewayID_fresh)
    show "steps forward (f i m)" if "svcDeletionCleaner sampleService = Some f" "steps forward m" for f i m
      using that by (auto simp: sampleService_def)
    show "steps forward (f i)" if "svcBindingCleaner sampleService = Some f" for f i
      using that fwd.run_onDb by (auto simp: sampleService_def bindingCleaner_def)
    show "steps forward (f x)" if "Some sampleResolver = Some f" for f x
      using that by (auto simp: sampleResolver_def)
  qed
qed

theorem delete_leaves_nothing_witness:
  "\<exists>w'. gwService_Delete sampleService ''g1'' sampleWorld = (Inr (), w') \<and> map gID (liveGateways w') = [''g2''] \<and>
    liveBindings (gtDb w') = [] \<and> gtEvents w' = [(''g1'', DeleteEventType)]"
proof -
  have "\<not> isl (fst (gwService_Delete sampleService ''g1'' sampleWorld))" by code_simp
  then obtain w' where run: "gwService_Delete sampleService ''g1'' sampleWorld = (Inr (), w')"
    by (auto dest: succeeds)
  have w: "svcBindingCleaner sampleService = Some bindingCleaner" by (simp add: sampleService_def)
  have c: "svcDeletionCleaner sampleService = Some f \<Longrightarrow> f ''g1'' m w = (Inr (), w') \<Longrightarrow>
      \<exists>w1 w2. sameTables w w1 \<and> m w1 = (Inr (), w2) \<and> sameTables w2 w'" for f m w w'
    by (auto simp: sampleService_def intro: sameTables_refl)
  have db: "wf_db (gtDb sampleWorld)" using wf_twoOwners by (simp add: sampleWorld_def wf_db_def liveBindings_def liveRoles_def)
  note l = delete_leaves_nothing [OF w c db run]
  have b: "filter (\<lambda>b. bGatewayID b \<noteq> Some ''g1'') (liveBindings (gtDb sampleWorld)) = []" by code_simp
  have g: "map gID (filter (\<lambda>g. gID g \<noteq> ''g1'') (liveGateways sampleWorld)) = [''g2'']" by code_simp
  have e: "gtEvents sampleWorld = []" by (simp add: sampleWorld_def)
  show ?thesis using l b g e run by auto
qed

definition requested :: Gateway where
  "requested = (gatewayRow [] ''c1'')\<lparr>gImage := None, gServerDnsNames := None, gWorkspaceMode := None,
     gDedicatedRoute := Some True\<rparr>"

theorem create_starts_clean_witness:
  "\<exists>row w'. gwService_Create sampleService (writer GatewayWriterUser) requested sampleWorld = (Inr row, w') \<and>
    gtRows w' = gtRows sampleWorld @ [row] \<and> gGeneration row = 1 \<and> gImage row = None \<and>
    gWorkspaceMode row = Some ''managed'' \<and> gRoute row = Some dedicatedRouteCertificateJSON"
proof -
  have "\<not> isl (fst (gwService_Create sampleService (writer GatewayWriterUser) requested sampleWorld))" by code_simp
  then obtain row w' where run: "gwService_Create sampleService (writer GatewayWriterUser) requested sampleWorld = (Inr row, w')"
    by (auto dest: succeeds)
  have k: "\<not> Privileged (GatewayWriterKindFromContext (writer GatewayWriterUser))" by code_simp
  have d: "dedicatedRouteRequested (gDedicatedRoute requested)" by (simp add: requested_def dedicatedRouteRequested_def)
  from create_starts_clean [OF run k] d run show ?thesis by simp
qed

theorem late_binding_only_unplaced_witness:
  "\<exists>w'. resolvePendingPlacements (Some sampleService) (writer GatewayWriterUser) (Some sampleResolver) sampleWorld =
      (Inr (), w') \<and> gatewayRow ''g1'' ''c1'' \<in> set (gtRows w') \<and> map gClusterId (gtRows w') = [''c1'', ''c9'']"
proof -
  let ?run = "resolvePendingPlacements (Some sampleService) (writer GatewayWriterUser) (Some sampleResolver) sampleWorld"
  have "\<not> isl (fst ?run)" by code_simp
  then obtain w' where run: "?run = (Inr (), w')" by (auto dest: succeeds)
  have "map gClusterId (gtRows (snd ?run)) = [''c1'', ''c9'']" by code_simp
  with run have c: "map gClusterId (gtRows w') = [''c1'', ''c9'']" by simp
  have x: "gatewayRow ''g1'' ''c1'' \<in> set (gtRows sampleWorld)" by (simp add: sampleWorld_def)
  have p: "gDeleted (gatewayRow ''g1'' ''c1'') \<or> gClusterId (gatewayRow ''g1'' ''c1'') \<noteq> [] \<or>
      gPlacement (gatewayRow ''g1'' ''c1'') = None" by (simp add: gatewayRow_def)
  have "gatewayRow ''g1'' ''c1'' \<in> set (gtRows w')"
  proof (rule late_binding_only_unplaced [OF run _ sample_ids x p])
    show "gtRows (snd (f x w)) = gtRows w" if "Some sampleResolver = Some f" for f x w
      using that by (auto simp: sampleResolver_def)
  qed
  with run c show ?thesis by (intro exI [of _ w'] conjI)
qed

text \<open>
  A user who sends the list of DNS names of the record in another spelling is let through, for the
  write policy compares the value, and the generation advances, for the change of the desired state
  is by the text.
\<close>

lemma respelled_dns_names_advance_generation:
  "map gGeneration (gtRows (snd (gwService_Replace sampleService (writer GatewayWriterUser)
      ((gatewayRow ''g1'' ''c1'')\<lparr>gServerDnsNames := Some ''[ 1 ]''\<rparr>) sampleWorld))) = [2, 1]"
  by code_simp

text \<open>The policy names no server-owned field, so through the service a user's new namespace is stored.\<close>

lemma namespace_not_in_update_policy:
  "map gNamespace (gtRows (snd (gwService_Replace sampleService (writer GatewayWriterUser)
      ((gatewayRow ''g1'' ''c1'')\<lparr>gNamespace := ''kube-system''\<rparr>) sampleWorld))) = [''kube-system'', ''openshell-g2'']"
  by code_simp

text \<open>A changed sandbox count is announced by an event and leaves the time of the last update.\<close>

lemma sandbox_count_keeps_updated_at:
  "(case gwService_AdjustActiveSandboxCount ''openshell-g1'' 1 sampleWorld of (r, w') \<Rightarrow>
      r = Inr 3 \<and> gtEvents w' = [(''g1'', UpdateEventType)] \<and> map gUpdatedAt (gtRows w') = [0, 0])"
  by code_simp

end
