(* ===== verification/Control_Effects.thy ===== *)
theory Control_Effects
  imports Go_Effects Watch_Streams
begin

text \<open>
  The effects of the control plane's reconcilers: calls to the Kubernetes API, to Keycloak and to
  the API server.

  A world is the state \<open>'c\<close> of the remote systems, a tick that numbers the calls, and a history
  of the calls made with the state each one met. Between two calls anything may happen
  (\<open>envOthers\<close>: users, other controllers, other instances of this one), any call may fail, before
  or after it took effect (\<open>envFails\<close>: an error and whether the call reached the server, so that
  a lost answer and an expired deadline are covered), and the clock may show anything (\<open>envClock\<close>).
  A statement about every environment is one about every interference and every fault schedule.
\<close>

section \<open>Worlds and calls\<close>

record ('c, 'l) kworld =
  kwState :: 'c
  kwTick :: nat
  kwLog :: "('l \<times> 'c) list"

record 'c environ =
  envOthers :: "nat \<Rightarrow> 'c \<Rightarrow> 'c"
  envFails :: "nat \<Rightarrow> (chain \<times> bool) option"
  envClock :: "nat \<Rightarrow> int"

type_synonym ('c, 'l, 'a) kprog = "(chain, ('c, 'l) kworld, 'a) eprog"

definition kcall :: "'c environ \<Rightarrow> 'l \<Rightarrow> ('c \<Rightarrow> (chain + 'a) \<times> 'c) \<Rightarrow> ('c, 'l, 'a) kprog" where
  "kcall E l op w =
     (let c = envOthers E (kwTick w) (kwState w);
          w1 = w\<lparr>kwTick := Suc (kwTick w), kwLog := kwLog w @ [(l, c)]\<rparr>
      in case envFails E (kwTick w) of
           Some (err, reached) \<Rightarrow> (Inl err, w1\<lparr>kwState := if reached then snd (op c) else c\<rparr>)
         | None \<Rightarrow> (fst (op c), w1\<lparr>kwState := snd (op c)\<rparr>))"

text \<open>A call that only reads.\<close>

definition kread :: "'c environ \<Rightarrow> 'l \<Rightarrow> ('c \<Rightarrow> chain + 'a) \<Rightarrow> ('c, 'l, 'a) kprog" where
  "kread E l f = kcall E l (\<lambda>c. (f c, c))"

text \<open>\<^verbatim>\<open>time.Now()\<close>, in nanoseconds.\<close>

definition readClock :: "'c environ \<Rightarrow> ('c, 'l, int) kprog" where
  "readClock E w = (Inr (envClock E (kwTick w)), w\<lparr>kwTick := Suc (kwTick w)\<rparr>)"

text \<open>An environment in which nobody else acts, nothing fails and the clock stands at \<open>t\<close>.\<close>

definition quiet :: "int \<Rightarrow> 'c environ" where
  "quiet t = \<lparr>envOthers = (\<lambda>_ c. c), envFails = (\<lambda>_. None), envClock = (\<lambda>_. t)\<rparr>"

text \<open>A world nothing has been done to yet.\<close>

definition freshWorld :: "'c \<Rightarrow> ('c, 'l) kworld" where
  "freshWorld c = \<lparr>kwState = c, kwTick = 0, kwLog = []\<rparr>"

lemma quiet_simps [simp]:
  "envOthers (quiet t) n c = c" "envFails (quiet t) n = None" "envClock (quiet t) n = t"
  by (simp_all add: quiet_def)

lemma kcall_quiet:
  "kcall (quiet t) l op w =
     (fst (op (kwState w)),
      w\<lparr>kwTick := Suc (kwTick w), kwLog := kwLog w @ [(l, kwState w)], kwState := snd (op (kwState w))\<rparr>)"
  by (simp add: kcall_def Let_def)

text \<open>What a call leaves: a longer history, whose last entry is the call and the state it met.\<close>

lemma kcall_log:
  "kwLog (snd (kcall E l op w)) = kwLog w @ [(l, envOthers E (kwTick w) (kwState w))]"
  by (simp add: kcall_def Let_def split: option.split prod.split)

lemma kcall_success:
  assumes "kcall E l op w = (Inr x, w1)"
  obtains c where "kwLog w1 = kwLog w @ [(l, c)]" "op c = (Inr x, kwState w1)"
    "c = envOthers E (kwTick w) (kwState w)"
proof -
  let ?c = "envOthers E (kwTick w) (kwState w)"
  have l: "kwLog w1 = kwLog w @ [(l, ?c)]" using kcall_log [of E l op w] assms by simp
  have "op ?c = (Inr x, kwState w1)"
    using assms by (cases "op ?c") (auto simp: kcall_def Let_def split: option.splits)
  from that [OF l this refl] show ?thesis .
qed

lemma kread_success:
  assumes "kread E l f w = (Inr x, w1)"
  obtains c where "kwLog w1 = kwLog w @ [(l, c)]" "f c = Inr x" "kwState w1 = c"
    "c = envOthers E (kwTick w) (kwState w)"
proof -
  obtain c where c: "kwLog w1 = kwLog w @ [(l, c)]" "(f c, c) = (Inr x, kwState w1)"
      "c = envOthers E (kwTick w) (kwState w)"
    using assms unfolding kread_def by (rule kcall_success)
  from c(2) have "f c = Inr x" "kwState w1 = c" by auto
  from that [OF c(1) this c(3)] show ?thesis .
qed

lemma readClock_run:
  "readClock E w = (Inr (envClock E (kwTick w)), w\<lparr>kwTick := Suc (kwTick w)\<rparr>)"
  by (simp add: readClock_def)

section \<open>Running on concrete worlds\<close>

text \<open>
  Rules by which the simplifier runs a program step by step: the rest of a program is looked at only
  when the result of its first step is there.
\<close>

definition bindK :: "('e + 'a) \<times> 's \<Rightarrow> ('a \<Rightarrow> ('e, 's, 'b) eprog) \<Rightarrow> ('e + 'b) \<times> 's" where
  "bindK p f = (case p of (Inl e, s) \<Rightarrow> (Inl e, s) | (Inr x, s) \<Rightarrow> f x s)"

definition mapK :: "('e \<Rightarrow> 'f) \<Rightarrow> ('e + 'a) \<times> 's \<Rightarrow> ('f + 'a) \<times> 's" where
  "mapK g p = (case p of (Inl e, s) \<Rightarrow> (Inl (g e), s) | (Inr x, s) \<Rightarrow> (Inr x, s))"

definition attK :: "('e + 'a) \<times> 's \<Rightarrow> ('f + ('e + 'a)) \<times> 's" where
  "attK p = (case p of (r, s) \<Rightarrow> (Inr r, s))"

lemma bindK_cong: "p = q \<Longrightarrow> bindK p f = bindK q f"
  by simp

lemma mapK_cong: "p = q \<Longrightarrow> mapK g p = mapK g q"
  by simp

lemma runs:
  "andThen m f s = bindK (m s) f"
  "mapErr g m s = mapK g (m s)"
  "attempt m s = attK (m s)"
  "bindK (Inl e, s) f = (Inl e, s)"
  "bindK (Inr x, s) f = f x s"
  "mapK g (Inl e, s) = (Inl (g e), s)"
  "mapK g (Inr x, s) = (Inr x, s)"
  "attK (r, s) = (Inr r, s)"
  by (simp_all add: bindK_def mapK_def attK_def andThen_def mapErr_def attempt_def split: prod.split sum.split)

lemma kread_quiet:
  "kread (quiet t) l f w = (f (kwState w), w\<lparr>kwTick := Suc (kwTick w), kwLog := kwLog w @ [(l, kwState w)]\<rparr>)"
  by (cases w) (simp add: kread_def kcall_quiet)

section \<open>Histories\<close>

text \<open>
  \<open>calls w w'\<close> are the calls made on the way from \<open>w\<close> to \<open>w'\<close>. \<open>avoids D\<close>: no call of
  the kind \<open>D\<close> is among them. \<open>guarded D J\<close>: each call of the kind \<open>D\<close> among them comes
  when \<open>J\<close> holds of the history until then.
\<close>

definition avoids :: "('l \<Rightarrow> bool) \<Rightarrow> ('c, 'l) kworld \<Rightarrow> ('c, 'l) kworld \<Rightarrow> bool" where
  "avoids D w w' \<longleftrightarrow> (\<exists>new. kwLog w' = kwLog w @ new \<and> (\<forall>x\<in>set new. \<not> D (fst x)))"

definition guarded ::
  "('l \<Rightarrow> bool) \<Rightarrow> ('l \<Rightarrow> 'c \<Rightarrow> ('l \<times> 'c) list \<Rightarrow> bool) \<Rightarrow> ('c, 'l) kworld \<Rightarrow> ('c, 'l) kworld \<Rightarrow> bool" where
  "guarded D J w w' \<longleftrightarrow>
     (\<exists>new. kwLog w' = kwLog w @ new \<and>
        (\<forall>pre l c post. new = pre @ (l, c) # post \<longrightarrow> D l \<longrightarrow> J l c (kwLog w @ pre)))"

lemma avoids_guarded: "avoids D w w' \<Longrightarrow> guarded D J w w'"
  by (auto simp: avoids_def guarded_def)

interpretation avoids: step_order "avoids D"
proof
  fix w show "avoids D w w" by (simp add: avoids_def)
next
  fix u v w
  assume "avoids D u v" "avoids D v w"
  then obtain a b where "kwLog v = kwLog u @ a" "kwLog w = kwLog v @ b"
      "\<forall>x\<in>set a. \<not> D (fst x)" "\<forall>x\<in>set b. \<not> D (fst x)"
    by (auto simp: avoids_def)
  then show "avoids D u w" unfolding avoids_def by (intro exI [of _ "a @ b"]) auto
qed

interpretation guarded: step_order "guarded D J"
proof
  fix w show "guarded D J w w" by (simp add: guarded_def)
next
  fix u v w
  assume "guarded D J u v" "guarded D J v w"
  then obtain a b where l: "kwLog v = kwLog u @ a" "kwLog w = kwLog v @ b"
    and a: "\<And>pre l c post. a = pre @ (l, c) # post \<Longrightarrow> D l \<Longrightarrow> J l c (kwLog u @ pre)"
    and b: "\<And>pre l c post. b = pre @ (l, c) # post \<Longrightarrow> D l \<Longrightarrow> J l c (kwLog v @ pre)"
    unfolding guarded_def by blast
  show "guarded D J u w"
    unfolding guarded_def
  proof (intro exI [of _ "a @ b"] conjI allI impI)
    show "kwLog w = kwLog u @ a @ b" using l by simp
  next
    fix pre l' c post
    assume s: "a @ b = pre @ (l', c) # post" and d: "D l'"
    from s consider (left) us where "a = pre @ us" "us @ b = (l', c) # post" "us \<noteq> []"
      | (right) us where "pre = a @ us" "b = us @ (l', c) # post"
      by (auto simp: append_eq_append_conv2) (metis append_Nil2 append_self_conv2)
    then show "J l' c (kwLog u @ pre)"
    proof cases
      case left
      then obtain us' where "us = (l', c) # us'" by (cases us) auto
      with left(1) show ?thesis using a [of pre l' c us'] d by simp
    next
      case right
      then show ?thesis using b [of us l' c post] d l(1) by simp
    qed
  qed
qed

lemma kcall_avoids [intro]: "\<not> D l \<Longrightarrow> steps (avoids D) (kcall E l op)"
  by (auto simp: steps_def avoids_def kcall_log)

lemma kread_avoids [intro]: "\<not> D l \<Longrightarrow> steps (avoids D) (kread E l f)"
  by (auto simp: kread_def)

lemma readClock_avoids [intro, simp]: "steps (avoids D) (readClock E)"
  by (simp add: steps_def avoids_def readClock_def)

lemmas avoids_rules = avoids.steps_andThen avoids.steps_mapErr avoids.steps_attempt avoids.steps_if
  avoids.steps_ret avoids.steps_fail avoids.steps_guardErr kcall_avoids kread_avoids readClock_avoids

lemma steps_guarded: "steps (avoids D) m \<Longrightarrow> steps (guarded D J) m"
  by (auto simp: steps_def avoids_guarded)

lemma kcall_guarded:
  assumes "D l \<Longrightarrow> J l (envOthers E (kwTick w) (kwState w)) (kwLog w)"
  shows "guarded D J w (snd (kcall E l op w))"
  unfolding guarded_def
  by (intro exI [of _ "[(l, envOthers E (kwTick w) (kwState w))]"])
    (auto simp: kcall_log Cons_eq_append_conv assms)

lemma guarded_mono:
  assumes "guarded D J w w'" "\<And>l c new. D l \<Longrightarrow> J l c (kwLog w @ new) \<Longrightarrow> J' l c (kwLog w @ new)"
  shows "guarded D J' w w'"
  using assms unfolding guarded_def by blast

lemma attempt_result: "attempt m w = (Inr r, w1) \<longleftrightarrow> m w = (r, w1)"
  by (cases "m w") simp

lemma avoids_run:
  assumes "steps (avoids D) m" "m w = (r, w1)"
  shows "avoids D w w1"
  using assms by (metis steps_def snd_conv)

lemma snd_andThen_ret: "snd (andThen m (\<lambda>_. ret x) w) = snd (m w)"
  by (simp add: andThen_def split: prod.split sum.split)

lemma snd_andThen_guardErr: "snd (andThen m guardErr w) = snd (m w)"
  by (simp add: andThen_def guardErr_def split: prod.split sum.split option.split)

text \<open>The whole history of a run that began with an empty one.\<close>

lemma guarded_all:
  assumes "guarded D J w w'" "kwLog w = []" "kwLog w' = pre @ (l, c) # post" "D l"
  shows "J l c pre"
  using assms by (auto simp: guarded_def)

section \<open>Assertions\<close>

text \<open>
  \<open>triple P m Q X\<close>: from a state and calls made so far with \<open>P\<close>, the program ends with a result and
  \<open>Q\<close>, or with an error and \<open>X\<close>, whichever of its calls fail and however. What others do between two
  calls must keep the assertion in front of a call.
\<close>

type_synonym ('c, 'l) assertion = "'c \<Rightarrow> 'l list \<Rightarrow> bool"

definition at :: "('c, 'l) assertion \<Rightarrow> ('c, 'l) kworld \<Rightarrow> bool" where
  "at P w \<longleftrightarrow> P (kwState w) (map fst (kwLog w))"

definition triple ::
  "('c, 'l) assertion \<Rightarrow> ('c, 'l, 'a) kprog \<Rightarrow> ('a \<Rightarrow> ('c, 'l) assertion) \<Rightarrow> (chain \<Rightarrow> ('c, 'l) assertion) \<Rightarrow> bool" where
  "triple P m Q X \<longleftrightarrow> (\<forall>w. at P w \<longrightarrow> (case m w of (Inr x, w') \<Rightarrow> at (Q x) w' | (Inl e, w') \<Rightarrow> at (X e) w'))"

definition stable :: "'c environ \<Rightarrow> ('c, 'l) assertion \<Rightarrow> bool" where
  "stable E P \<longleftrightarrow> (\<forall>n c ls. P c ls \<longrightarrow> P (envOthers E n c) ls)"

lemma triple_run:
  assumes "triple P m Q X" "at P w" "m w = (r, w')"
  shows "case r of Inr x \<Rightarrow> at (Q x) w' | Inl e \<Rightarrow> at (X e) w'"
  using assms unfolding triple_def by (metis (no_types, lifting) case_prod_conv)

lemma triple_ret: "(\<And>c ls. P c ls \<Longrightarrow> Q x c ls) \<Longrightarrow> triple P (ret x) Q X"
  by (simp add: triple_def at_def)

lemma triple_fail: "(\<And>c ls. P c ls \<Longrightarrow> X e c ls) \<Longrightarrow> triple P (fail e) Q X"
  by (simp add: triple_def at_def)

lemma triple_andThen:
  assumes "triple P m R X" "\<And>x. triple (R x) (f x) Q X"
  shows "triple P (andThen m f) Q X"
  unfolding triple_def
proof (intro allI impI)
  fix w assume p: "at P w"
  obtain r w1 where m: "m w = (r, w1)" by force
  show "case andThen m f w of (Inr x, w') \<Rightarrow> at (Q x) w' | (Inl e, w') \<Rightarrow> at (X e) w'"
  proof (cases r)
    case (Inl e)
    then show ?thesis using triple_run [OF assms(1) p m] m by (simp add: andThen_def)
  next
    case (Inr x)
    then have "at (R x) w1" using triple_run [OF assms(1) p m] by simp
    then show ?thesis using assms(2) [of x] m Inr by (simp add: triple_def andThen_def)
  qed
qed

lemma triple_mapErr:
  assumes "triple P m Q (\<lambda>e. X (g e))"
  shows "triple P (mapErr g m) Q X"
  unfolding triple_def
proof (intro allI impI)
  fix w assume p: "at P w"
  obtain r w1 where m: "m w = (r, w1)" by force
  show "case mapErr g m w of (Inr x, w') \<Rightarrow> at (Q x) w' | (Inl e, w') \<Rightarrow> at (X e) w'"
    using triple_run [OF assms p m] m by (cases r) (simp_all add: mapErr_def)
qed

lemma triple_attempt:
  assumes "triple P m (\<lambda>x. Q (Inr x)) (\<lambda>e. Q (Inl e))"
  shows "triple P (attempt m) Q X"
  unfolding triple_def
proof (intro allI impI)
  fix w assume p: "at P w"
  obtain r w1 where m: "m w = (r, w1)" by force
  show "case attempt m w of (Inr x, w') \<Rightarrow> at (Q x) w' | (Inl e, w') \<Rightarrow> at (X e) w'"
    using triple_run [OF assms p m] m by (cases r) simp_all
qed

lemma triple_if: "(b \<Longrightarrow> triple P m Q X) \<Longrightarrow> (\<not> b \<Longrightarrow> triple P n Q X) \<Longrightarrow> triple P (if b then m else n) Q X"
  by simp

lemma triple_guardErr:
  "(\<And>c ls. P c ls \<Longrightarrow> r = None \<Longrightarrow> Q () c ls) \<Longrightarrow> (\<And>e c ls. P c ls \<Longrightarrow> r = Some e \<Longrightarrow> X e c ls) \<Longrightarrow> triple P (guardErr r) Q X"
  by (cases r) (simp_all add: triple_def at_def)

lemma triple_weaken:
  assumes "triple P' m Q' X'" "\<And>c ls. P c ls \<Longrightarrow> P' c ls" "\<And>x c ls. Q' x c ls \<Longrightarrow> Q x c ls" "\<And>e c ls. X' e c ls \<Longrightarrow> X e c ls"
  shows "triple P m Q X"
  unfolding triple_def
proof (intro allI impI)
  fix w assume "at P w"
  then have p: "at P' w" using assms(2) by (simp add: at_def)
  obtain r w1 where m: "m w = (r, w1)" by force
  show "case m w of (Inr x, w') \<Rightarrow> at (Q x) w' | (Inl e, w') \<Rightarrow> at (X e) w'"
    using triple_run [OF assms(1) p m] m assms(3,4) by (cases r) (simp_all add: at_def)
qed

lemma triple_pure: "(b \<Longrightarrow> triple P m Q X) \<Longrightarrow> triple (\<lambda>c ls. b \<and> P c ls) m Q X"
  by (auto simp: triple_def at_def)

lemma triple_readClock: "(\<And>t c ls. P c ls \<Longrightarrow> Q t c ls) \<Longrightarrow> triple P (readClock E) Q X"
  by (simp add: triple_def at_def readClock_def)

lemma triple_kcall:
  assumes "stable E P"
    and "\<And>c ls x. P c ls \<Longrightarrow> fst (op c) = Inr x \<Longrightarrow> Q x (snd (op c)) (ls @ [l])"
    and "\<And>c ls e. P c ls \<Longrightarrow> X e (snd (op c)) (ls @ [l]) \<and> X e c (ls @ [l])"
  shows "triple P (kcall E l op) Q X"
  unfolding triple_def
proof (intro allI impI)
  fix w assume "at P w"
  let ?c = "envOthers E (kwTick w) (kwState w)"
  have p: "P ?c (map fst (kwLog w))" using \<open>at P w\<close> assms(1) by (simp add: at_def stable_def)
  show "case kcall E l op w of (Inr x, w') \<Rightarrow> at (Q x) w' | (Inl e, w') \<Rightarrow> at (X e) w'"
  proof (cases "envFails E (kwTick w)")
    case None
    show ?thesis
    proof (cases "fst (op ?c)")
      case (Inl e)
      then show ?thesis using None assms(3) [OF p] by (simp add: kcall_def Let_def at_def)
    next
      case (Inr x)
      then show ?thesis using None assms(2) [OF p Inr] by (simp add: kcall_def Let_def at_def)
    qed
  next
    case (Some f)
    obtain err reached where "f = (err, reached)" by (cases f)
    then show ?thesis using Some assms(3) [OF p] by (simp add: kcall_def Let_def at_def)
  qed
qed

lemma triple_kread:
  assumes "stable E P"
    and "\<And>c ls x. P c ls \<Longrightarrow> f c = Inr x \<Longrightarrow> Q x c (ls @ [l])"
    and "\<And>c ls e. P c ls \<Longrightarrow> X e c (ls @ [l])"
  shows "triple P (kread E l f) Q X"
  unfolding kread_def by (rule triple_kcall) (use assms in auto)

text \<open>A call after which the assertion before it holds again, whatever came of it.\<close>

lemma triple_keep:
  assumes "stable E P" "\<And>c ls. P c ls \<Longrightarrow> P (snd (op c)) (ls @ [l]) \<and> P c (ls @ [l])"
  shows "triple P (kcall E l op) (\<lambda>_. P) (\<lambda>_. P)"
  by (rule triple_kcall) (use assms in auto)

section \<open>Errors of the Kubernetes API\<close>

text \<open>\<^verbatim>\<open>k8serrors.ReasonForError\<close>, along the chain; no reason is the empty string.\<close>

fun ReasonForError :: "chain \<Rightarrow> string" where
  "ReasonForError (K8sErr r m) = r"
| "ReasonForError (preservePayloadForRetryError e) = ReasonForError e"
| "ReasonForError (retryReasonError e r) = ReasonForError e"
| "ReasonForError (gatewayKeycloakClientIdentityError e) = ReasonForError e"
| "ReasonForError (RenderedConfigValidationError e) = ReasonForError e"
| "ReasonForError (JoinedErr a b) = (if ReasonForError a = [] then ReasonForError b else ReasonForError a)"
| "ReasonForError (OtherWrap m e) = ReasonForError e"
| "ReasonForError _ = []"

definition k8s_IsNotFound :: "chain \<Rightarrow> bool" where
  "k8s_IsNotFound err \<longleftrightarrow> ReasonForError err = ''NotFound''"

definition k8s_IsAlreadyExists :: "chain \<Rightarrow> bool" where
  "k8s_IsAlreadyExists err \<longleftrightarrow> ReasonForError err = ''AlreadyExists''"

text \<open>\<^verbatim>\<open>errors.Join\<close> of an error so far, possibly nil, and one more.\<close>

definition errors_Join :: "chain option \<Rightarrow> chain \<Rightarrow> chain option" where
  "errors_Join sofar err = (case sofar of None \<Rightarrow> Some err | Some e \<Rightarrow> Some (JoinedErr e err))"

section \<open>Numbers and durations\<close>

text \<open>\<^verbatim>\<open>%d\<close>: no number has more digits than its successor counts.\<close>

fun natDigits :: "nat \<Rightarrow> nat \<Rightarrow> string" where
  "natDigits 0 n = []"
| "natDigits (Suc k) n =
     (if n < 10 then [char_of (48 + n)] else natDigits k (n div 10) @ [char_of (48 + n mod 10)])"

definition natText :: "nat \<Rightarrow> string" where
  "natText n = natDigits (Suc n) n"

declare natText_def [code del]

definition intText :: "int \<Rightarrow> string" where
  "intText i = (if i < 0 then CHR ''-'' # natText (nat (- i)) else natText (nat i))"

text \<open>Durations are nanoseconds in 64 bits; \<^verbatim>\<open>Time.Sub\<close> saturates.\<close>

abbreviation Second :: int where "Second \<equiv> 1000000000"
abbreviation Minute :: int where "Minute \<equiv> 60 * Second"
abbreviation maxDuration :: int where "maxDuration \<equiv> 2 ^ 63 - 1"
abbreviation minDuration :: int where "minDuration \<equiv> - (2 ^ 63)"

definition timeSub :: "int \<Rightarrow> int \<Rightarrow> int" where
  "timeSub t u = max minDuration (min maxDuration (t - u))"

text \<open>
  \<^verbatim>\<open>Format\<close> and \<^verbatim>\<open>Parse\<close> with the layout \<^verbatim>\<open>time.RFC3339\<close>, times being nanoseconds since
  the epoch; what a time formats to parses to that time without its fraction of a second.
\<close>

record timeCodec =
  tcFormat :: "int \<Rightarrow> string"
  tcParse :: "string \<Rightarrow> int option"

definition codecOK :: "timeCodec \<Rightarrow> bool" where
  "codecOK T \<longleftrightarrow> (\<forall>t. tcFormat T t \<noteq> [] \<and> tcParse T (tcFormat T t) = Some (t div Second * Second))"

text \<open>An error comes from the call itself or from a fault of the environment.\<close>

definition faultOf :: "'c environ \<Rightarrow> chain \<Rightarrow> bool" where
  "faultOf E e \<longleftrightarrow> (\<exists>n r. envFails E n = Some (e, r))"

lemma triple_kcall_faults:
  assumes "stable E P"
    and "\<And>c ls x. P c ls \<Longrightarrow> fst (op c) = Inr x \<Longrightarrow> Q x (snd (op c)) (ls @ [l])"
    and "\<And>c ls e. P c ls \<Longrightarrow> fst (op c) = Inl e \<Longrightarrow> X e (snd (op c)) (ls @ [l])"
    and "\<And>c ls e. P c ls \<Longrightarrow> faultOf E e \<Longrightarrow> X e (snd (op c)) (ls @ [l]) \<and> X e c (ls @ [l])"
  shows "triple P (kcall E l op) Q X"
  unfolding triple_def
proof (intro allI impI)
  fix w assume "at P w"
  let ?c = "envOthers E (kwTick w) (kwState w)"
  have p: "P ?c (map fst (kwLog w))" using \<open>at P w\<close> assms(1) by (simp add: at_def stable_def)
  show "case kcall E l op w of (Inr x, w') \<Rightarrow> at (Q x) w' | (Inl e, w') \<Rightarrow> at (X e) w'"
  proof (cases "envFails E (kwTick w)")
    case None
    then show ?thesis
      using assms(2) [OF p] assms(3) [OF p] by (cases "fst (op ?c)") (simp_all add: kcall_def Let_def at_def)
  next
    case (Some f)
    obtain err reached where "f = (err, reached)" by (cases f)
    moreover from this Some have "faultOf E err" unfolding faultOf_def by blast
    ultimately show ?thesis using Some assms(4) [OF p] by (simp add: kcall_def Let_def at_def)
  qed
qed

lemma triple_kread_faults:
  assumes "stable E P"
    and "\<And>c ls x. P c ls \<Longrightarrow> f c = Inr x \<Longrightarrow> Q x c (ls @ [l])"
    and "\<And>c ls e. P c ls \<Longrightarrow> f c = Inl e \<Longrightarrow> X e c (ls @ [l])"
    and "\<And>c ls e. P c ls \<Longrightarrow> faultOf E e \<Longrightarrow> X e c (ls @ [l])"
  shows "triple P (kread E l f) Q X"
  unfolding kread_def by (rule triple_kcall_faults) (use assms in auto)

lemma triple_result:
  assumes "triple P m Q X" "at P w" "m w = (r, w')"
  obtains x where "r = Inr x" "at (Q x) w'" | e where "r = Inl e" "at (X e) w'"
  using triple_run [OF assms] by (cases r) auto

end
