(* ===== verification/Control_World.thy ===== *)
theory Control_World
  imports Control_Effects
begin

text \<open>
  What the control plane acts on: a Keycloak realm, a Kubernetes cluster and the state of the API
  server and of what else a reconciler calls (\<open>kServer\<close>). A cluster extends a realm, so that a
  program on a realm runs on a cluster as it is; the calls of all reconcilers share one type, by
  which histories speak of them.
\<close>

section \<open>Keycloak\<close>

record protocolMapper =
  pmID :: string
  pmName :: string
  pmProtocol :: string
  pmMapper :: string
  pmConfig :: "(string \<times> string) list"

record keycloakClient =
  kcID :: string
  kcClientID :: string
  kcEnabled :: bool
  kcPublicClient :: bool
  kcStandardFlow :: bool
  kcDirectAccess :: bool
  kcServiceAccounts :: bool
  kcFullScope :: bool
  kcRedirectUris :: "string list"
  kcWebOrigins :: "string list"
  kcAttributes :: "string \<rightharpoonup> string"
  kcRoles :: "(string \<times> string) list"
  kcMappers :: "protocolMapper list"
  kcSecret :: string
  kcDefaultScopes :: "string list"
  kcScopeMappings :: "(string \<times> string) set"

record keycloakUser =
  kuID :: string
  kuUsername :: string
  kuEmail :: string
  kuFirstName :: string
  kuLastName :: string

text \<open>
  Fine-grained authorization: client policies, and the permission to exchange tokens that the server
  keeps for a resource (a client or an identity provider) once its management permissions are enabled.
\<close>

datatype fgapResource = ClientResource string | IdpResource string

record authzPolicy =
  apID :: string
  apName :: string
  apClients :: "string list"

record scopePermission =
  spID :: string
  spResource :: fgapResource
  spPolicies :: "string list"
  spStrategy :: string

text \<open>
  \<open>rmGrants\<close>: who holds which client role, by user, client (both by identifier) and name of the role.
  \<open>rmExchange\<close>: whether the server has the feature of token exchange.
\<close>

record realm =
  rmClients :: "keycloakClient list"
  rmUsers :: "keycloakUser list"
  rmGrants :: "(string \<times> string \<times> string) set"
  rmIdps :: "string list"
  rmPolicies :: "authzPolicy list"
  rmPermissions :: "scopePermission list"
  rmExchange :: bool

section \<open>Kubernetes\<close>

record nsObj =
  nsName :: string
  nsVersion :: nat
  nsLabels :: "string \<rightharpoonup> string"
  nsAnnotations :: "string \<rightharpoonup> string"
  nsTerminating :: bool

record podObj =
  podNamespace :: string
  podName :: string
  podLabels :: "string \<rightharpoonup> string"
  podPhase :: string
  podWaiting :: "string option list"

text \<open>The audit event: the namespace it is about and the arguments of its message.\<close>

record gcEvent =
  evAbout :: string
  evElapsed :: int
  evSummary :: string
  evActive :: int

text \<open>
  An object inside a namespace (cluster-wide ones have the empty namespace), of a resource type; of
  its content the fields of our concern as texts.
\<close>

record kObject =
  koResource :: string
  koNamespace :: string
  koName :: string
  koLabels :: "string \<rightharpoonup> string"
  koData :: "(string \<times> string) list"

section \<open>The database server and the rest\<close>

text \<open>
  A database with its owner and who may connect (\<open>None\<close> is \<^verbatim>\<open>PUBLIC\<close>); the roles with their
  passwords, who is a member of which role, the databases.
\<close>

record pgDatabase =
  pgOwner :: string
  pgConnect :: "string option set"

record pgServer =
  pgRoles :: "string \<rightharpoonup> string"
  pgMembers :: "(string \<times> string) set"
  pgDatabases :: "string \<rightharpoonup> pgDatabase"

text \<open>
  What a gateway's reconciliation touches besides: the database server, the Helm releases and the Vault
  mounts by namespace, the reports of orphaned resources; \<open>siApi\<close> is the API server's state.
\<close>

record 'a site =
  siPg :: pgServer
  siReleases :: "string set"
  siMounts :: "string set"
  siOrphans :: "(string \<times> string) list"
  siApi :: 'a

section \<open>The world\<close>

record 'g cluster = realm +
  kNamespaces :: "nsObj list"
  kPods :: "podObj list"
  kEvents :: "gcEvent list"
  kObjects :: "kObject list"
  kServer :: 'g

text \<open>The calls: to Keycloak, to Kubernetes, to the database server, to Helm, Vault and the API server.\<close>

datatype (plugins only: code) rcall =
    KGetClients string
  | KListClients nat nat
  | KGetClient string
  | KPutClient string
  | KCreateClient string
  | KDeleteClient string
  | KGetRole string string
  | KCreateRole string string
  | KCreateMapper string string
  | KGetUsers string
  | KCountUsers
  | KListUsers nat nat
  | KAssign string string string
  | KRemove string string string
  | KListRoles string
  | KScopeMappings string string
  | KListMappers string
  | KPutMapper string string
  | KGetSecret string
  | KPutManagement fgapResource
  | KGetManagement fgapResource
  | KFindPolicy string
  | KCreatePolicy string
  | KAssociatedPolicies string
  | KGetPermission string
  | KPutPermission string
  | ListNamespaces "(string \<times> string) list"
  | GetNs string
  | CreateNs string
  | UpdateNs string
  | PatchAnnotation string
  | PatchLabel string
  | DeleteNs string
  | ListPods string
  | RecordEvent string
  | RecordOrphan string string
  | ListObjects string string
  | GetObject string string string
  | CreateObject string string string
  | UpdateObject string string string
  | DeleteObject string string string
  | SqlQuery string string
  | SqlExec string string
  | HelmUninstall string
  | HelmInstall string
  | DropMount string
  | EnsureMount string
  | VaultProbe string
  | RpcGetGateway string
  | RpcListGateways
  | RpcListRoleBindings
  | RpcUpdateGateway string

section \<open>Objects\<close>

definition objIs :: "string \<Rightarrow> string \<Rightarrow> string \<Rightarrow> kObject \<Rightarrow> bool" where
  "objIs res ns n x \<longleftrightarrow> koResource x = res \<and> koNamespace x = ns \<and> koName x = n"

definition objLookup :: "string \<Rightarrow> string \<Rightarrow> string \<Rightarrow> 'g cluster \<Rightarrow> kObject option" where
  "objLookup res ns n k = find (objIs res ns n) (kObjects k)"

definition objNotFound :: "string \<Rightarrow> string \<Rightarrow> chain" where
  "objNotFound res n = K8sErr ''NotFound'' (res @ '' '' @ n @ '' not found'')"

definition objGet :: "string \<Rightarrow> string \<Rightarrow> string \<Rightarrow> 'g cluster \<Rightarrow> chain + kObject" where
  "objGet res ns n k = (case objLookup res ns n k of None \<Rightarrow> Inl (objNotFound res n) | Some x \<Rightarrow> Inr x)"

definition objCreate :: "kObject \<Rightarrow> 'g cluster \<Rightarrow> (chain + unit) \<times> 'g cluster" where
  "objCreate x k =
     (case objLookup (koResource x) (koNamespace x) (koName x) k of
        Some _ \<Rightarrow> (Inl (K8sErr ''AlreadyExists'' (koResource x @ '' '' @ koName x @ '' already exists'')), k)
      | None \<Rightarrow> (Inr (), k\<lparr>kObjects := kObjects k @ [x]\<rparr>))"

definition objUpdate :: "kObject \<Rightarrow> 'g cluster \<Rightarrow> (chain + unit) \<times> 'g cluster" where
  "objUpdate x k =
     (case objLookup (koResource x) (koNamespace x) (koName x) k of
        None \<Rightarrow> (Inl (objNotFound (koResource x) (koName x)), k)
      | Some _ \<Rightarrow> (Inr (), k\<lparr>kObjects :=
          map (\<lambda>y. if objIs (koResource x) (koNamespace x) (koName x) y then x else y) (kObjects k)\<rparr>))"

definition objDelete :: "string \<Rightarrow> string \<Rightarrow> string \<Rightarrow> 'g cluster \<Rightarrow> (chain + unit) \<times> 'g cluster" where
  "objDelete res ns n k =
     (case objLookup res ns n k of
        None \<Rightarrow> (Inl (objNotFound res n), k)
      | Some _ \<Rightarrow> (Inr (), k\<lparr>kObjects := filter (\<lambda>x. \<not> objIs res ns n x) (kObjects k)\<rparr>))"

definition objList :: "string \<Rightarrow> string \<Rightarrow> string \<times> string \<Rightarrow> 'g cluster \<Rightarrow> chain + kObject list" where
  "objList res ns sel k =
     Inr (filter (\<lambda>x. koResource x = res \<and> koNamespace x = ns \<and> koLabels x (fst sel) = Some (snd sel)) (kObjects k))"

end
