(* ===== verification/Namespace_GC.thy ===== *)
theory Namespace_GC
  imports Control_World
begin

text \<open>
  The namespaces of a control plane (\<^verbatim>\<open>control-plane/internal/gateway/namespace.go\<close>), the pods in
  them (\<^verbatim>\<open>gateway/sandbox.go\<close>) and the garbage collection of namespaces whose gateway is gone
  (\<^verbatim>\<open>control-plane/internal/reconciler/namespace.go\<close>).

  The Kubernetes API is a state with the operations the code calls; an update must name the version
  it read, a deletion marks a namespace as terminating. A label selector is kept as the list of its
  requirements. The calls run in an environment that may do anything between them and may make any
  of them fail (\<open>Control_Effects\<close>). The message of an audit event is kept as its three arguments.
  The reclaiming of the Vault mount is an argument, one call.
\<close>

section \<open>The Kubernetes API\<close>

type_synonym ('g, 'a) kubeProg = "('g cluster, rcall, 'a) kprog"

definition nsNotFound :: "string \<Rightarrow> chain" where
  "nsNotFound n = K8sErr ''NotFound'' (''namespaces '' @ n @ '' not found'')"

definition nsLookup :: "string \<Rightarrow> 'g cluster \<Rightarrow> nsObj option" where
  "nsLookup n c = find (\<lambda>ns. nsName ns = n) (kNamespaces c)"

definition selects :: "(string \<times> string) list \<Rightarrow> nsObj \<Rightarrow> bool" where
  "selects sel ns \<longleftrightarrow> list_all (\<lambda>(k, v). nsLabels ns k = Some v) sel"

definition apiList :: "(string \<times> string) list \<Rightarrow> 'g cluster \<Rightarrow> chain + nsObj list" where
  "apiList sel c = Inr (filter (selects sel) (kNamespaces c))"

definition apiGet :: "string \<Rightarrow> 'g cluster \<Rightarrow> chain + nsObj" where
  "apiGet n c = (case nsLookup n c of None \<Rightarrow> Inl (nsNotFound n) | Some ns \<Rightarrow> Inr ns)"

definition onNs :: "string \<Rightarrow> (nsObj \<Rightarrow> nsObj) \<Rightarrow> 'g cluster \<Rightarrow> 'g cluster" where
  "onNs n f c = c\<lparr>kNamespaces := map (\<lambda>ns. if nsName ns = n then (f ns)\<lparr>nsName := n, nsVersion := Suc (nsVersion ns)\<rparr> else ns) (kNamespaces c)\<rparr>"

definition apiPatch :: "string \<Rightarrow> (nsObj \<Rightarrow> nsObj) \<Rightarrow> 'g cluster \<Rightarrow> (chain + unit) \<times> 'g cluster" where
  "apiPatch n f c =
     (case nsLookup n c of None \<Rightarrow> (Inl (nsNotFound n), c) | Some _ \<Rightarrow> (Inr (), onNs n f c))"

definition apiUpdate :: "nsObj \<Rightarrow> 'g cluster \<Rightarrow> (chain + unit) \<times> 'g cluster" where
  "apiUpdate new c =
     (case nsLookup (nsName new) c of
        None \<Rightarrow> (Inl (nsNotFound (nsName new)), c)
      | Some ns \<Rightarrow>
          if nsVersion ns \<noteq> nsVersion new then (Inl (K8sErr ''Conflict'' (''namespaces '' @ nsName new @ '' has been modified'')), c)
          else (Inr (), onNs (nsName new) (\<lambda>_. new) c))"

definition apiCreate :: "string \<Rightarrow> (string \<rightharpoonup> string) \<Rightarrow> 'g cluster \<Rightarrow> (chain + unit) \<times> 'g cluster" where
  "apiCreate n labels c =
     (case nsLookup n c of
        Some _ \<Rightarrow> (Inl (K8sErr ''AlreadyExists'' (''namespaces '' @ n @ '' already exists'')), c)
      | None \<Rightarrow> (Inr (), c\<lparr>kNamespaces := kNamespaces c @
            [\<lparr>nsName = n, nsVersion = 0, nsLabels = labels, nsAnnotations = Map.empty, nsTerminating = False\<rparr>]\<rparr>))"

definition apiDelete :: "string \<Rightarrow> 'g cluster \<Rightarrow> (chain + unit) \<times> 'g cluster" where
  "apiDelete n = apiPatch n (\<lambda>ns. ns\<lparr>nsTerminating := True\<rparr>)"

definition apiPods :: "string \<Rightarrow> 'g cluster \<Rightarrow> chain + podObj list" where
  "apiPods n c = Inr (filter (\<lambda>p. podNamespace p = n) (kPods c))"

definition apiEvent :: "gcEvent \<Rightarrow> 'g cluster \<Rightarrow> (chain + unit) \<times> 'g cluster" where
  "apiEvent e c = (Inr (), c\<lparr>kEvents := kEvents c @ [e]\<rparr>)"

section \<open>Labels and ownership\<close>

abbreviation OpenShellGatewayIDLabel :: string where "OpenShellGatewayIDLabel \<equiv> ''openshell.ai/gateway-id''"
abbreviation ManagedByLabel :: string where "ManagedByLabel \<equiv> ''app.kubernetes.io/managed-by''"
abbreviation ManagedByValue :: string where "ManagedByValue \<equiv> ''hypershell-control-plane''"
abbreviation ManagedLabel :: string where "ManagedLabel \<equiv> ''hypershell.redhat.io/managed''"
abbreviation ManagedLabelValue :: string where "ManagedLabelValue \<equiv> ''true''"
abbreviation InstanceLabel :: string where "InstanceLabel \<equiv> ''hypershell.redhat.io/instance''"
abbreviation ControlPlaneLabel :: string where "ControlPlaneLabel \<equiv> ''hypershell.redhat.io/control-plane''"
abbreviation ControlPlaneLabelValue :: string where "ControlPlaneLabelValue \<equiv> ''true''"
abbreviation GatewayNamespacePrefix :: string where "GatewayNamespacePrefix \<equiv> ''openshell-''"
abbreviation GCEligibleSinceAnnotation :: string where "GCEligibleSinceAnnotation \<equiv> ''hypershell.redhat.io/gc-eligible-since''"

text \<open>The selector comes with an error where the instance is empty; the selector is valid anyway.\<close>

definition ManagedNamespaceSelector :: "string \<Rightarrow> (string \<times> string) list \<times> chain option" where
  "ManagedNamespaceSelector inst =
     (if inst = [] then ([(InstanceLabel, ''no-such-instance'')],
        Some (PlainErr ''instance identity is empty; refusing to build a managed-namespace selector''))
      else ([(ManagedLabel, ManagedLabelValue), (ManagedByLabel, ManagedByValue), (InstanceLabel, inst)], None))"

definition ManagedNamespaceLabels :: "string \<Rightarrow> (string \<rightharpoonup> string)" where
  "ManagedNamespaceLabels inst =
     [ManagedByLabel \<mapsto> ManagedByValue, ManagedLabel \<mapsto> ManagedLabelValue, InstanceLabel \<mapsto> inst]"

definition hasManagementLabels :: "nsObj \<Rightarrow> bool" where
  "hasManagementLabels ns \<longleftrightarrow>
     map_get (nsLabels ns) ManagedLabel = ManagedLabelValue \<and> map_get (nsLabels ns) ManagedByLabel = ManagedByValue"

definition IsManagedNamespace :: "nsObj \<Rightarrow> string \<Rightarrow> bool" where
  "IsManagedNamespace ns inst \<longleftrightarrow>
     (if inst = [] \<or> \<not> hasManagementLabels ns then False else map_get (nsLabels ns) InstanceLabel = inst)"

definition isGatewayWorkloadName :: "string \<Rightarrow> bool" where
  "isGatewayWorkloadName n \<longleftrightarrow> strings_HasPrefix n GatewayNamespacePrefix"

definition IsGatewayNamespaceForGC :: "nsObj \<Rightarrow> string \<Rightarrow> bool" where
  "IsGatewayNamespaceForGC ns inst \<longleftrightarrow>
     (if \<not> IsManagedNamespace ns inst then False else isGatewayWorkloadName (nsName ns))"

definition EnsureControlPlaneNamespaceLabel :: "'g cluster environ \<Rightarrow> string \<Rightarrow> ('g, unit) kubeProg" where
  "EnsureControlPlaneNamespaceLabel E n =
     (if n = [] then fail (PlainErr (''control-plane namespace is empty; cannot apply the '' @ ControlPlaneLabel @ '' label''))
      else andThen (mapErr (errorfW (''get control-plane namespace '' @ n @ '': '')) (kread E (GetNs n) (apiGet n)))
        (\<lambda>ns. if map_get (nsLabels ns) ControlPlaneLabel = ControlPlaneLabelValue then ret ()
             else mapErr (errorfW (''label control-plane namespace '' @ n @ '' with '' @ ControlPlaneLabel @ '': ''))
               (kcall E (PatchLabel n)
                 (apiPatch n (\<lambda>ns. ns\<lparr>nsLabels := (nsLabels ns)(ControlPlaneLabel \<mapsto> ControlPlaneLabelValue)\<rparr>)))))"

section \<open>Creating, marking and deleting a namespace\<close>

definition DeleteManagedNamespace :: "'g cluster environ \<Rightarrow> string \<Rightarrow> string \<Rightarrow> ('g, bool) kubeProg" where
  "DeleteManagedNamespace E n inst =
     andThen (attempt (kread E (GetNs n) (apiGet n)))
      (\<lambda>got. case got of
         Inl err \<Rightarrow> if k8s_IsNotFound err then ret False else fail (errorfW (''get namespace '' @ n @ '': '') err)
       | Inr ns \<Rightarrow>
           if \<not> isGatewayWorkloadName (nsName ns) \<or> \<not> hasManagementLabels ns then ret False
           else if inst = [] \<or> map_get (nsLabels ns) InstanceLabel \<noteq> inst then ret False
           else if nsTerminating ns then ret False
           else andThen (attempt (kcall E (DeleteNs n) (apiDelete n)))
             (\<lambda>del. case del of
                Inl err \<Rightarrow> if k8s_IsNotFound err then ret False else fail (errorfW (''delete namespace '' @ n @ '': '') err)
              | Inr _ \<Rightarrow> ret True))"

text \<open>The pattern \<^verbatim>\<open>^openshell-([0-9a-f]{16})$\<close> of a namespace the API server assigned.\<close>

definition isLowerHex :: "char \<Rightarrow> bool" where
  "isLowerHex c \<longleftrightarrow> (CHR ''0'' \<le> c \<and> c \<le> CHR ''9'') \<or> (CHR ''a'' \<le> c \<and> c \<le> CHR ''f'')"

definition ManagedGatewayID :: "string \<Rightarrow> chain + string" where
  "ManagedGatewayID n =
     (let i = strings_TrimPrefix n GatewayNamespacePrefix
      in if strings_HasPrefix n GatewayNamespacePrefix \<and> length i = 16 \<and> list_all isLowerHex i then Inr i
         else Inl (PlainErr (''managed workspace mode requires an API-assigned gateway namespace of the form openshell-{16-hex}, got '' @ n)))"

definition deleteWorkspace :: "'g cluster environ \<Rightarrow> string \<Rightarrow> string \<Rightarrow> chain option \<Rightarrow> ('g, chain option) kubeProg" where
  "deleteWorkspace E n name errs =
     (if name = n then ret errs
      else andThen (attempt (kcall E (DeleteNs name) (apiDelete name)))
        (\<lambda>del. case del of
           Inr _ \<Rightarrow> ret errs
         | Inl err \<Rightarrow> if k8s_IsNotFound err then ret errs
                     else ret (errors_Join errs (errorfW (''delete managed workspace namespace '' @ name @ '': '') err))))"

fun deleteWorkspaces :: "'g cluster environ \<Rightarrow> string \<Rightarrow> nsObj list \<Rightarrow> chain option \<Rightarrow> ('g, chain option) kubeProg" where
  "deleteWorkspaces E n [] errs = ret errs"
| "deleteWorkspaces E n (ns # rest) errs = andThen (deleteWorkspace E n (nsName ns) errs) (deleteWorkspaces E n rest)"

definition DeleteManagedWorkspaceNamespaces :: "'g cluster environ \<Rightarrow> string \<Rightarrow> ('g, unit) kubeProg" where
  "DeleteManagedWorkspaceNamespaces E n =
     (case ManagedGatewayID n of
        Inl _ \<Rightarrow> ret ()
      | Inr gatewayID \<Rightarrow>
          andThen (mapErr (errorfW (''list managed workspace namespaces of '' @ n @ '': ''))
              (kread E (ListNamespaces [(OpenShellGatewayIDLabel, gatewayID)]) (apiList [(OpenShellGatewayIDLabel, gatewayID)])))
            (\<lambda>items. andThen (deleteWorkspaces E n items None) guardErr))"

definition labelsDiffer :: "(string \<rightharpoonup> string) \<Rightarrow> string \<Rightarrow> bool" where
  "labelsDiffer labels inst \<longleftrightarrow>
     list_ex (\<lambda>(k, v). map_get labels k \<noteq> v) [(ManagedByLabel, ManagedByValue), (ManagedLabel, ManagedLabelValue), (InstanceLabel, inst)]"

definition adoptNamespace :: "'g cluster environ \<Rightarrow> string \<Rightarrow> string \<Rightarrow> nsObj \<Rightarrow> ('g, unit) kubeProg" where
  "adoptNamespace E n inst ns =
     (let existing = map_get (nsLabels ns) InstanceLabel
      in if existing \<noteq> [] \<and> existing \<noteq> inst
         then fail (PlainErr (''namespace '' @ n @ '' is managed by instance '' @ existing @ '', not '' @ inst))
         else if \<not> labelsDiffer (nsLabels ns) inst then ret ()
         else mapErr (errorfW (''update namespace '' @ n @ '' labels: ''))
           (kcall E (UpdateNs n) (apiUpdate (ns\<lparr>nsLabels := nsLabels ns ++ ManagedNamespaceLabels inst\<rparr>))))"

definition EnsureManagedNamespace :: "'g cluster environ \<Rightarrow> string \<Rightarrow> string \<Rightarrow> ('g, unit) kubeProg" where
  "EnsureManagedNamespace E n inst =
     (if inst = [] then fail (PlainErr (''refusing to manage namespace '' @ n @ '' without a control-plane instance identity''))
      else andThen (attempt (kread E (GetNs n) (apiGet n)))
        (\<lambda>got. case got of
           Inr ns \<Rightarrow> adoptNamespace E n inst ns
         | Inl err \<Rightarrow>
             if \<not> k8s_IsNotFound err then fail (errorfW (''get namespace '' @ n @ '': '') err)
             else andThen (attempt (kcall E (CreateNs n) (apiCreate n (ManagedNamespaceLabels inst))))
               (\<lambda>created. case created of
                  Inr _ \<Rightarrow> ret ()
                | Inl err \<Rightarrow>
                    if \<not> k8s_IsAlreadyExists err then fail (errorfW (''create namespace '' @ n @ '': '') err)
                    else andThen (mapErr (errorfW (''get namespace '' @ n @ '' after create race: '')) (kread E (GetNs n) (apiGet n)))
                      (adoptNamespace E n inst))))"

definition MarkGCEligible :: "timeCodec \<Rightarrow> 'g cluster environ \<Rightarrow> nsObj \<Rightarrow> int \<Rightarrow> ('g, int) kubeProg" where
  "MarkGCEligible T E ns now =
     (let existing = map_get (nsAnnotations ns) GCEligibleSinceAnnotation;
          stamp = tcFormat T now
      in case (if existing \<noteq> [] then tcParse T existing else None) of
           Some t \<Rightarrow> ret t
         | None \<Rightarrow>
             andThen (mapErr (errorfW (''annotate namespace '' @ nsName ns @ '' '' @ GCEligibleSinceAnnotation @ '': ''))
                 (kcall E (PatchAnnotation (nsName ns))
                   (apiPatch (nsName ns) (\<lambda>ns. ns\<lparr>nsAnnotations := (nsAnnotations ns)(GCEligibleSinceAnnotation \<mapsto> stamp)\<rparr>))))
               (\<lambda>_. case tcParse T stamp of
                  Some t \<Rightarrow> ret t
                | None \<Rightarrow> fail (PlainErr (''parse stamped '' @ GCEligibleSinceAnnotation @ '' for '' @ nsName ns))))"

definition ClearGCEligible :: "'g cluster environ \<Rightarrow> nsObj \<Rightarrow> ('g, unit) kubeProg" where
  "ClearGCEligible E ns =
     (if nsAnnotations ns GCEligibleSinceAnnotation = None then ret ()
      else mapErr (errorfW (''clear namespace '' @ nsName ns @ '' '' @ GCEligibleSinceAnnotation @ '': ''))
        (kcall E (PatchAnnotation (nsName ns))
          (apiPatch (nsName ns) (\<lambda>ns. ns\<lparr>nsAnnotations := (nsAnnotations ns)(GCEligibleSinceAnnotation := None)\<rparr>))))"

section \<open>Pods\<close>

abbreviation sandboxPodLabelKey :: string where "sandboxPodLabelKey \<equiv> ''agents.x-k8s.io/sandbox-name-hash''"

definition hasSandboxLabel :: "podObj \<Rightarrow> bool" where
  "hasSandboxLabel p \<longleftrightarrow> podLabels p sandboxPodLabelKey \<noteq> None"

definition isActivePod :: "podObj \<Rightarrow> bool" where
  "isActivePod p \<longleftrightarrow> podPhase p = ''Running'' \<or> podPhase p = ''Pending''"

definition IsActiveSandboxPod :: "podObj \<Rightarrow> bool" where
  "IsActiveSandboxPod p \<longleftrightarrow> hasSandboxLabel p \<and> isActivePod p"

text \<open>The pattern \<^verbatim>\<open>^openshell-([0-9a-f]{16})-\<close>: the identifier and a hyphen after it.\<close>

definition SandboxGatewayNamespace :: "string \<Rightarrow> string" where
  "SandboxGatewayNamespace n =
     (let r = strings_TrimPrefix n GatewayNamespacePrefix; i = take 16 r
      in if strings_HasPrefix n GatewayNamespacePrefix \<and> length i = 16 \<and> list_all isLowerHex i \<and>
            strings_HasPrefix (drop 16 r) ''-''
         then GatewayNamespacePrefix @ i else n)"

definition CountActiveSandboxes :: "'g cluster environ \<Rightarrow> string \<Rightarrow> ('g, int) kubeProg" where
  "CountActiveSandboxes E n =
     andThen (mapErr (errorfW (''list pods in '' @ n @ '': '')) (kread E (ListPods n) (apiPods n)))
       (\<lambda>pods. ret (int (length (filter (\<lambda>p. hasSandboxLabel p \<and> isActivePod p) pods))))"

definition classifyPod :: "podObj \<Rightarrow> string" where
  "classifyPod p =
     (if Some ''CrashLoopBackOff'' \<in> set (podWaiting p) then ''CrashLoopBackOff''
      else if podPhase p = ''Running'' then ''Running''
      else if podPhase p = ''Succeeded'' then ''Completed''
      else if podPhase p = ''Pending'' then ''Pending''
      else if podPhase p = ''Failed'' then ''Failed''
      else ''Unknown'')"

record podSummary =
  psTotal :: nat
  psStates :: "string \<Rightarrow> nat"

definition podStateOrder :: "string list" where
  "podStateOrder = [''Running'', ''CrashLoopBackOff'', ''Pending'', ''Completed'', ''Failed'', ''Unknown'']"

definition joinStrings :: "string \<Rightarrow> string list \<Rightarrow> string" where
  "joinStrings sep parts = (case parts of [] \<Rightarrow> [] | p # ps \<Rightarrow> p @ concat (map (\<lambda>q. sep @ q) ps))"

definition summary_String :: "podSummary \<Rightarrow> string" where
  "summary_String s =
     (if psTotal s = 0 then ''0 pods''
      else natText (psTotal s) @ '' pods: '' @
        joinStrings '', '' (map (\<lambda>st. natText (psStates s st) @ '' '' @ st) (filter (\<lambda>st. psStates s st > 0) podStateOrder)))"

definition SummarizeNamespacePods :: "podObj list \<Rightarrow> podSummary" where
  "SummarizeNamespacePods pods =
     fold (\<lambda>p s. s\<lparr>psTotal := Suc (psTotal s), psStates := (psStates s)(classifyPod p := Suc (psStates s (classifyPod p)))\<rparr>) pods
       \<lparr>psTotal = 0, psStates = (\<lambda>_. 0)\<rparr>"

definition SummarizeNamespace :: "'g cluster environ \<Rightarrow> string \<Rightarrow> ('g, podSummary) kubeProg" where
  "SummarizeNamespace E n =
     andThen (mapErr (errorfW (''list pods in '' @ n @ '': '')) (kread E (ListPods n) (apiPods n)))
       (\<lambda>pods. ret (SummarizeNamespacePods pods))"

section \<open>The live namespaces\<close>

text \<open>
  The fields of a gateway the reconcilers of the control plane read besides the phase. A nil
  pointer is \<open>None\<close>.
\<close>

record gwFields =
  gfName :: string
  gfNamespace :: "string option"
  gfClusterId :: "string option"
  gfOidc :: "string option"

type_synonym cpGateway = "gwFields pbGateway"

definition strptr :: "string option \<Rightarrow> string" where
  "strptr p = (case p of None \<Rightarrow> [] | Some s \<Rightarrow> s)"

abbreviation gatewayListPageSize :: nat where "gatewayListPageSize \<equiv> 500"

definition deadlineExceeded :: chain where
  "deadlineExceeded = StatusErr DeadlineExceeded ''context deadline exceeded''"

text \<open>
  \<^verbatim>\<open>listAllGateways\<close>: the page reads go on until the whole inventory is there. The context of a
  caller expires after 30 seconds, and from then on every read fails; \<open>budget\<close> is the number of
  pages that are read before. A page is the items and the total the server reports.
\<close>

fun listAllFrom ::
  "('c environ) \<Rightarrow> 'l \<Rightarrow> (32 word \<Rightarrow> nat \<Rightarrow> string \<Rightarrow> 'c \<Rightarrow> chain + 'x pbGateway list \<times> int) \<Rightarrow> string \<Rightarrow>
     nat \<Rightarrow> 32 word \<Rightarrow> 'x pbGateway list \<Rightarrow> ('c, 'l, 'x pbGateway list) kprog" where
  "listAllFrom E l list clusterFilter 0 page all = fail deadlineExceeded"
| "listAllFrom E l list clusterFilter (Suc budget) page all =
     andThen (kread E l (list page gatewayListPageSize clusterFilter))
       (\<lambda>(items, rows). if length items = 0 \<or> length items < gatewayListPageSize \<or>
                            (rows > 0 \<and> int (length (all @ items)) \<ge> rows)
                         then ret (all @ items)
                         else listAllFrom E l list clusterFilter budget (page + 1) (all @ items))"

definition listAllGateways ::
  "('c environ) \<Rightarrow> 'l \<Rightarrow> (32 word \<Rightarrow> nat \<Rightarrow> string \<Rightarrow> 'c \<Rightarrow> chain + 'x pbGateway list \<times> int) \<Rightarrow> nat \<Rightarrow> string \<Rightarrow>
     ('c, 'l, 'x pbGateway list) kprog" where
  "listAllGateways E l list budget clusterID =
     (case ClusterFilter clusterID of
        Inl err \<Rightarrow> fail err
      | Inr clusterFilter \<Rightarrow> listAllFrom E l list clusterFilter budget 1 [])"

text \<open>The API server's \<^verbatim>\<open>ListGateways\<close>, by page, page size and cluster.\<close>

type_synonym 'g listServer = "32 word \<Rightarrow> nat \<Rightarrow> string \<Rightarrow> 'g \<Rightarrow> chain + cpGateway list \<times> int"

fun namespacesOf :: "cpGateway list \<Rightarrow> chain + string list" where
  "namespacesOf [] = Inr []"
| "namespacesOf (gw # rest) =
     (if strptr (gfNamespace (gwRest gw)) = []
      then Inl (PlainErr (''gateway '' @ gwGetId gw @ '' has no namespace; refusing to build a live set that could orphan a live namespace''))
      else (case namespacesOf rest of Inl err \<Rightarrow> Inl err | Inr live \<Rightarrow> Inr (strptr (gfNamespace (gwRest gw)) # live)))"

definition grpcLiveNamespaces ::
  "'g cluster environ \<Rightarrow> 'g listServer \<Rightarrow> nat \<Rightarrow> string \<Rightarrow> ('g, string list) kubeProg" where
  "grpcLiveNamespaces E srv budget clusterID =
     andThen (mapErr (errorfW ''list gateways: '')
         (listAllGateways E RpcListGateways (\<lambda>p n f c. srv p n f (kServer c)) budget clusterID))
       (\<lambda>gateways. case namespacesOf gateways of Inl err \<Rightarrow> fail err | Inr live \<Rightarrow> ret live)"

section \<open>The collector\<close>

text \<open>
  The reconciler: \<open>gcLive\<close> is its read of the live namespaces, the default being
  \<open>grpcLiveNamespaces\<close>; \<open>gcDropMount\<close> reclaims a Vault mount.
\<close>

record 'g gcReconciler =
  gcInterval :: int
  gcGrace :: int
  gcNamespace :: string
  gcClusterID :: string
  gcLive :: "'g cluster environ \<Rightarrow> ('g, string list) kubeProg"
  gcDropMount :: "string \<Rightarrow> 'g cluster \<Rightarrow> (chain + unit) \<times> 'g cluster"
  gcCodec :: timeCodec

definition NewNamespaceGCReconciler ::
  "'g listServer \<Rightarrow> nat \<Rightarrow> (string \<Rightarrow> 'g cluster \<Rightarrow> (chain + unit) \<times> 'g cluster) \<Rightarrow> timeCodec \<Rightarrow>
     int \<Rightarrow> int \<Rightarrow> string \<Rightarrow> string \<Rightarrow> 'g gcReconciler" where
  "NewNamespaceGCReconciler srv budget dropMount T interval gracePeriod cpNamespace clusterID =
     \<lparr>gcInterval = (if interval \<le> 0 then 5 * Minute else interval),
      gcGrace = (if gracePeriod \<le> 0 then 10 * Minute else gracePeriod),
      gcNamespace = cpNamespace, gcClusterID = clusterID,
      gcLive = (\<lambda>E. grpcLiveNamespaces E srv budget clusterID),
      gcDropMount = dropMount, gcCodec = T\<rparr>"

definition recordGCEvent :: "'g gcReconciler \<Rightarrow> 'g cluster environ \<Rightarrow> gcEvent \<Rightarrow> ('g, unit) kubeProg" where
  "recordGCEvent r E ev =
     (if gcNamespace r = [] then
        fail (PlainErr (''no control-plane namespace configured; cannot record the required GC Event for '' @ evAbout ev))
      else andThen (readClock E) (\<lambda>_. kcall E (RecordEvent (evAbout ev)) (apiEvent ev)))"

text \<open>The reap, once the namespace is confirmed orphaned: summaries, audit event, mount, deletion.\<close>

definition reapNamespace :: "'g gcReconciler \<Rightarrow> 'g cluster environ \<Rightarrow> string \<Rightarrow> int \<Rightarrow> ('g, unit) kubeProg" where
  "reapNamespace r E n elapsedFor =
     andThen (attempt (SummarizeNamespace E n)) (\<lambda>summary.
     andThen (attempt (CountActiveSandboxes E n)) (\<lambda>active.
     andThen (mapErr (errorfW (''record GC event for '' @ n @ '': ''))
        (recordGCEvent r E \<lparr>evAbout = n, evElapsed = elapsedFor,
           evSummary = summary_String (case summary of Inl _ \<Rightarrow> \<lparr>psTotal = 0, psStates = (\<lambda>_. 0)\<rparr> | Inr s \<Rightarrow> s),
           evActive = (case active of Inl _ \<Rightarrow> 0 | Inr k \<Rightarrow> k)\<rparr>)) (\<lambda>_.
     andThen (attempt (kcall E (DropMount n) (gcDropMount r n))) (\<lambda>_.
     andThen (DeleteManagedNamespace E n (gcNamespace r)) (\<lambda>_. ret ())))))"

definition reconcileNamespace :: "'g gcReconciler \<Rightarrow> 'g cluster environ \<Rightarrow> string list \<Rightarrow> nsObj \<Rightarrow> ('g, unit) kubeProg" where
  "reconcileNamespace r E live ns =
     (if \<not> IsGatewayNamespaceForGC ns (gcNamespace r) then ret ()
      else if nsTerminating ns then ret ()
      else if nsName ns \<in> set live then ClearGCEligible E ns
      else
        andThen (readClock E) (\<lambda>now.
        andThen (MarkGCEligible (gcCodec r) E ns now) (\<lambda>since.
        andThen (readClock E) (\<lambda>now2.
          let elapsedFor = timeSub now2 since
          in if elapsedFor < gcGrace r then ret ()
             else
               andThen (mapErr (errorfW (''re-check liveness before reaping '' @ nsName ns @ '': '')) (gcLive r E)) (\<lambda>freshLive.
                 if nsName ns \<in> set freshLive then ClearGCEligible E ns
                 else reapNamespace r E (nsName ns) elapsedFor)))))"

fun reconcileEach :: "'g gcReconciler \<Rightarrow> 'g cluster environ \<Rightarrow> string list \<Rightarrow> nsObj list \<Rightarrow> chain option \<Rightarrow> ('g, chain option) kubeProg" where
  "reconcileEach r E live [] tickErr = ret tickErr"
| "reconcileEach r E live (ns # rest) tickErr =
     andThen (attempt (reconcileNamespace r E live ns))
       (\<lambda>res. reconcileEach r E live rest (case res of Inl err \<Rightarrow> errors_Join tickErr err | Inr _ \<Rightarrow> tickErr))"

text \<open>One sweep; its error goes to the trace of the sweep only.\<close>

definition reconcileOnce :: "'g gcReconciler \<Rightarrow> 'g cluster environ \<Rightarrow> ('g, unit) kubeProg" where
  "reconcileOnce r E =
     (if gcNamespace r = [] then fail (PlainErr ''no control-plane namespace configured; refusing to sweep'')
      else andThen (gcLive r E) (\<lambda>live.
        case ManagedNamespaceSelector (gcNamespace r) of
          (_, Some err) \<Rightarrow> fail err
        | (sel, None) \<Rightarrow>
            andThen (kread E (ListNamespaces sel) (apiList sel)) (\<lambda>items.
            andThen (reconcileEach r E live items None) guardErr)))"

section \<open>What a deletion has behind it\<close>

fun isDelete :: "rcall \<Rightarrow> bool" where
  "isDelete (DeleteNs n) = True"
| "isDelete _ = False"

text \<open>The time a namespace is counted as orphaned from: its annotation, or a stamp made by this sweep.\<close>

definition eligibleSince :: "timeCodec \<Rightarrow> 'g cluster environ \<Rightarrow> nsObj \<Rightarrow> int \<Rightarrow> bool" where
  "eligibleSince T E ns since \<longleftrightarrow>
     (map_get (nsAnnotations ns) GCEligibleSinceAnnotation \<noteq> [] \<and>
        tcParse T (map_get (nsAnnotations ns) GCEligibleSinceAnnotation) = Some since) \<or>
     (\<exists>k. tcParse T (tcFormat T (envClock E k)) = Some since)"

text \<open>
  The history right before a deletion of \<open>n\<close>: a read of the live namespaces, made after the
  grace period, that does not know \<open>n\<close>; the two summaries; an audit event that was accepted; the
  mount; and a read of the namespace that finds it there, owned by this instance and not terminating.
\<close>

definition confirmedFor ::
  "'g gcReconciler \<Rightarrow> 'g cluster environ \<Rightarrow> nsObj \<Rightarrow> rcall \<Rightarrow> 'g cluster \<Rightarrow> (rcall \<times> 'g cluster) list \<Rightarrow> bool" where
  "confirmedFor r E ns l c log \<longleftrightarrow>
     (let n = nsName ns in l = DeleteNs n \<and>
      IsGatewayNamespaceForGC ns (gcNamespace r) \<and>
      (\<exists>since k. eligibleSince (gcCodec r) E ns since \<and> timeSub (envClock E k) since \<ge> gcGrace r) \<and>
      (\<exists>w0 live w1. gcLive r E w0 = (Inr live, w1) \<and> n \<notin> set live \<and>
         (\<exists>c1 c2 ev we we' c3 c4 tgt.
            kwLog we = kwLog w1 @ [(ListPods n, c1), (ListPods n, c2)] \<and>
            evAbout ev = n \<and> kcall E (RecordEvent n) (apiEvent ev) we = (Inr (), we') \<and>
            log = kwLog we' @ [(DropMount n, c3), (GetNs n, c4)] \<and>
            nsLookup n c4 = Some tgt \<and> IsGatewayNamespaceForGC tgt (gcNamespace r) \<and> \<not> nsTerminating tgt)))"

lemma DeleteManagedNamespace_guarded:
  assumes "\<And>c tgt c'. nsLookup n c = Some tgt \<Longrightarrow> IsGatewayNamespaceForGC tgt inst \<Longrightarrow> \<not> nsTerminating tgt \<Longrightarrow>
             J (DeleteNs n) c' (kwLog w @ [(GetNs n, c)])"
  shows "guarded isDelete J w (snd (DeleteManagedNamespace E n inst w))"
  unfolding DeleteManagedNamespace_def
proof (rule guarded.run_andThen)
  show "guarded isDelete J w (snd (attempt (kread E (GetNs n) (apiGet n)) w))"
    unfolding attempt_run snd_conv kread_def by (rule kcall_guarded) simp
next
  fix got w1
  assume got: "attempt (kread E (GetNs n) (apiGet n)) w = (Inr got, w1)"
  then have raw: "kread E (GetNs n) (apiGet n) w = (got, w1)" by (simp add: prod_eq_iff)
  show "guarded isDelete J w1 (snd ((case got of
         Inl err \<Rightarrow> if k8s_IsNotFound err then ret False else fail (errorfW (''get namespace '' @ n @ '': '') err)
       | Inr ns \<Rightarrow>
           if \<not> isGatewayWorkloadName (nsName ns) \<or> \<not> hasManagementLabels ns then ret False
           else if inst = [] \<or> map_get (nsLabels ns) InstanceLabel \<noteq> inst then ret False
           else if nsTerminating ns then ret False
           else andThen (attempt (kcall E (DeleteNs n) (apiDelete n)))
             (\<lambda>del. case del of
                Inl err \<Rightarrow> if k8s_IsNotFound err then ret False else fail (errorfW (''delete namespace '' @ n @ '': '') err)
              | Inr _ \<Rightarrow> ret True)) w1))"
  proof (cases got)
    case (Inl err)
    then show ?thesis by (simp add: guarded.refl)
  next
    case (Inr ns)
    with raw obtain c where c: "kwLog w1 = kwLog w @ [(GetNs n, c)]" "apiGet n c = Inr ns"
      by (auto elim: kread_success)
    then have found: "nsLookup n c = Some ns" by (simp add: apiGet_def split: option.splits)
    show ?thesis
    proof (cases "(isGatewayWorkloadName (nsName ns) \<and> hasManagementLabels ns) \<and>
        (inst \<noteq> [] \<and> map_get (nsLabels ns) InstanceLabel = inst) \<and> \<not> nsTerminating ns")
      case True
      then have ok: "IsGatewayNamespaceForGC ns inst" "\<not> nsTerminating ns"
        by (auto simp: IsGatewayNamespaceForGC_def IsManagedNamespace_def)
      have "guarded isDelete J w1 (snd (attempt (kcall E (DeleteNs n) (apiDelete n)) w1))"
        unfolding attempt_run snd_conv using assms [OF found ok] c(1) by (intro kcall_guarded) simp
      then have "guarded isDelete J w1 (snd (andThen (attempt (kcall E (DeleteNs n) (apiDelete n)))
             (\<lambda>del. case del of
                Inl err \<Rightarrow> if k8s_IsNotFound err then ret False else fail (errorfW (''delete namespace '' @ n @ '': '') err)
              | Inr _ \<Rightarrow> ret True) w1))"
        by (rule guarded.run_andThen) (auto simp: guarded.refl split: sum.split)
      with True Inr show ?thesis by simp
    next
      case False
      with Inr show ?thesis by (auto simp: guarded.refl)
    qed
  qed
qed

lemma pods_log:
  "\<exists>c. kwLog (snd (SummarizeNamespace E n w)) = kwLog w @ [(ListPods n, c)]"
  "\<exists>c. kwLog (snd (CountActiveSandboxes E n w)) = kwLog w @ [(ListPods n, c)]"
proof -
  have one: "\<exists>c. kwLog (snd (andThen (mapErr g (kread E (ListPods n) (apiPods n))) (\<lambda>x. ret (f x)) w)) =
      kwLog w @ [(ListPods n, c)]" for f :: "podObj list \<Rightarrow> 'b" and g
    using kcall_log [of E "ListPods n" "\<lambda>c. (apiPods n c, c)" w]
    by (cases "kread E (ListPods n) (apiPods n) w"; cases "fst (kread E (ListPods n) (apiPods n) w)")
      (auto simp: andThen_def mapErr_def kread_def)
  show "\<exists>c. kwLog (snd (SummarizeNamespace E n w)) = kwLog w @ [(ListPods n, c)]"
    "\<exists>c. kwLog (snd (CountActiveSandboxes E n w)) = kwLog w @ [(ListPods n, c)]"
    unfolding SummarizeNamespace_def CountActiveSandboxes_def by (rule one)+
qed

lemma quiet_steps:
  "steps (avoids isDelete) (SummarizeNamespace E n)"
  "steps (avoids isDelete) (CountActiveSandboxes E n)"
  "steps (avoids isDelete) (recordGCEvent r E ev)"
  "steps (avoids isDelete) (ClearGCEligible E ns)"
  "steps (avoids isDelete) (MarkGCEligible T E ns now)"
  unfolding SummarizeNamespace_def CountActiveSandboxes_def recordGCEvent_def ClearGCEligible_def MarkGCEligible_def
  by (auto split: option.split simp: Let_def intro!: avoids_rules)

lemma reapNamespace_guarded:
  assumes ns: "nsName ns = n" "IsGatewayNamespaceForGC ns (gcNamespace r)"
    and time: "eligibleSince (gcCodec r) E ns since" "timeSub (envClock E k) since \<ge> gcGrace r"
    and live: "gcLive r E w0 = (Inr live, w)" "n \<notin> set live"
  shows "guarded isDelete (confirmedFor r E ns) w (snd (reapNamespace r E n elapsedFor w))"
  unfolding reapNamespace_def
proof (rule guarded.run_andThen, goal_cases)
  case 1
  then show ?case
    using quiet_steps(1) [of E n] by (simp add: steps_def avoids_guarded)
next
  case (2 summary w2)
  obtain c1 where c1: "kwLog w2 = kwLog w @ [(ListPods n, c1)]"
    using 2 pods_log(1) [of E n w] by (auto simp: attempt_result)
  show ?case
  proof (rule guarded.run_andThen, goal_cases)
    case 1
    then show ?case
      using quiet_steps(2) [of E n] by (simp add: steps_def avoids_guarded)
  next
    case (2 active w3)
    obtain c2 where c2: "kwLog w3 = kwLog w2 @ [(ListPods n, c2)]"
      using 2 pods_log(2) [of E n w2] by (auto simp: attempt_result)
    show ?case
    proof (rule guarded.run_andThen, goal_cases)
      case 1
      then show ?case
        using quiet_steps(3) [of r E] by (simp add: steps_def avoids_guarded)
    next
      case (2 u w5)
      then obtain ev w4 where ev: "evAbout ev = n" "kcall E (RecordEvent n) (apiEvent ev) w4 = (Inr (), w5)"
          "kwLog w4 = kwLog w3"
        by (intro that [of "\<lparr>evAbout = n, evElapsed = elapsedFor,
           evSummary = summary_String (case summary of Inl _ \<Rightarrow> \<lparr>psTotal = 0, psStates = (\<lambda>_. 0)\<rparr> | Inr s \<Rightarrow> s),
           evActive = (case active of Inl _ \<Rightarrow> 0 | Inr k \<Rightarrow> k)\<rparr>" "w3\<lparr>kwTick := Suc (kwTick w3)\<rparr>"])
          (auto simp: recordGCEvent_def andThen_success readClock_def split: if_splits)
      show ?case
      proof (rule guarded.run_andThen, goal_cases)
        case 1
        then show ?case unfolding attempt_run snd_conv by (rule kcall_guarded) simp
      next
        case (2 dropped w6)
        obtain c3 where c3: "kwLog w6 = kwLog w5 @ [(DropMount n, c3)]"
          using 2 kcall_log [of E "DropMount n" "gcDropMount r n" w5] by (auto simp: attempt_result)
        show ?case
        proof (rule guarded.run_andThen, goal_cases)
          case 1
          show ?case
          proof (rule DeleteManagedNamespace_guarded, goal_cases)
            case (1 c4 tgt c)
            have "kwLog w4 = kwLog w @ [(ListPods n, c1), (ListPods n, c2)]"
              using c1 c2 ev(3) by simp
            moreover have "kwLog w6 @ [(GetNs n, c4)] = kwLog w5 @ [(DropMount n, c3), (GetNs n, c4)]"
              using c3 by simp
            ultimately show ?case
              unfolding confirmedFor_def Let_def ns(1)
              using ns(2) time live ev(1,2) 1 by blast
          qed
        next
          case 2
          then show ?case by (simp add: guarded.refl)
        qed
      qed
    qed
  qed
qed

text \<open>A read of the live namespaces that deletes nothing.\<close>

lemma listAllFrom_avoids: "\<not> D l \<Longrightarrow> steps (avoids D) (listAllFrom E l srv f budget page all)"
  by (induction budget arbitrary: page all) (auto intro!: avoids_rules split: prod.split)

lemma grpcLiveNamespaces_avoids: "steps (avoids isDelete) (grpcLiveNamespaces E srv budget clusterID)"
  unfolding grpcLiveNamespaces_def listAllGateways_def
  by (auto intro!: avoids_rules listAllFrom_avoids split: sum.split)

lemma reconcileNamespace_guarded:
  assumes live: "steps (avoids isDelete) (gcLive r E)"
  shows "guarded isDelete (confirmedFor r E ns) w (snd (reconcileNamespace r E known ns w))"
proof -
  have clear: "guarded isDelete (confirmedFor r E ns) v (snd (ClearGCEligible E ns v))" for v
    using quiet_steps(4) [of E ns] by (simp add: steps_def avoids_guarded)
  have "guarded isDelete (confirmedFor r E ns) w (snd (andThen (readClock E) (\<lambda>now.
        andThen (MarkGCEligible (gcCodec r) E ns now) (\<lambda>since.
        andThen (readClock E) (\<lambda>now2.
          let elapsedFor = timeSub now2 since
          in if elapsedFor < gcGrace r then ret ()
             else
               andThen (mapErr (errorfW (''re-check liveness before reaping '' @ nsName ns @ '': '')) (gcLive r E)) (\<lambda>freshLive.
                 if nsName ns \<in> set freshLive then ClearGCEligible E ns
                 else reapNamespace r E (nsName ns) elapsedFor)))) w))"
    if own: "IsGatewayNamespaceForGC ns (gcNamespace r)"
  proof (rule guarded.run_andThen, goal_cases)
    case 1
    then show ?case by (simp add: readClock_def guarded_def)
  next
    case (2 now w1)
    then have now: "now = envClock E (kwTick w)" by (simp add: readClock_def)
    show ?case
    proof (rule guarded.run_andThen, goal_cases)
      case 1
      then show ?case using quiet_steps(5) [of "gcCodec r" E ns now] by (simp add: steps_def avoids_guarded)
    next
      case (2 since w2)
      then have since: "eligibleSince (gcCodec r) E ns since"
        unfolding eligibleSince_def now
        by (auto simp: MarkGCEligible_def Let_def andThen_success split: option.splits if_splits)
      show ?case
      proof (rule guarded.run_andThen, goal_cases)
        case 1
        then show ?case by (simp add: readClock_def guarded_def)
      next
        case (2 now2 w3)
        then have now2: "now2 = envClock E (kwTick w2)" by (simp add: readClock_def)
        show ?case
        proof (cases "timeSub now2 since < gcGrace r")
          case True
          then show ?thesis by (simp add: guarded.refl)
        next
          case False
          have "guarded isDelete (confirmedFor r E ns) w3 (snd (andThen
             (mapErr (errorfW (''re-check liveness before reaping '' @ nsName ns @ '': '')) (gcLive r E)) (\<lambda>freshLive.
                 if nsName ns \<in> set freshLive then ClearGCEligible E ns
                 else reapNamespace r E (nsName ns) (timeSub now2 since)) w3))"
          proof (rule guarded.run_andThen, goal_cases)
            case 1
            then show ?case using live by (simp add: steps_def avoids_guarded)
          next
            case (2 fresh w4)
            then have fresh: "gcLive r E w3 = (Inr fresh, w4)" by simp
            have "guarded isDelete (confirmedFor r E ns) w4 (snd (reapNamespace r E (nsName ns) (timeSub now2 since) w4))"
              if "nsName ns \<notin> set fresh"
              using False now2 that
              by (intro reapNamespace_guarded [OF refl own since, of "kwTick w2" w3 fresh]) (auto simp: fresh)
            then show ?case by (auto simp: clear)
          qed
          with False show ?thesis by (simp add: Let_def)
        qed
      qed
    qed
  qed
  then show ?thesis
    unfolding reconcileNamespace_def using clear by (auto simp: guarded.refl)
qed

definition confirmedReap ::
  "'g gcReconciler \<Rightarrow> 'g cluster environ \<Rightarrow> rcall \<Rightarrow> 'g cluster \<Rightarrow> (rcall \<times> 'g cluster) list \<Rightarrow> bool" where
  "confirmedReap r E l c log \<longleftrightarrow>
     (\<exists>sel c0 ns. (ListNamespaces sel, c0) \<in> set log \<and> ns \<in> set (kNamespaces c0) \<and> confirmedFor r E ns l c log)"

lemma reconcileEach_guarded:
  assumes "steps (avoids isDelete) (gcLive r E)"
    and "(ListNamespaces sel, c0) \<in> set (kwLog w)" "set items \<subseteq> set (kNamespaces c0)"
  shows "guarded isDelete (confirmedReap r E) w (snd (reconcileEach r E known items tickErr w))"
  using assms(2,3)
proof (induction items arbitrary: tickErr w)
  case Nil
  then show ?case by (simp add: guarded.refl)
next
  case (Cons ns items)
  have step: "guarded isDelete (confirmedReap r E) w (snd (reconcileNamespace r E known ns w))"
    using Cons.prems by (intro guarded_mono [OF reconcileNamespace_guarded [OF assms(1)]])
      (auto simp: confirmedReap_def)
  show ?case
    unfolding reconcileEach.simps
  proof (rule guarded.run_andThen, goal_cases)
    case 1
    then show ?case using step by simp
  next
    case (2 res w1)
    then have w1: "w1 = snd (reconcileNamespace r E known ns w)" by simp
    with step obtain new where "kwLog w1 = kwLog w @ new" by (auto simp: guarded_def)
    then show ?case using Cons by simp
  qed
qed

lemma reconcileOnce_guarded:
  assumes "steps (avoids isDelete) (gcLive r E)"
  shows "guarded isDelete (confirmedReap r E) w (snd (reconcileOnce r E w))"
proof (cases "gcNamespace r = []")
  case True
  then show ?thesis by (simp add: reconcileOnce_def guarded.refl)
next
  case False
  let ?sel = "[(ManagedLabel, ManagedLabelValue), (ManagedByLabel, ManagedByValue), (InstanceLabel, gcNamespace r)]"
  have "guarded isDelete (confirmedReap r E) w (snd (andThen (gcLive r E) (\<lambda>live.
      andThen (kread E (ListNamespaces ?sel) (apiList ?sel)) (\<lambda>items.
      andThen (reconcileEach r E live items None) guardErr)) w))"
  proof (rule guarded.run_andThen, goal_cases)
    case 1
    then show ?case using assms by (simp add: steps_def avoids_guarded)
  next
    case (2 live w1)
    show ?case
    proof (rule guarded.run_andThen, goal_cases)
      case 1
      then show ?case unfolding kread_def by (rule kcall_guarded) simp
    next
      case (2 items w2)
      then obtain c where c: "kwLog w2 = kwLog w1 @ [(ListNamespaces ?sel, c)]" "apiList ?sel c = Inr items"
        by (rule kread_success)
      show ?case
      proof (rule guarded.run_andThen, goal_cases)
        case 1
        then show ?case
          by (rule reconcileEach_guarded [OF assms]) (use c in \<open>auto simp: apiList_def\<close>)
      next
        case (2 x w3)
        then show ?case by (cases x) (simp_all add: guarded.refl)
      qed
    qed
  qed
  with False show ?thesis by (simp add: reconcileOnce_def ManagedNamespaceSelector_def)
qed

section \<open>A sweep that nothing disturbs\<close>

text \<open>What a sweep at time \<open>t\<close> makes of one namespace, the live ones being \<open>live\<close>.\<close>

definition touched :: "(nsObj \<Rightarrow> nsObj) \<Rightarrow> nsObj \<Rightarrow> nsObj" where
  "touched f ns = (f ns)\<lparr>nsName := nsName ns, nsVersion := Suc (nsVersion ns)\<rparr>"

definition reaped :: "'g gcReconciler \<Rightarrow> int \<Rightarrow> int \<Rightarrow> nsObj \<Rightarrow> nsObj" where
  "reaped r t since ns = (if timeSub t since < gcGrace r then ns else touched (\<lambda>x. x\<lparr>nsTerminating := True\<rparr>) ns)"

definition sweepSpec :: "'g gcReconciler \<Rightarrow> int \<Rightarrow> string list \<Rightarrow> nsObj \<Rightarrow> nsObj" where
  "sweepSpec r t live ns =
     (if \<not> IsGatewayNamespaceForGC ns (gcNamespace r) \<or> nsTerminating ns then ns
      else if nsName ns \<in> set live then
        (if nsAnnotations ns GCEligibleSinceAnnotation = None then ns
         else touched (\<lambda>ns. ns\<lparr>nsAnnotations := (nsAnnotations ns)(GCEligibleSinceAnnotation := None)\<rparr>) ns)
      else
        (let a = map_get (nsAnnotations ns) GCEligibleSinceAnnotation;
             stamp = tcFormat (gcCodec r) t;
             marked = touched (\<lambda>ns. ns\<lparr>nsAnnotations := (nsAnnotations ns)(GCEligibleSinceAnnotation \<mapsto> stamp)\<rparr>) ns
         in case (if a \<noteq> [] then tcParse (gcCodec r) a else None) of
              Some since \<Rightarrow> reaped r t since ns
            | None \<Rightarrow> (case tcParse (gcCodec r) stamp of None \<Rightarrow> marked | Some since \<Rightarrow> reaped r t since marked)))"

definition replaceNs :: "string \<Rightarrow> nsObj \<Rightarrow> nsObj list \<Rightarrow> nsObj list" where
  "replaceNs n new objs = map (\<lambda>x. if nsName x = n then new else x) objs"

lemma replaceNs_same: "distinct (map nsName objs) \<Longrightarrow> ns \<in> set objs \<Longrightarrow> replaceNs (nsName ns) ns objs = objs"
  unfolding replaceNs_def by (intro map_idI) (auto simp: inj_on_def distinct_map)

lemma nsLookup_distinct:
  "distinct (map nsName (kNamespaces c)) \<Longrightarrow> ns \<in> set (kNamespaces c) \<Longrightarrow> nsLookup (nsName ns) c = Some ns"
proof -
  have "distinct (map nsName objs) \<Longrightarrow> ns \<in> set objs \<Longrightarrow> find (\<lambda>x. nsName x = nsName ns) objs = Some ns" for objs
    by (induction objs) (auto simp: image_iff)
  then show "distinct (map nsName (kNamespaces c)) \<Longrightarrow> ns \<in> set (kNamespaces c) \<Longrightarrow> ?thesis"
    by (simp add: nsLookup_def)
qed

lemma onNs_replace:
  assumes "distinct (map nsName (kNamespaces c))" "ns \<in> set (kNamespaces c)"
  shows "kNamespaces (onNs (nsName ns) f c) = replaceNs (nsName ns) (touched f ns) (kNamespaces c)"
    and "kServer (onNs n f c) = kServer c" "kEvents (onNs n f c) = kEvents c"
  using assms by (auto simp: onNs_def replaceNs_def touched_def distinct_map inj_on_def)

lemma nsLookup_cong: "kNamespaces c = kNamespaces c' \<Longrightarrow> nsLookup n c = nsLookup n c'"
  by (simp add: nsLookup_def)

lemma IsGateway_touched:
  "nsLabels (f ns) = nsLabels ns \<Longrightarrow> IsGatewayNamespaceForGC (touched f ns) inst = IsGatewayNamespaceForGC ns inst"
  by (simp add: IsGatewayNamespaceForGC_def IsManagedNamespace_def hasManagementLabels_def touched_def)

lemma DeleteManagedNamespace_quiet:
  assumes "nsLookup n (kwState w) = Some ns" "IsGatewayNamespaceForGC ns inst" "\<not> nsTerminating ns"
  shows "kwState (snd (DeleteManagedNamespace (quiet t) n inst w)) =
           onNs n (\<lambda>x. x\<lparr>nsTerminating := True\<rparr>) (kwState w)"
  using assms
  by (auto simp: DeleteManagedNamespace_def kread_def kcall_quiet andThen_def apiGet_def apiDelete_def apiPatch_def
      IsGatewayNamespaceForGC_def IsManagedNamespace_def split: if_splits)

definition harmless :: "('g cluster \<Rightarrow> (chain + unit) \<times> 'g cluster) \<Rightarrow> bool" where
  "harmless op \<longleftrightarrow> (\<forall>c. kNamespaces (snd (op c)) = kNamespaces c \<and> kServer (snd (op c)) = kServer c)"

lemma reapNamespace_quiet:
  fixes w :: "('g cluster, rcall) kworld"
  assumes "nsLookup n (kwState w) = Some ns" "IsGatewayNamespaceForGC ns (gcNamespace r)" "\<not> nsTerminating ns"
    and "harmless (gcDropMount r n)"
    and w'_def: "w' = snd (reapNamespace r (quiet t) n d w)"
  shows "kNamespaces (kwState w') = kNamespaces (onNs n (\<lambda>x. x\<lparr>nsTerminating := True\<rparr>) (kwState w))"
    and "kServer (kwState w') = kServer (kwState w)"
proof -
  have inst: "gcNamespace r \<noteq> []" using assms(2) by (auto simp: IsGatewayNamespaceForGC_def IsManagedNamespace_def)
  have "\<exists>v. w' = snd (DeleteManagedNamespace (quiet t) n (gcNamespace r) v) \<and>
      kNamespaces (kwState v) = kNamespaces (kwState w) \<and> kServer (kwState v) = kServer (kwState w)"
    using inst assms(4)
    by (auto simp: w'_def reapNamespace_def SummarizeNamespace_def CountActiveSandboxes_def recordGCEvent_def
        snd_andThen_ret kread_def kcall_quiet andThen_def [of "attempt _"] andThen_def [of "mapErr _ _"] andThen_def [of "readClock _"] mapErr_def apiPods_def apiEvent_def readClock_def harmless_def
        split: prod.split sum.split intro!: exI) 
  then obtain v where v: "w' = snd (DeleteManagedNamespace (quiet t) n (gcNamespace r) v)"
      "kNamespaces (kwState v) = kNamespaces (kwState w)" "kServer (kwState v) = kServer (kwState w)" by blast
  have "kwState w' = onNs n (\<lambda>x. x\<lparr>nsTerminating := True\<rparr>) (kwState v)"
    unfolding v(1) using assms nsLookup_cong [OF v(2)] by (intro DeleteManagedNamespace_quiet) auto
  with v show "kNamespaces (kwState w') = kNamespaces (onNs n (\<lambda>x. x\<lparr>nsTerminating := True\<rparr>) (kwState w))"
    "kServer (kwState w') = kServer (kwState w)"
    by (simp_all add: onNs_def)
qed

lemma replaceNs_simps:
  "nsName new = n \<Longrightarrow> replaceNs n newer (replaceNs n new objs) = replaceNs n newer objs"
  "nsName new = n \<Longrightarrow> map nsName (replaceNs n new objs) = map nsName objs"
  "ns \<in> set objs \<Longrightarrow> new \<in> set (replaceNs (nsName ns) new objs)"
  by (auto simp: replaceNs_def)

lemma touched_name [simp]: "nsName (touched f ns) = nsName ns"
  by (simp add: touched_def)

text \<open>The second half of the orphan case, once the namespace has its stamp.\<close>

lemma orphan_quiet:
  fixes w :: "('g cluster, rcall) kworld"
  assumes ns: "distinct (map nsName (kNamespaces (kwState w)))" "ns \<in> set (kNamespaces (kwState w))" "nsName ns = n"
    and own: "IsGatewayNamespaceForGC ns (gcNamespace r)" "\<not> nsTerminating ns" "n \<notin> set live"
    and live: "\<And>v :: ('g cluster, rcall) kworld. kServer (kwState v) = s \<Longrightarrow>
        \<exists>v'. gcLive r (quiet t) v = (Inr live, v') \<and> kwState v' = kwState v"
    and s: "kServer (kwState w) = s"
    and "harmless (gcDropMount r n)"
    and w': "w' = snd (andThen (readClock (quiet t)) (\<lambda>now2.
          let elapsedFor = timeSub now2 since
          in if elapsedFor < gcGrace r then ret ()
             else andThen (mapErr g (gcLive r (quiet t)))
               (\<lambda>freshLive. if n \<in> set freshLive then ClearGCEligible (quiet t) ns0 else reapNamespace r (quiet t) n elapsedFor)) w)"
  shows "kNamespaces (kwState w') = replaceNs n (reaped r t since ns) (kNamespaces (kwState w)) \<and> kServer (kwState w') = s"
proof (cases "timeSub t since < gcGrace r")
  case True
  with ns s w' show ?thesis
    by (auto simp: readClock_def andThen_def reaped_def replaceNs_same)
next
  case False
  let ?w1 = "w\<lparr>kwTick := Suc (kwTick w)\<rparr>"
  obtain v where v: "gcLive r (quiet t) ?w1 = (Inr live, v)" "kwState v = kwState w"
    using live [of ?w1] s by auto
  have w'v: "w' = snd (reapNamespace r (quiet t) n (timeSub t since) v)"
    using False own(3) v(1) w' by (simp add: readClock_def andThen_def mapErr_def)
  have look: "nsLookup n (kwState v) = Some ns"
    using nsLookup_distinct [OF ns(1,2)] ns(3) v(2) by simp
  note reap = reapNamespace_quiet [OF look own(1,2) assms(9) w'v]
  show ?thesis
    using reap onNs_replace(1) [OF ns(1,2)] ns(3) False s v(2) by (simp add: reaped_def)
qed

lemma reconcileNamespace_quiet:
  fixes w :: "('g cluster, rcall) kworld"
  assumes ns: "distinct (map nsName (kNamespaces (kwState w)))" "ns \<in> set (kNamespaces (kwState w))"
    and live: "\<And>v :: ('g cluster, rcall) kworld. kServer (kwState v) = s \<Longrightarrow>
        \<exists>v'. gcLive r (quiet t) v = (Inr live, v') \<and> kwState v' = kwState v"
    and s: "kServer (kwState w) = s"
    and harmless: "\<And>n. harmless (gcDropMount r n)"
    and w': "w' = snd (reconcileNamespace r (quiet t) live ns w)"
  shows "kNamespaces (kwState w') = replaceNs (nsName ns) (sweepSpec r t live ns) (kNamespaces (kwState w)) \<and>
         kServer (kwState w') = s"
proof -
  let ?n = "nsName ns" and ?c = "kwState w"
  have same: "replaceNs ?n ns (kNamespaces ?c) = kNamespaces ?c"
    by (rule replaceNs_same [OF ns])
  have look: "nsLookup ?n ?c = Some ns" by (rule nsLookup_distinct [OF ns])
  consider (skip) "\<not> IsGatewayNamespaceForGC ns (gcNamespace r) \<or> nsTerminating ns"
    | (live) "IsGatewayNamespaceForGC ns (gcNamespace r)" "\<not> nsTerminating ns" "?n \<in> set live"
    | (orphan) "IsGatewayNamespaceForGC ns (gcNamespace r)" "\<not> nsTerminating ns" "?n \<notin> set live"
    by blast
  then show ?thesis
  proof cases
    case skip
    with w' s same show ?thesis by (auto simp: reconcileNamespace_def sweepSpec_def)
  next
    case live
    then show ?thesis
      using w' s same look
      by (auto simp: reconcileNamespace_def sweepSpec_def ClearGCEligible_def kcall_quiet apiPatch_def onNs_replace [OF ns])
  next
    case orphan
    let ?rest = "\<lambda>since. andThen (readClock (quiet t)) (\<lambda>now2.
          let elapsedFor = timeSub now2 since
          in if elapsedFor < gcGrace r then ret ()
             else andThen (mapErr (errorfW (''re-check liveness before reaping '' @ ?n @ '': '')) (gcLive r (quiet t)))
               (\<lambda>freshLive. if ?n \<in> set freshLive then ClearGCEligible (quiet t) ns
                  else reapNamespace r (quiet t) ?n elapsedFor))"
    let ?a = "map_get (nsAnnotations ns) GCEligibleSinceAnnotation"
    let ?valid = "if ?a \<noteq> [] then tcParse (gcCodec r) ?a else None"
    let ?stamp = "tcFormat (gcCodec r) t"
    let ?mark = "\<lambda>x. x\<lparr>nsAnnotations := (nsAnnotations x)(GCEligibleSinceAnnotation \<mapsto> ?stamp)\<rparr>"
    let ?w1 = "w\<lparr>kwTick := Suc (kwTick w)\<rparr>"
    have w'1: "w' = snd (andThen (MarkGCEligible (gcCodec r) (quiet t) ns t) ?rest ?w1)"
      using orphan w' by (simp add: reconcileNamespace_def readClock_def andThen_def [of "readClock _"])
    show ?thesis
    proof (cases ?valid)
      case (Some since)
      then have "w' = snd (?rest since ?w1)"
        using w'1 by (simp add: MarkGCEligible_def Let_def split: if_splits)
      from orphan_quiet [OF _ _ refl orphan assms(3) _ harmless this] ns s
      have "kNamespaces (kwState w') = replaceNs ?n (reaped r t since ns) (kNamespaces ?c) \<and> kServer (kwState w') = s"
        by simp
      with orphan Some show ?thesis by (simp add: sweepSpec_def Let_def)
    next
      case None
      let ?w2 = "?w1\<lparr>kwTick := Suc (kwTick ?w1), kwLog := kwLog w @ [(PatchAnnotation ?n, ?c)], kwState := onNs ?n ?mark ?c\<rparr>"
      have mark: "mapErr g (kcall (quiet t) (PatchAnnotation ?n) (apiPatch ?n ?mark)) ?w1 = (Inr (), ?w2)" for g :: "chain \<Rightarrow> chain"
        using look by (simp add: kcall_quiet apiPatch_def mapErr_def)
      have list: "kNamespaces (onNs ?n ?mark ?c) = replaceNs ?n (touched ?mark ns) (kNamespaces ?c)"
        by (rule onNs_replace(1) [OF ns])
      show ?thesis
      proof (cases "tcParse (gcCodec r) ?stamp")
        case bad: None
        then have "w' = ?w2"
          using w'1 None mark by (simp add: MarkGCEligible_def Let_def andThen_def)
        then show ?thesis
          using orphan None bad list s by (simp add: sweepSpec_def Let_def onNs_replace [OF ns])
      next
        case (Some since)
        then have "w' = snd (?rest since ?w2)"
          using w'1 None mark by (simp add: MarkGCEligible_def Let_def andThen_def [of "mapErr _ _"] andThen_def [of "MarkGCEligible _ _ _ _"] andThen_def [of "andThen _ _"])
        from orphan_quiet [OF _ _ _ _ _ orphan(3) assms(3) _ harmless this, of "touched ?mark ns"] ns s orphan
        have "kNamespaces (kwState w') = replaceNs ?n (reaped r t since (touched ?mark ns)) (kNamespaces (kwState ?w2)) \<and>
            kServer (kwState w') = s"
          by (simp add: list replaceNs_simps IsGateway_touched onNs_replace [OF ns]) (simp add: touched_def)
        then show ?thesis
          using orphan None Some by (simp add: sweepSpec_def Let_def list replaceNs_simps)
      qed
    qed
  qed
qed

lemma replaceNs_keeps: "x \<in> set objs \<Longrightarrow> nsName x \<noteq> n \<Longrightarrow> x \<in> set (replaceNs n new objs)"
  by (force simp: replaceNs_def)

lemma distinct_head: "distinct (map nsName (ns # items)) \<Longrightarrow> x \<in> set items \<Longrightarrow> nsName x \<noteq> nsName ns"
  by (auto simp: image_iff)

lemma sweepSpec_name: "nsName (sweepSpec r t live ns) = nsName ns"
  by (auto simp: sweepSpec_def reaped_def Let_def split: option.split)

lemma fold_replaceNs:
  assumes "distinct (map nsName objs)" "set items \<subseteq> set objs" "distinct (map nsName items)"
    and "\<And>ns. nsName (f ns) = nsName ns"
  shows "fold (\<lambda>ns. replaceNs (nsName ns) (f ns)) items objs = map (\<lambda>x. if x \<in> set items then f x else x) objs"
  using assms(1-3)
proof (induction items arbitrary: objs)
  case Nil
  then show ?case by simp
next
  case (Cons ns items)
  let ?objs = "replaceNs (nsName ns) (f ns) objs"
  have sub: "set items \<subseteq> set ?objs"
  proof
    fix x assume x: "x \<in> set items"
    with Cons.prems have "nsName x \<noteq> nsName ns" "x \<in> set objs" using distinct_head by auto
    then show "x \<in> set ?objs" by (simp add: replaceNs_keeps)
  qed
  have "fold (\<lambda>ns. replaceNs (nsName ns) (f ns)) (ns # items) objs = map (\<lambda>x. if x \<in> set items then f x else x) ?objs"
    using Cons.IH [of ?objs] Cons.prems sub by (simp add: replaceNs_simps assms(4))
  also have "\<dots> = map (\<lambda>x. if x \<in> set (ns # items) then f x else x) objs"
  proof -
    have "f ns \<notin> set items" using Cons.prems(3) assms(4) [of ns] by (metis imageI distinct.simps(2) list.simps(9) set_map)
    moreover have "x = ns" if "x \<in> set objs" "nsName x = nsName ns" for x
      using Cons.prems(1,2) that by (auto simp: distinct_map inj_on_def)
    ultimately show ?thesis unfolding replaceNs_def map_map comp_def by (intro map_cong refl) (auto simp: assms(4))
  qed
  finally show ?case .
qed

lemma reconcileEach_quiet:
  fixes w :: "('g cluster, rcall) kworld"
  assumes "distinct (map nsName (kNamespaces (kwState w)))" "set items \<subseteq> set (kNamespaces (kwState w))"
    and "distinct (map nsName items)"
    and live: "\<And>v :: ('g cluster, rcall) kworld. kServer (kwState v) = s \<Longrightarrow>
        \<exists>v'. gcLive r (quiet t) v = (Inr live, v') \<and> kwState v' = kwState v"
    and "kServer (kwState w) = s"
    and harmless: "\<And>n. harmless (gcDropMount r n)"
  shows "kNamespaces (kwState (snd (reconcileEach r (quiet t) live items tickErr w))) =
         fold (\<lambda>ns. replaceNs (nsName ns) (sweepSpec r t live ns)) items (kNamespaces (kwState w)) \<and>
         kServer (kwState (snd (reconcileEach r (quiet t) live items tickErr w))) = s"
  using assms(1-3,5)
proof (induction items arbitrary: tickErr w)
  case Nil
  then show ?case by simp
next
  case (Cons ns items)
  let ?w1 = "snd (reconcileNamespace r (quiet t) live ns w)"
  have in_w: "ns \<in> set (kNamespaces (kwState w))" using Cons.prems(2) by simp
  note step = reconcileNamespace_quiet [OF Cons.prems(1) in_w live Cons.prems(4) harmless refl]
  have "set items \<subseteq> set (kNamespaces (kwState ?w1))"
  proof
    fix x assume x: "x \<in> set items"
    with Cons.prems have "nsName x \<noteq> nsName ns" "x \<in> set (kNamespaces (kwState w))" using distinct_head by auto
    then have "x \<in> set (replaceNs (nsName ns) (sweepSpec r t live ns) (kNamespaces (kwState w)))"
      by (rule replaceNs_keeps [rotated])
    with step show "x \<in> set (kNamespaces (kwState ?w1))" by simp
  qed
  then show ?case
    using Cons.IH [of ?w1] Cons.prems step
    by (simp add: andThen_def [of "attempt _"] replaceNs_simps sweepSpec_name)
qed

lemma selected_iff: "inst \<noteq> [] \<Longrightarrow> IsManagedNamespace ns inst \<Longrightarrow>
    selects [(ManagedLabel, ManagedLabelValue), (ManagedByLabel, ManagedByValue), (InstanceLabel, inst)] ns"
  unfolding selects_def IsManagedNamespace_def hasManagementLabels_def map_get_def
  by (simp split: option.splits if_splits)

lemma reconcileOnce_quiet:
  fixes w :: "('g cluster, rcall) kworld"
  assumes "distinct (map nsName (kNamespaces (kwState w)))" "gcNamespace r \<noteq> []"
    and live: "\<And>v :: ('g cluster, rcall) kworld. kServer (kwState v) = kServer (kwState w) \<Longrightarrow>
        \<exists>v'. gcLive r (quiet t) v = (Inr live, v') \<and> kwState v' = kwState v"
    and harmless: "\<And>n. harmless (gcDropMount r n)"
  shows "kNamespaces (kwState (snd (reconcileOnce r (quiet t) w))) = map (sweepSpec r t live) (kNamespaces (kwState w)) \<and>
         kServer (kwState (snd (reconcileOnce r (quiet t) w))) = kServer (kwState w)"
proof -
  let ?sel = "[(ManagedLabel, ManagedLabelValue), (ManagedByLabel, ManagedByValue), (InstanceLabel, gcNamespace r)]"
  let ?objs = "kNamespaces (kwState w)"
  let ?items = "filter (selects ?sel) ?objs"
  obtain v where v: "gcLive r (quiet t) w = (Inr live, v)" "kwState v = kwState w"
    using live [of w] by auto
  let ?v1 = "v\<lparr>kwTick := Suc (kwTick v), kwLog := kwLog v @ [(ListNamespaces ?sel, kwState v)]\<rparr>"
  have once: "kwState (snd (reconcileOnce r (quiet t) w)) = kwState (snd (reconcileEach r (quiet t) live ?items None ?v1))"
    using assms(2) v
    by (simp add: reconcileOnce_def ManagedNamespaceSelector_def kread_quiet apiList_def andThen_def [of "gcLive _ _"]
        andThen_def [of "kread _ _ _"] snd_andThen_guardErr)
  have "kNamespaces (kwState (snd (reconcileEach r (quiet t) live ?items None ?v1))) =
      fold (\<lambda>ns. replaceNs (nsName ns) (sweepSpec r t live ns)) ?items (kNamespaces (kwState ?v1)) \<and>
      kServer (kwState (snd (reconcileEach r (quiet t) live ?items None ?v1))) = kServer (kwState w)"
  proof (rule reconcileEach_quiet [OF _ _ _ live _ harmless])
    show "distinct (map nsName (kNamespaces (kwState ?v1)))" "set ?items \<subseteq> set (kNamespaces (kwState ?v1))"
      "distinct (map nsName ?items)" "kServer (kwState ?v1) = kServer (kwState w)"
      using assms(1) v(2) by (auto simp: distinct_map_filter)
  qed
  moreover have "fold (\<lambda>ns. replaceNs (nsName ns) (sweepSpec r t live ns)) ?items ?objs =
      map (\<lambda>x. if x \<in> set ?items then sweepSpec r t live x else x) ?objs"
    by (rule fold_replaceNs) (use assms(1) in \<open>auto simp: distinct_map_filter sweepSpec_name\<close>)
  moreover have "(if x \<in> set ?items then sweepSpec r t live x else x) = sweepSpec r t live x" if "x \<in> set ?objs" for x
    using selected_iff [OF assms(2), of x] that by (auto simp: sweepSpec_def IsGatewayNamespaceForGC_def)
  ultimately show ?thesis using once v(2) by (simp cong: map_cong)
qed

text \<open>The API server's answer: the pages of an inventory, with its length.\<close>

definition pagedServer :: "(string \<Rightarrow> 'g \<Rightarrow> cpGateway list) \<Rightarrow> 'g listServer" where
  "pagedServer inventory page psize cluster g =
     Inr (take psize (drop ((unat page - 1) * psize) (inventory cluster g)), int (length (inventory cluster g)))"

lemma listAllFrom_complete:
  fixes w :: "('c, 'l) kworld"
  assumes "srv = (\<lambda>p n f c. pagedServer inventory p n f (h c))" "unat page = Suc k" "gws = inventory f (h (kwState w))"
    and "length gws \<le> (k + budget) * 500" "0 < budget" "k + budget < 2 ^ 32" "all = take (k * 500) gws"
  shows "\<exists>w'. listAllFrom (quiet t) l srv f budget page all w = (Inr gws, w') \<and> kwState w' = kwState w"
  using assms(2-)
proof (induction budget arbitrary: k page all w)
  case 0
  then show ?case by simp
next
  case (Suc budget)
  let ?items = "take 500 (drop (k * 500) gws)"
  let ?w1 = "w\<lparr>kwTick := Suc (kwTick w), kwLog := kwLog w @ [(l, kwState w)], kwState := kwState w\<rparr>"
  have all: "all @ ?items = take (Suc k * 500) gws"
    using Suc.prems(6) by (simp add: take_add [symmetric] add.commute)
  have run: "listAllFrom (quiet t) l srv f (Suc budget) page all w =
      (if length ?items = 0 \<or> length ?items < 500 \<or> (int (length gws) > 0 \<and> int (length (all @ ?items)) \<ge> int (length gws))
       then (Inr (all @ ?items), ?w1) else listAllFrom (quiet t) l srv f budget (page + 1) (all @ ?items) ?w1)"
    using Suc.prems(1,2) by (simp add: assms(1) kread_def kcall_quiet pagedServer_def andThen_def)
  show ?case
  proof (cases "length gws \<le> Suc k * 500")
    case True
    then have "all @ ?items = gws" using all by simp
    moreover from True have "length ?items < 500 \<or> int (length (all @ ?items)) \<ge> int (length gws)"
      unfolding all by simp
    moreover have "length gws = 0 \<Longrightarrow> length ?items = 0" by simp
    ultimately show ?thesis using run by auto
  next
    case False
    then have l: "length ?items = 500" by simp
    from False Suc.prems(3) have b: "0 < budget" by (cases budget) auto
    have "Suc (Suc k) < 2 ^ 32" using Suc.prems(5) b by simp
    then have "unat (page + 1) = Suc (Suc k)"
      using Suc.prems(1) by (simp add: unat_word_ariths(1))
    then have "\<exists>w'. listAllFrom (quiet t) l srv f budget (page + 1) (all @ ?items) ?w1 = (Inr gws, w') \<and> kwState w' = kwState ?w1"
      using Suc.prems b all by (intro Suc.IH) (auto simp del: mult_Suc)
    then show ?thesis using run l all False by auto
  qed
qed

section \<open>Claiming a namespace\<close>

text \<open>Others change the version of an object with the object.\<close>

definition versioned :: "'g cluster environ \<Rightarrow> bool" where
  "versioned E \<longleftrightarrow> (\<forall>k c n a b. nsLookup n c = Some a \<longrightarrow> nsLookup n (envOthers E k c) = Some b \<longrightarrow>
     nsVersion a = nsVersion b \<longrightarrow> a = b)"

definition foreign :: "nsObj \<Rightarrow> string \<Rightarrow> bool" where
  "foreign ns inst \<longleftrightarrow> map_get (nsLabels ns) InstanceLabel \<noteq> [] \<and> map_get (nsLabels ns) InstanceLabel \<noteq> inst"

lemma nsLookup_onNs: "nsLookup n c = Some ns \<Longrightarrow> nsLookup n (onNs n f c) = Some (touched f ns)"
proof -
  have "find (\<lambda>x. nsName x = n) objs = Some ns \<Longrightarrow>
      find (\<lambda>x. nsName x = n) (map (\<lambda>x. if nsName x = n then (f x)\<lparr>nsName := n, nsVersion := Suc (nsVersion x)\<rparr> else x) objs) =
        Some (touched f ns)" for objs
    by (induction objs) (auto simp: touched_def split: if_splits)
  then show "nsLookup n c = Some ns \<Longrightarrow> ?thesis" by (simp add: nsLookup_def onNs_def)
qed

lemma nsLookup_name: "nsLookup n c = Some ns \<Longrightarrow> nsName ns = n"
  by (auto simp: nsLookup_def find_Some_iff)

lemma ManagedLabels_managed:
  "inst \<noteq> [] \<Longrightarrow> nsLabels ns = labels ++ ManagedNamespaceLabels inst \<Longrightarrow> IsManagedNamespace ns inst"
  by (simp add: IsManagedNamespace_def hasManagementLabels_def ManagedNamespaceLabels_def map_get_def)

lemma adoptNamespace_outcome:
  assumes "inst \<noteq> []" "nsLookup n (kwState w) = Some ns"
  shows "adoptNamespace E n inst ns w = (Inr (), w') \<Longrightarrow>
           \<exists>got. nsLookup n (kwState w') = Some got \<and> IsManagedNamespace got inst"
    and "\<exists>new. kwLog (snd (adoptNamespace E n inst ns w)) = kwLog w @ new \<and>
           (\<forall>k got. versioned E \<longrightarrow> (UpdateNs n, k) \<in> set new \<longrightarrow> nsLookup n k = Some got \<longrightarrow> foreign got inst \<longrightarrow>
              kwState (snd (adoptNamespace E n inst ns w)) = k)"
proof -
  let ?new = "ns\<lparr>nsLabels := nsLabels ns ++ ManagedNamespaceLabels inst\<rparr>"
  have name: "nsName ns = n" by (rule nsLookup_name [OF assms(2)])
  assume "adoptNamespace E n inst ns w = (Inr (), w')"
  then consider "\<not> labelsDiffer (nsLabels ns) inst" "w' = w"
    | "kcall E (UpdateNs n) (apiUpdate ?new) w = (Inr (), w')"
    by (auto simp: adoptNamespace_def Let_def split: if_splits)
  then show "\<exists>got. nsLookup n (kwState w') = Some got \<and> IsManagedNamespace got inst"
  proof cases
    case 1
    then have "IsManagedNamespace ns inst"
      using assms(1) by (simp add: labelsDiffer_def IsManagedNamespace_def hasManagementLabels_def)
    with assms(2) 1 show ?thesis by blast
  next
    case 2
    then obtain c where c: "apiUpdate ?new c = (Inr (), kwState w')" by (rule kcall_success)
    then obtain old where "nsLookup n c = Some old" "kwState w' = onNs n (\<lambda>_. ?new) c"
      by (auto simp: apiUpdate_def name split: option.splits if_splits)
    then have "nsLookup n (kwState w') = Some (touched (\<lambda>_. ?new) old)" by (simp add: nsLookup_onNs)
    moreover have "IsManagedNamespace (touched (\<lambda>_. ?new) old) inst"
      by (rule ManagedLabels_managed [OF assms(1)]) (simp add: touched_def)
    ultimately show ?thesis by blast
  qed
next
  let ?new = "ns\<lparr>nsLabels := nsLabels ns ++ ManagedNamespaceLabels inst\<rparr>"
  have name: "nsName ns = n" by (rule nsLookup_name [OF assms(2)])
  show "\<exists>new. kwLog (snd (adoptNamespace E n inst ns w)) = kwLog w @ new \<and>
           (\<forall>k got. versioned E \<longrightarrow> (UpdateNs n, k) \<in> set new \<longrightarrow> nsLookup n k = Some got \<longrightarrow> foreign got inst \<longrightarrow>
              kwState (snd (adoptNamespace E n inst ns w)) = k)"
  proof (cases "foreign ns inst \<or> \<not> labelsDiffer (nsLabels ns) inst")
    case True
    then have "snd (adoptNamespace E n inst ns w) = w" by (auto simp: adoptNamespace_def foreign_def Let_def)
    then show ?thesis by simp
  next
    case False
    let ?c = "envOthers E (kwTick w) (kwState w)"
    have run: "snd (adoptNamespace E n inst ns w) = snd (kcall E (UpdateNs n) (apiUpdate ?new) w)"
      using False by (auto simp: adoptNamespace_def foreign_def Let_def)
    have "kwState (snd (kcall E (UpdateNs n) (apiUpdate ?new) w)) = ?c"
      if "versioned E" "nsLookup n ?c = Some got" "foreign got inst" for got
    proof -
      have "nsVersion got \<noteq> nsVersion ns"
        using that assms(2) False unfolding versioned_def by metis
      then have "snd (apiUpdate ?new ?c) = ?c" using that(2) by (simp add: apiUpdate_def name)
      then show ?thesis by (simp add: kcall_def Let_def split: option.split)
    qed
    then show ?thesis unfolding run kcall_log by auto
  qed
qed

text \<open>Whatever the outcome, an update that met a foreign namespace changed nothing.\<close>

definition keepsForeign ::
  "'g cluster environ \<Rightarrow> string \<Rightarrow> string \<Rightarrow> ('g cluster, rcall) kworld \<Rightarrow> ('g cluster, rcall) kworld \<Rightarrow> bool" where
  "keepsForeign E n inst w w' \<longleftrightarrow>
     (\<exists>new. kwLog w' = kwLog w @ new \<and>
        (\<forall>k got. versioned E \<longrightarrow> (UpdateNs n, k) \<in> set new \<longrightarrow> nsLookup n k = Some got \<longrightarrow> foreign got inst \<longrightarrow> kwState w' = k))"

lemma keepsForeign_avoids: "avoids (\<lambda>l. l = UpdateNs n) w w' \<Longrightarrow> keepsForeign E n inst w w'"
  unfolding keepsForeign_def avoids_def by fastforce

lemma keepsForeign_after:
  assumes "avoids (\<lambda>l. l = UpdateNs n) w v" "keepsForeign E n inst v w'"
  shows "keepsForeign E n inst w w'"
proof -
  obtain a b where "kwLog v = kwLog w @ a" "\<forall>x\<in>set a. fst x \<noteq> UpdateNs n" "kwLog w' = kwLog v @ b"
      "\<forall>k got. versioned E \<longrightarrow> (UpdateNs n, k) \<in> set b \<longrightarrow> nsLookup n k = Some got \<longrightarrow> foreign got inst \<longrightarrow> kwState w' = k"
    using assms unfolding avoids_def keepsForeign_def by blast
  then show ?thesis unfolding keepsForeign_def by (intro exI [of _ "a @ b"]) fastforce
qed

lemma readNs:
  assumes "kread E (GetNs n) (apiGet n) w = (r, v)"
  shows "avoids (\<lambda>l. l = UpdateNs n) w v" and "r = Inr ns \<Longrightarrow> nsLookup n (kwState v) = Some ns"
proof -
  show "avoids (\<lambda>l. l = UpdateNs n) w v"
    using kread_avoids [of "\<lambda>l. l = UpdateNs n" "GetNs n" E "apiGet n"] assms by (auto simp: steps_def) (metis snd_conv)
  assume "r = Inr ns"
  with assms obtain c where "apiGet n c = Inr ns" "kwState v = c" by (auto elim: kread_success)
  then show "nsLookup n (kwState v) = Some ns" by (simp add: apiGet_def split: option.splits)
qed

lemma createNs:
  assumes "kcall E (CreateNs n) (apiCreate n (ManagedNamespaceLabels inst)) w = (r, v)" "inst \<noteq> []"
  shows "avoids (\<lambda>l. l = UpdateNs n) w v"
    and "r = Inr () \<Longrightarrow> \<exists>got. nsLookup n (kwState v) = Some got \<and> IsManagedNamespace got inst"
proof -
  show "avoids (\<lambda>l. l = UpdateNs n) w v"
    using kcall_avoids [of "\<lambda>l. l = UpdateNs n" "CreateNs n" E "apiCreate n (ManagedNamespaceLabels inst)"] assms(1)
    by (auto simp: steps_def) (metis snd_conv)
  assume "r = Inr ()"
  with assms obtain c where c: "apiCreate n (ManagedNamespaceLabels inst) c = (Inr (), kwState v)" by (auto elim: kcall_success)
  let ?new = "\<lparr>nsName = n, nsVersion = 0, nsLabels = ManagedNamespaceLabels inst, nsAnnotations = Map.empty, nsTerminating = False\<rparr>"
  have "find (\<lambda>x. nsName x = n) objs = None \<Longrightarrow> find (\<lambda>x. nsName x = n) (objs @ [?new]) = Some ?new" for objs
    by (induction objs) (auto split: if_splits)
  moreover have "nsLookup n c = None" "kwState v = c\<lparr>kNamespaces := kNamespaces c @ [?new]\<rparr>"
    using c by (auto simp: apiCreate_def split: option.splits)
  ultimately have "nsLookup n (kwState v) = Some ?new" by (simp add: nsLookup_def)
  moreover have "IsManagedNamespace ?new inst"
    by (rule ManagedLabels_managed [OF assms(2), of _ Map.empty]) simp
  ultimately show "\<exists>got. nsLookup n (kwState v) = Some got \<and> IsManagedNamespace got inst" by blast
qed

lemma adopt_after:
  assumes "inst \<noteq> []" "kread E (GetNs n) (apiGet n) w = (Inr ns, v)" "adoptNamespace E n inst ns v = (res, w')"
  shows "(res = Inr () \<longrightarrow> (\<exists>got. nsLookup n (kwState w') = Some got \<and> IsManagedNamespace got inst)) \<and>
         keepsForeign E n inst w w'"
proof -
  note read = readNs [OF assms(2)]
  note out = adoptNamespace_outcome [OF assms(1) read(2) [OF refl]]
  have "keepsForeign E n inst v w'" using out(2) [of E] assms(3) by (simp add: keepsForeign_def)
  with out(1) [of E w'] assms(3) keepsForeign_after [OF read(1)] show ?thesis by auto
qed

lemma EnsureManagedNamespace_outcome:
  assumes "EnsureManagedNamespace E n inst w = (res, w')"
  shows "(res = Inr () \<longrightarrow> (\<exists>got. nsLookup n (kwState w') = Some got \<and> IsManagedNamespace got inst)) \<and>
         keepsForeign E n inst w w'"
proof (cases "inst = []")
  case True
  with assms show ?thesis by (auto simp: EnsureManagedNamespace_def keepsForeign_def)
next
  case False
  obtain got v where got: "kread E (GetNs n) (apiGet n) w = (got, v)" by force
  note read = readNs [OF got]
  show ?thesis
  proof (cases got)
    case (Inr ns)
    with got assms False show ?thesis
      by (intro adopt_after [of inst E n w ns v]) (auto simp: EnsureManagedNamespace_def andThen_def)
  next
    case (Inl err)
    show ?thesis
    proof (cases "k8s_IsNotFound err")
      case False
      with assms got Inl \<open>inst \<noteq> []\<close> have "res \<noteq> Inr ()" "w' = v"
        by (auto simp: EnsureManagedNamespace_def andThen_def)
      with read(1) show ?thesis by (simp add: keepsForeign_avoids)
    next
      case True
      obtain made u where made: "kcall E (CreateNs n) (apiCreate n (ManagedNamespaceLabels inst)) v = (made, u)" by force
      note create = createNs [OF made False]
      have to_u: "avoids (\<lambda>l. l = UpdateNs n) w u" using read(1) create(1) by (rule avoids.trans)
      show ?thesis
      proof (cases made)
        case (Inr x)
        with assms got Inl True made False have "res = Inr ()" "w' = u"
          by (auto simp: EnsureManagedNamespace_def andThen_def)
        with Inr create(2) to_u show ?thesis by (simp add: keepsForeign_avoids)
      next
        case (Inl err2)
        show ?thesis
        proof (cases "k8s_IsAlreadyExists err2")
          case no: False
          with assms got \<open>got = Inl err\<close> True made Inl False have "res \<noteq> Inr ()" "w' = u"
            by (auto simp: EnsureManagedNamespace_def andThen_def)
          with to_u show ?thesis by (simp add: keepsForeign_avoids)
        next
          case yes: True
          obtain again t where again: "kread E (GetNs n) (apiGet n) u = (again, t)" by force
          note read2 = readNs [OF again]
          show ?thesis
          proof (cases again)
            case (Inl err3)
            with assms got \<open>got = Inl err\<close> True made \<open>made = Inl err2\<close> False yes again have "res \<noteq> Inr ()" "w' = t"
              by (auto simp: EnsureManagedNamespace_def andThen_def mapErr_def)
            with avoids.trans [OF to_u read2(1)] show ?thesis by (simp add: keepsForeign_avoids)
          next
            case (Inr ns)
            with assms got \<open>got = Inl err\<close> True made \<open>made = Inl err2\<close> False yes again
            have "adoptNamespace E n inst ns t = (res, w')"
              by (auto simp: EnsureManagedNamespace_def andThen_def mapErr_def)
            with adopt_after [OF False, of E n u ns t res w'] again Inr keepsForeign_after [OF to_u]
            show ?thesis by simp
          qed
        qed
      qed
    qed
  qed
qed

section \<open>Properties\<close>

text \<open>A cluster with an orphan marked long ago, a live namespace and one of another instance.\<close>

definition sampleCodec :: timeCodec where
  "sampleCodec = \<lparr>tcFormat = (\<lambda>t. replicate (nat t) CHR ''s''), tcParse = (\<lambda>s. Some (int (length s)))\<rparr>"

definition managedNs :: "string \<Rightarrow> string \<Rightarrow> string \<Rightarrow> nsObj" where
  "managedNs n inst since =
     \<lparr>nsName = n, nsVersion = 1, nsLabels = ManagedNamespaceLabels inst,
      nsAnnotations = (if since = [] then Map.empty else [GCEligibleSinceAnnotation \<mapsto> since]), nsTerminating = False\<rparr>"

definition liveGateway :: "string \<Rightarrow> string \<Rightarrow> cpGateway" where
  "liveGateway i n =
     \<lparr>gwMetadata = Some \<lparr>mId = i, mUpdatedAt = None\<rparr>, gwPhase = Some ''Running'',
      gwRest = \<lparr>gfName = i, gfNamespace = Some n, gfClusterId = Some ''c1'', gfOidc = None\<rparr>\<rparr>"

definition sampleCluster :: "cpGateway list cluster" where
  "sampleCluster =
     \<lparr>rmClients = [], rmUsers = [], rmGrants = {}, rmIdps = [], rmPolicies = [], rmPermissions = [], rmExchange = False,
      kNamespaces = [managedNs ''openshell-a'' ''hs'' ''ss'', managedNs ''openshell-b'' ''hs'' [], managedNs ''openshell-c'' ''other'' []],
      kPods = [], kEvents = [], kObjects = [], kServer = [liveGateway ''g'' ''openshell-b'']\<rparr>"

definition oneOrphan :: "cpGateway list cluster" where
  "oneOrphan = \<lparr>rmClients = [], rmUsers = [], rmGrants = {}, rmIdps = [], rmPolicies = [], rmPermissions = [], rmExchange = False,
      kNamespaces = [managedNs ''openshell-a'' ''hs'' ''ss''], kPods = [], kEvents = [], kObjects = [], kServer = []\<rparr>"

definition sampleGC :: "cpGateway list gcReconciler" where
  "sampleGC = NewNamespaceGCReconciler (pagedServer (\<lambda>_ gws. gws)) 1 (\<lambda>n c. (Inr (), c)) sampleCodec 0 (5) ''hs'' ''c1''"

lemmas gc_run = reconcileOnce_def runs kread_quiet kcall_quiet grpcLiveNamespaces_def listAllGateways_def
  ClusterFilter_def strings_TrimSpace_def go_space_def pagedServer_def strptr_def ManagedNamespaceSelector_def apiList_def
  selects_def ManagedNamespaceLabels_def reconcileNamespace_def IsGatewayNamespaceForGC_def IsManagedNamespace_def
  isGatewayWorkloadName_def hasManagementLabels_def map_get_def readClock_def MarkGCEligible_def ClearGCEligible_def
  timeSub_def reapNamespace_def SummarizeNamespace_def CountActiveSandboxes_def recordGCEvent_def
  DeleteManagedNamespace_def apiPods_def apiEvent_def apiGet_def nsLookup_def apiDelete_def apiPatch_def onNs_def
  guardErr_def

lemmas gc_sample = freshWorld_def oneOrphan_def sampleCluster_def managedNs_def liveGateway_def sampleGC_def
  NewNamespaceGCReconciler_def sampleCodec_def

text \<open>
  C5: Whatever others do between the calls and whichever calls fail, a sweep issues the
  deletion of a namespace only with this behind it, in this order: the namespace was listed, is
  a gateway namespace of this instance and has been eligible for the grace period; a read of the
  live gateways made afterwards does not know it; the audit event about it was accepted; and a last
  read finds it there, owned by this instance and not terminating.
\<close>

theorem reaps_only_confirmed_orphans:
  assumes "r = NewNamespaceGCReconciler srv budget dropMount T interval gracePeriod inst clusterID"
    and "kwLog (snd (reconcileOnce r E (freshWorld c))) = before @ (DeleteNs n, k) # after"
  shows "confirmedReap r E (DeleteNs n) k before"
proof -
  have "steps (avoids isDelete) (gcLive r E)"
    using assms(1) by (simp add: NewNamespaceGCReconciler_def grpcLiveNamespaces_avoids)
  then show ?thesis
    by (rule guarded_all [OF reconcileOnce_guarded _ assms(2)]) (simp_all add: freshWorld_def)
qed

theorem reaps_only_confirmed_orphans_witness:
  "\<exists>before k after. kwLog (snd (reconcileOnce sampleGC (quiet (20)) (freshWorld oneOrphan))) = before @ (DeleteNs ''openshell-a'', k) # after \<and>
     confirmedReap sampleGC (quiet (20)) (DeleteNs ''openshell-a'') k before"
proof -
  have "DeleteNs ''openshell-a'' \<in> set (map fst (kwLog (snd (reconcileOnce sampleGC (quiet (20)) (freshWorld oneOrphan)))))"
    unfolding gc_sample by (simp add: gc_run cong: bindK_cong mapK_cong)
  then obtain k where "(DeleteNs ''openshell-a'', k) \<in> set (kwLog (snd (reconcileOnce sampleGC (quiet (20)) (freshWorld oneOrphan))))"
    by auto
  then obtain before after where
    log: "kwLog (snd (reconcileOnce sampleGC (quiet (20)) (freshWorld oneOrphan))) = before @ (DeleteNs ''openshell-a'', k) # after"
    by (meson split_list)
  from reaps_only_confirmed_orphans [OF sampleGC_def this] this show ?thesis by blast
qed

lemma sweep_outcome:
  assumes "r = NewNamespaceGCReconciler (pagedServer inventory) budget dropMount T interval gracePeriod inst clusterID"
    and "distinct (map nsName (kNamespaces c))" "inst \<noteq> []" "strings_TrimSpace clusterID \<noteq> []"
    and "namespacesOf (inventory clusterID (kServer c)) = Inr live"
    and "length (inventory clusterID (kServer c)) \<le> budget * 500" "0 < budget" "budget < 2 ^ 32"
    and "\<And>n. harmless (dropMount n)"
  shows "kNamespaces (kwState (snd (reconcileOnce r (quiet t) (freshWorld c)))) = map (sweepSpec r t live) (kNamespaces c) \<and>
         kServer (kwState (snd (reconcileOnce r (quiet t) (freshWorld c)))) = kServer c"
proof -
  have gc: "gcNamespace r = inst" "gcLive r = (\<lambda>E. grpcLiveNamespaces E (pagedServer inventory) budget clusterID)"
    "gcDropMount r = dropMount"
    using assms(1) by (simp_all add: NewNamespaceGCReconciler_def)
  have "\<exists>v'. gcLive r (quiet t) v = (Inr live, v') \<and> kwState v' = kwState v"
    if "kServer (kwState v) = kServer c" for v :: "('a cluster, rcall) kworld"
  proof -
    have "\<exists>v'. listAllFrom (quiet t) RpcListGateways (\<lambda>p n f c. pagedServer inventory p n f (kServer c)) clusterID budget 1 [] v =
        (Inr (inventory clusterID (kServer c)), v') \<and> kwState v' = kwState v"
      by (rule listAllFrom_complete [OF refl, where k = 0]) (use assms that in simp_all)
    then obtain v' where "listAllFrom (quiet t) RpcListGateways (\<lambda>p n f c. pagedServer inventory p n f (kServer c)) clusterID budget 1 [] v =
        (Inr (inventory clusterID (kServer c)), v')" "kwState v' = kwState v" by blast
    then show ?thesis
      using assms(4,5) by (simp add: gc grpcLiveNamespaces_def listAllGateways_def ClusterFilter_def mapErr_def andThen_def)
  qed
  with reconcileOnce_quiet [of "freshWorld c" r t live] assms(2,3,9) show ?thesis
    by (simp add: gc freshWorld_def)
qed

text \<open>
  C6: A sweep that nothing disturbs is the function \<open>sweepSpec\<close> on every namespace,
  the live ones being exactly those of the whole gateway inventory, however many pages it has.
\<close>

theorem undisturbed_sweep:
  assumes "r = NewNamespaceGCReconciler (pagedServer inventory) budget dropMount T interval gracePeriod inst clusterID"
    and "distinct (map nsName (kNamespaces c))" "inst \<noteq> []" "strings_TrimSpace clusterID \<noteq> []"
    and "namespacesOf (inventory clusterID (kServer c)) = Inr live"
    and "length (inventory clusterID (kServer c)) \<le> budget * 500" "0 < budget" "budget < 2 ^ 32"
    and "\<And>n. harmless (dropMount n)"
  shows "kNamespaces (kwState (snd (reconcileOnce r (quiet t) (freshWorld c)))) = map (sweepSpec r t live) (kNamespaces c)"
  using sweep_outcome [OF assms] by simp

theorem undisturbed_sweep_witness:
  "map (\<lambda>ns. (nsName ns, nsTerminating ns)) (kNamespaces (kwState (snd (reconcileOnce sampleGC (quiet (20)) (freshWorld sampleCluster))))) =
     [(''openshell-a'', True), (''openshell-b'', False), (''openshell-c'', False)]"
proof -
  have "kNamespaces (kwState (snd (reconcileOnce sampleGC (quiet (20)) (freshWorld sampleCluster)))) =
      map (sweepSpec sampleGC (20) [''openshell-b'']) (kNamespaces sampleCluster)"
    by (rule undisturbed_sweep [OF sampleGC_def]) (simp_all add: gc_sample gc_run harmless_def)
  moreover have "map (\<lambda>ns. (nsName ns, nsTerminating ns)) (map (sweepSpec sampleGC (20) [''openshell-b'']) (kNamespaces sampleCluster)) =
      [(''openshell-a'', True), (''openshell-b'', False), (''openshell-c'', False)]"
    unfolding gc_sample by (simp add: sweepSpec_def reaped_def touched_def gc_run)
  ultimately show ?thesis by simp
qed

lemma sweepSpec_marked:
  assumes "IsGatewayNamespaceForGC ns (gcNamespace r)" "\<not> nsTerminating ns" "nsName ns \<notin> set live"
    and "map_get (nsAnnotations ns) GCEligibleSinceAnnotation \<noteq> []"
    and "tcParse (gcCodec r) (map_get (nsAnnotations ns) GCEligibleSinceAnnotation) = Some since"
  shows "sweepSpec r t live ns = reaped r t since ns"
  using assms by (simp add: sweepSpec_def)

lemma reaped_terminating:
  "\<not> nsTerminating ns \<Longrightarrow> nsTerminating (reaped r t since ns) \<longleftrightarrow> gcGrace r \<le> timeSub t since"
  by (auto simp: reaped_def touched_def)

definition secondsCodec :: timeCodec where
  "secondsCodec =
     \<lparr>tcFormat = (\<lambda>t. (if t div Second < 0 then CHR ''-'' else CHR ''+'') # replicate (nat \<bar>t div Second\<bar>) CHR ''s''),
      tcParse = (\<lambda>s. case s of [] \<Rightarrow> None
                    | x # xs \<Rightarrow> Some ((if x = CHR ''-'' then - int (length xs) else int (length xs)) * Second))\<rparr>"

lemma secondsCodec_OK: "codecOK secondsCodec"
  by (simp add: codecOK_def secondsCodec_def)

definition newOrphan :: "cpGateway list cluster" where
  "newOrphan = \<lparr>rmClients = [], rmUsers = [], rmGrants = {}, rmIdps = [], rmPolicies = [], rmPermissions = [], rmExchange = False,
      kNamespaces = [managedNs ''openshell-a'' ''hs'' []], kPods = [], kEvents = [], kObjects = [], kServer = []\<rparr>"

definition secondsGC :: "cpGateway list gcReconciler" where
  "secondsGC = NewNamespaceGCReconciler (pagedServer (\<lambda>_ gws. gws)) 1 (\<lambda>n c. (Inr (), c)) secondsCodec 0 (5 * Second) ''hs'' ''c1''"

text \<open>
  C23: A namespace found orphaned for the first time is kept and marked; a later sweep reaps
  it if and only if the grace period has passed since the (whole) second of the mark.
\<close>

theorem orphan_reaped_after_grace:
  assumes "r = NewNamespaceGCReconciler (pagedServer inventory) budget dropMount T interval gracePeriod inst clusterID"
    and "distinct (map nsName (kNamespaces c))" "inst \<noteq> []" "strings_TrimSpace clusterID \<noteq> []"
    and "namespacesOf (inventory clusterID (kServer c)) = Inr live"
    and "length (inventory clusterID (kServer c)) \<le> budget * 500" "0 < budget" "budget < 2 ^ 32"
    and "\<And>n. harmless (dropMount n)" "codecOK T"
    and "ns \<in> set (kNamespaces c)" "IsGatewayNamespaceForGC ns inst" "\<not> nsTerminating ns" "nsName ns \<notin> set live"
    and "nsAnnotations ns GCEligibleSinceAnnotation = None"
    and "gcGrace r \<ge> Second" "0 \<le> t1" "t1 \<le> t2" "t2 < 2 ^ 63"
    and "once = kwState (snd (reconcileOnce r (quiet t1) (freshWorld c)))"
    and "twice = kwState (snd (reconcileOnce r (quiet t2) (freshWorld once)))"
  shows "(\<exists>n1 n2. nsLookup (nsName ns) once = Some n1 \<and> \<not> nsTerminating n1 \<and>
            nsLookup (nsName ns) twice = Some n2 \<and> (nsTerminating n2 \<longleftrightarrow> t2 - t1 div Second * Second \<ge> gcGrace r))"
proof -
  let ?f = "sweepSpec r t1 live" and ?g = "sweepSpec r t2 live"
  have gc: "gcNamespace r = inst" "gcCodec r = T" using assms(1) by (simp_all add: NewNamespaceGCReconciler_def)
  have one: "kNamespaces once = map ?f (kNamespaces c)" "kServer once = kServer c"
    using sweep_outcome [OF assms(1-9), of t1] assms(20) by simp_all
  have d: "distinct (map nsName (kNamespaces once))"
    using assms(2) by (simp add: one comp_def sweepSpec_name)
  have two: "kNamespaces twice = map ?g (kNamespaces once)"
    using sweep_outcome [of r inventory budget dropMount T interval gracePeriod inst clusterID once live t2] d assms one(2) by simp
  have d2: "distinct (map nsName (kNamespaces twice))" using d by (simp add: two comp_def sweepSpec_name)
  have l1: "nsLookup (nsName ns) once = Some (?f ns)"
    using nsLookup_distinct [OF d, of "?f ns"] assms(11) by (simp add: one sweepSpec_name)
  have l2: "nsLookup (nsName ns) twice = Some (?g (?f ns))"
    using nsLookup_distinct [OF d2, of "?g (?f ns)"] assms(11) by (simp add: two one sweepSpec_name)
  have codec: "tcFormat T t1 \<noteq> []" "tcParse T (tcFormat T t1) = Some (t1 div Second * Second)"
    using assms(10) by (auto simp: codecOK_def)
  have round: "t1 - Second < t1 div Second * Second" "t1 div Second * Second \<le> t1" "0 \<le> t1 div Second * Second"
    using assms(17) pos_mod_bound [of Second t1] pos_mod_sign [of Second t1] div_mult_mod_eq [of t1 Second]
    by (linarith, linarith, simp add: pos_imp_zdiv_nonneg_iff)
  let ?mark = "\<lambda>ns. ns\<lparr>nsAnnotations := (nsAnnotations ns)(GCEligibleSinceAnnotation \<mapsto> tcFormat T t1)\<rparr>"
  have none: "map_get (nsAnnotations ns) GCEligibleSinceAnnotation = []" using assms(15) by (simp add: map_get_def)
  have sub1: "timeSub t1 (t1 div Second * Second) < gcGrace r" using round assms(16) by (simp add: timeSub_def)
  have f: "?f ns = touched ?mark ns"
    using assms(12-14) sub1 by (simp add: sweepSpec_def gc none codec reaped_def)
  have sub2: "timeSub t2 (t1 div Second * Second) = t2 - t1 div Second * Second"
  proof -
    have "t2 - t1 div Second * Second \<le> maxDuration" "minDuration \<le> t2 - t1 div Second * Second"
      using round assms(17-19) by linarith+
    then show ?thesis unfolding timeSub_def by linarith
  qed
  have "IsGatewayNamespaceForGC (touched ?mark ns) inst" using assms(12) by (simp add: IsGateway_touched)
  moreover have n: "\<not> nsTerminating (touched ?mark ns)" "map_get (nsAnnotations (touched ?mark ns)) GCEligibleSinceAnnotation = tcFormat T t1"
    using assms(13) by (simp_all add: touched_def)
  ultimately have "?g (?f ns) = reaped r t2 (t1 div Second * Second) (touched ?mark ns)"
    unfolding f using assms(14) by (intro sweepSpec_marked) (simp_all only: gc codec touched_name not_False_eq_True)
  then have "nsTerminating (?g (?f ns)) \<longleftrightarrow> t2 - t1 div Second * Second \<ge> gcGrace r"
    using reaped_terminating [OF n(1), of r t2 "t1 div Second * Second"] by (simp only: sub2)
  with l1 l2 n(1) f show ?thesis by simp
qed

theorem orphan_reaped_after_grace_witness:
  "\<exists>n2. nsLookup ''openshell-a'' (kwState (snd (reconcileOnce secondsGC (quiet (20 * Second))
      (freshWorld (kwState (snd (reconcileOnce secondsGC (quiet (3 * Second)) (freshWorld newOrphan)))))))) = Some n2 \<and> nsTerminating n2"
proof -
  have g: "gcGrace secondsGC = 5 * Second" by (simp add: secondsGC_def NewNamespaceGCReconciler_def)
  let ?ns = "managedNs ''openshell-a'' ''hs'' []"
  have own: "IsGatewayNamespaceForGC ?ns ''hs''"
    by (simp add: managedNs_def gc_run)
  have name: "nsName ?ns = ''openshell-a''" by (simp add: managedNs_def)
  have "\<exists>n1 n2. nsLookup (nsName ?ns) (kwState (snd (reconcileOnce secondsGC (quiet (3 * Second)) (freshWorld newOrphan)))) = Some n1 \<and>
      \<not> nsTerminating n1 \<and>
      nsLookup (nsName ?ns) (kwState (snd (reconcileOnce secondsGC (quiet (20 * Second))
        (freshWorld (kwState (snd (reconcileOnce secondsGC (quiet (3 * Second)) (freshWorld newOrphan)))))))) = Some n2 \<and>
      (nsTerminating n2 \<longleftrightarrow> 20 * Second - 3 * Second div Second * Second \<ge> gcGrace secondsGC)"
    by (rule orphan_reaped_after_grace [OF secondsGC_def, where c = newOrphan and live = "[]" and ns = ?ns, OF _ _ _ _ _ _ _ _ secondsCodec_OK])
      (simp_all add: newOrphan_def own g harmless_def strings_TrimSpace_def go_space_def, simp_all add: managedNs_def)
  then show ?thesis unfolding name g by auto
qed

text \<open>
  C24: Whatever others do and whichever calls fail: when \<open>EnsureManagedNamespace\<close> succeeds
  the namespace is there and carries this instance's labels, and an update that met a namespace of
  another instance changed nothing, given that others change the version of an object with it.
\<close>

theorem foreign_namespace_is_not_claimed:
  assumes "EnsureManagedNamespace E n inst w = (res, w')"
  shows "(res = Inr () \<longrightarrow> (\<exists>got. nsLookup n (kwState w') = Some got \<and> IsManagedNamespace got inst)) \<and>
         keepsForeign E n inst w w'"
  by (rule EnsureManagedNamespace_outcome [OF assms])

theorem foreign_namespace_is_not_claimed_witness:
  "\<exists>res w'. EnsureManagedNamespace (quiet 0) ''openshell-c'' ''hs'' (freshWorld sampleCluster) = (res, w') \<and>
     isl res \<and> keepsForeign (quiet 0) ''openshell-c'' ''hs'' (freshWorld sampleCluster) w'"
proof -
  obtain res w' where run: "EnsureManagedNamespace (quiet 0) ''openshell-c'' ''hs'' (freshWorld sampleCluster) = (res, w')"
    by force
  moreover have "isl (fst (EnsureManagedNamespace (quiet 0) ''openshell-c'' ''hs'' (freshWorld sampleCluster)))"
    unfolding gc_sample EnsureManagedNamespace_def adoptNamespace_def by (simp add: gc_run Let_def cong: bindK_cong mapK_cong)
  ultimately show ?thesis using foreign_namespace_is_not_claimed [OF run] by auto
qed

end
