(* ===== verification/Keycloak_Client.thy ===== *)
theory Keycloak_Client
  imports Control_World
begin

text \<open>
  The control plane's client of the Keycloak Admin API
  (\<^verbatim>\<open>control-plane/internal/keycloak/client.go\<close>): looking up clients, roles and users, assigning and
  removing client roles, provisioning and deleting the client of a gateway, the clients of its service
  accounts, the users of the realm.

  Keycloak is the record of a realm with one operation per request; a record that extends it is one as
  well, so that a larger world can hold a realm. The bodies of requests and responses are the values
  they encode; a response that does not parse, an expired deadline and a token that cannot be got are
  failed calls of the environment (\<open>Control_Effects\<close>). The path of a request is kept below the realm
  and unescaped.
\<close>

section \<open>Requests\<close>

type_synonym ('z, 'a) kcProg = "('z realm_scheme, rcall, 'a) kprog"

text \<open>\<^verbatim>\<open>doRequest\<close> on a status of 400 or more.\<close>

definition httpError :: "string \<Rightarrow> string \<Rightarrow> nat \<Rightarrow> string \<Rightarrow> chain" where
  "httpError meth path code body =
     PlainErr (''keycloak '' @ meth @ '' '' @ path @ '' returned '' @ natText code @ '': '' @ body)"

definition clientPath :: "string \<Rightarrow> string" where
  "clientPath uuid = ''/clients/'' @ uuid"

definition rmClient :: "string \<Rightarrow> 'z realm_scheme \<Rightarrow> keycloakClient option" where
  "rmClient uuid k = find (\<lambda>c. kcID c = uuid) (rmClients k)"

definition onClient :: "string \<Rightarrow> (keycloakClient \<Rightarrow> keycloakClient) \<Rightarrow> 'z realm_scheme \<Rightarrow> 'z realm_scheme" where
  "onClient uuid f k = k\<lparr>rmClients := map (\<lambda>c. if kcID c = uuid then f c else c) (rmClients k)\<rparr>"

text \<open>An operation on an existing client; the server answers 404 where it is missing.\<close>

definition withClient ::
  "string \<Rightarrow> string \<Rightarrow> (keycloakClient \<Rightarrow> 'z realm_scheme \<Rightarrow> (chain + 'a) \<times> 'z realm_scheme) \<Rightarrow> 'z realm_scheme \<Rightarrow>
     (chain + 'a) \<times> 'z realm_scheme" where
  "withClient meth uuid f k =
     (case rmClient uuid k of
        None \<Rightarrow> (Inl (httpError meth (clientPath uuid) 404 ''Could not find client''), k)
      | Some c \<Rightarrow> f c k)"

definition srvGetClients :: "string \<Rightarrow> 'z realm_scheme \<Rightarrow> chain + keycloakClient list" where
  "srvGetClients clientID k = Inr (filter (\<lambda>c. kcClientID c = clientID) (rmClients k))"

definition srvGetRole :: "string \<Rightarrow> string \<Rightarrow> 'z realm_scheme \<Rightarrow> chain + string" where
  "srvGetRole uuid roleName k =
     (case Option.bind (rmClient uuid k) (\<lambda>c. map_of (kcRoles c) roleName) of
        None \<Rightarrow> Inl (httpError ''GET'' (clientPath uuid @ ''/roles/'' @ roleName) 404 ''Could not find role'')
      | Some i \<Rightarrow> Inr i)"

definition srvGetUsers :: "string \<Rightarrow> 'z realm_scheme \<Rightarrow> chain + keycloakUser list" where
  "srvGetUsers username k = Inr (filter (\<lambda>u. kuUsername u = username) (rmUsers k))"

definition mappingPath :: "string \<Rightarrow> string \<Rightarrow> string" where
  "mappingPath userUUID clientUUID =
     ''/users/'' @ userUUID @ ''/role-mappings/clients/'' @ clientUUID"

text \<open>The role mapping of a user on a client: both must be there, and the client must have the role.\<close>

definition srvMapping ::
  "string \<Rightarrow> (string \<times> string \<times> string \<Rightarrow> (string \<times> string \<times> string) set \<Rightarrow> (string \<times> string \<times> string) set) \<Rightarrow>
     string \<Rightarrow> string \<Rightarrow> string \<Rightarrow> 'z realm_scheme \<Rightarrow> (chain + unit) \<times> 'z realm_scheme" where
  "srvMapping meth change userUUID clientUUID roleName k =
     (if list_ex (\<lambda>u. kuID u = userUUID) (rmUsers k) \<and>
         Option.bind (rmClient clientUUID k) (\<lambda>c. map_of (kcRoles c) roleName) \<noteq> None
      then (Inr (), k\<lparr>rmGrants := change (userUUID, clientUUID, roleName) (rmGrants k)\<rparr>)
      else (Inl (httpError meth (mappingPath userUUID clientUUID) 404 ''Could not find user or role''), k))"

section \<open>Looking things up\<close>

definition getClient :: "'z realm_scheme environ \<Rightarrow> string \<Rightarrow> ('z, keycloakClient option) kcProg" where
  "getClient E clientID =
     andThen (kread E (KGetClients clientID) (srvGetClients clientID))
       (\<lambda>clients. ret (find (\<lambda>c. kcClientID c = clientID) clients))"

text \<open>A client that is not there has the empty identifier.\<close>

definition getClientUUID :: "'z realm_scheme environ \<Rightarrow> string \<Rightarrow> ('z, string) kcProg" where
  "getClientUUID E clientID =
     andThen (getClient E clientID) (\<lambda>kc. ret (case kc of None \<Rightarrow> [] | Some c \<Rightarrow> kcID c))"

definition GetClientUUID :: "'z realm_scheme environ \<Rightarrow> string \<Rightarrow> ('z, string) kcProg" where
  "GetClientUUID E gatewayName = getClientUUID E gatewayName"

definition getClientRoleUUID :: "'z realm_scheme environ \<Rightarrow> string \<Rightarrow> string \<Rightarrow> ('z, string) kcProg" where
  "getClientRoleUUID E clientUUID roleName = kread E (KGetRole clientUUID roleName) (srvGetRole clientUUID roleName)"

definition getUserUUID :: "'z realm_scheme environ \<Rightarrow> string \<Rightarrow> ('z, string) kcProg" where
  "getUserUUID E username =
     andThen (kread E (KGetUsers username) (srvGetUsers username))
       (\<lambda>users. case find (\<lambda>u. kuUsername u = username) users of
          Some u \<Rightarrow> ret (kuID u) | None \<Rightarrow> fail (UserNotFoundError username))"

section \<open>Client roles of a user\<close>

definition AssignClientRole :: "'z realm_scheme environ \<Rightarrow> string \<Rightarrow> string \<Rightarrow> string \<Rightarrow> ('z, unit) kcProg" where
  "AssignClientRole E gatewayName username roleName =
     andThen (mapErr (errorfW (''get client UUID for '' @ gatewayName @ '': '')) (getClientUUID E gatewayName)) (\<lambda>clientUUID.
       if clientUUID = [] then fail (ClientNotFoundError gatewayName)
       else andThen (mapErr (errorfW (''get role UUID for '' @ roleName @ '' on '' @ gatewayName @ '': ''))
              (getClientRoleUUID E clientUUID roleName)) (\<lambda>roleUUID.
            andThen (mapErr (errorfW (''get user UUID for '' @ username @ '': '')) (getUserUUID E username)) (\<lambda>userUUID.
            mapErr (errorfW (''assign role '' @ roleName @ '' to '' @ username @ '' on '' @ gatewayName @ '': ''))
              (kcall E (KAssign userUUID clientUUID roleName) (srvMapping ''POST'' insert userUUID clientUUID roleName)))))"

definition asUserNotFound :: "chain \<Rightarrow> bool" where
  "asUserNotFound err = isMissingKeycloakUser err"

definition RemoveClientRole :: "'z realm_scheme environ \<Rightarrow> string \<Rightarrow> string \<Rightarrow> string \<Rightarrow> ('z, unit) kcProg" where
  "RemoveClientRole E gatewayName username roleName =
     andThen (mapErr (errorfW (''get client UUID for '' @ gatewayName @ '': '')) (getClientUUID E gatewayName)) (\<lambda>clientUUID.
       if clientUUID = [] then ret ()
       else andThen (mapErr (errorfW (''get role UUID for '' @ roleName @ '' on '' @ gatewayName @ '': ''))
              (getClientRoleUUID E clientUUID roleName)) (\<lambda>roleUUID.
            andThen (attempt (getUserUUID E username)) (\<lambda>user.
            case user of
              Inl err \<Rightarrow> if asUserNotFound err then ret ()
                         else fail (errorfW (''get user UUID for '' @ username @ '': '') err)
            | Inr userUUID \<Rightarrow>
                mapErr (errorfW (''remove role '' @ roleName @ '' from '' @ username @ '' on '' @ gatewayName @ '': ''))
                  (kcall E (KRemove userUUID clientUUID roleName)
                    (srvMapping ''DELETE'' (\<lambda>x G. G - {x}) userUUID clientUUID roleName)))))"

section \<open>The client of a gateway\<close>

definition kvs :: "(string \<times> string) list \<Rightarrow> (string \<rightharpoonup> string)" where
  "kvs = map_of"

definition desiredGatewayProtocolMappers :: "string \<Rightarrow> protocolMapper list" where
  "desiredGatewayProtocolMappers gatewayName =
     [\<lparr>pmID = [], pmName = ''audience'', pmProtocol = ''openid-connect'', pmMapper = ''oidc-audience-mapper'',
        pmConfig = [(''included.client.audience'', gatewayName), (''id.token.claim'', ''false''), (''access.token.claim'', ''true'')]\<rparr>,
      \<lparr>pmID = [], pmName = ''sub'', pmProtocol = ''openid-connect'', pmMapper = ''oidc-sub-mapper'',
        pmConfig = [(''access.token.claim'', ''true'')]\<rparr>,
      \<lparr>pmID = [], pmName = ''client-roles'', pmProtocol = ''openid-connect'', pmMapper = ''oidc-usermodel-client-role-mapper'',
        pmConfig = [(''claim.name'', ''hypershell.roles''), (''multivalued'', ''true''), (''jsonType.label'', ''String''),
          (''id.token.claim'', ''true''), (''access.token.claim'', ''true''), (''usermodel.clientRoleMapping.clientId'', gatewayName)]\<rparr>]"

abbreviation deviceAuthorizationGrantAttribute :: string where
  "deviceAuthorizationGrantAttribute \<equiv> ''oauth2.device.authorization.grant.enabled''"

text \<open>
  The server gives a new client an identifier (\<open>freshUUID\<close> of its state) and its mappers one each, and
  answers with the location of the new resource; the default client scopes are those the payload lists.
\<close>

definition mapperID :: "string \<Rightarrow> protocolMapper \<Rightarrow> string" where
  "mapperID uuid m = uuid @ ''/'' @ pmName m"

definition newKeycloakClient :: "string \<Rightarrow> string \<Rightarrow> keycloakClient" where
  "newKeycloakClient gatewayName uuid =
     \<lparr>kcID = uuid, kcClientID = gatewayName, kcEnabled = True, kcPublicClient = True, kcStandardFlow = True,
      kcDirectAccess = True, kcServiceAccounts = False, kcFullScope = False,
      kcRedirectUris = [''http://127.0.0.1:*'', ''http://localhost:*''], kcWebOrigins = [],
      kcAttributes = kvs [(''pkce.code.challenge.method'', ''S256''), (deviceAuthorizationGrantAttribute, ''true'')],
      kcRoles = [], kcMappers = map (\<lambda>m. m\<lparr>pmID := mapperID uuid m\<rparr>) (take 1 (desiredGatewayProtocolMappers gatewayName)),
      kcSecret = [],
      kcDefaultScopes = [''profile'', ''email'', ''roles'', ''web-origins'', ''acr''], kcScopeMappings = {}\<rparr>"

definition srvCreateClient ::
  "('z realm_scheme \<Rightarrow> string) \<Rightarrow> (string \<Rightarrow> keycloakClient) \<Rightarrow> 'z realm_scheme \<Rightarrow> (chain + string) \<times> 'z realm_scheme" where
  "srvCreateClient freshUUID payload k =
     (let c = payload (freshUUID k)
      in if list_ex (\<lambda>d. kcClientID d = kcClientID c) (rmClients k)
         then (Inl (PlainErr (''keycloak client '' @ kcClientID c @ '' already exists'')), k)
         else (Inr (clientPath (freshUUID k)), k\<lparr>rmClients := rmClients k @ [c]\<rparr>))"

definition createClient :: "('z realm_scheme \<Rightarrow> string) \<Rightarrow> 'z realm_scheme environ \<Rightarrow> string \<Rightarrow> ('z, string) kcProg" where
  "createClient freshUUID E gatewayName =
     andThen (kcall E (KCreateClient gatewayName) (srvCreateClient freshUUID (newKeycloakClient gatewayName)))
       (\<lambda>location. ret (last (strings_Split location CHR ''/'')))"

definition srvCreateRole :: "string \<Rightarrow> string \<Rightarrow> 'z realm_scheme \<Rightarrow> (chain + unit) \<times> 'z realm_scheme" where
  "srvCreateRole uuid roleName =
     withClient ''POST'' uuid (\<lambda>c k.
       if map_of (kcRoles c) roleName \<noteq> None then (Inl (httpError ''POST'' (clientPath uuid @ ''/roles'') 409 ''Role exists''), k)
       else (Inr (), onClient uuid (\<lambda>c. c\<lparr>kcRoles := kcRoles c @ [(roleName, uuid @ ''/'' @ roleName)]\<rparr>) k))"

definition createClientRoles :: "'z realm_scheme environ \<Rightarrow> string \<Rightarrow> ('z, unit) kcProg" where
  "createClientRoles E clientUUID =
     forEach (\<lambda>roleName. mapErr (errorfW (''create role '' @ roleName @ '': ''))
         (kcall E (KCreateRole clientUUID roleName) (srvCreateRole clientUUID roleName)))
       [''openshell-admin'', ''openshell-user'']"

definition srvCreateMapper :: "string \<Rightarrow> protocolMapper \<Rightarrow> 'z realm_scheme \<Rightarrow> (chain + unit) \<times> 'z realm_scheme" where
  "srvCreateMapper uuid mapper =
     withClient ''POST'' uuid (\<lambda>c k.
       if list_ex (\<lambda>m. pmName m = pmName mapper) (kcMappers c)
       then (Inl (httpError ''POST'' (clientPath uuid @ ''/protocol-mappers/models'') 409 ''Mapper exists''), k)
       else (Inr (), onClient uuid (\<lambda>c. c\<lparr>kcMappers := kcMappers c @ [mapper\<lparr>pmID := mapperID uuid mapper\<rparr>]\<rparr>) k))"

definition createProtocolMappers :: "'z realm_scheme environ \<Rightarrow> string \<Rightarrow> string \<Rightarrow> ('z, unit) kcProg" where
  "createProtocolMappers E clientUUID gatewayName =
     forEach (\<lambda>mapper. mapErr (errorfW (''create mapper '' @ pmName mapper @ '': ''))
         (kcall E (KCreateMapper clientUUID (pmName mapper)) (srvCreateMapper clientUUID mapper)))
       (drop 1 (desiredGatewayProtocolMappers gatewayName))"

definition srvDeleteClient :: "string \<Rightarrow> 'z realm_scheme \<Rightarrow> (chain + unit) \<times> 'z realm_scheme" where
  "srvDeleteClient uuid =
     withClient ''DELETE'' uuid (\<lambda>c k. (Inr (), k\<lparr>rmClients := filter (\<lambda>c. kcID c \<noteq> uuid) (rmClients k),
       rmGrants := {x \<in> rmGrants k. fst (snd x) \<noteq> uuid}\<rparr>))"

definition deleteClientByUUID :: "'z realm_scheme environ \<Rightarrow> string \<Rightarrow> ('z, unit) kcProg" where
  "deleteClientByUUID E clientUUID = kcall E (KDeleteClient clientUUID) (srvDeleteClient clientUUID)"

section \<open>The grant of token exchange\<close>

text \<open>
  An answer of the server as the code that looks at its status sees it. The resource server is that of
  the client \<^verbatim>\<open>realm-management\<close>, and is there once management permissions were enabled somewhere.
\<close>

datatype 'a httpAnswer = Answered 'a | Refused nat string

abbreviation e2eClientID :: string where "e2eClientID \<equiv> ''hypershell-e2e''"
abbreviation e2eTokenExchangePolicyName :: string where "e2eTokenExchangePolicyName \<equiv> ''hypershell-e2e-token-exchange''"
abbreviation realmManagementClientID :: string where "realmManagementClientID \<equiv> ''realm-management''"
abbreviation frontendClientID :: string where "frontendClientID \<equiv> ''hypershell-frontend''"
abbreviation tokenExchangeDecisionStrategy :: string where "tokenExchangeDecisionStrategy \<equiv> ''UNANIMOUS''"

definition tokenExchangePolicyName :: "string \<Rightarrow> string" where
  "tokenExchangePolicyName requesterClientID = requesterClientID @ ''-token-exchange''"

definition onResourceServer :: "string \<Rightarrow> 'z realm_scheme \<Rightarrow> bool" where
  "onResourceServer rmUUID k \<longleftrightarrow>
     (case rmClient rmUUID k of None \<Rightarrow> False | Some c \<Rightarrow> kcClientID c = realmManagementClientID \<and> rmPermissions k \<noteq> [])"

definition srvFindPolicy :: "string \<Rightarrow> string \<Rightarrow> 'z realm_scheme \<Rightarrow> chain + string httpAnswer" where
  "srvFindPolicy rmUUID policyName k =
     Inr (if \<not> onResourceServer rmUUID k then Refused 404 ''no resource server''
          else case find (\<lambda>p. apName p = policyName) (rmPolicies k) of
                 None \<Rightarrow> Refused 404 [] | Some p \<Rightarrow> Answered (apID p))"

definition srvCreatePolicy ::
  "('z realm_scheme \<Rightarrow> string) \<Rightarrow> string \<Rightarrow> string \<Rightarrow> string \<Rightarrow> 'z realm_scheme \<Rightarrow> (chain + string httpAnswer) \<times> 'z realm_scheme" where
  "srvCreatePolicy freshUUID rmUUID requester policyName k =
     (if \<not> onResourceServer rmUUID k then (Inr (Refused 404 ''no resource server''), k)
      else if list_ex (\<lambda>p. apName p = policyName) (rmPolicies k) then (Inr (Refused 409 ''policy exists''), k)
      else (Inr (Answered (freshUUID k)),
            k\<lparr>rmPolicies := rmPolicies k @ [\<lparr>apID = freshUUID k, apName = policyName, apClients = [requester]\<rparr>]\<rparr>))"

definition findTokenExchangeClientPolicy :: "'z realm_scheme environ \<Rightarrow> string \<Rightarrow> string \<Rightarrow> ('z, string) kcProg" where
  "findTokenExchangeClientPolicy E rmUUID policyName =
     andThen (mapErr (errorfW (''search '' @ policyName @ '' policy: '')) (kread E (KFindPolicy policyName) (srvFindPolicy rmUUID policyName)))
       (\<lambda>answer. case answer of
          Answered i \<Rightarrow> ret i
        | Refused code body \<Rightarrow>
            if code = 204 \<or> code = 404 \<or> strings_TrimSpace body = [] then ret []
            else fail (PlainErr (''search '' @ policyName @ '' policy returned '' @ natText code @ '': '' @ body)))"

definition ensureTokenExchangeClientPolicy ::
  "('z realm_scheme \<Rightarrow> string) \<Rightarrow> 'z realm_scheme environ \<Rightarrow> string \<Rightarrow> string \<Rightarrow> string \<Rightarrow> ('z, string) kcProg" where
  "ensureTokenExchangeClientPolicy freshUUID E rmUUID requester policyName =
     andThen (findTokenExchangeClientPolicy E rmUUID policyName) (\<lambda>i.
       if i \<noteq> [] then ret i
       else andThen (mapErr (errorfW (''create '' @ policyName @ '' policy: ''))
              (kcall E (KCreatePolicy policyName) (srvCreatePolicy freshUUID rmUUID requester policyName))) (\<lambda>answer.
            case answer of
              Answered i \<Rightarrow> if i = [] then fail (PlainErr (''create '' @ policyName @ '' policy returned no id'')) else ret i
            | Refused code body \<Rightarrow>
                if code = 409 then
                  andThen (findTokenExchangeClientPolicy E rmUUID policyName) (\<lambda>i.
                    if i = [] then fail (PlainErr (''create '' @ policyName @ '' policy returned 409 but the policy was not found''))
                    else ret i)
                else fail (PlainErr (''create '' @ policyName @ '' policy returned '' @ natText code @ '': '' @ body))))"

definition ensureE2EClientPolicy ::
  "('z realm_scheme \<Rightarrow> string) \<Rightarrow> 'z realm_scheme environ \<Rightarrow> string \<Rightarrow> string \<Rightarrow> ('z, string) kcProg" where
  "ensureE2EClientPolicy freshUUID E rmUUID e2eClientUUID =
     ensureTokenExchangeClientPolicy freshUUID E rmUUID e2eClientUUID e2eTokenExchangePolicyName"

definition permissionPath :: "string \<Rightarrow> string" where
  "permissionPath permID = ''/authz/resource-server/permission/scope/'' @ permID"

definition srvGetPermission :: "string \<Rightarrow> string \<Rightarrow> 'z realm_scheme \<Rightarrow> chain + scopePermission" where
  "srvGetPermission rmUUID permID k =
     (case (if onResourceServer rmUUID k then find (\<lambda>p. spID p = permID) (rmPermissions k) else None) of
        None \<Rightarrow> Inl (httpError ''GET'' (permissionPath permID) 404 ''Could not find permission'')
      | Some p \<Rightarrow> Inr p)"

definition srvAssociatedPolicies :: "string \<Rightarrow> string \<Rightarrow> 'z realm_scheme \<Rightarrow> chain + string list" where
  "srvAssociatedPolicies rmUUID permID k =
     (case srvGetPermission rmUUID permID k of Inl err \<Rightarrow> Inl err | Inr p \<Rightarrow> Inr (spPolicies p))"

definition srvPutPermission :: "string \<Rightarrow> string \<Rightarrow> scopePermission \<Rightarrow> 'z realm_scheme \<Rightarrow> (chain + unit) \<times> 'z realm_scheme" where
  "srvPutPermission rmUUID permID new k =
     (case srvGetPermission rmUUID permID k of
        Inl _ \<Rightarrow> (Inl (httpError ''PUT'' (permissionPath permID) 404 ''Could not find permission''), k)
      | Inr _ \<Rightarrow> (Inr (), k\<lparr>rmPermissions :=
          map (\<lambda>p. if spID p = permID then new\<lparr>spID := permID, spResource := spResource p\<rparr> else p) (rmPermissions k)\<rparr>))"

definition attachPolicyToPermission :: "'z realm_scheme environ \<Rightarrow> string \<Rightarrow> string \<Rightarrow> string \<Rightarrow> ('z, unit) kcProg" where
  "attachPolicyToPermission E rmUUID permID policyID =
     andThen (mapErr (errorfW ''list token-exchange associated policies: '')
         (kread E (KAssociatedPolicies permID) (srvAssociatedPolicies rmUUID permID))) (\<lambda>associated.
       if policyID \<in> set associated then ret ()
       else andThen (mapErr (errorfW ''get token-exchange permission: '') (kread E (KGetPermission permID) (srvGetPermission rmUUID permID)))
         (\<lambda>rep. mapErr (errorfW ''attach token-exchange policy: '')
           (kcall E (KPutPermission permID) (srvPutPermission rmUUID permID
             (rep\<lparr>spPolicies := filter (\<lambda>i. i \<noteq> []) associated @ [policyID],
                  spStrategy := (if spStrategy rep = [] then tokenExchangeDecisionStrategy else spStrategy rep)\<rparr>)))))"

definition resourceThere :: "fgapResource \<Rightarrow> 'z realm_scheme \<Rightarrow> bool" where
  "resourceThere res k \<longleftrightarrow> (case res of ClientResource u \<Rightarrow> rmClient u k \<noteq> None | IdpResource a \<Rightarrow> a \<in> set (rmIdps k))"

definition resourceDesc :: "fgapResource \<Rightarrow> string" where
  "resourceDesc res = (case res of ClientResource u \<Rightarrow> ''client '' @ u | IdpResource a \<Rightarrow> ''IdP '' @ a)"

definition newPermission :: "fgapResource \<Rightarrow> scopePermission" where
  "newPermission res = \<lparr>spID = resourceDesc res, spResource = res, spPolicies = [], spStrategy = []\<rparr>"

text \<open>The identifier of the permission to exchange tokens, empty where the answer has none.\<close>

definition srvGetManagement :: "fgapResource \<Rightarrow> 'z realm_scheme \<Rightarrow> chain + string" where
  "srvGetManagement res k =
     (if \<not> resourceThere res k then Inl (httpError ''GET'' (resourceDesc res) 404 ''Could not find resource'')
      else Inr (case find (\<lambda>p. spResource p = res) (rmPermissions k) of None \<Rightarrow> [] | Some p \<Rightarrow> spID p))"

definition srvPutManagement :: "fgapResource \<Rightarrow> 'z realm_scheme \<Rightarrow> (chain + string) \<times> 'z realm_scheme" where
  "srvPutManagement res k =
     (if \<not> resourceThere res k then (Inl (httpError ''PUT'' (resourceDesc res) 404 ''Could not find resource''), k)
      else if \<not> rmExchange k then (Inr [], k)
      else case find (\<lambda>p. spResource p = res) (rmPermissions k) of
             Some p \<Rightarrow> (Inr (spID p), k)
           | None \<Rightarrow> (Inr (spID (newPermission res)), k\<lparr>rmPermissions := rmPermissions k @ [newPermission res]\<rparr>))"

definition enableTokenExchangeManagementPermissions :: "'z realm_scheme environ \<Rightarrow> fgapResource \<Rightarrow> ('z, string) kcProg" where
  "enableTokenExchangeManagementPermissions E res =
     andThen (mapErr (errorfW (''enable management permissions on '' @ resourceDesc res @ '': ''))
         (kcall E (KPutManagement res) (srvPutManagement res))) (\<lambda>permID.
       if permID \<noteq> [] then ret permID
       else andThen (mapErr (errorfW (''get management permissions for '' @ resourceDesc res @ '': ''))
              (kread E (KGetManagement res) (srvGetManagement res))) (\<lambda>permID.
            if permID = [] then fail (PlainErr (resourceDesc res @ '' has no token-exchange permission; enable admin-fine-grained-authz:v1''))
            else ret permID))"

definition enableTokenExchangePermissions :: "'z realm_scheme environ \<Rightarrow> string \<Rightarrow> ('z, string) kcProg" where
  "enableTokenExchangePermissions E targetClientUUID = enableTokenExchangeManagementPermissions E (ClientResource targetClientUUID)"

definition enableIdpTokenExchangePermissions :: "'z realm_scheme environ \<Rightarrow> string \<Rightarrow> ('z, string) kcProg" where
  "enableIdpTokenExchangePermissions E idpAlias = enableTokenExchangeManagementPermissions E (IdpResource idpAlias)"

definition EnsureE2ETokenExchange :: "('z realm_scheme \<Rightarrow> string) \<Rightarrow> 'z realm_scheme environ \<Rightarrow> string \<Rightarrow> ('z, unit) kcProg" where
  "EnsureE2ETokenExchange freshUUID E target =
     (if target = [] then fail (PlainErr ''target client UUID is required for token-exchange'')
      else andThen (mapErr (errorfW (''look up '' @ e2eClientID @ '' client: '')) (getClient E e2eClientID)) (\<lambda>e2e.
        case e2e of
          None \<Rightarrow> ret ()
        | Some c \<Rightarrow>
            if \<not> kcEnabled c then ret ()
            else if kcID c = [] then fail (PlainErr (''keycloak client '' @ e2eClientID @ '' is enabled but has no id''))
            else andThen (mapErr (errorfW (''look up '' @ realmManagementClientID @ '' client: '')) (getClientUUID E realmManagementClientID)) (\<lambda>rmUUID.
              if rmUUID = [] then fail (PlainErr (''keycloak client '' @ realmManagementClientID @ '' not found''))
              else andThen (enableTokenExchangePermissions E target) (\<lambda>targetPermID.
                andThen (ensureE2EClientPolicy freshUUID E rmUUID (kcID c)) (\<lambda>policyID.
                andThen (mapErr (errorfW (''grant token-exchange on client '' @ target @ '': '')) (attachPolicyToPermission E rmUUID targetPermID policyID)) (\<lambda>_.
                andThen (mapErr (errorfW (''look up '' @ frontendClientID @ '' client: '')) (getClientUUID E frontendClientID)) (\<lambda>frontendUUID.
                if frontendUUID = [] \<or> frontendUUID = target then ret ()
                else andThen (enableTokenExchangePermissions E frontendUUID) (\<lambda>frontendPermID.
                  mapErr (errorfW (''grant token-exchange on '' @ frontendClientID @ '': '')) (attachPolicyToPermission E rmUUID frontendPermID policyID)))))))))"

section \<open>Provisioning\<close>

text \<open>A step of provisioning whose failure rolls the client back; the error of the rollback is logged only.\<close>

definition orRollBack :: "'z realm_scheme environ \<Rightarrow> string \<Rightarrow> string \<Rightarrow> ('z, 'a) kcProg \<Rightarrow> ('z, 'a) kcProg" where
  "orRollBack E clientUUID intro step =
     andThen (attempt step) (\<lambda>res. case res of
         Inr x \<Rightarrow> ret x
       | Inl err \<Rightarrow> andThen (attempt (deleteClientByUUID E clientUUID)) (\<lambda>_. fail (errorfW intro err)))"

definition ProvisionGatewayClient :: "('z realm_scheme \<Rightarrow> string) \<Rightarrow> 'z realm_scheme environ \<Rightarrow> string \<Rightarrow> ('z, string) kcProg" where
  "ProvisionGatewayClient freshUUID E gatewayName =
     andThen (mapErr (errorfW ''create keycloak client: '') (createClient freshUUID E gatewayName)) (\<lambda>clientUUID.
     andThen (orRollBack E clientUUID ''create client roles: '' (createClientRoles E clientUUID)) (\<lambda>_.
     andThen (orRollBack E clientUUID ''create protocol mappers: '' (createProtocolMappers E clientUUID gatewayName)) (\<lambda>_.
     andThen (orRollBack E clientUUID ''grant e2e token-exchange: '' (EnsureE2ETokenExchange freshUUID E clientUUID)) (\<lambda>_.
     ret clientUUID))))"

definition DeleteGatewayClient :: "'z realm_scheme environ \<Rightarrow> string \<Rightarrow> ('z, unit) kcProg" where
  "DeleteGatewayClient E gatewayName =
     andThen (getClientUUID E gatewayName)
       (\<lambda>clientUUID. if clientUUID = [] then ret () else deleteClientByUUID E clientUUID)"

definition srvGetClient :: "string \<Rightarrow> 'z realm_scheme \<Rightarrow> chain + keycloakClient" where
  "srvGetClient uuid k =
     (case rmClient uuid k of None \<Rightarrow> Inl (httpError ''GET'' (clientPath uuid) 404 ''Could not find client'') | Some c \<Rightarrow> Inr c)"

text \<open>An update replaces the representation that was read; roles and scope mappings are no part of it.\<close>

definition srvPutClient :: "string \<Rightarrow> keycloakClient \<Rightarrow> 'z realm_scheme \<Rightarrow> (chain + unit) \<times> 'z realm_scheme" where
  "srvPutClient uuid new =
     withClient ''PUT'' uuid (\<lambda>c k.
       (Inr (), onClient uuid (\<lambda>c. new\<lparr>kcID := uuid, kcRoles := kcRoles c, kcScopeMappings := kcScopeMappings c\<rparr>) k))"

definition EnsureDeviceAuthorizationGrant :: "'z realm_scheme environ \<Rightarrow> string \<Rightarrow> ('z, unit) kcProg" where
  "EnsureDeviceAuthorizationGrant E clientUUID =
     andThen (mapErr (errorfW (''get keycloak client '' @ clientUUID @ '': '')) (kread E (KGetClient clientUUID) (srvGetClient clientUUID)))
       (\<lambda>rep. if kcAttributes rep deviceAuthorizationGrantAttribute = Some ''true'' then ret ()
              else mapErr (errorfW (''enable device authorization grant on keycloak client '' @ clientUUID @ '': ''))
                (kcall E (KPutClient clientUUID)
                  (srvPutClient clientUUID (rep\<lparr>kcAttributes := (kcAttributes rep)(deviceAuthorizationGrantAttribute \<mapsto> ''true'')\<rparr>))))"

section \<open>The clients of service accounts\<close>

text \<open>
  A page of clients; the loop ends at a page that is not full. \<open>budget\<close> is the number of pages read
  before the context of the caller expires.
\<close>

abbreviation clientPageSize :: nat where "clientPageSize \<equiv> 100"

definition srvListClients :: "nat \<Rightarrow> nat \<Rightarrow> 'z realm_scheme \<Rightarrow> chain + keycloakClient list" where
  "srvListClients start n k = Inr (take n (drop start (rmClients k)))"

fun listClients :: "'z realm_scheme environ \<Rightarrow> nat \<Rightarrow> nat \<Rightarrow> keycloakClient list \<Rightarrow> ('z, keycloakClient list) kcProg" where
  "listClients E 0 start listed = fail (PlainErr ''list Keycloak clients'')"
| "listClients E (Suc budget) start listed =
     andThen (mapErr (\<lambda>_. PlainErr ''list Keycloak clients'') (kread E (KListClients start clientPageSize) (srvListClients start clientPageSize)))
       (\<lambda>page. if length page < clientPageSize then ret (listed @ page)
               else listClients E budget (start + clientPageSize) (listed @ page))"

definition managedServiceAccount :: "string \<Rightarrow> keycloakClient \<Rightarrow> bool" where
  "managedServiceAccount gatewayID c \<longleftrightarrow>
     map_get (kcAttributes c) ''hypershell.service-account'' = ''true'' \<and>
     map_get (kcAttributes c) ''hypershell.gateway-id'' = gatewayID"

definition disableClient :: "'z realm_scheme environ \<Rightarrow> string \<Rightarrow> string \<Rightarrow> string list \<Rightarrow> ('z, string list) kcProg" where
  "disableClient E gatewayID uuid managed =
     andThen (mapErr (\<lambda>_. PlainErr ''inspect Keycloak client'') (kread E (KGetClient uuid) (srvGetClient uuid))) (\<lambda>rep.
       if \<not> managedServiceAccount gatewayID rep then ret managed
       else andThen (mapErr (\<lambda>_. PlainErr ''disable gateway service-account client'')
              (kcall E (KPutClient uuid) (srvPutClient uuid (rep\<lparr>kcEnabled := False\<rparr>))))
            (\<lambda>_. ret (managed @ [uuid])))"

fun disableClients :: "'z realm_scheme environ \<Rightarrow> string \<Rightarrow> keycloakClient list \<Rightarrow> string list \<Rightarrow> ('z, string list) kcProg" where
  "disableClients E gatewayID [] managed = ret managed"
| "disableClients E gatewayID (c # cs) managed =
     andThen (disableClient E gatewayID (kcID c) managed) (disableClients E gatewayID cs)"

definition DeleteGatewayServiceAccountClients :: "'z realm_scheme environ \<Rightarrow> nat \<Rightarrow> string \<Rightarrow> ('z, unit) kcProg" where
  "DeleteGatewayServiceAccountClients E budget gatewayID =
     andThen (listClients E budget 0 []) (\<lambda>listed.
     andThen (disableClients E gatewayID listed []) (\<lambda>managed.
     forEach (\<lambda>uuid. mapErr (\<lambda>_. PlainErr ''delete gateway service-account client'') (deleteClientByUUID E uuid)) managed))"

section \<open>The users of the realm\<close>

record RealmUser =
  ruUsername :: string
  ruName :: string
  ruEmail :: string
  ruSubject :: string

definition displayName :: "keycloakUser \<Rightarrow> string" where
  "displayName u =
     (let name = strings_TrimSpace (kuFirstName u @ '' '' @ kuLastName u) in if name = [] then kuUsername u else name)"

definition realmUser :: "keycloakUser \<Rightarrow> RealmUser" where
  "realmUser u = \<lparr>ruUsername = kuUsername u, ruName = displayName u, ruEmail = kuEmail u, ruSubject = kuID u\<rparr>"

definition realmUserCount :: "'z realm_scheme environ \<Rightarrow> ('z, nat) kcProg" where
  "realmUserCount E = kread E KCountUsers (\<lambda>k. Inr (length (rmUsers k)))"

definition srvListUsers :: "nat \<Rightarrow> nat \<Rightarrow> 'z realm_scheme \<Rightarrow> chain + keycloakUser list" where
  "srvListUsers start n k = Inr (take n (drop start (rmUsers k)))"

text \<open>The pages up to the count; the first argument bounds the number of pages and is never reached.\<close>

fun realmUserPages :: "nat \<Rightarrow> 'z realm_scheme environ \<Rightarrow> nat \<Rightarrow> nat \<Rightarrow> RealmUser list \<Rightarrow> ('z, RealmUser list) kcProg" where
  "realmUserPages 0 E rows start out = ret out"
| "realmUserPages (Suc k) E rows start out =
     (if rows \<le> start then ret out
      else let pageMax = min 100 (rows - start)
        in andThen (mapErr (errorfW ''list realm users: '') (kread E (KListUsers start pageMax) (srvListUsers start pageMax)))
          (\<lambda>page. if length page < pageMax then ret (out @ map realmUser page)
                  else realmUserPages k E rows (start + 100) (out @ map realmUser page)))"

definition ListRealmUsers :: "'z realm_scheme environ \<Rightarrow> ('z, RealmUser list) kcProg" where
  "ListRealmUsers E =
     andThen (mapErr (errorfW ''count realm users: '') (realmUserCount E))
       (\<lambda>rows. realmUserPages (Suc (rows div 100)) E rows 0 [])"

section \<open>What the operations do in an undisturbed realm\<close>

lemma find_filter: "find P (filter P xs) = find P xs"
  by (induction xs) auto

lemma find_ex: "find P xs = Some x \<Longrightarrow> x \<in> set xs \<and> P x"
  by (auto simp: find_Some_iff)

text \<open>A gateway's client and a user are there, and the client has the role.\<close>

definition present :: "'z realm_scheme \<Rightarrow> string \<Rightarrow> string \<Rightarrow> string \<Rightarrow> keycloakClient \<Rightarrow> keycloakUser \<Rightarrow> bool" where
  "present k gatewayName username roleName c u \<longleftrightarrow>
     find (\<lambda>c. kcClientID c = gatewayName) (rmClients k) = Some c \<and> kcID c \<noteq> [] \<and> rmClient (kcID c) k = Some c \<and>
     map_of (kcRoles c) roleName \<noteq> None \<and> find (\<lambda>u. kuUsername u = username) (rmUsers k) = Some u"

lemma present_user: "present k g n role c u \<Longrightarrow> list_ex (\<lambda>x. kuID x = kuID u) (rmUsers k)"
  by (auto simp: present_def list_ex_iff dest: find_ex)

lemma lookup_quiet:
  fixes w :: "('z realm_scheme, rcall) kworld"
  assumes "present (kwState w) g n role c u"
  shows "\<exists>w'. getClientUUID (quiet t) g w = (Inr (kcID c), w') \<and> kwState w' = kwState w"
    and "\<exists>w' i. getClientRoleUUID (quiet t) (kcID c) role w = (Inr i, w') \<and> kwState w' = kwState w"
    and "\<exists>w'. getUserUUID (quiet t) n w = (Inr (kuID u), w') \<and> kwState w' = kwState w"
  using assms
  by (auto simp: present_def getClientUUID_def getClient_def getClientRoleUUID_def getUserUUID_def kread_quiet andThen_def
      srvGetClients_def srvGetRole_def srvGetUsers_def find_filter)

lemma mapping_quiet:
  assumes "present (kwState w) g n role c u"
  shows "kcall (quiet t) l (srvMapping meth f (kuID u) (kcID c) role) w =
    (Inr (), w\<lparr>kwTick := Suc (kwTick w), kwLog := kwLog w @ [(l, kwState w)],
        kwState := (kwState w)\<lparr>rmGrants := f (kuID u, kcID c, role) (rmGrants (kwState w))\<rparr>\<rparr>)"
  using assms present_user [OF assms] by (simp add: kcall_quiet srvMapping_def present_def)

lemma AssignClientRole_quiet:
  fixes w :: "('z realm_scheme, rcall) kworld"
  assumes "present (kwState w) g n role c u"
  shows "\<exists>w'. AssignClientRole (quiet t) g n role w = (Inr (), w') \<and>
    kwState w' = (kwState w)\<lparr>rmGrants := insert (kuID u, kcID c, role) (rmGrants (kwState w))\<rparr>"
proof -
  obtain w1 where w1: "getClientUUID (quiet t) g w = (Inr (kcID c), w1)" "kwState w1 = kwState w"
    using lookup_quiet(1) [OF assms] by blast
  obtain w2 i where w2: "getClientRoleUUID (quiet t) (kcID c) role w1 = (Inr i, w2)" "kwState w2 = kwState w"
    using lookup_quiet(2) [of w1] assms w1(2) by metis
  obtain w3 where w3: "getUserUUID (quiet t) n w2 = (Inr (kuID u), w3)" "kwState w3 = kwState w"
    using lookup_quiet(3) [of w2] assms w2(2) by metis
  have "present (kwState w3) g n role c u" using assms w3(2) by simp
  note post = mapping_quiet [OF this]
  have "kcID c \<noteq> []" using assms by (simp add: present_def)
  then show ?thesis
    using w1 w2 w3 post by (simp add: AssignClientRole_def andThen_def mapErr_def)
qed

lemma RemoveClientRole_quiet:
  fixes w :: "('z realm_scheme, rcall) kworld"
  assumes "present (kwState w) g n role c u"
  shows "\<exists>w'. RemoveClientRole (quiet t) g n role w = (Inr (), w') \<and>
    kwState w' = (kwState w)\<lparr>rmGrants := rmGrants (kwState w) - {(kuID u, kcID c, role)}\<rparr>"
proof -
  obtain w1 where w1: "getClientUUID (quiet t) g w = (Inr (kcID c), w1)" "kwState w1 = kwState w"
    using lookup_quiet(1) [OF assms] by blast
  obtain w2 i where w2: "getClientRoleUUID (quiet t) (kcID c) role w1 = (Inr i, w2)" "kwState w2 = kwState w"
    using lookup_quiet(2) [of w1] assms w1(2) by metis
  obtain w3 where w3: "getUserUUID (quiet t) n w2 = (Inr (kuID u), w3)" "kwState w3 = kwState w"
    using lookup_quiet(3) [of w2] assms w2(2) by metis
  have "present (kwState w3) g n role c u" using assms w3(2) by simp
  note post = mapping_quiet [OF this]
  have "kcID c \<noteq> []" using assms by (simp add: present_def)
  then show ?thesis
    using w1 w2 w3 post by (simp add: RemoveClientRole_def andThen_def mapErr_def)
qed

section \<open>Roll-back\<close>

lemma orRollBack_success: "orRollBack E u intro step w = (Inr x, w1) \<longleftrightarrow> step w = (Inr x, w1)"
  by (cases "step w"; cases "fst (step w)") (auto simp: orRollBack_def andThen_def split: prod.split)

text \<open>A run that ends with the deletion of a client, and what that deletion left.\<close>

definition endsWithDeletion ::
  "'z realm_scheme environ \<Rightarrow> string \<Rightarrow> ('z realm_scheme, rcall) kworld \<Rightarrow> bool" where
  "endsWithDeletion E uuid w' \<longleftrightarrow>
     (\<exists>before c. kwLog w' = before @ [(KDeleteClient uuid, c)]) \<and> 0 < kwTick w' \<and>
     (envFails E (kwTick w' - 1) = None \<longrightarrow> rmClient uuid (kwState w') = None)"

lemma srvDeleteClient_gone: "rmClient uuid (snd (srvDeleteClient uuid k)) = None"
proof -
  have "find (\<lambda>c. kcID c = uuid) (filter (\<lambda>c. kcID c \<noteq> uuid) xs) = None" for xs :: "keycloakClient list"
    by (induction xs) auto
  then show ?thesis by (auto simp: srvDeleteClient_def withClient_def rmClient_def split: option.split)
qed

lemma orRollBack_failure:
  assumes "orRollBack E u intro step w = (Inl err, w1)"
  shows "endsWithDeletion E u w1"
proof -
  obtain e v where v: "step w = (Inl e, v)"
    using assms by (cases "step w"; cases "fst (step w)") (auto simp: orRollBack_def andThen_def)
  then have w1: "w1 = snd (kcall E (KDeleteClient u) (srvDeleteClient u) v)"
    using assms by (simp add: orRollBack_def andThen_def deleteClientByUUID_def)
  have "kwTick w1 = Suc (kwTick v)"
    unfolding w1 by (simp add: kcall_def Let_def split: option.split prod.split)
  moreover have "envFails E (kwTick v) = None \<Longrightarrow> rmClient u (kwState w1) = None"
    unfolding w1 by (simp add: kcall_def Let_def srvDeleteClient_gone)
  ultimately show ?thesis
    unfolding endsWithDeletion_def by (simp add: w1 kcall_log)
qed

lemma ProvisionGatewayClient_failure:
  fixes w' :: "('z realm_scheme, rcall) kworld"
  assumes "ProvisionGatewayClient freshUUID E g w = (Inl err, w')"
    and "createClient freshUUID E g w = (Inr uuid, w1)"
  shows "endsWithDeletion E uuid w'"
proof -
  have "andThen (orRollBack E uuid ''create client roles: '' (createClientRoles E uuid)) (\<lambda>_.
     andThen (orRollBack E uuid ''create protocol mappers: '' (createProtocolMappers E uuid g)) (\<lambda>_.
     andThen (orRollBack E uuid ''grant e2e token-exchange: '' (EnsureE2ETokenExchange freshUUID E uuid)) (\<lambda>_. ret uuid))) w1 = (Inl err, w')"
    using assms by (simp add: ProvisionGatewayClient_def andThen_def [of "mapErr _ _"] mapErr_def)
  moreover have split: "andThen m f v = (Inl err, w') \<Longrightarrow>
      (\<exists>e. m v = (Inl e, w')) \<or> (\<exists>x v1. f x v1 = (Inl err, w'))"
    for m :: "('z, unit) kcProg" and f :: "unit \<Rightarrow> ('z, string) kcProg" and v
    by (auto simp: andThen_def split: prod.splits sum.splits)
  ultimately show ?thesis
    by (auto dest!: split orRollBack_failure)
qed

section \<open>Deleting the clients of service accounts\<close>

fun changesClient :: "rcall \<Rightarrow> bool" where
  "changesClient (KPutClient u) = True"
| "changesClient (KDeleteClient u) = True"
| "changesClient _ = False"

text \<open>An accepted update that disables a client of the gateway's service accounts.\<close>

definition disabledBefore ::
  "'z realm_scheme environ \<Rightarrow> string \<Rightarrow> string \<Rightarrow> (rcall \<times> 'z realm_scheme) list \<Rightarrow> bool" where
  "disabledBefore E gatewayID uuid log \<longleftrightarrow>
     (\<exists>rep w0 w1. managedServiceAccount gatewayID rep \<and>
        kcall E (KPutClient uuid) (srvPutClient uuid (rep\<lparr>kcEnabled := False\<rparr>)) w0 = (Inr (), w1) \<and> prefix (kwLog w1) log)"

text \<open>Only clients marked for the gateway are changed; every one is disabled before the first is deleted.\<close>

definition disablesFirst ::
  "'z realm_scheme environ \<Rightarrow> string \<Rightarrow> rcall \<Rightarrow> 'z realm_scheme \<Rightarrow> (rcall \<times> 'z realm_scheme) list \<Rightarrow> bool" where
  "disablesFirst E gatewayID l c log \<longleftrightarrow>
     (case l of
        KPutClient u \<Rightarrow> (\<exists>k rep. last log = (KGetClient u, k) \<and> log \<noteq> [] \<and> srvGetClient u k = Inr rep \<and> managedServiceAccount gatewayID rep) \<and>
          (\<forall>x\<in>set log. \<forall>v. fst x \<noteq> KDeleteClient v)
      | KDeleteClient u \<Rightarrow> disabledBefore E gatewayID u log
      | _ \<Rightarrow> True)"

definition noDeletes :: "('z realm_scheme, rcall) kworld \<Rightarrow> bool" where
  "noDeletes w \<longleftrightarrow> (\<forall>x\<in>set (kwLog w). \<forall>v. fst x \<noteq> KDeleteClient v)"

lemma disabledBefore_mono: "disabledBefore E g u log \<Longrightarrow> disabledBefore E g u (log @ rest)"
  unfolding disabledBefore_def by (meson prefix_order.trans prefixI)

lemma listClients_avoids: "(\<And>a b. \<not> D (KListClients a b)) \<Longrightarrow> steps (avoids D) (listClients E budget start listed)"
  by (induction budget arbitrary: start listed) (auto intro!: avoids_rules)

lemma disableClient_guarded:
  assumes "noDeletes w"
  shows "guarded changesClient (disablesFirst E g) w (snd (disableClient E g u managed w))"
    and "disableClient E g u managed w = (Inr managed', w') \<Longrightarrow>
      noDeletes w' \<and> (\<exists>new. kwLog w' = kwLog w @ new) \<and> (managed' = managed \<or> managed' = managed @ [u] \<and> disabledBefore E g u (kwLog w'))"
proof -
  show "guarded changesClient (disablesFirst E g) w (snd (disableClient E g u managed w))"
    unfolding disableClient_def
  proof (rule guarded.run_andThen, goal_cases)
    case 1
    then show ?case unfolding mapErr_state kread_def by (rule kcall_guarded) simp
  next
    case (2 rep w1)
    then have "kread E (KGetClient u) (srvGetClient u) w = (Inr rep, w1)" by simp
    then obtain k where k: "kwLog w1 = kwLog w @ [(KGetClient u, k)]" "srvGetClient u k = Inr rep" by (rule kread_success)
    show ?case
    proof (cases "managedServiceAccount g rep")
      case True
      have "guarded changesClient (disablesFirst E g) w1 (snd (kcall E (KPutClient u) (srvPutClient u (rep\<lparr>kcEnabled := False\<rparr>)) w1))"
        by (rule kcall_guarded) (use k True assms in \<open>auto simp: disablesFirst_def noDeletes_def\<close>)
      with True show ?thesis by (simp add: snd_andThen_ret)
    next
      case False
      then show ?thesis by (simp add: guarded.refl)
    qed
  qed
  assume "disableClient E g u managed w = (Inr managed', w')"
  then obtain rep w1 where r: "kread E (KGetClient u) (srvGetClient u) w = (Inr rep, w1)"
    and rest: "(if \<not> managedServiceAccount g rep then ret managed
       else andThen (mapErr (\<lambda>_. PlainErr ''disable gateway service-account client'')
              (kcall E (KPutClient u) (srvPutClient u (rep\<lparr>kcEnabled := False\<rparr>))))
            (\<lambda>_. ret (managed @ [u]))) w1 = (Inr managed', w')"
    by (auto simp: disableClient_def andThen_success)
  obtain k where k: "kwLog w1 = kwLog w @ [(KGetClient u, k)]" using r by (rule kread_success)
  show "noDeletes w' \<and> (\<exists>new. kwLog w' = kwLog w @ new) \<and> (managed' = managed \<or> managed' = managed @ [u] \<and> disabledBefore E g u (kwLog w'))"
  proof (cases "managedServiceAccount g rep")
    case True
    then have put: "kcall E (KPutClient u) (srvPutClient u (rep\<lparr>kcEnabled := False\<rparr>)) w1 = (Inr (), w')" "managed' = managed @ [u]"
      using rest by (auto simp: andThen_success)
    then have "disabledBefore E g u (kwLog w')" unfolding disabledBefore_def using True by blast
    moreover have "kwLog w' = kwLog w1 @ [(KPutClient u, envOthers E (kwTick w1) (kwState w1))]"
      using kcall_log [of E "KPutClient u" "srvPutClient u (rep\<lparr>kcEnabled := False\<rparr>)" w1] put(1) by simp
    ultimately show ?thesis using put(2) k assms by (auto simp: noDeletes_def)
  next
    case False
    with rest k assms show ?thesis by (auto simp: noDeletes_def)
  qed
qed

lemma disableClients_guarded:
  assumes "noDeletes w" "\<forall>u\<in>set managed. disabledBefore E g u (kwLog w)"
  shows "guarded changesClient (disablesFirst E g) w (snd (disableClients E g cs managed w))"
    and "disableClients E g cs managed w = (Inr managed', w') \<Longrightarrow> \<forall>u\<in>set managed'. disabledBefore E g u (kwLog w')"
  using assms
proof (induction cs arbitrary: managed w)
  case Nil
  {
    case 1
    then show ?case by (simp add: guarded.refl)
  next
    case 2
    then show ?case by simp
  }
next
  case (Cons c cs)
  have kept: "noDeletes w1 \<and> (\<forall>u\<in>set m1. disabledBefore E g u (kwLog w1))"
    if "disableClient E g (kcID c) managed w = (Inr m1, w1)" "noDeletes w" "\<forall>u\<in>set managed. disabledBefore E g u (kwLog w)"
    for managed w m1 w1
    using disableClient_guarded(2) [OF that(2,1)] that(3) disabledBefore_mono by fastforce
  {
    case 1
    show ?case
      unfolding disableClients.simps
    proof (rule guarded.run_andThen, goal_cases)
      case 1
      then show ?case by (rule disableClient_guarded(1) [OF \<open>noDeletes w\<close>])
    next
      case (2 m1 w1)
      from kept [OF this \<open>noDeletes w\<close> 1(2)] show ?case by (intro Cons.IH(1)) auto
    qed
  next
    case 2
    then obtain m1 w1 where "disableClient E g (kcID c) managed w = (Inr m1, w1)" "disableClients E g cs m1 w1 = (Inr managed', w')"
      by (auto simp: andThen_success)
    with kept [OF this(1) 2(2,3)] Cons.IH(2) show ?case by blast
  }
qed

lemma deleteEach_guarded:
  assumes "\<forall>u\<in>set us. disabledBefore E g u (kwLog w)"
  shows "guarded changesClient (disablesFirst E g) w
    (snd (forEach (\<lambda>u. mapErr h (deleteClientByUUID E u)) us w))"
  using assms
proof (induction us arbitrary: w)
  case Nil
  then show ?case by (simp add: guarded.refl)
next
  case (Cons u us)
  show ?case
    unfolding forEach.simps
  proof (rule guarded.run_andThen, goal_cases)
    case 1
    then show ?case
      unfolding mapErr_state deleteClientByUUID_def
      by (rule kcall_guarded) (use Cons.prems in \<open>simp add: disablesFirst_def\<close>)
  next
    case (2 x w1)
    then have "kwLog w1 = kwLog w @ [(KDeleteClient u, envOthers E (kwTick w) (kwState w))]"
      using kcall_log [of E "KDeleteClient u" "srvDeleteClient u" w] by (simp add: deleteClientByUUID_def)
    then show ?case using Cons.prems by (intro Cons.IH) (auto intro: disabledBefore_mono)
  qed
qed

lemma DeleteGatewayServiceAccountClients_guarded:
  assumes "noDeletes w"
  shows "guarded changesClient (disablesFirst E g) w (snd (DeleteGatewayServiceAccountClients E budget g w))"
  unfolding DeleteGatewayServiceAccountClients_def
proof (rule guarded.run_andThen, goal_cases)
  case 1
  then show ?case using listClients_avoids [of changesClient E budget 0 "[]"] by (simp add: steps_def avoids_guarded)
next
  case (2 listed w1)
  have "noDeletes w1"
    using avoids_run [OF listClients_avoids [of "\<lambda>l. \<exists>v. l = KDeleteClient v"] 2] assms by (fastforce simp: avoids_def noDeletes_def)
  show ?case
  proof (rule guarded.run_andThen, goal_cases)
    case 1
    then show ?case by (rule disableClients_guarded(1) [OF \<open>noDeletes w1\<close>]) simp
  next
    case (2 managed w2)
    from disableClients_guarded(2) [OF \<open>noDeletes w1\<close> _ this] show ?case by (intro deleteEach_guarded) simp
  qed
qed

section \<open>Listing the users\<close>

lemma realmUserPages_quiet:
  fixes w :: "('z realm_scheme, rcall) kworld"
  assumes "rows = length (rmUsers (kwState w))" "rows \<le> start + k * 100"
    "out = map realmUser (take start (rmUsers (kwState w)))"
  shows "\<exists>w'. realmUserPages k (quiet t) rows start out w = (Inr (map realmUser (rmUsers (kwState w))), w') \<and> kwState w' = kwState w"
  using assms
proof (induction k arbitrary: start out w)
  case 0
  then show ?case by simp
next
  case (Suc k)
  show ?case
  proof (cases "rows \<le> start")
    case True
    with Suc.prems show ?thesis by simp
  next
    case False
    let ?m = "min 100 (rows - start)" and ?us = "rmUsers (kwState w)"
    let ?page = "take ?m (drop start ?us)"
    let ?w1 = "w\<lparr>kwTick := Suc (kwTick w), kwLog := kwLog w @ [(KListUsers start ?m, kwState w)]\<rparr>"
    have l: "length ?page = ?m" using Suc.prems(1) by simp
    have out: "out @ map realmUser ?page = map realmUser (take (start + 100) ?us)"
      using Suc.prems by (simp add: take_add min_def)
    have "\<exists>w'. realmUserPages k (quiet t) rows (start + 100) (out @ map realmUser ?page) ?w1 =
        (Inr (map realmUser (rmUsers (kwState ?w1))), w') \<and> kwState w' = kwState ?w1"
      using Suc.prems out by (intro Suc.IH) auto
    then show ?thesis
      using False Suc.prems(1)
      by (auto simp: Let_def kread_quiet srvListUsers_def andThen_def mapErr_def l min_def split: if_splits)
  qed
qed

lemma ListRealmUsers_quiet:
  "fst (ListRealmUsers (quiet t) w) = Inr (map realmUser (rmUsers (kwState w)))"
proof -
  let ?n = "length (rmUsers (kwState w))"
  let ?w1 = "w\<lparr>kwTick := Suc (kwTick w), kwLog := kwLog w @ [(KCountUsers, kwState w)]\<rparr>"
  have "\<exists>w'. realmUserPages (Suc (?n div 100)) (quiet t) ?n 0 [] ?w1 = (Inr (map realmUser (rmUsers (kwState ?w1))), w') \<and> kwState w' = kwState ?w1"
    by (rule realmUserPages_quiet) auto
  then show ?thesis
    by (auto simp: ListRealmUsers_def realmUserCount_def kread_quiet andThen_def mapErr_def)
qed

section \<open>Properties\<close>

text \<open>
  C21: Whichever step of the provisioning of a gateway's Keycloak client fails after the client was
  created, and whatever happens meanwhile, the run ends with the deletion of that client; where that
  call gets through, the realm has the client no more.
\<close>

theorem failed_provisioning_rolls_back:
  assumes "ProvisionGatewayClient freshUUID E gatewayName w = (Inl err, w')"
    and "createClient freshUUID E gatewayName w = (Inr uuid, w1)"
  shows "endsWithDeletion E uuid w'"
  by (rule ProvisionGatewayClient_failure [OF assms])

definition emptyRealm :: realm where
  "emptyRealm = \<lparr>rmClients = [], rmUsers = [], rmGrants = {}, rmIdps = [], rmPolicies = [], rmPermissions = [], rmExchange = True\<rparr>"

text \<open>An environment in which the second call fails before it reaches the server.\<close>

definition secondFails :: "realm environ" where
  "secondFails = \<lparr>envOthers = (\<lambda>_ k. k), envFails = (\<lambda>n. if n = 1 then Some (StatusErr DeadlineExceeded [], False) else None), envClock = (\<lambda>_. 0)\<rparr>"

theorem failed_provisioning_rolls_back_witness:
  "\<exists>err w'. ProvisionGatewayClient (\<lambda>_. ''u1'') secondFails ''g1'' (freshWorld emptyRealm) = (Inl err, w') \<and>
     endsWithDeletion secondFails ''u1'' w'"
proof -
  have create: "createClient (\<lambda>_. ''u1'') secondFails ''g1'' (freshWorld emptyRealm) =
      (Inr ''u1'', \<lparr>kwState = emptyRealm\<lparr>rmClients := [newKeycloakClient ''g1'' ''u1'']\<rparr>, kwTick = 1,
        kwLog = [(KCreateClient ''g1'', emptyRealm)]\<rparr>)"
    by (simp add: createClient_def andThen_def kcall_def srvCreateClient_def freshWorld_def emptyRealm_def secondFails_def clientPath_def newKeycloakClient_def)
  have "isl (fst (ProvisionGatewayClient (\<lambda>_. ''u1'') secondFails ''g1'' (freshWorld emptyRealm)))"
    by (simp add: ProvisionGatewayClient_def andThen_def [of "mapErr _ _"] mapErr_def create)
      (simp add: orRollBack_def createClientRoles_def andThen_def mapErr_def kcall_def secondFails_def Let_def attempt_def)
  then obtain err w' where run: "ProvisionGatewayClient (\<lambda>_. ''u1'') secondFails ''g1'' (freshWorld emptyRealm) = (Inl err, w')"
    by (cases "ProvisionGatewayClient (\<lambda>_. ''u1'') secondFails ''g1'' (freshWorld emptyRealm)")
      (auto simp: isl_def)
  from failed_provisioning_rolls_back [OF run create] run show ?thesis by blast
qed

text \<open>
  C22: Deleting the clients of a gateway's service accounts changes only clients marked as such for this
  gateway, and deletes one only after an update that disables it was accepted, every update coming
  before the first deletion; whatever others do and whichever calls fail.
\<close>

theorem service_accounts_disabled_first:
  assumes "kwLog (snd (DeleteGatewayServiceAccountClients E budget gatewayID (freshWorld k))) = before @ (l, c) # after"
    and "changesClient l"
  shows "disablesFirst E gatewayID l c before"
proof -
  have "noDeletes (freshWorld k)" by (simp add: noDeletes_def freshWorld_def)
  from guarded_all [OF DeleteGatewayServiceAccountClients_guarded [OF this] _ assms] show ?thesis
    by (simp add: freshWorld_def)
qed

definition accountRealm :: realm where
  "accountRealm =
     emptyRealm\<lparr>rmClients := [(newKeycloakClient ''sa'' ''u1'')
        \<lparr>kcAttributes := kvs [(''hypershell.service-account'', ''true''), (''hypershell.gateway-id'', ''g1'')]\<rparr>]\<rparr>"

theorem service_accounts_disabled_first_witness:
  "\<exists>before c after. kwLog (snd (DeleteGatewayServiceAccountClients (quiet 0) 1 ''g1'' (freshWorld accountRealm))) =
       before @ (KDeleteClient ''u1'', c) # after \<and> disablesFirst (quiet 0) ''g1'' (KDeleteClient ''u1'') c before"
proof -
  have "KDeleteClient ''u1'' \<in> set (map fst (kwLog (snd (DeleteGatewayServiceAccountClients (quiet 0) 1 ''g1'' (freshWorld accountRealm)))))"
    unfolding DeleteGatewayServiceAccountClients_def accountRealm_def emptyRealm_def newKeycloakClient_def freshWorld_def
    by (simp add: runs kread_quiet kcall_quiet srvListClients_def disableClient_def managedServiceAccount_def
        map_get_def kvs_def srvGetClient_def srvPutClient_def withClient_def rmClient_def onClient_def deleteClientByUUID_def srvDeleteClient_def
        cong: bindK_cong mapK_cong)
  then obtain c where "(KDeleteClient ''u1'', c) \<in> set (kwLog (snd (DeleteGatewayServiceAccountClients (quiet 0) 1 ''g1'' (freshWorld accountRealm))))"
    by auto
  then obtain before after where
    log: "kwLog (snd (DeleteGatewayServiceAccountClients (quiet 0) 1 ''g1'' (freshWorld accountRealm))) = before @ (KDeleteClient ''u1'', c) # after"
    by (meson split_list)
  from service_accounts_disabled_first [OF this] log show ?thesis by auto
qed

end
