(* ===== verification/Keycloak_Console.thy ===== *)
theory Keycloak_Console
  imports Keycloak_Client
begin

text \<open>
  The Keycloak client of a gateway's web console and the check of a gateway's client
  (\<^verbatim>\<open>control-plane/internal/keycloak/client.go\<close>): provisioning with roll-back, the repair of drifted
  settings, mappers and scope mappings, deletion, and the comparison of a gateway's client with what
  the control plane wants of it.
\<close>

section \<open>What is read of a client\<close>

definition srvListRoles :: "string \<Rightarrow> 'z realm_scheme \<Rightarrow> chain + (string \<times> string) list" where
  "srvListRoles uuid k =
     (case rmClient uuid k of None \<Rightarrow> Inl (httpError ''GET'' (clientPath uuid @ ''/roles'') 404 ''Could not find client'') | Some c \<Rightarrow> Inr (kcRoles c))"

definition listClientRoles :: "'z realm_scheme environ \<Rightarrow> string \<Rightarrow> ('z, (string \<times> string) list) kcProg" where
  "listClientRoles E clientUUID = kread E (KListRoles clientUUID) (srvListRoles clientUUID)"

definition srvListMappers :: "string \<Rightarrow> 'z realm_scheme \<Rightarrow> chain + protocolMapper list" where
  "srvListMappers uuid k =
     (case rmClient uuid k of None \<Rightarrow> Inl (httpError ''GET'' (clientPath uuid @ ''/protocol-mappers/models'') 404 ''Could not find client'') | Some c \<Rightarrow> Inr (kcMappers c))"

text \<open>By name; of two with the same name the later one.\<close>

definition listClientProtocolMapperModels :: "'z realm_scheme environ \<Rightarrow> string \<Rightarrow> ('z, string \<rightharpoonup> protocolMapper) kcProg" where
  "listClientProtocolMapperModels E clientUUID =
     andThen (kread E (KListMappers clientUUID) (srvListMappers clientUUID))
       (\<lambda>mappers. ret (map_of (rev (map (\<lambda>m. (pmName m, m)) mappers))))"

definition listClientProtocolMappers :: "'z realm_scheme environ \<Rightarrow> string \<Rightarrow> ('z, string \<rightharpoonup> string) kcProg" where
  "listClientProtocolMappers E clientUUID =
     andThen (listClientProtocolMapperModels E clientUUID) (\<lambda>mappers. ret (map_option pmID \<circ> mappers))"

definition srvGetSecret :: "string \<Rightarrow> 'z realm_scheme \<Rightarrow> chain + string" where
  "srvGetSecret uuid k =
     (case rmClient uuid k of None \<Rightarrow> Inl (httpError ''GET'' (clientPath uuid @ ''/client-secret'') 404 ''Could not find client'') | Some c \<Rightarrow> Inr (kcSecret c))"

definition getClientSecret :: "'z realm_scheme environ \<Rightarrow> string \<Rightarrow> ('z, string) kcProg" where
  "getClientSecret E clientUUID =
     andThen (kread E (KGetSecret clientUUID) (srvGetSecret clientUUID))
       (\<lambda>secret. if secret = [] then fail (PlainErr (''empty client secret returned for client uuid '' @ clientUUID)) else ret secret)"

definition GetConsoleClientSecret :: "'z realm_scheme environ \<Rightarrow> string \<Rightarrow> ('z, string) kcProg" where
  "GetConsoleClientSecret E consoleClientID =
     andThen (getClientUUID E consoleClientID)
       (\<lambda>clientUUID. if clientUUID = [] then fail (ClientNotFoundError consoleClientID) else getClientSecret E clientUUID)"

section \<open>The gateway's client as it should be\<close>

definition sameMapper :: "protocolMapper \<Rightarrow> protocolMapper \<Rightarrow> bool" where
  "sameMapper desired actual \<longleftrightarrow>
     pmProtocol actual = pmProtocol desired \<and> pmMapper actual = pmMapper desired \<and>
     list_all (\<lambda>(key, v). map_get (map_of (pmConfig actual)) key = v) (pmConfig desired)"

definition GatewayClientSynced :: "'z realm_scheme environ \<Rightarrow> string \<Rightarrow> ('z, bool) kcProg" where
  "GatewayClientSynced E clientID =
     andThen (mapErr (errorfW ''look up gateway client: '') (getClient E clientID)) (\<lambda>client.
       case client of
         None \<Rightarrow> ret False
       | Some c \<Rightarrow>
           if \<not> kcEnabled c \<or> \<not> kcPublicClient c \<or> \<not> kcStandardFlow c \<or> \<not> kcDirectAccess c \<or> kcFullScope c \<or>
              map_get (kcAttributes c) ''pkce.code.challenge.method'' \<noteq> ''S256'' \<or>
              map_get (kcAttributes c) deviceAuthorizationGrantAttribute \<noteq> ''true''
           then ret False
           else andThen (mapErr (errorfW ''inspect gateway client roles: '') (listClientRoles E (kcID c))) (\<lambda>roles.
             if \<not> list_all (\<lambda>n. n \<in> set (map fst roles)) [''openshell-admin'', ''openshell-user''] then ret False
             else andThen (mapErr (errorfW ''inspect gateway client protocol mappers: '') (listClientProtocolMapperModels E (kcID c)))
               (\<lambda>mappers. ret (list_all (\<lambda>desired. case mappers (pmName desired) of None \<Rightarrow> False | Some actual \<Rightarrow> sameMapper desired actual)
                  (desiredGatewayProtocolMappers clientID)))))"

section \<open>The client of a console\<close>

definition desiredConsoleProtocolMappers :: "string \<Rightarrow> protocolMapper list" where
  "desiredConsoleProtocolMappers gatewayClientID =
     [\<lparr>pmID = [], pmName = ''audience'', pmProtocol = ''openid-connect'', pmMapper = ''oidc-audience-mapper'',
        pmConfig = [(''included.client.audience'', gatewayClientID), (''id.token.claim'', ''false''), (''access.token.claim'', ''true'')]\<rparr>,
      \<lparr>pmID = [], pmName = ''client-roles'', pmProtocol = ''openid-connect'', pmMapper = ''oidc-usermodel-client-role-mapper'',
        pmConfig = [(''claim.name'', ''hypershell.roles''), (''multivalued'', ''true''), (''jsonType.label'', ''String''),
          (''id.token.claim'', ''true''), (''access.token.claim'', ''true''), (''usermodel.clientRoleMapping.clientId'', gatewayClientID)]\<rparr>,
      \<lparr>pmID = [], pmName = ''sub'', pmProtocol = ''openid-connect'', pmMapper = ''oidc-sub-mapper'',
        pmConfig = [(''access.token.claim'', ''true'')]\<rparr>]"

text \<open>The server makes up the secret of a confidential client (\<open>secretOf\<close> its identifier).\<close>

definition newConsoleClient :: "(string \<Rightarrow> string) \<Rightarrow> string \<Rightarrow> string \<Rightarrow> string \<Rightarrow> string \<Rightarrow> keycloakClient" where
  "newConsoleClient secretOf consoleClientID redirectURI webOrigin uuid =
     \<lparr>kcID = uuid, kcClientID = consoleClientID, kcEnabled = True, kcPublicClient = False, kcStandardFlow = True,
      kcDirectAccess = False, kcServiceAccounts = False, kcFullScope = False,
      kcRedirectUris = [redirectURI], kcWebOrigins = [webOrigin],
      kcAttributes = kvs [(''pkce.code.challenge.method'', ''S256'')],
      kcRoles = [], kcMappers = [], kcSecret = secretOf uuid,
      kcDefaultScopes = [''profile'', ''email'', ''roles'', ''web-origins'', ''acr''], kcScopeMappings = {}\<rparr>"

definition createConsoleClient ::
  "('z realm_scheme \<Rightarrow> string) \<Rightarrow> (string \<Rightarrow> string) \<Rightarrow> 'z realm_scheme environ \<Rightarrow> string \<Rightarrow> string \<Rightarrow> string \<Rightarrow> ('z, string) kcProg" where
  "createConsoleClient freshUUID secretOf E consoleClientID redirectURI webOrigin =
     andThen (kcall E (KCreateClient consoleClientID)
         (srvCreateClient freshUUID (newConsoleClient secretOf consoleClientID redirectURI webOrigin)))
       (\<lambda>location. ret (last (strings_Split location CHR ''/'')))"

definition createConsoleProtocolMappers :: "'z realm_scheme environ \<Rightarrow> string \<Rightarrow> string \<Rightarrow> ('z, unit) kcProg" where
  "createConsoleProtocolMappers E clientUUID gatewayClientID =
     forEach (\<lambda>mapper. mapErr (errorfW (''create console mapper '' @ pmName mapper @ '': ''))
         (kcall E (KCreateMapper clientUUID (pmName mapper)) (srvCreateMapper clientUUID mapper)))
       (desiredConsoleProtocolMappers gatewayClientID)"

definition srvPutMapper :: "string \<Rightarrow> string \<Rightarrow> protocolMapper \<Rightarrow> 'z realm_scheme \<Rightarrow> (chain + unit) \<times> 'z realm_scheme" where
  "srvPutMapper uuid i mapper =
     withClient ''PUT'' uuid (\<lambda>c k.
       if list_ex (\<lambda>m. pmID m = i) (kcMappers c)
       then (Inr (), onClient uuid (\<lambda>c. c\<lparr>kcMappers := map (\<lambda>m. if pmID m = i then mapper\<lparr>pmID := i\<rparr> else m) (kcMappers c)\<rparr>) k)
       else (Inl (httpError ''PUT'' (clientPath uuid @ ''/protocol-mappers/models/'' @ i) 404 ''Model not found''), k))"

definition ensureConsoleProtocolMappers :: "'z realm_scheme environ \<Rightarrow> string \<Rightarrow> string \<Rightarrow> ('z, unit) kcProg" where
  "ensureConsoleProtocolMappers E clientUUID gatewayClientID =
     andThen (mapErr (errorfW ''list console protocol mappers: '') (listClientProtocolMappers E clientUUID)) (\<lambda>existing.
       forEach (\<lambda>mapper.
           case existing (pmName mapper) of
             Some i \<Rightarrow> mapErr (errorfW (''update console mapper '' @ pmName mapper @ '': ''))
               (kcall E (KPutMapper clientUUID i) (srvPutMapper clientUUID i mapper))
           | None \<Rightarrow> mapErr (errorfW (''create console mapper '' @ pmName mapper @ '': ''))
               (kcall E (KCreateMapper clientUUID (pmName mapper)) (srvCreateMapper clientUUID mapper)))
         (desiredConsoleProtocolMappers gatewayClientID))"

definition srvAddScopeMappings :: "string \<Rightarrow> string \<Rightarrow> string list \<Rightarrow> 'z realm_scheme \<Rightarrow> (chain + unit) \<times> 'z realm_scheme" where
  "srvAddScopeMappings uuid gatewayUUID names =
     withClient ''POST'' uuid (\<lambda>c k.
       (Inr (), onClient uuid (\<lambda>c. c\<lparr>kcScopeMappings := kcScopeMappings c \<union> Pair gatewayUUID ` set names\<rparr>) k))"

definition addConsoleScopeMappings :: "'z realm_scheme environ \<Rightarrow> string \<Rightarrow> string \<Rightarrow> ('z, unit) kcProg" where
  "addConsoleScopeMappings E consoleUUID gatewayClientID =
     andThen (mapErr (errorfW (''resolve gateway client '' @ gatewayClientID @ '': '')) (getClientUUID E gatewayClientID)) (\<lambda>gatewayUUID.
       if gatewayUUID = [] then fail (PlainErr (''gateway client '' @ gatewayClientID @ '' not found''))
       else andThen (mapErr (errorfW (''list roles on gateway client '' @ gatewayClientID @ '': '')) (listClientRoles E gatewayUUID)) (\<lambda>roles.
         if roles = [] then ret ()
         else mapErr (errorfW (''add console scope mappings from gateway client '' @ gatewayClientID @ '': ''))
           (kcall E (KScopeMappings consoleUUID gatewayUUID) (srvAddScopeMappings consoleUUID gatewayUUID (map fst roles)))))"

definition consoleSettings :: "string \<Rightarrow> string \<Rightarrow> keycloakClient \<Rightarrow> keycloakClient" where
  "consoleSettings redirectURI webOrigin c =
     c\<lparr>kcPublicClient := False, kcStandardFlow := True, kcDirectAccess := False, kcServiceAccounts := False,
       kcFullScope := False, kcRedirectUris := [redirectURI], kcWebOrigins := [webOrigin],
       kcAttributes := (kcAttributes c)(''pkce.code.challenge.method'' \<mapsto> ''S256''),
       kcDefaultScopes := [''profile'', ''email'', ''roles'', ''web-origins'', ''acr'']\<rparr>"

definition updateConsoleClientRepresentation ::
  "'z realm_scheme environ \<Rightarrow> string \<Rightarrow> string \<Rightarrow> string \<Rightarrow> string \<Rightarrow> ('z, unit) kcProg" where
  "updateConsoleClientRepresentation E consoleUUID consoleClientID redirectURI webOrigin =
     andThen (mapErr (errorfW (''get console client '' @ consoleClientID @ '': '')) (kread E (KGetClient consoleUUID) (srvGetClient consoleUUID)))
       (\<lambda>rep. mapErr (errorfW (''update console client '' @ consoleClientID @ '': ''))
         (kcall E (KPutClient consoleUUID) (srvPutClient consoleUUID (consoleSettings redirectURI webOrigin rep))))"

definition EnsureConsoleClientConfig ::
  "'z realm_scheme environ \<Rightarrow> string \<Rightarrow> string \<Rightarrow> string \<Rightarrow> string \<Rightarrow> ('z, unit) kcProg" where
  "EnsureConsoleClientConfig E consoleClientID gatewayClientID redirectURI webOrigin =
     andThen (mapErr (errorfW (''resolve console client '' @ consoleClientID @ '': '')) (getClientUUID E consoleClientID)) (\<lambda>consoleUUID.
       if consoleUUID = [] then fail (PlainErr (''console client '' @ consoleClientID @ '' not found''))
       else andThen (updateConsoleClientRepresentation E consoleUUID consoleClientID redirectURI webOrigin) (\<lambda>_.
         andThen (ensureConsoleProtocolMappers E consoleUUID gatewayClientID) (\<lambda>_.
         addConsoleScopeMappings E consoleUUID gatewayClientID)))"

definition ProvisionConsoleClient ::
  "('z realm_scheme \<Rightarrow> string) \<Rightarrow> (string \<Rightarrow> string) \<Rightarrow> 'z realm_scheme environ \<Rightarrow> string \<Rightarrow> string \<Rightarrow> string \<Rightarrow> string \<Rightarrow> ('z, string \<times> string) kcProg" where
  "ProvisionConsoleClient freshUUID secretOf E consoleClientID gatewayClientID redirectURI webOrigin =
     andThen (mapErr (errorfW ''create console keycloak client: '') (createConsoleClient freshUUID secretOf E consoleClientID redirectURI webOrigin)) (\<lambda>clientUUID.
     andThen (orRollBack E clientUUID ''create console protocol mappers: '' (createConsoleProtocolMappers E clientUUID gatewayClientID)) (\<lambda>_.
     andThen (orRollBack E clientUUID ''grant console scope mappings: '' (addConsoleScopeMappings E clientUUID gatewayClientID)) (\<lambda>_.
     andThen (orRollBack E clientUUID ''get console client secret: '' (getClientSecret E clientUUID)) (\<lambda>clientSecret.
     ret (clientUUID, clientSecret)))))"

definition DeleteConsoleClient :: "'z realm_scheme environ \<Rightarrow> string \<Rightarrow> ('z, unit) kcProg" where
  "DeleteConsoleClient E consoleClientID =
     andThen (getClientUUID E consoleClientID)
       (\<lambda>clientUUID. if clientUUID = [] then ret () else deleteClientByUUID E clientUUID)"

definition ConsoleClientExists :: "'z realm_scheme environ \<Rightarrow> string \<Rightarrow> ('z, bool) kcProg" where
  "ConsoleClientExists E consoleClientID =
     andThen (getClientUUID E consoleClientID) (\<lambda>clientUUID. ret (clientUUID \<noteq> []))"

section \<open>Changes of one client\<close>

lemma find_map: "find P (map f xs) = map_option f (find (P \<circ> f) xs)"
  by (induction xs) auto

lemma rmClient_onClient:
  assumes "\<And>c. kcID (f c) = kcID c"
  shows "rmClient v (onClient u f k) = (if v = u then map_option f (rmClient v k) else rmClient v k)"
proof -
  have "find (\<lambda>c. kcID c = v) (map (\<lambda>c. if kcID c = u then f c else c) xs) =
      (if v = u then map_option f (find (\<lambda>c. kcID c = v) xs) else find (\<lambda>c. kcID c = v) xs)" for xs
    using assms by (induction xs) auto
  then show ?thesis by (simp add: rmClient_def onClient_def)
qed

lemma find_onClient:
  assumes "\<And>c. kcClientID (f c) = kcClientID c"
  shows "find (\<lambda>c. kcClientID c = n) (rmClients (onClient u f k)) =
    map_option (\<lambda>c. if kcID c = u then f c else c) (find (\<lambda>c. kcClientID c = n) (rmClients k))"
proof -
  have "find (\<lambda>c. kcClientID c = n) (map (\<lambda>c. if kcID c = u then f c else c) xs) =
      map_option (\<lambda>c. if kcID c = u then f c else c) (find (\<lambda>c. kcClientID c = n) xs)" for xs
    using assms by (induction xs) auto
  then show ?thesis by (simp add: onClient_def)
qed

lemma onClient_onClient:
  assumes "\<And>c. kcID (g c) = kcID c"
  shows "onClient u f (onClient u g k) = onClient u (\<lambda>c. f (g c)) k"
  using assms by (simp add: onClient_def comp_def)

lemma onClient_id: "onClient u (\<lambda>c. c) k = k"
  by (simp add: onClient_def)

text \<open>A client found by its name and by its identifier.\<close>

definition named :: "string \<Rightarrow> keycloakClient \<Rightarrow> 'z realm_scheme \<Rightarrow> bool" where
  "named n c k \<longleftrightarrow> find (\<lambda>c. kcClientID c = n) (rmClients k) = Some c \<and> rmClient (kcID c) k = Some c \<and> kcID c \<noteq> []"

lemma named_name: "named n c k \<Longrightarrow> kcClientID c = n"
  by (auto simp: named_def dest: find_ex)

lemma named_onClient:
  assumes "named n c k" "\<And>c. kcID (f c) = kcID c" "\<And>c. kcClientID (f c) = kcClientID c"
  shows "named n (if kcID c = u then f c else c) (onClient u f k)"
  using assms by (auto simp: named_def find_onClient rmClient_onClient)

lemma getClient_quiet:
  fixes w :: "('z realm_scheme, rcall) kworld"
  shows "getClient (quiet t) n w = (Inr (find (\<lambda>c. kcClientID c = n) (rmClients (kwState w))),
    w\<lparr>kwTick := Suc (kwTick w), kwLog := kwLog w @ [(KGetClients n, kwState w)]\<rparr>)"
  by (simp add: getClient_def runs kread_quiet srvGetClients_def find_filter)

lemma getClientUUID_named:
  fixes w :: "('z realm_scheme, rcall) kworld"
  assumes "named n c (kwState w)"
  shows "getClientUUID (quiet t) n w = (Inr (kcID c), w\<lparr>kwTick := Suc (kwTick w), kwLog := kwLog w @ [(KGetClients n, kwState w)]\<rparr>)"
  using assms by (simp add: getClientUUID_def runs getClient_quiet named_def)

section \<open>Mappers\<close>

text \<open>The mappers of a client as the server keeps them: one of a name, its identifier made of the name.\<close>

definition wfMappers :: "string \<Rightarrow> protocolMapper list \<Rightarrow> bool" where
  "wfMappers uuid ms \<longleftrightarrow> distinct (map pmName ms) \<and> (\<forall>m\<in>set ms. pmID m = mapperID uuid m)"

definition setMapper :: "string \<Rightarrow> protocolMapper \<Rightarrow> protocolMapper list \<Rightarrow> protocolMapper list" where
  "setMapper uuid d ms =
     (let d' = d\<lparr>pmID := mapperID uuid d\<rparr>
      in if pmName d \<in> pmName ` set ms then map (\<lambda>m. if pmName m = pmName d then d' else m) ms else ms @ [d'])"

lemma setMapper_map:
  "map pmName (setMapper uuid d ms) = (if pmName d \<in> pmName ` set ms then map pmName ms else map pmName ms @ [pmName d])"
  by (auto simp: setMapper_def Let_def)

lemma setMapper_names: "pmName ` set (setMapper uuid d ms) = insert (pmName d) (pmName ` set ms)"
  using arg_cong [OF setMapper_map, of set uuid d ms] by auto

lemma setMapper_wf:
  assumes "wfMappers uuid ms"
  shows "wfMappers uuid (setMapper uuid d ms)"
proof -
  have "distinct (map pmName (setMapper uuid d ms))"
    using assms by (auto simp: setMapper_map wfMappers_def)
  moreover have "\<forall>m\<in>set (setMapper uuid d ms). pmID m = mapperID uuid m"
    using assms by (auto simp: setMapper_def Let_def wfMappers_def mapperID_def)
  ultimately show ?thesis by (simp add: wfMappers_def)
qed

lemma wfMappers_find:
  assumes "wfMappers uuid ms" "m \<in> set ms"
  shows "map_of (rev (map (\<lambda>m. (pmName m, m)) ms)) (pmName m) = Some m"
proof -
  have "distinct (map fst (rev (map (\<lambda>m. (pmName m, m)) ms)))"
    using assms(1) by (simp add: wfMappers_def rev_map [symmetric] comp_def)
  then show ?thesis using assms(2) by (intro map_of_is_SomeI) auto
qed

lemma mapper_lookup: "map_of (rev (map (\<lambda>m. (pmName m, m)) ms)) n = None \<longleftrightarrow> n \<notin> pmName ` set ms"
  by (force simp: map_of_eq_None_iff)

lemma setMapper_in: "d\<lparr>pmID := mapperID uuid d\<rparr> \<in> set (setMapper uuid d ms)"
  by (auto simp: setMapper_def Let_def image_iff)

lemma setMapper_keeps: "m \<in> set ms \<Longrightarrow> pmName m \<noteq> pmName d \<Longrightarrow> m \<in> set (setMapper uuid d ms)"
  by (auto simp: setMapper_def Let_def image_iff)

lemma setMappers_in:
  assumes "distinct (map pmName ds)" "d \<in> set ds"
  shows "d\<lparr>pmID := mapperID uuid d\<rparr> \<in> set (fold (setMapper uuid) ds ms)"
  using assms
proof (induction ds arbitrary: ms)
  case Nil
  then show ?case by simp
next
  case (Cons e ds)
  have keep: "m \<in> set ms \<Longrightarrow> \<forall>x\<in>set ds. pmName m \<noteq> pmName x \<Longrightarrow> m \<in> set (fold (setMapper uuid) ds ms)" for m ms
    by (induction ds arbitrary: ms) (auto intro: setMapper_keeps)
  show ?case
  proof (cases "d = e")
    case True
    then show ?thesis using Cons.prems(1) by (auto intro!: keep setMapper_in simp: image_iff)
  next
    case False
    then show ?thesis using Cons by simp
  qed
qed

lemma setMapper_set:
  "set (setMapper u d ms) = {m \<in> set ms. pmName m \<noteq> pmName d} \<union> {d\<lparr>pmID := mapperID u d\<rparr>}"
  by (auto simp: setMapper_def Let_def image_iff)

lemma setMappers_set:
  "distinct (map pmName ds) \<Longrightarrow> set (fold (setMapper u) ds ms) =
     {m \<in> set ms. pmName m \<notin> pmName ` set ds} \<union> (\<lambda>d. d\<lparr>pmID := mapperID u d\<rparr>) ` set ds"
  by (induction ds arbitrary: ms) (auto simp: setMapper_set)

lemma setMappers_wf: "wfMappers uuid ms \<Longrightarrow> wfMappers uuid (fold (setMapper uuid) ds ms)"
  by (induction ds arbitrary: ms) (auto intro: setMapper_wf)

section \<open>An undisturbed repair\<close>

text \<open>The one client of an identifier; a change of it puts another in its place.\<close>

definition only :: "string \<Rightarrow> keycloakClient \<Rightarrow> 'z realm_scheme \<Rightarrow> bool" where
  "only u c k \<longleftrightarrow> kcID c = u \<and> rmClient u k = Some c \<and> (\<forall>d\<in>set (rmClients k). kcID d = u \<longrightarrow> d = c)"

lemma onClient_only: "only u c k \<Longrightarrow> onClient u f k = onClient u (\<lambda>_. f c) k"
  by (simp add: only_def onClient_def)

lemma only_onClient:
  assumes "only u c k" "kcID c' = u"
  shows "only u c' (onClient u (\<lambda>_. c') k)"
proof -
  have "rmClient u (onClient u (\<lambda>_. c') k) = Some c'"
  proof -
    have "find (\<lambda>c. kcID c = u) (map (\<lambda>c. if kcID c = u then c' else c) xs) = Some c'"
      if "find (\<lambda>c. kcID c = u) xs \<noteq> None" for xs
      using that assms(2) by (induction xs) (auto split: if_splits)
    then show ?thesis using assms(1) by (simp add: only_def rmClient_def onClient_def)
  qed
  then show ?thesis using assms(2) by (auto simp: only_def onClient_def)
qed

lemma onClient_again: "kcID c1 = u \<Longrightarrow> onClient u (\<lambda>_. c2) (onClient u (\<lambda>_. c1) k) = onClient u (\<lambda>_. c2) k"
  by (simp add: onClient_def comp_def)

lemma onClient_same: "only u c k \<Longrightarrow> onClient u (\<lambda>_. c) k = k"
proof -
  assume "only u c k"
  then have "map (\<lambda>d. if kcID d = u then c else d) (rmClients k) = rmClients k" by (intro map_idI) (auto simp: only_def)
  then show "onClient u (\<lambda>_. c) k = k" by (simp add: onClient_def)
qed

lemma setMapper_quiet:
  fixes w :: "('z realm_scheme, rcall) kworld"
  assumes "only u c (kwState w)" "wfMappers u (kcMappers c)"
    and "i = (if pmName d \<in> pmName ` set (kcMappers c) then Some (mapperID u d) else None)"
  shows "\<exists>w'. (case i of Some i \<Rightarrow> mapErr f (kcall (quiet t) (KPutMapper u i) (srvPutMapper u i d))
       | None \<Rightarrow> mapErr g (kcall (quiet t) (KCreateMapper u (pmName d)) (srvCreateMapper u d))) w = (Inr (), w') \<and>
     kwState w' = onClient u (\<lambda>_. c\<lparr>kcMappers := setMapper u d (kcMappers c)\<rparr>) (kwState w)"
proof (cases "pmName d \<in> pmName ` set (kcMappers c)")
  case True
  have there: "list_ex (\<lambda>m. pmID m = mapperID u d) (kcMappers c)"
    using assms(2) True by (auto simp: list_ex_iff wfMappers_def mapperID_def)
  have eq: "map (\<lambda>m. if pmID m = mapperID u d then d\<lparr>pmID := mapperID u d\<rparr> else m) (kcMappers c) = setMapper u d (kcMappers c)"
    using assms(2) True by (auto simp: setMapper_def Let_def wfMappers_def mapperID_def)
  have "srvPutMapper u (mapperID u d) d (kwState w) = (Inr (), onClient u (\<lambda>_. c\<lparr>kcMappers := setMapper u d (kcMappers c)\<rparr>) (kwState w))"
    using assms(1) there onClient_only [OF assms(1), of "\<lambda>c. c\<lparr>kcMappers := map (\<lambda>m. if pmID m = mapperID u d then d\<lparr>pmID := mapperID u d\<rparr> else m) (kcMappers c)\<rparr>"]
    by (simp add: srvPutMapper_def withClient_def only_def eq)
  then show ?thesis using True by (simp add: assms(3) kcall_quiet mapErr_def)
next
  case False
  then have "\<not> list_ex (\<lambda>m. pmName m = pmName d) (kcMappers c)" by (auto simp: list_ex_iff image_iff)
  then have "srvCreateMapper u d (kwState w) = (Inr (), onClient u (\<lambda>_. c\<lparr>kcMappers := setMapper u d (kcMappers c)\<rparr>) (kwState w))"
    using assms(1) False onClient_only [OF assms(1), of "\<lambda>c. c\<lparr>kcMappers := kcMappers c @ [d\<lparr>pmID := mapperID u d\<rparr>]\<rparr>"]
    by (simp add: srvCreateMapper_def withClient_def only_def setMapper_def Let_def)
  then show ?thesis using False by (simp add: assms(3) kcall_quiet mapErr_def)
qed

lemma setMappers_quiet:
  fixes w :: "('z realm_scheme, rcall) kworld"
  assumes "only u c (kwState w)" "wfMappers u (kcMappers c)" "distinct (map pmName ds)"
    and "\<forall>d\<in>set ds. existing (pmName d) = (if pmName d \<in> pmName ` set (kcMappers c) then Some (mapperID u d) else None)"
  shows "\<exists>w'. forEach (\<lambda>d. case existing (pmName d) of Some i \<Rightarrow> mapErr (f d) (kcall (quiet t) (KPutMapper u i) (srvPutMapper u i d))
       | None \<Rightarrow> mapErr (g d) (kcall (quiet t) (KCreateMapper u (pmName d)) (srvCreateMapper u d))) ds w = (Inr (), w') \<and>
     kwState w' = onClient u (\<lambda>_. c\<lparr>kcMappers := fold (setMapper u) ds (kcMappers c)\<rparr>) (kwState w)"
  using assms
proof (induction ds arbitrary: c w)
  case Nil
  then show ?case using onClient_same [OF Nil(1)] by simp
next
  case (Cons d ds)
  let ?c = "c\<lparr>kcMappers := setMapper u d (kcMappers c)\<rparr>"
  have "existing (pmName d) = (if pmName d \<in> pmName ` set (kcMappers c) then Some (mapperID u d) else None)"
    using Cons.prems(4) by simp
  from setMapper_quiet [OF Cons.prems(1,2) this] obtain w1 where
    w1: "(case existing (pmName d) of Some i \<Rightarrow> mapErr (f d) (kcall (quiet t) (KPutMapper u i) (srvPutMapper u i d))
       | None \<Rightarrow> mapErr (g d) (kcall (quiet t) (KCreateMapper u (pmName d)) (srvCreateMapper u d))) w = (Inr (), w1)"
      "kwState w1 = onClient u (\<lambda>_. ?c) (kwState w)" by blast
  have u: "kcID ?c = u" using Cons.prems(1) by (simp add: only_def)
  have "only u ?c (kwState w1)" unfolding w1(2) by (rule only_onClient [OF Cons.prems(1) u])
  moreover have "wfMappers u (kcMappers ?c)" using Cons.prems(2) by (simp add: setMapper_wf)
  moreover have "\<forall>e\<in>set ds. existing (pmName e) = (if pmName e \<in> pmName ` set (kcMappers ?c) then Some (mapperID u e) else None)"
  proof
    fix e assume e: "e \<in> set ds"
    then have "pmName e \<in> pmName ` set ds" by simp
    then have "pmName e \<noteq> pmName d" using Cons.prems(3) by auto
    then show "existing (pmName e) = (if pmName e \<in> pmName ` set (kcMappers ?c) then Some (mapperID u e) else None)"
      using Cons.prems(4) e by (simp add: setMapper_names)
  qed
  ultimately obtain w' where
    "forEach (\<lambda>d. case existing (pmName d) of Some i \<Rightarrow> mapErr (f d) (kcall (quiet t) (KPutMapper u i) (srvPutMapper u i d))
       | None \<Rightarrow> mapErr (g d) (kcall (quiet t) (KCreateMapper u (pmName d)) (srvCreateMapper u d))) ds w1 = (Inr (), w')"
      "kwState w' = onClient u (\<lambda>_. ?c\<lparr>kcMappers := fold (setMapper u) ds (kcMappers ?c)\<rparr>) (kwState w1)"
    using Cons.IH [of ?c w1] Cons.prems(3) by auto
  then show ?case using w1 onClient_again [OF u] by (simp add: andThen_def)
qed

lemma createMappers_quiet:
  fixes w :: "('z realm_scheme, rcall) kworld"
  assumes "only u c (kwState w)" "wfMappers u (kcMappers c)" "distinct (map pmName ds)"
    and "\<forall>d\<in>set ds. pmName d \<notin> pmName ` set (kcMappers c)"
  shows "\<exists>w'. forEach (\<lambda>d. mapErr (g d) (kcall (quiet t) (KCreateMapper u (pmName d)) (srvCreateMapper u d))) ds w = (Inr (), w') \<and>
     kwState w' = onClient u (\<lambda>_. c\<lparr>kcMappers := fold (setMapper u) ds (kcMappers c)\<rparr>) (kwState w)"
  using setMappers_quiet [OF assms(1,2,3), of "\<lambda>_. None"] assms(4) by simp

lemma consoleMappers_distinct: "distinct (map pmName (desiredConsoleProtocolMappers g))"
  by (simp add: desiredConsoleProtocolMappers_def)

lemma gatewayMappers_distinct: "distinct (map pmName (desiredGatewayProtocolMappers g))"
  by (simp add: desiredGatewayProtocolMappers_def)

lemma ensureConsoleProtocolMappers_quiet:
  fixes w :: "('z realm_scheme, rcall) kworld"
  assumes "only u c (kwState w)" "wfMappers u (kcMappers c)"
  shows "\<exists>w'. ensureConsoleProtocolMappers (quiet t) u g w = (Inr (), w') \<and>
     kwState w' = onClient u (\<lambda>_. c\<lparr>kcMappers := fold (setMapper u) (desiredConsoleProtocolMappers g) (kcMappers c)\<rparr>) (kwState w)"
proof -
  let ?m = "map_of (rev (map (\<lambda>m. (pmName m, m)) (kcMappers c)))"
  let ?w1 = "w\<lparr>kwTick := Suc (kwTick w), kwLog := kwLog w @ [(KListMappers u, kwState w)]\<rparr>"
  have list: "listClientProtocolMappers (quiet t) u w = (Inr (map_option pmID \<circ> ?m), ?w1)"
    using assms(1) by (simp add: listClientProtocolMappers_def listClientProtocolMapperModels_def runs kread_quiet srvListMappers_def only_def)
  have existing: "map_option pmID (?m n) = (if n \<in> pmName ` set (kcMappers c) then Some (u @ ''/'' @ n) else None)" for n
  proof (cases "n \<in> pmName ` set (kcMappers c)")
    case True
    then obtain m where m: "m \<in> set (kcMappers c)" "n = pmName m" by auto
    with wfMappers_find [OF assms(2) m(1)] assms(2) show ?thesis by (simp add: wfMappers_def mapperID_def)
  next
    case False
    then show ?thesis using mapper_lookup [of "kcMappers c" n] by simp
  qed
  have ex: "\<forall>d\<in>set (desiredConsoleProtocolMappers g).
      (map_option pmID \<circ> ?m) (pmName d) = (if pmName d \<in> pmName ` set (kcMappers c) then Some (mapperID u d) else None)"
    by (simp only: comp_apply existing mapperID_def) blast
  have "only u c (kwState ?w1)" using assms(1) by simp
  note run = setMappers_quiet [OF this assms(2) consoleMappers_distinct ex,
    where f = "\<lambda>mapper. errorfW (''update console mapper '' @ pmName mapper @ '': '')"
      and g = "\<lambda>mapper. errorfW (''create console mapper '' @ pmName mapper @ '': '')" and t = t]
  have "ensureConsoleProtocolMappers (quiet t) u g w =
      forEach (\<lambda>mapper. case (map_option pmID \<circ> ?m) (pmName mapper) of
             Some i \<Rightarrow> mapErr (errorfW (''update console mapper '' @ pmName mapper @ '': ''))
               (kcall (quiet t) (KPutMapper u i) (srvPutMapper u i mapper))
           | None \<Rightarrow> mapErr (errorfW (''create console mapper '' @ pmName mapper @ '': ''))
               (kcall (quiet t) (KCreateMapper u (pmName mapper)) (srvCreateMapper u mapper)))
        (desiredConsoleProtocolMappers g) ?w1"
    by (simp only: ensureConsoleProtocolMappers_def runs list)
  then show ?thesis using run by simp
qed

section \<open>The repair of a console client\<close>

lemma updateConsole_quiet:
  fixes w :: "('z realm_scheme, rcall) kworld"
  assumes "only u c (kwState w)"
  shows "\<exists>w'. updateConsoleClientRepresentation (quiet t) u n r o' w = (Inr (), w') \<and>
     kwState w' = onClient u (\<lambda>_. consoleSettings r o' c) (kwState w)"
proof -
  have get: "srvGetClient u (kwState w) = Inr c" using assms by (simp add: srvGetClient_def only_def)
  have same: "(consoleSettings r o' c)\<lparr>kcID := u, kcRoles := kcRoles c, kcScopeMappings := kcScopeMappings c\<rparr> = consoleSettings r o' c"
    using assms by (cases c) (simp add: consoleSettings_def only_def)
  have "srvPutClient u (consoleSettings r o' c) (kwState w) = (Inr (), onClient u (\<lambda>_. consoleSettings r o' c) (kwState w))"
    using assms onClient_only [OF assms, of "\<lambda>d. (consoleSettings r o' c)\<lparr>kcID := u, kcRoles := kcRoles d, kcScopeMappings := kcScopeMappings d\<rparr>"] same
    by (simp add: srvPutClient_def withClient_def only_def)
  then show ?thesis
    using get by (simp add: updateConsoleClientRepresentation_def runs kread_quiet kcall_quiet)
qed

lemma only_named: "only u c k \<Longrightarrow> find (\<lambda>d. kcClientID d = n) (rmClients k) = Some c \<Longrightarrow> u \<noteq> [] \<Longrightarrow> named n c k"
  by (auto simp: only_def named_def)

lemma named_other:
  assumes "named n g k" "kcID g \<noteq> u" "kcClientID c' = kcClientID c" "only u c k" "kcID c' = u"
  shows "named n g (onClient u (\<lambda>_. c') k)"
proof -
  have "find (\<lambda>d. kcClientID d = n) (map (\<lambda>d. if kcID d = u then c' else d) xs) = Some g"
    if "find (\<lambda>d. kcClientID d = n) xs = Some g" "\<forall>d\<in>set xs. kcID d = u \<longrightarrow> d = c" for xs
    using that assms(2,3) by (induction xs) (auto split: if_splits)
  moreover have "find (\<lambda>d. kcID d = kcID g) (map (\<lambda>d. if kcID d = u then c' else d) xs) = Some g"
    if "find (\<lambda>d. kcID d = kcID g) xs = Some g" for xs
    using that assms(2,5) by (induction xs) (auto split: if_splits)
  ultimately show ?thesis using assms(1,4) by (simp add: named_def only_def rmClient_def onClient_def)
qed

lemma addScopes_quiet:
  fixes w :: "('z realm_scheme, rcall) kworld"
  assumes "only u c (kwState w)" "named n g (kwState w)"
  shows "\<exists>w'. addConsoleScopeMappings (quiet t) u n w = (Inr (), w') \<and>
     kwState w' = onClient u (\<lambda>_. c\<lparr>kcScopeMappings := kcScopeMappings c \<union> Pair (kcID g) ` fst ` set (kcRoles g)\<rparr>) (kwState w)"
proof -
  let ?w1 = "w\<lparr>kwTick := Suc (kwTick w), kwLog := kwLog w @ [(KGetClients n, kwState w)]\<rparr>"
  have uuid: "getClientUUID (quiet t) n w = (Inr (kcID g), ?w1)" by (rule getClientUUID_named [OF assms(2)])
  have there: "kcID g \<noteq> []" "rmClient (kcID g) (kwState w) = Some g" using assms(2) by (simp_all add: named_def)
  show ?thesis
  proof (cases "kcRoles g = []")
    case True
    then show ?thesis using uuid there onClient_same [OF assms(1)]
      by (simp add: addConsoleScopeMappings_def runs listClientRoles_def kread_quiet srvListRoles_def)
  next
    case False
    have "srvAddScopeMappings u (kcID g) (map fst (kcRoles g)) (kwState w) =
        (Inr (), onClient u (\<lambda>_. c\<lparr>kcScopeMappings := kcScopeMappings c \<union> Pair (kcID g) ` fst ` set (kcRoles g)\<rparr>) (kwState w))"
      using assms(1) onClient_only [OF assms(1), of "\<lambda>c. c\<lparr>kcScopeMappings := kcScopeMappings c \<union> Pair (kcID g) ` fst ` set (kcRoles g)\<rparr>"]
      by (simp add: srvAddScopeMappings_def withClient_def only_def)
    then show ?thesis using False uuid there
      by (simp add: addConsoleScopeMappings_def runs listClientRoles_def kread_quiet kcall_quiet srvListRoles_def)
  qed
qed

text \<open>The client after a repair.\<close>

definition repaired :: "string \<Rightarrow> string \<Rightarrow> string \<Rightarrow> keycloakClient \<Rightarrow> keycloakClient \<Rightarrow> keycloakClient" where
  "repaired gatewayClientID redirectURI webOrigin g c =
     (consoleSettings redirectURI webOrigin c)
       \<lparr>kcMappers := fold (setMapper (kcID c)) (desiredConsoleProtocolMappers gatewayClientID) (kcMappers c),
        kcScopeMappings := kcScopeMappings c \<union> Pair (kcID g) ` fst ` set (kcRoles g)\<rparr>"

lemma EnsureConsoleClientConfig_quiet:
  fixes w :: "('z realm_scheme, rcall) kworld"
  assumes "named n c (kwState w)" "only (kcID c) c (kwState w)" "wfMappers (kcID c) (kcMappers c)"
    and "named m g (kwState w)" "kcID g \<noteq> kcID c"
  shows "\<exists>w'. EnsureConsoleClientConfig (quiet t) n m r o' w = (Inr (), w') \<and>
     kwState w' = onClient (kcID c) (\<lambda>_. repaired m r o' g c) (kwState w)"
proof -
  let ?u = "kcID c" and ?k = "kwState w"
  let ?c1 = "consoleSettings r o' c"
  let ?c2 = "?c1\<lparr>kcMappers := fold (setMapper ?u) (desiredConsoleProtocolMappers m) (kcMappers ?c1)\<rparr>"
  let ?w1 = "w\<lparr>kwTick := Suc (kwTick w), kwLog := kwLog w @ [(KGetClients n, ?k)]\<rparr>"
  have uuid: "getClientUUID (quiet t) n w = (Inr ?u, ?w1)" "?u \<noteq> []"
    using getClientUUID_named [OF assms(1)] assms(1) by (simp_all add: named_def)
  have "only ?u c (kwState ?w1)" using assms(2) by simp
  then obtain w2 where w2: "updateConsoleClientRepresentation (quiet t) ?u n r o' ?w1 = (Inr (), w2)"
      "kwState w2 = onClient ?u (\<lambda>_. ?c1) ?k"
    using updateConsole_quiet [of ?u c ?w1 t n r o'] by auto
  have id1: "kcID ?c1 = ?u" "kcClientID ?c1 = kcClientID c" "kcMappers ?c1 = kcMappers c" by (simp_all add: consoleSettings_def)
  have o1: "only ?u ?c1 (kwState w2)" unfolding w2(2) by (rule only_onClient [OF assms(2) id1(1)])
  have "wfMappers ?u (kcMappers ?c1)" using assms(3) id1 by simp
  from ensureConsoleProtocolMappers_quiet [OF o1 this, of t m] obtain w3 where
    w3: "ensureConsoleProtocolMappers (quiet t) ?u m w2 = (Inr (), w3)" "kwState w3 = onClient ?u (\<lambda>_. ?c2) (kwState w2)" by blast
  then have k3: "kwState w3 = onClient ?u (\<lambda>_. ?c2) ?k" unfolding w2(2) by (simp only: onClient_again [OF id1(1)])
  have id2: "kcID ?c2 = ?u" "kcClientID ?c2 = kcClientID c" using id1 by simp_all
  have o2: "only ?u ?c2 (kwState w3)" unfolding k3 by (rule only_onClient [OF assms(2) id2(1)])
  have "named m g (kwState w3)" unfolding k3 by (rule named_other [OF assms(4,5) id2(2) assms(2) id2(1)])
  from addScopes_quiet [OF o2 this, of t] obtain w4 where
    w4: "addConsoleScopeMappings (quiet t) ?u m w3 = (Inr (), w4)"
      "kwState w4 = onClient ?u (\<lambda>_. ?c2\<lparr>kcScopeMappings := kcScopeMappings ?c2 \<union> Pair (kcID g) ` fst ` set (kcRoles g)\<rparr>) (kwState w3)"
    by blast
  have "?c2\<lparr>kcScopeMappings := kcScopeMappings ?c2 \<union> Pair (kcID g) ` fst ` set (kcRoles g)\<rparr> = repaired m r o' g c"
    by (simp add: repaired_def consoleSettings_def)
  with w4 have "kwState w4 = onClient ?u (\<lambda>_. repaired m r o' g c) ?k"
    unfolding k3 by (simp only: onClient_again [OF id2(1)])
  then show ?thesis using uuid w2(1) w3(1) w4(1) by (simp add: EnsureConsoleClientConfig_def andThen_def mapErr_def)
qed

text \<open>What the control plane wants of a console client.\<close>

definition consoleConforms :: "string \<Rightarrow> string \<Rightarrow> string \<Rightarrow> keycloakClient \<Rightarrow> keycloakClient \<Rightarrow> bool" where
  "consoleConforms gatewayClientID redirectURI webOrigin g c \<longleftrightarrow>
     \<not> kcPublicClient c \<and> kcStandardFlow c \<and> \<not> kcDirectAccess c \<and> \<not> kcServiceAccounts c \<and> \<not> kcFullScope c \<and>
     kcRedirectUris c = [redirectURI] \<and> kcWebOrigins c = [webOrigin] \<and>
     kcAttributes c ''pkce.code.challenge.method'' = Some ''S256'' \<and>
     kcDefaultScopes c = [''profile'', ''email'', ''roles'', ''web-origins'', ''acr''] \<and>
     (\<forall>d\<in>set (desiredConsoleProtocolMappers gatewayClientID). \<forall>m\<in>set (kcMappers c). pmName m = pmName d \<longrightarrow> sameMapper d m) \<and>
     (\<forall>d\<in>set (desiredConsoleProtocolMappers gatewayClientID). \<exists>m\<in>set (kcMappers c). pmName m = pmName d) \<and>
     (\<forall>x\<in>set (kcRoles g). (kcID g, fst x) \<in> kcScopeMappings c)"

lemma sameMapper_self: "distinct (map fst (pmConfig d)) \<Longrightarrow> sameMapper d (d\<lparr>pmID := i\<rparr>)"
  by (auto simp: sameMapper_def list_all_iff map_get_def)

lemma repaired_conforms:
  assumes "wfMappers (kcID c) (kcMappers c)"
  shows "consoleConforms m r o' g (repaired m r o' g c)"
proof -
  let ?ds = "desiredConsoleProtocolMappers m"
  let ?ms = "fold (setMapper (kcID c)) ?ds (kcMappers c)"
  have there: "d\<lparr>pmID := mapperID (kcID c) d\<rparr> \<in> set ?ms" if "d \<in> set ?ds" for d
    by (rule setMappers_in [OF consoleMappers_distinct that])
  have "distinct (map pmName ?ms)" using setMappers_wf [OF assms] by (simp add: wfMappers_def)
  then have one: "x = y" if "x \<in> set ?ms" "y \<in> set ?ms" "pmName x = pmName y" for x y
    using that by (simp add: distinct_map inj_on_def)
  have config: "distinct (map fst (pmConfig d))" if "d \<in> set ?ds" for d
    using that by (auto simp: desiredConsoleProtocolMappers_def)
  have "sameMapper d x" if "d \<in> set ?ds" "x \<in> set ?ms" "pmName x = pmName d" for d x
    using one [OF that(2) there [OF that(1)]] that(3) sameMapper_self [OF config [OF that(1)]] by simp
  moreover have "\<exists>x\<in>set ?ms. pmName x = pmName d" if "d \<in> set ?ds" for d
    by (rule bexI [OF _ there [OF that]]) simp
  ultimately show ?thesis by (auto simp: consoleConforms_def repaired_def consoleSettings_def)
qed

text \<open>The three mappers of a console client, written out: the audience, the roles, the subject.\<close>

definition wantedConsoleMappers :: "string \<Rightarrow> string \<Rightarrow> protocolMapper set" where
  "wantedConsoleMappers u gatewayClientID =
     {\<lparr>pmID = u @ ''/audience'', pmName = ''audience'', pmProtocol = ''openid-connect'', pmMapper = ''oidc-audience-mapper'',
        pmConfig = [(''included.client.audience'', gatewayClientID), (''id.token.claim'', ''false''), (''access.token.claim'', ''true'')]\<rparr>,
      \<lparr>pmID = u @ ''/client-roles'', pmName = ''client-roles'', pmProtocol = ''openid-connect'', pmMapper = ''oidc-usermodel-client-role-mapper'',
        pmConfig = [(''claim.name'', ''hypershell.roles''), (''multivalued'', ''true''), (''jsonType.label'', ''String''),
          (''id.token.claim'', ''true''), (''access.token.claim'', ''true''), (''usermodel.clientRoleMapping.clientId'', gatewayClientID)]\<rparr>,
      \<lparr>pmID = u @ ''/sub'', pmName = ''sub'', pmProtocol = ''openid-connect'', pmMapper = ''oidc-sub-mapper'',
        pmConfig = [(''access.token.claim'', ''true'')]\<rparr>}"

lemma desired_wanted:
  "{m \<in> M. pmName m \<notin> pmName ` set (desiredConsoleProtocolMappers n)} \<union>
     (\<lambda>d. d\<lparr>pmID := mapperID u d\<rparr>) ` set (desiredConsoleProtocolMappers n) =
   {m \<in> M. pmName m \<notin> {''audience'', ''client-roles'', ''sub''}} \<union> wantedConsoleMappers u n"
  unfolding desiredConsoleProtocolMappers_def wantedConsoleMappers_def mapperID_def
  by (rule arg_cong2 [where f = "(\<union>)"]) simp_all

section \<open>A provisioned client is as it should be\<close>

definition keepsClients :: "('z realm_scheme, rcall) kworld \<Rightarrow> ('z realm_scheme, rcall) kworld \<Rightarrow> bool" where
  "keepsClients w w' \<longleftrightarrow> rmClients (kwState w') = rmClients (kwState w)"

interpretation keepsClients: step_order keepsClients
  by unfold_locales (simp_all add: keepsClients_def)

lemma kcall_keepsClients:
  "(\<And>k. rmClients (snd (op k)) = rmClients k) \<Longrightarrow> steps keepsClients (kcall (quiet t) l op)"
  by (simp add: steps_def keepsClients_def kcall_quiet)

lemma kread_keepsClients: "steps keepsClients (kread (quiet t) l f)"
  unfolding kread_def by (rule kcall_keepsClients) simp

lemma steps_option:
  "(o' = None \<Longrightarrow> steps R m) \<Longrightarrow> (\<And>x. o' = Some x \<Longrightarrow> steps R (f x)) \<Longrightarrow> steps R (case o' of None \<Rightarrow> m | Some x \<Rightarrow> f x)"
  by (cases o') auto

lemma steps_answer:
  "(\<And>x. a = Answered x \<Longrightarrow> steps R (f x)) \<Longrightarrow> (\<And>c b. a = Refused c b \<Longrightarrow> steps R (g c b)) \<Longrightarrow>
    steps R (case a of Answered x \<Rightarrow> f x | Refused c b \<Rightarrow> g c b)"
  by (cases a) auto

lemmas keepsClients_rules = keepsClients.steps_andThen keepsClients.steps_mapErr keepsClients.steps_if steps_option steps_answer
  keepsClients.steps_ret keepsClients.steps_fail kread_keepsClients kcall_keepsClients

lemma token_exchange_keepsClients: "steps keepsClients (EnsureE2ETokenExchange freshUUID (quiet t) target)"
  unfolding EnsureE2ETokenExchange_def enableTokenExchangePermissions_def enableTokenExchangeManagementPermissions_def
    ensureE2EClientPolicy_def ensureTokenExchangeClientPolicy_def findTokenExchangeClientPolicy_def attachPolicyToPermission_def
    getClientUUID_def getClient_def
  by (intro keepsClients_rules)
    (auto simp: srvPutManagement_def srvCreatePolicy_def srvPutPermission_def split: option.split sum.split)

definition fullClient :: "string \<Rightarrow> string \<Rightarrow> keycloakClient" where
  "fullClient n u =
     (newKeycloakClient n u)
       \<lparr>kcRoles := [(''openshell-admin'', u @ ''/openshell-admin''), (''openshell-user'', u @ ''/openshell-user'')],
        kcMappers := map (\<lambda>m. m\<lparr>pmID := mapperID u m\<rparr>) (desiredGatewayProtocolMappers n)\<rparr>"

lemma createRole_quiet:
  assumes "only u c k" "map_of (kcRoles c) role = None"
  shows "srvCreateRole u role k = (Inr (), onClient u (\<lambda>_. c\<lparr>kcRoles := kcRoles c @ [(role, u @ ''/'' @ role)]\<rparr>) k)"
  using assms onClient_only [OF assms(1), of "\<lambda>c. c\<lparr>kcRoles := kcRoles c @ [(role, u @ ''/'' @ role)]\<rparr>"]
  by (simp add: srvCreateRole_def withClient_def only_def)

lemma createClientRoles_quiet:
  fixes w :: "('z realm_scheme, rcall) kworld"
  assumes "only u c (kwState w)" "kcRoles c = []"
  shows "\<exists>w'. createClientRoles (quiet t) u w = (Inr (), w') \<and>
    kwState w' = onClient u (\<lambda>_. c\<lparr>kcRoles := [(''openshell-admin'', u @ ''/openshell-admin''), (''openshell-user'', u @ ''/openshell-user'')]\<rparr>) (kwState w)"
proof -
  let ?c1 = "c\<lparr>kcRoles := [(''openshell-admin'', u @ ''/openshell-admin'')]\<rparr>"
  have id1: "kcID ?c1 = u" using assms(1) by (simp add: only_def)
  have r1: "srvCreateRole u ''openshell-admin'' (kwState w) = (Inr (), onClient u (\<lambda>_. ?c1) (kwState w))"
    using createRole_quiet [OF assms(1), of "''openshell-admin''"] assms(2) by simp
  have r2: "srvCreateRole u ''openshell-user'' (onClient u (\<lambda>_. ?c1) (kwState w)) =
      (Inr (), onClient u (\<lambda>_. c\<lparr>kcRoles := [(''openshell-admin'', u @ ''/openshell-admin''), (''openshell-user'', u @ ''/openshell-user'')]\<rparr>) (kwState w))"
    using createRole_quiet [OF only_onClient [OF assms(1) id1], of "''openshell-user''"] by (simp add: onClient_again [OF id1])
  show ?thesis
    by (simp add: createClientRoles_def runs kcall_quiet r1 r2)
qed

lemma createClient_quiet:
  fixes w :: "('z realm_scheme, rcall) kworld"
  assumes "createClient freshUUID (quiet t) n w = (Inr u, w1)"
    and "CHR ''/'' \<notin> set (freshUUID (kwState w))"
  shows "u = freshUUID (kwState w)" "rmClients (kwState w1) = rmClients (kwState w) @ [newKeycloakClient n u]"
    "\<forall>d\<in>set (rmClients (kwState w)). kcClientID d \<noteq> n"
proof -
  have name: "kcClientID (newKeycloakClient n v) = n" for v by (simp add: newKeycloakClient_def)
  have "last (strings_Split (clientPath v) CHR ''/'') = v" if "CHR ''/'' \<notin> set v" for v
    using strings_Split_noSep [OF that] by (simp add: clientPath_def)
  then show "u = freshUUID (kwState w)" "rmClients (kwState w1) = rmClients (kwState w) @ [newKeycloakClient n u]"
    "\<forall>d\<in>set (rmClients (kwState w)). kcClientID d \<noteq> n"
    using assms name by (auto simp: createClient_def runs kcall_quiet srvCreateClient_def Let_def list_ex_iff bindK_def split: if_splits)
qed

lemma mapper_lookup_desired:
  assumes "d \<in> set (desiredGatewayProtocolMappers n)"
  shows "map_of (rev (map (\<lambda>m. (pmName m, m)) (map (\<lambda>m. m\<lparr>pmID := mapperID u m\<rparr>) (desiredGatewayProtocolMappers n)))) (pmName d) =
    Some (d\<lparr>pmID := mapperID u d\<rparr>)"
proof -
  have "wfMappers u (map (\<lambda>m. m\<lparr>pmID := mapperID u m\<rparr>) (desiredGatewayProtocolMappers n))"
    using gatewayMappers_distinct [of n] by (auto simp: wfMappers_def comp_def mapperID_def)
  from wfMappers_find [OF this, of "d\<lparr>pmID := mapperID u d\<rparr>"] assms show ?thesis by auto
qed

lemma GatewayClientSynced_full:
  fixes w :: "('z realm_scheme, rcall) kworld"
  assumes "named n (fullClient n u) (kwState w)"
  shows "fst (GatewayClientSynced (quiet t) n w) = Inr True"
proof -
  have f: "kcID (fullClient n u) = u" "rmClient u (kwState w) = Some (fullClient n u)"
      "find (\<lambda>c. kcClientID c = n) (rmClients (kwState w)) = Some (fullClient n u)"
    using assms by (simp_all add: named_def fullClient_def newKeycloakClient_def)
  have config: "distinct (map fst (pmConfig d))" if "d \<in> set (desiredGatewayProtocolMappers n)" for d
    using that by (auto simp: desiredGatewayProtocolMappers_def)
  have mappers: "list_all (\<lambda>desired. case map_of (rev (map (\<lambda>m. (pmName m, m)) (kcMappers (fullClient n u)))) (pmName desired) of
      None \<Rightarrow> False | Some actual \<Rightarrow> sameMapper desired actual) (desiredGatewayProtocolMappers n)"
    unfolding list_all_iff fullClient_def using mapper_lookup_desired [of _ n u] sameMapper_self [OF config] by simp
  have settings: "kcEnabled (fullClient n u)" "kcPublicClient (fullClient n u)" "kcStandardFlow (fullClient n u)"
      "kcDirectAccess (fullClient n u)" "\<not> kcFullScope (fullClient n u)"
      "map_get (kcAttributes (fullClient n u)) ''pkce.code.challenge.method'' = ''S256''"
      "map_get (kcAttributes (fullClient n u)) deviceAuthorizationGrantAttribute = ''true''"
      "fst ` set (kcRoles (fullClient n u)) = {''openshell-admin'', ''openshell-user''}"
    by (simp_all add: fullClient_def newKeycloakClient_def kvs_def map_get_def)
  show ?thesis
    by (simp add: GatewayClientSynced_def runs getClient_quiet f settings listClientRoles_def kread_quiet srvListRoles_def
        listClientProtocolMapperModels_def srvListMappers_def mappers)
qed

lemma ProvisionGatewayClient_full:
  fixes w :: "('z realm_scheme, rcall) kworld"
  assumes "ProvisionGatewayClient freshUUID (quiet t) n w = (Inr u, w')"
    and "CHR ''/'' \<notin> set (freshUUID (kwState w))" "\<forall>d\<in>set (rmClients (kwState w)). kcID d \<noteq> freshUUID (kwState w)"
  shows "rmClients (kwState w') = rmClients (kwState w) @ [fullClient n u]" "u = freshUUID (kwState w)"
    "\<forall>d\<in>set (rmClients (kwState w)). kcClientID d \<noteq> n"
proof -
  from assms(1) obtain u1 w1 w2 w3 where
    create: "createClient freshUUID (quiet t) n w = (Inr u1, w1)" and
    roles: "createClientRoles (quiet t) u1 w1 = (Inr (), w2)" and
    mappers: "createProtocolMappers (quiet t) u1 n w2 = (Inr (), w3)" and
    grant: "EnsureE2ETokenExchange freshUUID (quiet t) u1 w3 = (Inr (), w')" and u: "u1 = u"
    by (auto simp: ProvisionGatewayClient_def andThen_success orRollBack_success)
  note c = createClient_quiet [OF create assms(2)]
  let ?c0 = "newKeycloakClient n u" and ?k = "kwState w"
  have id0: "kcID ?c0 = u" "kcRoles ?c0 = []" by (simp_all add: newKeycloakClient_def)
  have other: "\<forall>d\<in>set (rmClients ?k). kcID d \<noteq> u" using assms(3) c(1) u by simp
  then have "find (\<lambda>d. kcID d = u) (rmClients ?k) = None" by (auto simp: find_None_iff)
  moreover have app: "find P (xs @ ys) = (case find P xs of None \<Rightarrow> find P ys | Some x \<Rightarrow> Some x)" for P and xs ys :: "keycloakClient list"
    by (induction xs) auto
  ultimately have o1: "only u ?c0 (kwState w1)"
    using c(2) other id0 u by (auto simp: only_def rmClient_def)
  let ?c1 = "?c0\<lparr>kcRoles := [(''openshell-admin'', u @ ''/openshell-admin''), (''openshell-user'', u @ ''/openshell-user'')]\<rparr>"
  have s2: "kwState w2 = onClient u (\<lambda>_. ?c1) (kwState w1)"
    using createClientRoles_quiet [OF o1 id0(2), of t] roles u by auto
  have id1: "kcID ?c1 = u" using id0 by simp
  have o2: "only u ?c1 (kwState w2)" unfolding s2 by (rule only_onClient [OF o1 id1])
  have m0: "kcMappers ?c1 = map (\<lambda>m. m\<lparr>pmID := mapperID u m\<rparr>) (take 1 (desiredGatewayProtocolMappers n))"
    by (simp add: newKeycloakClient_def)
  have wf: "wfMappers u (kcMappers ?c1)" unfolding m0 by (simp add: wfMappers_def desiredGatewayProtocolMappers_def mapperID_def)
  have d: "distinct (map pmName (drop 1 (desiredGatewayProtocolMappers n)))"
    "\<forall>d\<in>set (drop 1 (desiredGatewayProtocolMappers n)). pmName d \<notin> pmName ` set (kcMappers ?c1)"
    unfolding m0 by (simp_all add: desiredGatewayProtocolMappers_def)
  have "fold (setMapper u) (drop 1 (desiredGatewayProtocolMappers n)) (kcMappers ?c1) =
      map (\<lambda>m. m\<lparr>pmID := mapperID u m\<rparr>) (desiredGatewayProtocolMappers n)"
    unfolding m0 by (simp add: desiredGatewayProtocolMappers_def setMapper_def Let_def)
  then have full: "?c1\<lparr>kcMappers := fold (setMapper u) (drop 1 (desiredGatewayProtocolMappers n)) (kcMappers ?c1)\<rparr> = fullClient n u"
    by (simp add: fullClient_def)
  have s3: "kwState w3 = onClient u (\<lambda>_. fullClient n u) (kwState w2)"
    using createMappers_quiet [OF o2 wf d, of "\<lambda>mapper. errorfW (''create mapper '' @ pmName mapper @ '': '')" t] mappers u full
    by (auto simp: createProtocolMappers_def)
  then have s3': "kwState w3 = onClient u (\<lambda>_. fullClient n u) (kwState w1)"
    unfolding s2 by (simp only: onClient_again [OF id1])
  have "map (\<lambda>d. if kcID d = u then fullClient n u else d) (rmClients ?k) = rmClients ?k"
    using other by (intro map_idI) auto
  then have "rmClients (kwState w3) = rmClients ?k @ [fullClient n u]"
    unfolding s3' using c(2) u id0 by (simp add: onClient_def)
  moreover have "rmClients (kwState w') = rmClients (kwState w3)"
    using token_exchange_keepsClients [of freshUUID t u1] grant by (metis steps_def keepsClients_def snd_conv)
  ultimately show "rmClients (kwState w') = rmClients ?k @ [fullClient n u]" by simp
  show "u = freshUUID (kwState w)" using c(1) u by simp
  show "\<forall>d\<in>set (rmClients (kwState w)). kcClientID d \<noteq> n" by (rule c(3))
qed

section \<open>Properties\<close>

text \<open>
  C19: A client that the control plane provisioned for a gateway in an undisturbed realm passes its own
  check of what such a client must be, settings, roles and mappers, at any later time until something
  changes; whatever the realm holds besides, and whether or not token exchange is granted there.
\<close>

theorem provisioned_client_is_synced:
  fixes w :: "('z realm_scheme, rcall) kworld"
  assumes "ProvisionGatewayClient freshUUID (quiet t) gatewayName w = (Inr uuid, w')"
    and "freshUUID (kwState w) \<noteq> []" "CHR ''/'' \<notin> set (freshUUID (kwState w))"
    and "\<forall>c\<in>set (rmClients (kwState w)). kcID c \<noteq> freshUUID (kwState w)"
  shows "fst (GatewayClientSynced (quiet t') gatewayName w') = Inr True"
proof -
  note full = ProvisionGatewayClient_full [OF assms(1,3,4)]
  have "find (\<lambda>c. kcClientID c = gatewayName) (rmClients (kwState w)) = None"
    using full(3) by (auto simp: find_None_iff)
  moreover have "find (\<lambda>c. kcID c = uuid) (rmClients (kwState w)) = None"
    using assms(4) full(2) by (auto simp: find_None_iff)
  moreover have app: "find P (xs @ ys) = (case find P xs of None \<Rightarrow> find P ys | Some x \<Rightarrow> Some x)" for P and xs ys :: "keycloakClient list"
    by (induction xs) auto
  ultimately have "named gatewayName (fullClient gatewayName uuid) (kwState w')"
    using full(1,2) assms(2) by (simp add: named_def rmClient_def fullClient_def newKeycloakClient_def)
  then show ?thesis by (rule GatewayClientSynced_full)
qed

theorem provisioned_client_is_synced_witness:
  "fst (GatewayClientSynced (quiet 0) ''g1'' (snd (ProvisionGatewayClient (\<lambda>_. ''u1'') (quiet 0) ''g1'' (freshWorld emptyRealm)))) = Inr True"
proof -
  have "\<exists>w'. ProvisionGatewayClient (\<lambda>_. ''u1'') (quiet 0) ''g1'' (freshWorld emptyRealm) = (Inr ''u1'', w')"
    by (simp add: ProvisionGatewayClient_def createClient_def runs kcall_quiet kread_quiet freshWorld_def emptyRealm_def srvCreateClient_def
        newKeycloakClient_def Let_def clientPath_def orRollBack_def createClientRoles_def srvCreateRole_def withClient_def rmClient_def onClient_def
        createProtocolMappers_def desiredGatewayProtocolMappers_def srvCreateMapper_def mapperID_def EnsureE2ETokenExchange_def getClient_quiet
        cong: bindK_cong mapK_cong)
  then obtain w' where "ProvisionGatewayClient (\<lambda>_. ''u1'') (quiet 0) ''g1'' (freshWorld emptyRealm) = (Inr ''u1'', w')" by blast
  from provisioned_client_is_synced [OF this, of 0] this show ?thesis by (simp add: freshWorld_def emptyRealm_def)
qed


text \<open>A console client with drifted settings and mappers beside the client of its gateway.\<close>

definition driftedConsole :: keycloakClient where
  "driftedConsole =
     (newConsoleClient (\<lambda>_. ''secret'') ''g1-console'' ''https://old/callback'' ''https://old'' ''u2'')
       \<lparr>kcFullScope := True,
        kcMappers := [\<lparr>pmID = ''u2/audience'', pmName = ''audience'', pmProtocol = ''openid-connect'', pmMapper = ''oidc-audience-mapper'',
          pmConfig = [(''included.client.audience'', ''other'')]\<rparr>]\<rparr>"

definition driftedRealm :: realm where
  "driftedRealm = emptyRealm\<lparr>rmClients := [fullClient ''g1'' ''u1'', driftedConsole]\<rparr>"


end
