(* ===== verification/Role_Bridge.thy ===== *)
theory Role_Bridge
  imports Keycloak_Client Namespace_GC
begin

text \<open>
  The role bridge: the reconciler that makes a user's Keycloak roles on a gateway's client follow the
  role bindings (\<^verbatim>\<open>control-plane/internal/reconciler/role_binding_reconciler.go\<close>), and the identity of
  a gateway's client (\<^verbatim>\<open>gatewayKeycloakClientID\<close> in \<^verbatim>\<open>reconciler.go\<close>).

  The world is a realm (\<open>Keycloak_Client\<close>) with the state of the API server and the set of bindings
  being handled. \<^verbatim>\<open>GetGateway\<close> and \<^verbatim>\<open>ListRoleBindings\<close> are functions of the server's state, arguments of
  the reconciler, as is the decoding of a gateway's OIDC document, of which the code reads
  \<^verbatim>\<open>client_id\<close> and \<^verbatim>\<open>audience\<close>.
\<close>

section \<open>The client of a gateway\<close>

text \<open>
  \<^verbatim>\<open>unicode.IsControl\<close> over the runes of a byte string: the ASCII control bytes, and U+0080 to U+009F,
  which are two bytes in UTF-8.
\<close>

definition byteOf :: "char \<Rightarrow> nat" where
  "byteOf c = of_char c"

definition asciiControl :: "char \<Rightarrow> bool" where
  "asciiControl c \<longleftrightarrow> byteOf c < 32 \<or> byteOf c = 127"

fun containsControlCharacter :: "string \<Rightarrow> bool" where
  "containsControlCharacter [] = False"
| "containsControlCharacter [c] = asciiControl c"
| "containsControlCharacter (c # d # cs) =
     (asciiControl c \<or> (byteOf c = 194 \<and> 128 \<le> byteOf d \<and> byteOf d \<le> 159) \<or> containsControlCharacter (d # cs))"

definition invalidGatewayKeycloakClientIdentity :: "string \<Rightarrow> chain" where
  "invalidGatewayKeycloakClientIdentity m = gatewayKeycloakClientIdentityError (PlainErr m)"

definition isGatewayOwnedKeycloakClientID :: "string \<Rightarrow> string \<Rightarrow> bool" where
  "isGatewayOwnedKeycloakClientID clientID gatewayID \<longleftrightarrow>
     (if clientID = [] \<or> containsControlCharacter clientID then False
      else if clientID = gatewayID then True
      else strings_HasSuffix clientID (''-'' @ gatewayID) \<and> length clientID > length (''-'' @ gatewayID))"

definition gatewayKeycloakClientID ::
  "(string \<Rightarrow> chain + string \<times> string) \<Rightarrow> string \<Rightarrow> 'x gwFields_scheme pbGateway option \<Rightarrow> chain + string" where
  "gatewayKeycloakClientID parseOidc gatewayID gw =
     (if gatewayID = [] then Inl (invalidGatewayKeycloakClientIdentity ''gateway ID is required for Keycloak reconciliation'')
      else if containsControlCharacter gatewayID then
        Inl (invalidGatewayKeycloakClientIdentity ''gateway ID contains control characters'')
      else case gw of
        None \<Rightarrow> Inl (invalidGatewayKeycloakClientIdentity ''gateway is required for Keycloak reconciliation'')
      | Some g \<Rightarrow>
          (case (if strptr (gfOidc (gwRest g)) = [] then Inr ([], []) else parseOidc (strptr (gfOidc (gwRest g)))) of
             Inl err \<Rightarrow> Inl (gatewayKeycloakClientIdentityError (errorfW ''parse persisted OIDC config: '' err))
           | Inr (clientID, audience) \<Rightarrow>
               if list_ex (\<lambda>p. p \<noteq> [] \<and> containsControlCharacter p) [clientID, audience] then
                 Inl (invalidGatewayKeycloakClientIdentity ''persisted OIDC client identity contains control characters'')
               else if (clientID = []) \<noteq> (audience = []) then
                 Inl (invalidGatewayKeycloakClientIdentity ''persisted OIDC client_id and audience must both be set'')
               else if clientID \<noteq> audience then
                 Inl (invalidGatewayKeycloakClientIdentity ''persisted OIDC client_id and audience do not match'')
               else if clientID \<noteq> [] then
                 (if \<not> isGatewayOwnedKeycloakClientID clientID gatewayID then
                    Inl (invalidGatewayKeycloakClientIdentity ''persisted OIDC client identity is not owned by the gateway'')
                  else Inr clientID)
               else Inr gatewayID))"

section \<open>The reconciler\<close>

record cpBinding =
  bdId :: string
  bdUserId :: "string option"
  bdGatewayId :: "string option"
  bdRoleName :: string
  bdUsername :: string

record 's bridge = realm +
  brApi :: 's
  brActive :: "string set"

type_synonym ('s, 'a) brProg = "('s bridge, rcall, 'a) kprog"

definition keycloakRoleMap :: "string \<Rightarrow> string list option" where
  "keycloakRoleMap role =
     (if role = ''gateway:owner'' then Some [''openshell-admin'', ''openshell-user'']
      else if role = ''gateway:admin'' then Some [''openshell-admin'', ''openshell-user'']
      else if role = ''gateway:viewer'' then Some [''openshell-user'']
      else None)"

definition allGatewayKcRoles :: "string list" where
  "allGatewayKcRoles = [''openshell-admin'', ''openshell-user'']"

text \<open>
  The reconciler: whether Keycloak is configured, its cluster, and the API server's operations:
  \<^verbatim>\<open>GetGateway\<close> by id; \<^verbatim>\<open>ListRoleBindings\<close> by user, gateway and cluster, an item may be nil.
\<close>

record 's roleBindingReconciler =
  rrKeycloak :: bool
  rrClusterID :: string
  rrGetGateway :: "string \<Rightarrow> 's \<Rightarrow> chain + cpGateway option"
  rrListRoleBindings :: "string option \<Rightarrow> string option \<Rightarrow> string \<Rightarrow> 's \<Rightarrow> chain + cpBinding option list"
  rrParseOidc :: "string \<Rightarrow> chain + string \<times> string"

definition unionKcRoles :: "cpBinding option list \<Rightarrow> string \<Rightarrow> string set" where
  "unionKcRoles items excludeID =
     fold (\<lambda>item desired. case item of
         None \<Rightarrow> desired
       | Some rb \<Rightarrow> if bdId rb = excludeID then desired
                    else desired \<union> set (case keycloakRoleMap (bdRoleName rb) of None \<Rightarrow> [] | Some rs \<Rightarrow> rs)) items {}"

definition effectiveKcRoles :: "'s roleBindingReconciler \<Rightarrow> 's bridge environ \<Rightarrow> cpBinding \<Rightarrow> string \<Rightarrow> ('s, string set) brProg" where
  "effectiveKcRoles r E rb excludeID =
     (case bdGatewayId rb of
        None \<Rightarrow> ret {}
      | Some gid \<Rightarrow>
          (case ClusterFilter (rrClusterID r) of
             Inl err \<Rightarrow> fail err
           | Inr clusterFilter \<Rightarrow>
               andThen (mapErr (errorfW (''list role bindings for user '' @ strptr (bdUserId rb) @ '' on gateway '' @ gid @ '': ''))
                   (kread E RpcListRoleBindings (\<lambda>k. rrListRoleBindings r (bdUserId rb) (bdGatewayId rb) clusterFilter (brApi k))))
                 (\<lambda>items. ret (unionKcRoles items excludeID))))"

text \<open>The same walk along the chain as \<open>isMissingGateway\<close>.\<close>

definition isNotFoundRPC :: "chain \<Rightarrow> bool" where
  "isNotFoundRPC err = isMissingGateway err"

definition gwGetClusterId :: "'x gwFields_scheme pbGateway option \<Rightarrow> string" where
  "gwGetClusterId gw = (case gw of None \<Rightarrow> [] | Some g \<Rightarrow> strptr (gfClusterId (gwRest g)))"

definition resolveKeycloakClientID :: "'s roleBindingReconciler \<Rightarrow> 's bridge environ \<Rightarrow> string \<Rightarrow> ('s, string \<times> string) brProg" where
  "resolveKeycloakClientID r E gatewayID =
     andThen (mapErr (errorfW (''get gateway '' @ gatewayID @ '': '')) (kread E (RpcGetGateway gatewayID) (\<lambda>k. rrGetGateway r gatewayID (brApi k))))
       (\<lambda>gw. case gatewayKeycloakClientID (rrParseOidc r) gatewayID gw of
          Inl err \<Rightarrow> fail (errorfW (''resolve Keycloak client for gateway '' @ gatewayID @ '': '') err)
        | Inr clientID \<Rightarrow> ret (clientID, gwGetClusterId gw))"

text \<open>The roles to hold, the last ones removed only on the strength of two empty reads.\<close>

definition desiredRoles ::
  "'s roleBindingReconciler \<Rightarrow> 's bridge environ \<Rightarrow> EventType \<Rightarrow> string \<Rightarrow> cpBinding \<Rightarrow> string list \<Rightarrow> ('s, string set) brProg" where
  "desiredRoles r E typ i rb backed =
     (let excludeID = (if typ = EventDeleted then bdId rb else [])
      in andThen (mapErr (errorfW (''compute effective keycloak roles for role binding '' @ i @ '': '')) (effectiveKcRoles r E rb excludeID))
        (\<lambda>desired.
           if typ \<noteq> EventDeleted then ret (desired \<union> set backed)
           else if desired = {} then
             andThen (mapErr (errorfW (''confirm absence of surviving role bindings for role binding '' @ i @ '' before revoke: ''))
                 (effectiveKcRoles r E rb excludeID))
               (\<lambda>again. if again \<noteq> {} then
                    fail (PlainErr (''role binding '' @ i @ '': first ListRoleBindings returned empty but the confirming read found surviving client role(s); requeuing''))
                  else ret desired)
           else ret desired))"

definition applyRoles :: "'s bridge environ \<Rightarrow> string \<Rightarrow> string \<Rightarrow> string set \<Rightarrow> ('s, unit) brProg" where
  "applyRoles E clientID username desired =
     forEach (\<lambda>kcRole.
         if kcRole \<in> desired then
           mapErr (errorfW (''assign keycloak role '' @ kcRole @ '' to user '' @ username @ '' on client '' @ clientID @ '': ''))
             (AssignClientRole E clientID username kcRole)
         else
           mapErr (errorfW (''remove keycloak role '' @ kcRole @ '' from user '' @ username @ '' on client '' @ clientID @ '': ''))
             (RemoveClientRole E clientID username kcRole))
       allGatewayKcRoles"

definition reconcileBinding ::
  "'s roleBindingReconciler \<Rightarrow> 's bridge environ \<Rightarrow> cpBinding Event \<Rightarrow> ('s, unit) brProg" where
  "reconcileBinding r E ev =
     (case evResource ev of
        None \<Rightarrow> ret ()
      | Some rb \<Rightarrow>
          let i = evResourceID ev; gid = strptr (bdGatewayId rb)
          in if \<not> rrKeycloak r then ret ()
             else if gid = [] then ret ()
             else case keycloakRoleMap (bdRoleName rb) of
               None \<Rightarrow> if bdRoleName rb = [] then fail (PlainErr (''role binding '' @ i @ '': role name not yet resolved'')) else ret ()
             | Some backed \<Rightarrow>
                 if bdUsername rb = [] then fail (PlainErr (''role binding '' @ i @ '': username not yet resolved''))
                 else andThen (attempt (resolveKeycloakClientID r E gid)) (\<lambda>resolved.
                   case resolved of
                     Inl err \<Rightarrow> if isNotFoundRPC err then ret ()
                                else fail (errorfW (''resolve keycloak client id for role binding '' @ i @ '': '') err)
                   | Inr (clientID, gatewayClusterID) \<Rightarrow>
                       if gatewayClusterID \<noteq> rrClusterID r then ret ()
                       else andThen (desiredRoles r E (evType ev) i rb backed)
                         (applyRoles E clientID (bdUsername rb))))"

text \<open>A binding that is being handled is left alone; the mark is taken off on every path.\<close>

definition setActive :: "string set \<Rightarrow> ('s bridge, rcall) kworld \<Rightarrow> ('s bridge, rcall) kworld" where
  "setActive A w = w\<lparr>kwState := (kwState w)\<lparr>brActive := A\<rparr>\<rparr>"

definition Handle :: "'s roleBindingReconciler \<Rightarrow> 's bridge environ \<Rightarrow> cpBinding Event \<Rightarrow> ('s, unit) brProg" where
  "Handle r E ev w =
     (if evResourceID ev \<in> brActive (kwState w) then (Inr (), w)
      else case reconcileBinding r E ev (setActive (insert (evResourceID ev) (brActive (kwState w))) w) of
        (res, w1) \<Rightarrow> (res, setActive (brActive (kwState w1) - {evResourceID ev}) w1))"

section \<open>An undisturbed event\<close>

lemma unionKcRoles_eq:
  "unionKcRoles items x =
     {role. \<exists>rb. Some rb \<in> set items \<and> bdId rb \<noteq> x \<and> (\<exists>rs. keycloakRoleMap (bdRoleName rb) = Some rs \<and> role \<in> set rs)}"
proof -
  have "fold (\<lambda>item desired. case item of None \<Rightarrow> desired
       | Some rb \<Rightarrow> if bdId rb = x then desired
                    else desired \<union> set (case keycloakRoleMap (bdRoleName rb) of None \<Rightarrow> [] | Some rs \<Rightarrow> rs)) items A =
     A \<union> {role. \<exists>rb. Some rb \<in> set items \<and> bdId rb \<noteq> x \<and> (\<exists>rs. keycloakRoleMap (bdRoleName rb) = Some rs \<and> role \<in> set rs)}" for A
  proof (induction items arbitrary: A)
    case Nil
    then show ?case by simp
  next
    case (Cons item items)
    show ?case
      unfolding fold_simps Cons.IH by (cases item; cases "keycloakRoleMap (bdRoleName (the item))") auto
  qed
  then show ?thesis by (simp add: unionKcRoles_def)
qed

lemma keycloakRoleMap_roles: "keycloakRoleMap role = Some rs \<Longrightarrow> set rs \<subseteq> set allGatewayKcRoles \<and> rs \<noteq> []"
  by (auto simp: keycloakRoleMap_def allGatewayKcRoles_def split: if_splits)

lemma unionKcRoles_roles: "unionKcRoles items x \<subseteq> set allGatewayKcRoles"
  unfolding unionKcRoles_eq using keycloakRoleMap_roles by blast

text \<open>The grants with the user's roles on one client replaced.\<close>

definition regrant :: "string \<Rightarrow> string \<Rightarrow> string set \<Rightarrow> (string \<times> string \<times> string) set \<Rightarrow> (string \<times> string \<times> string) set" where
  "regrant uid cid want G =
     {x \<in> G. \<not> (fst x = uid \<and> fst (snd x) = cid \<and> snd (snd x) \<in> set allGatewayKcRoles)} \<union>
     {(uid, cid, role) |role. role \<in> want}"

text \<open>The world of the event's gateway, client and user.\<close>

definition bridgeReady ::
  "'s roleBindingReconciler \<Rightarrow> cpBinding \<Rightarrow> string \<Rightarrow> keycloakClient \<Rightarrow> keycloakUser \<Rightarrow> cpBinding option list \<Rightarrow> 's bridge \<Rightarrow> bool" where
  "bridgeReady r rb clientID c u items k \<longleftrightarrow>
     rrKeycloak r \<and> strings_TrimSpace (rrClusterID r) \<noteq> [] \<and> bdUsername rb \<noteq> [] \<and>
     (\<exists>gid gw. bdGatewayId rb = Some gid \<and> gid \<noteq> [] \<and> rrGetGateway r gid (brApi k) = Inr gw \<and>
        gatewayKeycloakClientID (rrParseOidc r) gid gw = Inr clientID \<and> gwGetClusterId gw = rrClusterID r) \<and>
     rrListRoleBindings r (bdUserId rb) (bdGatewayId rb) (rrClusterID r) (brApi k) = Inr items \<and>
     (\<forall>role\<in>set allGatewayKcRoles. present k clientID (bdUsername rb) role c u)"

lemma regrant_pair:
  assumes "a \<noteq> b" "set rs = {a, b}" "want \<subseteq> set rs"
  shows "(if b \<in> want then insert (u, c, b) (if a \<in> want then insert (u, c, a) G else G - {(u, c, a)})
      else (if a \<in> want then insert (u, c, a) G else G - {(u, c, a)}) - {(u, c, b)}) =
    {x \<in> G. \<not> (fst x = u \<and> fst (snd x) = c \<and> snd (snd x) \<in> set rs)} \<union> {(u, c, role) |role. role \<in> want}"
  using assms by auto

lemma applyRoles_quiet:
  fixes w :: "('s bridge, rcall) kworld"
  assumes "\<forall>role\<in>set allGatewayKcRoles. present (kwState w) clientID username role c u" "want \<subseteq> set allGatewayKcRoles"
  shows "\<exists>w'. applyRoles (quiet t) clientID username want w = (Inr (), w') \<and>
    kwState w' = (kwState w)\<lparr>rmGrants := regrant (kuID u) (kcID c) want (rmGrants (kwState w))\<rparr>"
proof -
  define step where "step = (\<lambda>role. if role \<in> want then AssignClientRole (quiet t) clientID username role
      else RemoveClientRole (quiet t) clientID username role :: ('s, unit) brProg)"
  define change where "change role G = (if role \<in> want then insert (kuID u, kcID c, role) G else G - {(kuID u, kcID c, role)})"
    for role G
  have one: "\<exists>v'. step role v = (Inr (), v') \<and> kwState v' = (kwState v)\<lparr>rmGrants := change role (rmGrants (kwState v))\<rparr>"
    if "present (kwState v) clientID username role c u" for role v
    using AssignClientRole_quiet [OF that] RemoveClientRole_quiet [OF that] by (simp add: step_def change_def)
  have kept: "present (k\<lparr>rmGrants := G\<rparr>) clientID username role c u = present k clientID username role c u"
    for k :: "'s bridge" and G role
    by (simp add: present_def rmClient_def)
  have p: "present (kwState w) clientID username ''openshell-admin'' c u" "present (kwState w) clientID username ''openshell-user'' c u"
    using assms(1) by (simp_all add: allGatewayKcRoles_def)
  obtain w1 where w1: "step ''openshell-admin'' w = (Inr (), w1)"
      "kwState w1 = (kwState w)\<lparr>rmGrants := change ''openshell-admin'' (rmGrants (kwState w))\<rparr>"
    using one [OF p(1)] by blast
  have "present (kwState w1) clientID username ''openshell-user'' c u" using p(2) w1(2) kept by simp
  then obtain w2 where w2: "step ''openshell-user'' w1 = (Inr (), w2)"
      "kwState w2 = (kwState w1)\<lparr>rmGrants := change ''openshell-user'' (rmGrants (kwState w1))\<rparr>"
    using one by blast
  define full where "full = (\<lambda>role.
         if role \<in> want then
           mapErr (errorfW (''assign keycloak role '' @ role @ '' to user '' @ username @ '' on client '' @ clientID @ '': ''))
             (AssignClientRole (quiet t) clientID username role)
         else
           mapErr (errorfW (''remove keycloak role '' @ role @ '' from user '' @ username @ '' on client '' @ clientID @ '': ''))
             (RemoveClientRole (quiet t) clientID username role) :: ('s, unit) brProg)"
  have lift: "full role v = (Inr (), v')" if "step role v = (Inr (), v')" for role v v'
    using that unfolding full_def step_def by (cases "role \<in> want") (simp_all only: if_True if_False mapErr_success)
  have "applyRoles (quiet t) clientID username want = forEach full [''openshell-admin'', ''openshell-user'']"
    unfolding applyRoles_def allGatewayKcRoles_def full_def by (rule refl)
  then have run: "applyRoles (quiet t) clientID username want w = (Inr (), w2)"
    by (simp only: forEach.simps andThen_def lift [OF w1(1)] lift [OF w2(1)] prod.case sum.case ret_run)
  have "change ''openshell-user'' (change ''openshell-admin'' G) = regrant (kuID u) (kcID c) want G" for G
    unfolding change_def regrant_def
    by (rule regrant_pair) (use assms(2) in \<open>simp_all add: allGatewayKcRoles_def\<close>)
  with run w1(2) w2(2) show ?thesis by simp
qed

lemma effectiveKcRoles_quiet:
  fixes w :: "('s bridge, rcall) kworld"
  assumes "bridgeReady r rb clientID c u items (kwState w)"
  shows "\<exists>w'. effectiveKcRoles r (quiet t) rb x w = (Inr (unionKcRoles items x), w') \<and> kwState w' = kwState w"
  using assms by (auto simp: bridgeReady_def effectiveKcRoles_def ClusterFilter_def kread_quiet andThen_def mapErr_def)

definition wanted :: "EventType \<Rightarrow> cpBinding \<Rightarrow> cpBinding option list \<Rightarrow> string set" where
  "wanted typ rb items =
     (if typ = EventDeleted then unionKcRoles items (bdId rb)
      else unionKcRoles items [] \<union> set (case keycloakRoleMap (bdRoleName rb) of None \<Rightarrow> [] | Some rs \<Rightarrow> rs))"

lemma desiredRoles_quiet:
  fixes w :: "('s bridge, rcall) kworld"
  assumes "bridgeReady r rb clientID c u items (kwState w)" "keycloakRoleMap (bdRoleName rb) = Some backed"
  shows "\<exists>w'. desiredRoles r (quiet t) typ i rb backed w = (Inr (wanted typ rb items), w') \<and> kwState w' = kwState w"
proof -
  let ?x = "if typ = EventDeleted then bdId rb else []"
  obtain w1 where w1: "effectiveKcRoles r (quiet t) rb ?x w = (Inr (unionKcRoles items ?x), w1)" "kwState w1 = kwState w"
    using effectiveKcRoles_quiet [OF assms(1)] by blast
  obtain w2 where w2: "effectiveKcRoles r (quiet t) rb ?x w1 = (Inr (unionKcRoles items ?x), w2)" "kwState w2 = kwState w"
    using effectiveKcRoles_quiet [of r rb clientID c u items w1] assms(1) w1(2) by metis
  show ?thesis
    using w1 w2 assms(2) by (auto simp: desiredRoles_def Let_def andThen_def mapErr_def wanted_def)
qed

lemma reconcileBinding_quiet:
  fixes w :: "('s bridge, rcall) kworld"
  assumes "evResource ev = Some rb" "bridgeReady r rb clientID c u items (kwState w)"
    and "keycloakRoleMap (bdRoleName rb) = Some backed"
  shows "\<exists>w'. reconcileBinding r (quiet t) ev w = (Inr (), w') \<and>
    kwState w' = (kwState w)\<lparr>rmGrants := regrant (kuID u) (kcID c) (wanted (evType ev) rb items) (rmGrants (kwState w))\<rparr>"
proof -
  obtain gid gw where g: "bdGatewayId rb = Some gid" "gid \<noteq> []" "rrGetGateway r gid (brApi (kwState w)) = Inr gw"
      "gatewayKeycloakClientID (rrParseOidc r) gid gw = Inr clientID" "gwGetClusterId gw = rrClusterID r"
    using assms(2) by (auto simp: bridgeReady_def)
  let ?w1 = "w\<lparr>kwTick := Suc (kwTick w), kwLog := kwLog w @ [(RpcGetGateway gid, kwState w)]\<rparr>"
  have resolve: "resolveKeycloakClientID r (quiet t) gid w = (Inr (clientID, rrClusterID r), ?w1)"
    using g by (simp add: resolveKeycloakClientID_def kread_quiet andThen_def mapErr_def)
  have "bridgeReady r rb clientID c u items (kwState ?w1)" using assms(2) by simp
  from desiredRoles_quiet [OF this assms(3), of t "evType ev" "evResourceID ev"] obtain w2 where
    w2: "desiredRoles r (quiet t) (evType ev) (evResourceID ev) rb backed ?w1 = (Inr (wanted (evType ev) rb items), w2)"
      "kwState w2 = kwState w" by auto
  have "wanted (evType ev) rb items \<subseteq> set allGatewayKcRoles"
    using unionKcRoles_roles keycloakRoleMap_roles [OF assms(3)] by (auto simp: wanted_def assms(3))
  moreover have "\<forall>role\<in>set allGatewayKcRoles. present (kwState w2) clientID (bdUsername rb) role c u"
    using assms(2) w2(2) by (auto simp: bridgeReady_def)
  ultimately obtain w3 where
    w3: "applyRoles (quiet t) clientID (bdUsername rb) (wanted (evType ev) rb items) w2 = (Inr (), w3)"
      "kwState w3 = (kwState w2)\<lparr>rmGrants := regrant (kuID u) (kcID c) (wanted (evType ev) rb items) (rmGrants (kwState w2))\<rparr>"
    using applyRoles_quiet by blast
  have "reconcileBinding r (quiet t) ev w = (Inr (), w3)"
    using assms g resolve w2(1) w3(1)
    by (auto simp: reconcileBinding_def Let_def strptr_def bridgeReady_def andThen_def)
  with w2(2) w3(2) show ?thesis by simp
qed

lemma Handle_quiet:
  fixes w :: "('s bridge, rcall) kworld"
  assumes "evResource ev = Some rb" "bridgeReady r rb clientID c u items (kwState w)"
    and "keycloakRoleMap (bdRoleName rb) \<noteq> None" "evResourceID ev \<notin> brActive (kwState w)"
  shows "\<exists>w'. Handle r (quiet t) ev w = (Inr (), w') \<and>
    kwState w' = (kwState w)\<lparr>rmGrants := regrant (kuID u) (kcID c) (wanted (evType ev) rb items) (rmGrants (kwState w))\<rparr>"
proof -
  let ?w1 = "setActive (insert (evResourceID ev) (brActive (kwState w))) w"
  obtain backed where b: "keycloakRoleMap (bdRoleName rb) = Some backed" using assms(3) by blast
  have "bridgeReady r rb clientID c u items (kwState ?w1)"
    using assms(2) by (simp add: bridgeReady_def setActive_def present_def rmClient_def)
  from reconcileBinding_quiet [OF assms(1) this b] obtain w2 where
    w2: "reconcileBinding r (quiet t) ev ?w1 = (Inr (), w2)"
      "kwState w2 = (kwState ?w1)\<lparr>rmGrants := regrant (kuID u) (kcID c) (wanted (evType ev) rb items) (rmGrants (kwState ?w1))\<rparr>"
    by blast
  let ?w3 = "setActive (brActive (kwState w2) - {evResourceID ev}) w2"
  have "Handle r (quiet t) ev w = (Inr (), ?w3)" using assms(4) w2(1) by (simp add: Handle_def)
  moreover have "kwState ?w3 = (kwState w)\<lparr>rmGrants := regrant (kuID u) (kcID c) (wanted (evType ev) rb items) (rmGrants (kwState w))\<rparr>"
    using w2(2) assms(4) by (simp add: setActive_def)
  ultimately show ?thesis by blast
qed

section \<open>What a change of a grant has behind it\<close>

fun changesGrant :: "rcall \<Rightarrow> bool" where
  "changesGrant (KAssign u c role) = True"
| "changesGrant (KRemove u c role) = True"
| "changesGrant _ = False"

definition gatewaySeen :: "'s roleBindingReconciler \<Rightarrow> string \<Rightarrow> string \<Rightarrow> (rcall \<times> 's bridge) list \<Rightarrow> bool" where
  "gatewaySeen r gid clientID log \<longleftrightarrow>
     (\<exists>k gw. (RpcGetGateway gid, k) \<in> set log \<and> rrGetGateway r gid (brApi k) = Inr gw \<and>
        gwGetClusterId gw = rrClusterID r \<and> gatewayKeycloakClientID (rrParseOidc r) gid gw = Inr clientID)"

definition clientSeen :: "string \<Rightarrow> string \<Rightarrow> (rcall \<times> 's bridge) list \<Rightarrow> bool" where
  "clientSeen clientID cid log \<longleftrightarrow>
     (\<exists>k c. (KGetClients clientID, k) \<in> set log \<and> c \<in> set (rmClients k) \<and> kcClientID c = clientID \<and> kcID c = cid)"

definition userSeen :: "string \<Rightarrow> string \<Rightarrow> (rcall \<times> 's bridge) list \<Rightarrow> bool" where
  "userSeen username uid log \<longleftrightarrow>
     (\<exists>k u. (KGetUsers username, k) \<in> set log \<and> u \<in> set (rmUsers k) \<and> kuUsername u = username \<and> kuID u = uid)"

text \<open>The states in which the bindings were read, in order, and the roles such a read backs.\<close>

definition bindingReads :: "(rcall \<times> 'c) list \<Rightarrow> 'c list" where
  "bindingReads log = map snd (filter (\<lambda>x. fst x = RpcListRoleBindings) log)"

definition backedIn :: "'s roleBindingReconciler \<Rightarrow> cpBinding \<Rightarrow> string \<Rightarrow> 's bridge \<Rightarrow> string set" where
  "backedIn r rb x k =
     (case rrListRoleBindings r (bdUserId rb) (bdGatewayId rb) (rrClusterID r) (brApi k) of
        Inl _ \<Rightarrow> {} | Inr items \<Rightarrow> unionKcRoles items x)"

text \<open>
  Why a role may go: the last read of the bindings does not back it, nor does the binding of an event
  that is no deletion; and a deletion that finds no binding left has read so twice.
\<close>

definition removalBacked :: "'s roleBindingReconciler \<Rightarrow> EventType \<Rightarrow> cpBinding \<Rightarrow> string \<Rightarrow> (rcall \<times> 's bridge) list \<Rightarrow> bool" where
  "removalBacked r typ rb role log \<longleftrightarrow>
     (let x = (if typ = EventDeleted then bdId rb else []); reads = bindingReads log
      in reads \<noteq> [] \<and> role \<notin> backedIn r rb x (last reads) \<and>
         (typ \<noteq> EventDeleted \<longrightarrow> (\<forall>rs. keycloakRoleMap (bdRoleName rb) = Some rs \<longrightarrow> role \<notin> set rs)) \<and>
         (typ = EventDeleted \<and> backedIn r rb x (last reads) = {} \<longrightarrow>
            length reads \<ge> 2 \<and> (\<forall>k\<in>set reads. backedIn r rb x k = {})))"

definition grantBacked ::
  "'s roleBindingReconciler \<Rightarrow> EventType \<Rightarrow> cpBinding \<Rightarrow> rcall \<Rightarrow> 's bridge \<Rightarrow> (rcall \<times> 's bridge) list \<Rightarrow> bool" where
  "grantBacked r typ rb l c log \<longleftrightarrow>
     (\<exists>clientID. gatewaySeen r (strptr (bdGatewayId rb)) clientID log \<and>
        (case l of
           KAssign uid cid role \<Rightarrow> clientSeen clientID cid log \<and> userSeen (bdUsername rb) uid log \<and> role \<in> set allGatewayKcRoles
         | KRemove uid cid role \<Rightarrow> clientSeen clientID cid log \<and> userSeen (bdUsername rb) uid log \<and> role \<in> set allGatewayKcRoles \<and>
             removalBacked r typ rb role log
         | _ \<Rightarrow> True))"

lemma seen_mono:
  "gatewaySeen r g i log \<Longrightarrow> gatewaySeen r g i (log @ rest)"
  "clientSeen i c log \<Longrightarrow> clientSeen i c (log @ rest)"
  "userSeen n u log \<Longrightarrow> userSeen n u (log @ rest)"
  by (force simp: gatewaySeen_def clientSeen_def userSeen_def)+

lemma bindingReads_append: "bindingReads (log @ rest) = bindingReads log @ bindingReads rest"
  by (simp add: bindingReads_def)

lemma bindingReads_none: "\<forall>x\<in>set log. fst x \<noteq> RpcListRoleBindings \<Longrightarrow> bindingReads log = []"
  by (auto simp: bindingReads_def filter_empty_conv)

text \<open>The lookups of a role's assignment.\<close>

lemma getClientUUID_seen:
  fixes w :: "('s bridge, rcall) kworld"
  assumes "getClientUUID E clientID w = (Inr cid, w1)"
  shows "\<exists>k. kwLog w1 = kwLog w @ [(KGetClients clientID, k)] \<and> (cid \<noteq> [] \<longrightarrow> clientSeen clientID cid (kwLog w1))"
proof -
  obtain cs where r: "kread E (KGetClients clientID) (srvGetClients clientID) w = (Inr cs, w1)"
      "cid = (case find (\<lambda>c. kcClientID c = clientID) cs of None \<Rightarrow> [] | Some c \<Rightarrow> kcID c)"
    using assms by (auto simp: getClientUUID_def getClient_def andThen_success)
  obtain k where k: "kwLog w1 = kwLog w @ [(KGetClients clientID, k)]" "srvGetClients clientID k = Inr cs"
    using r(1) by (rule kread_success)
  have "clientSeen clientID cid (kwLog w1)" if ne: "cid \<noteq> []"
  proof -
    obtain c where c: "find (\<lambda>c. kcClientID c = clientID) cs = Some c" "cid = kcID c"
      using r(2) ne by (cases "find (\<lambda>c. kcClientID c = clientID) cs") auto
    then have "c \<in> set (rmClients k)" "kcClientID c = clientID"
      using find_ex [OF c(1)] k(2) by (auto simp: srvGetClients_def)
    then show ?thesis using k(1) c(2) unfolding clientSeen_def by auto
  qed
  with k(1) show ?thesis by blast
qed

lemma getUserUUID_seen:
  fixes w :: "('s bridge, rcall) kworld"
  assumes "getUserUUID E username w = (Inr uid, w1)"
  shows "\<exists>k. kwLog w1 = kwLog w @ [(KGetUsers username, k)] \<and> userSeen username uid (kwLog w1)"
proof -
  obtain us u where r: "kread E (KGetUsers username) (srvGetUsers username) w = (Inr us, w1)"
      "find (\<lambda>u. kuUsername u = username) us = Some u" "uid = kuID u"
    using assms by (auto simp: getUserUUID_def andThen_success split: option.splits)
  obtain k where k: "kwLog w1 = kwLog w @ [(KGetUsers username, k)]" "srvGetUsers username k = Inr us"
    using r(1) by (rule kread_success)
  have "u \<in> set (rmUsers k)" "kuUsername u = username"
    using find_ex [OF r(2)] k(2) by (auto simp: srvGetUsers_def)
  then show ?thesis using k(1) r(3) unfolding userSeen_def by auto
qed

lemma quiet_lookups:
  "steps (avoids changesGrant) (getClientUUID E i)"
  "steps (avoids changesGrant) (getClientRoleUUID E c role)"
  "steps (avoids changesGrant) (getUserUUID E n)"
  unfolding getClientUUID_def getClient_def getClientRoleUUID_def getUserUUID_def
  by (auto intro!: avoids_rules split: option.split)

lemma getClientRoleUUID_log:
  "getClientRoleUUID E c role w = (Inr x, w1) \<Longrightarrow> \<exists>k. kwLog w1 = kwLog w @ [(KGetRole c role, k)]"
  unfolding getClientRoleUUID_def by (erule kread_success) blast

text \<open>Nothing in the assignment of a role reads the bindings.\<close>

lemma roles_no_reads:
  "steps (avoids (\<lambda>l. l = RpcListRoleBindings)) (AssignClientRole E i n role)"
  "steps (avoids (\<lambda>l. l = RpcListRoleBindings)) (RemoveClientRole E i n role)"
  unfolding AssignClientRole_def RemoveClientRole_def getClientUUID_def getClient_def getClientRoleUUID_def getUserUUID_def
  by (auto intro!: avoids_rules split: option.split sum.split)

text \<open>The state of the history in which roles may be changed.\<close>

definition mayApply ::
  "'s roleBindingReconciler \<Rightarrow> EventType \<Rightarrow> cpBinding \<Rightarrow> string \<Rightarrow> string set \<Rightarrow> (rcall \<times> 's bridge) list \<Rightarrow> bool" where
  "mayApply r typ rb clientID desired log \<longleftrightarrow>
     gatewaySeen r (strptr (bdGatewayId rb)) clientID log \<and> (\<forall>role. role \<notin> desired \<longrightarrow> removalBacked r typ rb role log)"

lemma mayApply_mono:
  assumes "mayApply r typ rb i desired log" "\<forall>x\<in>set rest. fst x \<noteq> RpcListRoleBindings"
  shows "mayApply r typ rb i desired (log @ rest)"
  using assms by (simp add: mayApply_def seen_mono removalBacked_def bindingReads_append bindingReads_none)

lemma AssignClientRole_guarded:
  fixes w :: "('s bridge, rcall) kworld"
  assumes "mayApply r typ rb i desired (kwLog w)" "role \<in> set allGatewayKcRoles"
  shows "guarded changesGrant (grantBacked r typ rb) w (snd (AssignClientRole E i (bdUsername rb) role w))"
  unfolding AssignClientRole_def
proof (rule guarded.run_andThen, goal_cases)
  case 1
  then show ?case using quiet_lookups(1) [of E i] by (simp add: steps_def avoids_guarded)
next
  case (2 cid w1)
  then have g1: "getClientUUID E i w = (Inr cid, w1)" by simp
  from getClientUUID_seen [OF g1] obtain k1 where
    w1: "kwLog w1 = kwLog w @ [(KGetClients i, k1)]" "cid \<noteq> [] \<longrightarrow> clientSeen i cid (kwLog w1)" by blast
  show ?case
  proof (cases "cid = []")
    case True
    then show ?thesis by (simp add: guarded.refl)
  next
    case False
    have "guarded changesGrant (grantBacked r typ rb) w1 (snd (andThen (mapErr (errorfW (''get role UUID for '' @ role @ '' on '' @ i @ '': ''))
              (getClientRoleUUID E cid role)) (\<lambda>roleUUID.
            andThen (mapErr (errorfW (''get user UUID for '' @ bdUsername rb @ '': '')) (getUserUUID E (bdUsername rb))) (\<lambda>userUUID.
            mapErr (errorfW (''assign role '' @ role @ '' to '' @ bdUsername rb @ '' on '' @ i @ '': ''))
              (kcall E (KAssign userUUID cid role) (srvMapping ''POST'' insert userUUID cid role)))) w1))"
    proof (rule guarded.run_andThen, goal_cases)
      case 1
      then show ?case using quiet_lookups(2) [of E cid role] by (simp add: steps_def avoids_guarded)
    next
      case (2 rid w2)
      then obtain k2 where w2: "kwLog w2 = kwLog w1 @ [(KGetRole cid role, k2)]"
        using getClientRoleUUID_log [of E cid role w1 rid w2] by auto
      show ?case
      proof (rule guarded.run_andThen, goal_cases)
        case 1
        then show ?case using quiet_lookups(3) [of E] by (simp add: steps_def avoids_guarded)
      next
        case (2 uid w3)
        then obtain k3 where w3: "kwLog w3 = kwLog w2 @ [(KGetUsers (bdUsername rb), k3)]" "userSeen (bdUsername rb) uid (kwLog w3)"
          using getUserUUID_seen [of E "bdUsername rb" w2 uid w3] by auto
        have "gatewaySeen r (strptr (bdGatewayId rb)) i (kwLog w3)" "clientSeen i cid (kwLog w3)"
          using assms(1) w1 w2 w3(1) False by (simp_all add: mayApply_def seen_mono del: append_assoc)
        then have "grantBacked r typ rb (KAssign uid cid role) c (kwLog w3)" for c
          unfolding grantBacked_def using w3(2) assms(2) by auto
        then show ?case unfolding mapErr_state by (intro kcall_guarded)
      qed
    qed
    with False show ?thesis by simp
  qed
qed

lemma RemoveClientRole_guarded:
  fixes w :: "('s bridge, rcall) kworld"
  assumes "mayApply r typ rb i desired (kwLog w)" "role \<in> set allGatewayKcRoles" "role \<notin> desired"
  shows "guarded changesGrant (grantBacked r typ rb) w (snd (RemoveClientRole E i (bdUsername rb) role w))"
  unfolding RemoveClientRole_def
proof (rule guarded.run_andThen, goal_cases)
  case 1
  then show ?case using quiet_lookups(1) [of E i] by (simp add: steps_def avoids_guarded)
next
  case (2 cid w1)
  then have g1: "getClientUUID E i w = (Inr cid, w1)" by simp
  from getClientUUID_seen [OF g1] obtain k1 where
    w1: "kwLog w1 = kwLog w @ [(KGetClients i, k1)]" "cid \<noteq> [] \<longrightarrow> clientSeen i cid (kwLog w1)" by blast
  show ?case
  proof (cases "cid = []")
    case True
    then show ?thesis by (simp add: guarded.refl)
  next
    case False
    have "guarded changesGrant (grantBacked r typ rb) w1 (snd (andThen (mapErr (errorfW (''get role UUID for '' @ role @ '' on '' @ i @ '': ''))
              (getClientRoleUUID E cid role)) (\<lambda>roleUUID.
            andThen (attempt (getUserUUID E (bdUsername rb))) (\<lambda>user.
            case user of
              Inl err \<Rightarrow> if asUserNotFound err then ret ()
                         else fail (errorfW (''get user UUID for '' @ bdUsername rb @ '': '') err)
            | Inr userUUID \<Rightarrow>
                mapErr (errorfW (''remove role '' @ role @ '' from '' @ bdUsername rb @ '' on '' @ i @ '': ''))
                  (kcall E (KRemove userUUID cid role)
                    (srvMapping ''DELETE'' (\<lambda>x G. G - {x}) userUUID cid role)))) w1))"
    proof (rule guarded.run_andThen, goal_cases)
      case 1
      then show ?case using quiet_lookups(2) [of E cid role] by (simp add: steps_def avoids_guarded)
    next
      case (2 rid w2)
      then obtain k2 where w2: "kwLog w2 = kwLog w1 @ [(KGetRole cid role, k2)]"
        using getClientRoleUUID_log [of E cid role w1 rid w2] by auto
      show ?case
      proof (rule guarded.run_andThen, goal_cases)
        case 1
        then show ?case using quiet_lookups(3) [of E "bdUsername rb"] by (simp add: steps_def avoids_guarded)
      next
        case (2 user w3)
        show ?case
        proof (cases user)
          case (Inl err)
          then show ?thesis by (simp add: guarded.refl)
        next
          case (Inr uid)
          with 2 have "getUserUUID E (bdUsername rb) w2 = (Inr uid, w3)" by (auto simp: prod_eq_iff)
          then obtain k3 where w3: "kwLog w3 = kwLog w2 @ [(KGetUsers (bdUsername rb), k3)]" "userSeen (bdUsername rb) uid (kwLog w3)"
            using getUserUUID_seen [of E "bdUsername rb" w2 uid w3] by auto
          have "clientSeen i cid (kwLog w3)"
            using w1 w2 w3(1) False by (simp add: seen_mono del: append_assoc)
          moreover have "mayApply r typ rb i desired (kwLog w3)"
            using mayApply_mono [OF assms(1), of "[(KGetClients i, k1), (KGetRole cid role, k2), (KGetUsers (bdUsername rb), k3)]"]
              w1(1) w2 w3(1) by simp
          ultimately have "grantBacked r typ rb (KRemove uid cid role) c (kwLog w3)" for c
            unfolding grantBacked_def mayApply_def using w3(2) assms(2,3) by auto
          then show ?thesis unfolding Inr sum.case mapErr_state by (intro kcall_guarded)
        qed
      qed
    qed
    with False show ?thesis by (simp only: if_False)
  qed
qed

lemma effectiveKcRoles_read:
  fixes w :: "('s bridge, rcall) kworld"
  assumes "effectiveKcRoles r E rb x w = (Inr roles, w1)" "bdGatewayId rb = Some gid"
  shows "\<exists>k. kwLog w1 = kwLog w @ [(RpcListRoleBindings, k)] \<and> roles = backedIn r rb x k"
proof -
  obtain items where i: "kread E RpcListRoleBindings (\<lambda>k. rrListRoleBindings r (bdUserId rb) (bdGatewayId rb) (rrClusterID r) (brApi k)) w = (Inr items, w1)"
      "roles = unionKcRoles items x"
    using assms by (auto simp: effectiveKcRoles_def ClusterFilter_def andThen_success split: sum.splits if_splits)
  then obtain k where "kwLog w1 = kwLog w @ [(RpcListRoleBindings, k)]"
      "rrListRoleBindings r (bdUserId rb) (bdGatewayId rb) (rrClusterID r) (brApi k) = Inr items"
    by (elim kread_success)
  with i(2) show ?thesis by (auto simp: backedIn_def)
qed

lemma desired_cases:
  assumes "(if c then ret a else if d then andThen m (\<lambda>x. if x \<noteq> {} then fail e else ret b) else ret b) v = (Inr z, v1)"
  shows "c \<and> z = a \<and> v1 = v \<or> \<not> c \<and> \<not> d \<and> z = b \<and> v1 = v \<or> \<not> c \<and> d \<and> z = b \<and> m v = (Inr {}, v1)"
  using assms by (auto simp: andThen_success split: if_splits)

lemma case_ret:
  "(case s of Inl e \<Rightarrow> fail (f e) | Inr x \<Rightarrow> ret (g x)) v = (Inr y, v1) \<Longrightarrow> \<exists>x. s = Inr x \<and> y = g x \<and> v1 = v"
  by (cases s) auto

lemma desiredRoles_backed:
  fixes w :: "('s bridge, rcall) kworld"
  assumes run: "desiredRoles r E typ i rb backed w = (Inr desired, w')"
    and rb: "bdGatewayId rb = Some gid" "keycloakRoleMap (bdRoleName rb) = Some backed" "bindingReads (kwLog w) = []"
  shows "(\<exists>new. kwLog w' = kwLog w @ new) \<and> (\<forall>role. role \<notin> desired \<longrightarrow> removalBacked r typ rb role (kwLog w'))"
proof -
  let ?x = "if typ = EventDeleted then bdId rb else []"
  obtain one w1 where one: "effectiveKcRoles r E rb ?x w = (Inr one, w1)"
    and rest: "(if typ \<noteq> EventDeleted then ret (one \<union> set backed)
           else if one = {} then
             andThen (mapErr (errorfW (''confirm absence of surviving role bindings for role binding '' @ i @ '' before revoke: ''))
                 (effectiveKcRoles r E rb ?x))
               (\<lambda>again. if again \<noteq> {} then
                    fail (PlainErr (''role binding '' @ i @ '': first ListRoleBindings returned empty but the confirming read found surviving client role(s); requeuing''))
                  else ret one)
           else ret one) w1 = (Inr desired, w')"
    using run unfolding desiredRoles_def Let_def andThen_success mapErr_success by blast
  obtain k1 where k1: "kwLog w1 = kwLog w @ [(RpcListRoleBindings, k1)]" "one = backedIn r rb ?x k1"
    using effectiveKcRoles_read [OF one rb(1)] by blast
  have reads1: "bindingReads (kwLog w1) = [k1]" using rb(3) k1(1) by (simp add: bindingReads_append) (simp add: bindingReads_def)
  from desired_cases [OF rest]
  consider (kept) "typ \<noteq> EventDeleted" "desired = one \<union> set backed" "w' = w1"
    | (some) "typ = EventDeleted" "one \<noteq> {}" "desired = one" "w' = w1"
    | (none) "typ = EventDeleted" "one = {}" "desired = {}" "effectiveKcRoles r E rb ?x w1 = (Inr {}, w')"
    unfolding mapErr_success by blast
  then show ?thesis
  proof cases
    case kept
    with rb(2) k1 reads1 show ?thesis by (auto simp: removalBacked_def Let_def)
  next
    case some
    with k1 reads1 show ?thesis by (auto simp: removalBacked_def Let_def)
  next
    case none
    obtain k2 where k2: "kwLog w' = kwLog w1 @ [(RpcListRoleBindings, k2)]" "{} = backedIn r rb ?x k2"
      using effectiveKcRoles_read [OF none(4) rb(1)] by blast
    have "bindingReads (kwLog w') = [k1, k2]" using reads1 k2(1) by (simp add: bindingReads_append) (simp add: bindingReads_def)
    with none k1 k2 show ?thesis by (auto simp: removalBacked_def Let_def)
  qed
qed

lemma applyRole_step:
  fixes w :: "('s bridge, rcall) kworld"
  assumes "mayApply r typ rb i desired (kwLog w)" "role \<in> set allGatewayKcRoles"
  shows "guarded changesGrant (grantBacked r typ rb) w
    (snd ((if role \<in> desired then mapErr f (AssignClientRole E i (bdUsername rb) role)
           else mapErr g (RemoveClientRole E i (bdUsername rb) role)) w))"
  using AssignClientRole_guarded [OF assms] RemoveClientRole_guarded [OF assms]
  by (cases "role \<in> desired") (simp_all only: if_True if_False mapErr_state not_False_eq_True simp_thms)

lemma applyRole_kept:
  fixes w :: "('s bridge, rcall) kworld"
  assumes "mayApply r typ rb i desired (kwLog w)"
    and "(if role \<in> desired then mapErr f (AssignClientRole E i (bdUsername rb) role)
           else mapErr g (RemoveClientRole E i (bdUsername rb) role)) w = (Inr x, w1)"
  shows "mayApply r typ rb i desired (kwLog w1)"
proof -
  have "avoids (\<lambda>l. l = RpcListRoleBindings) w w1"
    using assms(2) roles_no_reads [of E i "bdUsername rb" role]
    by (cases "role \<in> desired") (simp_all only: if_True if_False mapErr_success avoids_run)
  then obtain new where "kwLog w1 = kwLog w @ new" "\<forall>x\<in>set new. fst x \<noteq> RpcListRoleBindings"
    by (auto simp: avoids_def)
  with mayApply_mono [OF assms(1)] show ?thesis by simp
qed

lemma applyRoles_guarded:
  fixes w :: "('s bridge, rcall) kworld"
  assumes "mayApply r typ rb i desired (kwLog w)" "set rs \<subseteq> set allGatewayKcRoles"
  shows "guarded changesGrant (grantBacked r typ rb) w
    (snd (forEach (\<lambda>role. if role \<in> desired then mapErr (f role) (AssignClientRole E i (bdUsername rb) role)
           else mapErr (g role) (RemoveClientRole E i (bdUsername rb) role)) rs w))"
  using assms
proof (induction rs arbitrary: w)
  case Nil
  then show ?case by (simp add: guarded.refl)
next
  case (Cons role rs)
  show ?case
    unfolding forEach.simps
  proof (rule guarded.run_andThen, goal_cases)
    case 1
    show ?case by (rule applyRole_step [OF Cons.prems(1)]) (use Cons.prems(2) in simp)
  next
    case (2 x w1)
    show ?case by (rule Cons.IH [OF applyRole_kept [OF Cons.prems(1) 2]]) (use Cons.prems(2) in simp)
  qed
qed

lemma lookups_no_grants:
  "steps (avoids changesGrant) (resolveKeycloakClientID r E gid)"
  "steps (avoids changesGrant) (effectiveKcRoles r E rb x)"
  "steps (avoids changesGrant) (desiredRoles r E typ i rb backed)"
proof -
  show r: "steps (avoids changesGrant) (resolveKeycloakClientID r E gid)" for gid
    unfolding resolveKeycloakClientID_def by (auto intro!: avoids_rules split: sum.split)
  show e: "steps (avoids changesGrant) (effectiveKcRoles r E rb x)" for x
    unfolding effectiveKcRoles_def by (auto intro!: avoids_rules split: option.split sum.split)
  show "steps (avoids changesGrant) (desiredRoles r E typ i rb backed)"
    unfolding desiredRoles_def Let_def by (auto intro!: avoids_rules e)
qed

lemma resolve_seen:
  fixes w :: "('s bridge, rcall) kworld"
  assumes "resolveKeycloakClientID r E gid w = (Inr (clientID, clusterID), w1)"
  shows "\<exists>k. kwLog w1 = kwLog w @ [(RpcGetGateway gid, k)] \<and> (clusterID = rrClusterID r \<longrightarrow> gatewaySeen r gid clientID (kwLog w1))"
proof -
  obtain gw s1 where gw: "kread E (RpcGetGateway gid) (\<lambda>k. rrGetGateway r gid (brApi k)) w = (Inr gw, s1)"
      and c: "(case gatewayKeycloakClientID (rrParseOidc r) gid gw of
          Inl err \<Rightarrow> fail (errorfW (''resolve Keycloak client for gateway '' @ gid @ '': '') err)
        | Inr clientID \<Rightarrow> ret (clientID, gwGetClusterId gw)) s1 = (Inr (clientID, clusterID), w1)"
    using assms unfolding resolveKeycloakClientID_def andThen_success mapErr_success by blast
  from case_ret [OF c] gw have g: "kread E (RpcGetGateway gid) (\<lambda>k. rrGetGateway r gid (brApi k)) w = (Inr gw, w1)"
      "gatewayKeycloakClientID (rrParseOidc r) gid gw = Inr clientID" "clusterID = gwGetClusterId gw"
    by auto
  then obtain k where "kwLog w1 = kwLog w @ [(RpcGetGateway gid, k)]" "rrGetGateway r gid (brApi k) = Inr gw"
    by (elim kread_success)
  with g show ?thesis unfolding gatewaySeen_def by auto
qed

lemma guards_shape:
  assumes "\<And>x. m = Some x \<Longrightarrow> b \<noteq> [] \<Longrightarrow> R w (snd (body x w))" "R w w"
  shows "R w (snd ((if \<not> a then ret () else if b = [] then ret ()
      else case m of None \<Rightarrow> if c then fail e else ret () | Some x \<Rightarrow> if d then fail e2 else body x) w))"
  using assms by (auto split: option.split)

lemma reconcileBinding_guarded:
  fixes w :: "('s bridge, rcall) kworld"
  assumes rb: "evResource ev = Some rb" and "bindingReads (kwLog w) = []"
  shows "guarded changesGrant (grantBacked r (evType ev) rb) w (snd (reconcileBinding r E ev w))"
proof -
  let ?gid = "strptr (bdGatewayId rb)"
  have main: "guarded changesGrant (grantBacked r (evType ev) rb) w
      (snd (andThen (attempt (resolveKeycloakClientID r E ?gid)) (\<lambda>resolved.
                   case resolved of
                     Inl err \<Rightarrow> if isNotFoundRPC err then ret ()
                                else fail (errorfW (''resolve keycloak client id for role binding '' @ evResourceID ev @ '': '') err)
                   | Inr (clientID, gatewayClusterID) \<Rightarrow>
                       if gatewayClusterID \<noteq> rrClusterID r then ret ()
                       else andThen (desiredRoles r E (evType ev) (evResourceID ev) rb backed)
                         (applyRoles E clientID (bdUsername rb))) w))"
    if backed: "keycloakRoleMap (bdRoleName rb) = Some backed" and gid: "?gid \<noteq> []" for backed
  proof (rule guarded.run_andThen, goal_cases)
    case 1
    then show ?case using lookups_no_grants(1) [of r E ?gid] by (simp add: steps_def avoids_guarded)
  next
    case (2 resolved w1)
    show ?case
    proof (cases resolved)
      case (Inl err)
      then show ?thesis by (simp add: guarded.refl)
    next
      case (Inr pair)
      obtain clientID clusterID where pair: "pair = (clientID, clusterID)" by force
      with 2 Inr have "resolveKeycloakClientID r E ?gid w = (Inr (clientID, clusterID), w1)"
        by (auto simp: prod_eq_iff)
      then obtain k where k: "kwLog w1 = kwLog w @ [(RpcGetGateway ?gid, k)]"
          "clusterID = rrClusterID r \<longrightarrow> gatewaySeen r ?gid clientID (kwLog w1)"
        using resolve_seen by blast
      show ?thesis
      proof (cases "clusterID = rrClusterID r")
        case False
        with Inr pair show ?thesis by (simp add: guarded.refl)
      next
        case True
        have "guarded changesGrant (grantBacked r (evType ev) rb) w1
            (snd (andThen (desiredRoles r E (evType ev) (evResourceID ev) rb backed) (applyRoles E clientID (bdUsername rb)) w1))"
        proof (rule guarded.run_andThen, goal_cases)
          case 1
          then show ?case using lookups_no_grants(3) [of r E] by (simp add: steps_def avoids_guarded)
        next
          case (2 desired w2)
          obtain g where g: "bdGatewayId rb = Some g" using gid by (cases "bdGatewayId rb") (auto simp: strptr_def)
          have "bindingReads (kwLog w1) = []"
            using k(1) assms(2) by (simp add: bindingReads_append) (simp add: bindingReads_def)
          from desiredRoles_backed [OF 2 g backed this] k(2) True
          have "mayApply r (evType ev) rb clientID desired (kwLog w2)"
            by (auto simp: mayApply_def seen_mono)
          then show ?case unfolding applyRoles_def by (rule applyRoles_guarded) simp
        qed
        with Inr pair True show ?thesis by (simp only: sum.case prod.case simp_thms if_False)
      qed
    qed
  qed
  show ?thesis
    unfolding reconcileBinding_def rb Let_def option.case
    by (rule guards_shape) (assumption | rule main guarded.refl)+
qed

lemma setActive_log: "kwLog (setActive A w) = kwLog w"
  by (simp add: setActive_def)

lemma guarded_logs: "kwLog u = kwLog u' \<Longrightarrow> kwLog v = kwLog v' \<Longrightarrow> guarded D J u v = guarded D J u' v'"
  by (simp add: guarded_def)

lemma Handle_guarded:
  fixes w :: "('s bridge, rcall) kworld"
  assumes "evResource ev = Some rb" "bindingReads (kwLog w) = []"
  shows "guarded changesGrant (grantBacked r (evType ev) rb) w (snd (Handle r E ev w))"
proof (cases "evResourceID ev \<in> brActive (kwState w)")
  case True
  then show ?thesis by (simp add: Handle_def guarded.refl)
next
  case False
  let ?w1 = "setActive (insert (evResourceID ev) (brActive (kwState w))) w"
  have "guarded changesGrant (grantBacked r (evType ev) rb) ?w1 (snd (reconcileBinding r E ev ?w1))"
    by (rule reconcileBinding_guarded) (use assms in \<open>simp_all add: setActive_log\<close>)
  then show ?thesis
    using False by (cases "reconcileBinding r E ev ?w1") (simp add: Handle_def guarded_def setActive_log)
qed

section \<open>Properties\<close>

text \<open>
  C7: An event that nothing disturbs leaves the user, on the gateway's Keycloak client, exactly the
  roles of the bindings that survive (with those of a created or updated binding itself), and every
  other grant as it was: other roles, other clients, other users.
\<close>

theorem roles_follow_bindings:
  fixes w :: "('s bridge, rcall) kworld"
  assumes "evResource ev = Some rb" "bridgeReady r rb clientID c u items (kwState w)"
    and "keycloakRoleMap (bdRoleName rb) \<noteq> None" "evResourceID ev \<notin> brActive (kwState w)"
  shows "\<exists>w'. Handle r (quiet t) ev w = (Inr (), w') \<and>
    kwState w' = (kwState w)\<lparr>rmGrants := regrant (kuID u) (kcID c) (wanted (evType ev) rb items) (rmGrants (kwState w))\<rparr>"
  by (rule Handle_quiet [OF assms])

text \<open>A gateway's client with both roles, its owner and a viewer whose binding goes.\<close>

definition viewerBinding :: cpBinding where
  "viewerBinding = \<lparr>bdId = ''b1'', bdUserId = Some ''u1'', bdGatewayId = Some ''g1'', bdRoleName = ''gateway:viewer'', bdUsername = ''ann''\<rparr>"

definition bridgeClient :: keycloakClient where
  "bridgeClient = (newKeycloakClient ''g1'' ''c1'')\<lparr>kcRoles := [(''openshell-admin'', ''r1''), (''openshell-user'', ''r2'')]\<rparr>"

definition bridgeUser :: keycloakUser where
  "bridgeUser = \<lparr>kuID = ''k1'', kuUsername = ''ann'', kuEmail = [], kuFirstName = [], kuLastName = []\<rparr>"

definition bridgeGateway :: cpGateway where
  "bridgeGateway = \<lparr>gwMetadata = None, gwPhase = None,
     gwRest = \<lparr>gfName = ''g'', gfNamespace = None, gfClusterId = Some ''c1'', gfOidc = None\<rparr>\<rparr>"

definition bridgeReconciler :: "unit roleBindingReconciler" where
  "bridgeReconciler =
     \<lparr>rrKeycloak = True, rrClusterID = ''c1'', rrGetGateway = (\<lambda>_ _. Inr (Some bridgeGateway)),
      rrListRoleBindings = (\<lambda>_ _ _ _. Inr []), rrParseOidc = (\<lambda>_. Inr ([], []))\<rparr>"

definition bridgeWorld :: "unit bridge" where
  "bridgeWorld = \<lparr>rmClients = [bridgeClient], rmUsers = [bridgeUser],
     rmGrants = {(''k1'', ''c1'', ''openshell-user''), (''k2'', ''c1'', ''openshell-admin'')}, rmIdps = [], rmPolicies = [],
     rmPermissions = [], rmExchange = False, brApi = (), brActive = {}\<rparr>"

definition viewerGone :: "cpBinding Event" where
  "viewerGone = \<lparr>evType = EventDeleted, evResourceID = ''b1'', evResource = Some viewerBinding, evPhaseBeforeRetry = []\<rparr>"

lemma bridgeWorld_ready: "bridgeReady bridgeReconciler viewerBinding ''g1'' bridgeClient bridgeUser [] bridgeWorld"
  by (simp add: bridgeReady_def bridgeReconciler_def viewerBinding_def bridgeGateway_def bridgeWorld_def bridgeClient_def newKeycloakClient_def bridgeUser_def
      strings_TrimSpace_def go_space_def gatewayKeycloakClientID_def strptr_def asciiControl_def byteOf_def gwGetClusterId_def
      allGatewayKcRoles_def present_def rmClient_def)

theorem roles_follow_bindings_witness:
  "\<exists>w'. Handle bridgeReconciler (quiet 0) viewerGone (freshWorld bridgeWorld) = (Inr (), w') \<and>
     rmGrants (kwState w') = {(''k2'', ''c1'', ''openshell-admin'')}"
proof -
  have "bridgeReady bridgeReconciler viewerBinding ''g1'' bridgeClient bridgeUser [] (kwState (freshWorld bridgeWorld))"
    using bridgeWorld_ready by (simp add: freshWorld_def)
  from roles_follow_bindings [OF _ this, of viewerGone 0] obtain w' where
    w': "Handle bridgeReconciler (quiet 0) viewerGone (freshWorld bridgeWorld) = (Inr (), w')"
      "kwState w' = bridgeWorld\<lparr>rmGrants := regrant ''k1'' ''c1'' (wanted EventDeleted viewerBinding []) (rmGrants bridgeWorld)\<rparr>"
    by (auto simp: viewerGone_def viewerBinding_def keycloakRoleMap_def freshWorld_def bridgeWorld_def bridgeUser_def bridgeClient_def newKeycloakClient_def)
  have "wanted EventDeleted viewerBinding [] = {}" by (simp add: wanted_def unionKcRoles_def)
  then have "regrant ''k1'' ''c1'' (wanted EventDeleted viewerBinding []) (rmGrants bridgeWorld) = {(''k2'', ''c1'', ''openshell-admin'')}"
    by (auto simp: regrant_def bridgeWorld_def allGatewayKcRoles_def)
  with w' show ?thesis by simp
qed

text \<open>
  C8: Whatever others do and whichever calls fail, a handled event assigns or removes only roles of the
  bridge's own vocabulary, of the user the binding names, on the client that a gateway of this cluster
  was read to own. A role is removed only when the last read of the bindings does not back it, nor the
  binding of the event itself where that is no deletion; and when a deletion finds no binding left, only
  after a second read that found none either.
\<close>

theorem role_changes_are_backed:
  fixes k :: "'s bridge"
  assumes "evResource ev = Some rb"
    and "kwLog (snd (Handle r E ev (freshWorld k))) = before @ (l, c) # after" "changesGrant l"
  shows "grantBacked r (evType ev) rb l c before"
proof -
  have "bindingReads (kwLog (freshWorld k)) = []" by (simp add: bindingReads_def freshWorld_def)
  from guarded_all [OF Handle_guarded [OF assms(1) this] _ assms(2,3)] show ?thesis
    by (simp add: freshWorld_def)
qed

theorem role_changes_are_backed_witness:
  "\<exists>l c before after. kwLog (snd (Handle bridgeReconciler (quiet 0) viewerGone (freshWorld bridgeWorld))) = before @ (l, c) # after \<and>
     changesGrant l \<and> grantBacked bridgeReconciler EventDeleted viewerBinding l c before"
proof -
  have "list_ex (\<lambda>x. changesGrant (fst x)) (kwLog (snd (Handle bridgeReconciler (quiet 0) viewerGone (freshWorld bridgeWorld))))"
    by (simp add: Handle_def reconcileBinding_def viewerGone_def viewerBinding_def bridgeReconciler_def freshWorld_def bridgeWorld_def
        setActive_def strptr_def keycloakRoleMap_def runs resolveKeycloakClientID_def kread_quiet kcall_quiet gatewayKeycloakClientID_def
        bridgeGateway_def asciiControl_def byteOf_def gwGetClusterId_def desiredRoles_def effectiveKcRoles_def ClusterFilter_def
        strings_TrimSpace_def go_space_def unionKcRoles_def applyRoles_def allGatewayKcRoles_def RemoveClientRole_def getClientUUID_def
        getClient_def srvGetClients_def bridgeClient_def newKeycloakClient_def bridgeUser_def getClientRoleUUID_def srvGetRole_def rmClient_def getUserUUID_def srvGetUsers_def
        srvMapping_def Let_def cong: bindK_cong mapK_cong)
  then obtain x where x: "x \<in> set (kwLog (snd (Handle bridgeReconciler (quiet 0) viewerGone (freshWorld bridgeWorld))))" "changesGrant (fst x)"
    by (auto simp: list_ex_iff)
  then obtain l c before after where
    log: "kwLog (snd (Handle bridgeReconciler (quiet 0) viewerGone (freshWorld bridgeWorld))) = before @ (l, c) # after" "changesGrant l"
    by (metis prod.collapse split_list)
  have "evResource viewerGone = Some viewerBinding" "evType viewerGone = EventDeleted" by (simp_all add: viewerGone_def)
  with role_changes_are_backed [OF this(1) log] log show ?thesis by auto
qed

end
