(* ===== verification/Gateway_Database.thy ===== *)
theory Gateway_Database
  imports Control_World
begin

text \<open>
  The database of a gateway (\<^verbatim>\<open>control-plane/internal/gateway/database.go\<close>): reading the mounted admin
  credentials, provisioning a role and a database with the tenant's Secret, removing both.

  The mounted directory is a map of its files; the test whether a text holds certificates is an
  argument, as is what the code keeps of a driver's error after stripping credentials from it. A
  statement is a call named by its kind and its object; of the server its effect is kept. The random
  password of an attempt is a function of the tick. The deadline of the probe is read from the clock. The
  data of a Secret is the list of its fields in the order of their keys. The path of the mounted
  certificates and the connection strings are not kept.
\<close>

section \<open>Admin credentials\<close>

datatype readResult = Missing | Unreadable string | Content string

datatype mount = NoDirectory string | NotADirectory | Directory "string \<Rightarrow> readResult"

record adminCredentials =
  acHost :: string
  acPort :: string
  acUser :: string
  acPassword :: string
  acDbname :: string
  acSslrootcert :: string

definition readFile :: "(string \<Rightarrow> readResult) \<Rightarrow> string \<Rightarrow> bool \<Rightarrow> chain + string" where
  "readFile files name required =
     (case files name of
        Content raw \<Rightarrow> Inr raw
      | Missing \<Rightarrow> if required then Inl (PlainErr (''gateway database admin credential '' @ name @ '': file does not exist'')) else Inr []
      | Unreadable m \<Rightarrow> Inl (PlainErr (''gateway database admin credential '' @ name @ '': '' @ m)))"

definition readTrimmed :: "(string \<Rightarrow> readResult) \<Rightarrow> string \<Rightarrow> bool \<Rightarrow> chain + string" where
  "readTrimmed files name required =
     (case readFile files name required of
        Inl err \<Rightarrow> Inl err
      | Inr raw \<Rightarrow>
          (let v = strings_TrimSpace raw
           in if required \<and> v = [] then Inl (PlainErr (''gateway database admin credential '' @ name @ '' is empty'')) else Inr v))"

text \<open>\<^verbatim>\<open>strconv.Atoi\<close> of a port: an optional sign and digits.\<close>

definition digitsValue :: "string \<Rightarrow> nat" where
  "digitsValue ds = foldl (\<lambda>n c. n * 10 + (of_char c - 48)) 0 ds"

definition portNumber :: "string \<Rightarrow> int option" where
  "portNumber s =
     (let ds = (if s \<noteq> [] \<and> (hd s = CHR ''+'' \<or> hd s = CHR ''-'') then tl s else s)
      in if ds = [] \<or> \<not> list_all (\<lambda>c. CHR ''0'' \<le> c \<and> c \<le> CHR ''9'') ds then None
         else Some (if hd s = CHR ''-'' then - int (digitsValue ds) else int (digitsValue ds)))"

text \<open>\<^verbatim>\<open>strings.TrimRight(s, "\r\n")\<close>.\<close>

definition trimNewlines :: "string \<Rightarrow> string" where
  "trimNewlines s = rev (dropWhile (\<lambda>c. c = CHR 0x0D \<or> c = CHR 0x0A) (rev s))"

abbreviation requiredSSLMode :: string where "requiredSSLMode \<equiv> ''verify-full''"
abbreviation defaultAdminDBName :: string where "defaultAdminDBName \<equiv> ''postgres''"

definition andGet :: "chain + 'a \<Rightarrow> ('a \<Rightarrow> chain + 'b) \<Rightarrow> chain + 'b" where
  "andGet r f = (case r of Inl err \<Rightarrow> Inl err | Inr x \<Rightarrow> f x)"

definition require :: "bool \<Rightarrow> string \<Rightarrow> (unit \<Rightarrow> chain + 'b) \<Rightarrow> chain + 'b" where
  "require ok m f = (if ok then f () else Inl (PlainErr m))"

definition readAdminCredentials :: "(string \<Rightarrow> bool) \<Rightarrow> string \<Rightarrow> mount \<Rightarrow> chain + adminCredentials" where
  "readAdminCredentials validPEM dir mnt =
     (if dir = [] then Inl (PlainErr ''gateway database admin credentials directory is not configured'')
      else case mnt of
        NoDirectory m \<Rightarrow> Inl (PlainErr (''gateway database admin credentials directory '' @ dir @ '': '' @ m))
      | NotADirectory \<Rightarrow> Inl (PlainErr (''gateway database admin credentials path '' @ dir @ '' is not a directory''))
      | Directory files \<Rightarrow>
          andGet (readTrimmed files ''host'' True) (\<lambda>host.
          andGet (readTrimmed files ''port'' True) (\<lambda>port.
          require (case portNumber port of None \<Rightarrow> False | Some n \<Rightarrow> 1 \<le> n \<and> n \<le> 65535)
            ''gateway database admin credential port must be a TCP port between 1 and 65535'' (\<lambda>_.
          andGet (readTrimmed files ''user'' True) (\<lambda>user.
          andGet (readFile files ''password'' True) (\<lambda>raw.
          let password = trimNewlines raw
          in require (password \<noteq> []) ''gateway database admin credential password is empty'' (\<lambda>_.
          andGet (readTrimmed files ''dbname'' False) (\<lambda>dbname.
          andGet (readTrimmed files ''sslmode'' False) (\<lambda>sslmode.
          require (sslmode = [] \<or> sslmode = requiredSSLMode)
            (''gateway database admin credential sslmode is '' @ sslmode @ ''; only verify-full is supported'') (\<lambda>_.
          andGet (readFile files ''sslrootcert'' True) (\<lambda>cert.
          require (strings_TrimSpace cert \<noteq> []) ''gateway database admin credential sslrootcert is empty'' (\<lambda>_.
          require (validPEM cert) ''gateway database admin credential sslrootcert does not contain a PEM certificate'' (\<lambda>_.
          Inr \<lparr>acHost = host, acPort = port, acUser = user, acPassword = password,
               acDbname = (if dbname = [] then defaultAdminDBName else dbname), acSslrootcert = cert\<rparr>)))))))))))))"

definition ValidateAdminCredentialsDir :: "(string \<Rightarrow> bool) \<Rightarrow> string \<Rightarrow> mount \<Rightarrow> chain option" where
  "ValidateAdminCredentialsDir validPEM dir mnt =
     (case readAdminCredentials validPEM dir mnt of Inl err \<Rightarrow> Some err | Inr _ \<Rightarrow> None)"

section \<open>Names and statements\<close>

definition gatewayDBName :: "string \<Rightarrow> string" where
  "gatewayDBName gatewayID = ''gw_'' @ strings_ToLower gatewayID"

definition pgQuoteIdent :: "string \<Rightarrow> string" where
  "pgQuoteIdent name = CHR ''\"'' # concat (map (\<lambda>c. if c = CHR ''\"'' then [c, c] else [c]) name) @ [CHR ''\"'']"

definition pgQuoteLiteral :: "string \<Rightarrow> string" where
  "pgQuoteLiteral s = concat (map (\<lambda>c. if c = CHR 0x27 then [c, c] else [c]) s)"

definition createGatewayDatabaseSQL :: "string \<Rightarrow> string" where
  "createGatewayDatabaseSQL pgName =
     ''CREATE DATABASE '' @ pgQuoteIdent pgName @ '' OWNER '' @ pgQuoteIdent pgName @ '' TEMPLATE template0''"

section \<open>The server\<close>

type_synonym ('a, 'b) dbProg = "('a site cluster, rcall, 'b) kprog"

definition pgOf :: "'a site cluster \<Rightarrow> pgServer" where
  "pgOf k = siPg (kServer k)"

definition onPg :: "(pgServer \<Rightarrow> pgServer) \<Rightarrow> 'a site cluster \<Rightarrow> 'a site cluster" where
  "onPg f k = k\<lparr>kServer := (kServer k)\<lparr>siPg := f (siPg (kServer k))\<rparr>\<rparr>"

text \<open>A statement that may be refused with a code of the server.\<close>

definition stmt :: "(pgServer \<Rightarrow> (string \<times> string) option) \<Rightarrow> (pgServer \<Rightarrow> pgServer) \<Rightarrow> 'a site cluster \<Rightarrow> (chain + unit) \<times> 'a site cluster" where
  "stmt refused f k = (case refused (pgOf k) of Some (code, m) \<Rightarrow> (Inl (PqErr code m), k) | None \<Rightarrow> (Inr (), onPg f k))"

definition accepted :: "pgServer \<Rightarrow> (string \<times> string) option" where
  "accepted p = None"

definition sqlCreateRole :: "string \<Rightarrow> string \<Rightarrow> 'a site cluster \<Rightarrow> (chain + unit) \<times> 'a site cluster" where
  "sqlCreateRole n pw =
     stmt (\<lambda>p. if pgRoles p n \<noteq> None then Some (''42710'', ''role exists'') else None) (\<lambda>p. p\<lparr>pgRoles := (pgRoles p)(n \<mapsto> pw)\<rparr>)"

definition sqlAlterRole :: "string \<Rightarrow> string \<Rightarrow> 'a site cluster \<Rightarrow> (chain + unit) \<times> 'a site cluster" where
  "sqlAlterRole n pw =
     stmt (\<lambda>p. if pgRoles p n = None then Some (''42704'', ''role does not exist'') else None) (\<lambda>p. p\<lparr>pgRoles := (pgRoles p)(n \<mapsto> pw)\<rparr>)"

definition sqlGrantRole :: "string \<Rightarrow> string \<Rightarrow> 'a site cluster \<Rightarrow> (chain + unit) \<times> 'a site cluster" where
  "sqlGrantRole n member =
     stmt (\<lambda>p. if pgRoles p n = None then Some (''42704'', ''role does not exist'') else None) (\<lambda>p. p\<lparr>pgMembers := insert (n, member) (pgMembers p)\<rparr>)"

definition sqlCreateDatabase :: "string \<Rightarrow> 'a site cluster \<Rightarrow> (chain + unit) \<times> 'a site cluster" where
  "sqlCreateDatabase n =
     stmt (\<lambda>p. if pgDatabases p n \<noteq> None then Some (''42P04'', ''database exists'')
               else if pgRoles p n = None then Some (''42704'', ''role does not exist'') else None)
       (\<lambda>p. p\<lparr>pgDatabases := (pgDatabases p)(n \<mapsto> \<lparr>pgOwner = n, pgConnect = {None}\<rparr>)\<rparr>)"

definition sqlConnect :: "(string option set \<Rightarrow> string option set) \<Rightarrow> string \<Rightarrow> 'a site cluster \<Rightarrow> (chain + unit) \<times> 'a site cluster" where
  "sqlConnect f n =
     stmt (\<lambda>p. if pgDatabases p n = None then Some (''3D000'', ''database does not exist'') else None)
       (\<lambda>p. p\<lparr>pgDatabases := (pgDatabases p)(n := map_option (\<lambda>d. d\<lparr>pgConnect := f (pgConnect d)\<rparr>) (pgDatabases p n))\<rparr>)"

definition sqlDropDatabase :: "string \<Rightarrow> 'a site cluster \<Rightarrow> (chain + unit) \<times> 'a site cluster" where
  "sqlDropDatabase n =
     stmt (\<lambda>p. if pgDatabases p n = None then Some (''3D000'', ''database does not exist'') else None)
       (\<lambda>p. p\<lparr>pgDatabases := (pgDatabases p)(n := None)\<rparr>)"

text \<open>A role that owns a database is not dropped.\<close>

definition sqlDropRole :: "string \<Rightarrow> 'a site cluster \<Rightarrow> (chain + unit) \<times> 'a site cluster" where
  "sqlDropRole n =
     stmt (\<lambda>p. if pgRoles p n = None then Some (''42704'', ''role does not exist'')
               else if \<exists>d\<in>ran (pgDatabases p). pgOwner d = n then Some (''2BP01'', ''objects depend on the role'') else None)
       (\<lambda>p. p\<lparr>pgRoles := (pgRoles p)(n := None), pgMembers := {x \<in> pgMembers p. fst x \<noteq> n \<and> snd x \<noteq> n}\<rparr>)"

definition sqlExists :: "(pgServer \<Rightarrow> bool) \<Rightarrow> 'a site cluster \<Rightarrow> chain + bool" where
  "sqlExists f k = Inr (f (pgOf k))"

text \<open>A login of the gateway's role to its database.\<close>

definition sqlLogin :: "string \<Rightarrow> string \<Rightarrow> 'a site cluster \<Rightarrow> chain + unit" where
  "sqlLogin n pw k =
     (if pgRoles (pgOf k) n \<noteq> Some pw then Inl (PqErr ''28P01'' ''password authentication failed'')
      else case pgDatabases (pgOf k) n of
        None \<Rightarrow> Inl (PqErr ''3D000'' ''database does not exist'')
      | Some d \<Rightarrow> if None \<in> pgConnect d \<or> Some n \<in> pgConnect d then Inr () else Inl (PqErr ''42501'' ''permission denied''))"

section \<open>Provisioning\<close>

text \<open>\<^verbatim>\<open>errors.As\<close> for an error of the driver.\<close>

fun pqCode :: "chain \<Rightarrow> string option" where
  "pqCode (PqErr c m) = Some c"
| "pqCode (preservePayloadForRetryError e) = pqCode e"
| "pqCode (retryReasonError e r) = pqCode e"
| "pqCode (gatewayKeycloakClientIdentityError e) = pqCode e"
| "pqCode (RenderedConfigValidationError e) = pqCode e"
| "pqCode (JoinedErr a b) = (case pqCode a of Some c \<Rightarrow> Some c | None \<Rightarrow> pqCode b)"
| "pqCode (OtherWrap m e) = pqCode e"
| "pqCode _ = None"

definition isDatabaseSourceBusy :: "chain \<Rightarrow> bool" where
  "isDatabaseSourceBusy err \<longleftrightarrow>
     pqCode err = Some ''55006'' \<or> strings_Contains (strings_ToLower (errText err)) ''being accessed by other users''"

definition connErrorCategory :: "chain \<Rightarrow> string" where
  "connErrorCategory err =
     (let lower = strings_ToLower (errText err); says = (\<lambda>words. list_ex (strings_Contains lower) words)
      in if pqCode err \<in> {Some ''28P01'', Some ''28000''} then ''auth_failed''
         else if says [''tls'', ''certificate'', ''x509'', ''ssl''] then ''tls_failed''
         else if says [''password authentication failed'', ''28p01'', ''28000''] then ''auth_failed''
         else ''unreachable'')"

definition wrapAdminConnError :: "(chain \<Rightarrow> string) \<Rightarrow> chain \<Rightarrow> chain" where
  "wrapAdminConnError redacted err =
     PlainErr (''connect to gateway database server: '' @ connErrorCategory err @ '' ('' @ redacted err @ '')'')"

definition openAdminConn :: "'a site cluster environ \<Rightarrow> ('a, unit) dbProg" where
  "openAdminConn E = kread E (SqlQuery ''ping'' ''admin'') (\<lambda>_. Inr ())"

definition enableCreateRoleSelfGrant :: "'a site cluster environ \<Rightarrow> ('a, unit) dbProg" where
  "enableCreateRoleSelfGrant E =
     andThen (attempt (kcall E (SqlExec ''SET createrole_self_grant'' ''admin'') (stmt accepted (\<lambda>p. p))))
       (\<lambda>res. case res of
          Inr _ \<Rightarrow> ret ()
        | Inl err \<Rightarrow> if pqCode err = Some ''42704'' then ret () else fail (errorfW ''set createrole_self_grant: '' err))"

text \<open>The wait before a try can end with the context; \<open>budget\<close> counts the waits until then.\<close>

fun execCreate :: "'a site cluster environ \<Rightarrow> nat \<Rightarrow> string \<Rightarrow> string \<Rightarrow> nat \<Rightarrow> chain \<Rightarrow> ('a, unit) dbProg" where
  "execCreate E budget gatewayID pgName 0 lastErr = fail (errorfW (''CREATE DATABASE for gateway '' @ gatewayID @ '': '') lastErr)"
| "execCreate E budget gatewayID pgName (Suc tries) lastErr =
     andThen (attempt (kcall E (SqlExec ''CREATE DATABASE'' pgName) (sqlCreateDatabase pgName))) (\<lambda>res.
       case res of
         Inr _ \<Rightarrow> ret ()
       | Inl err \<Rightarrow>
           if \<not> isDatabaseSourceBusy err then fail (errorfW (''CREATE DATABASE for gateway '' @ gatewayID @ '': '') err)
           else if budget = 0 then fail (errorfW (''CREATE DATABASE for gateway '' @ gatewayID @ '': '') (PlainErr ''context deadline exceeded''))
           else execCreate E (budget - 1) gatewayID pgName tries err)"

definition execCreateGatewayDatabase :: "'a site cluster environ \<Rightarrow> nat \<Rightarrow> string \<Rightarrow> string \<Rightarrow> ('a, unit) dbProg" where
  "execCreateGatewayDatabase E budget gatewayID pgName = execCreate E budget gatewayID pgName 8 (PlainErr [])"

definition ensureRole :: "'a site cluster environ \<Rightarrow> string \<Rightarrow> string \<Rightarrow> string \<Rightarrow> bool \<Rightarrow> ('a, bool) dbProg" where
  "ensureRole E pgName gatewayID password freshPassword =
     andThen (mapErr (errorfW (''check role existence for gateway '' @ gatewayID @ '': ''))
         (kread E (SqlQuery ''role'' pgName) (sqlExists (\<lambda>p. pgRoles p pgName \<noteq> None)))) (\<lambda>roleExists.
       if \<not> roleExists then
         andThen (mapErr (\<lambda>_. PlainErr (''CREATE ROLE for gateway '' @ gatewayID @ '': DDL execution failed (credentials redacted)''))
             (kcall E (SqlExec ''CREATE ROLE'' pgName) (sqlCreateRole pgName password))) (\<lambda>_. ret True)
       else if freshPassword then
         andThen (mapErr (\<lambda>_. PlainErr (''ALTER ROLE password for gateway '' @ gatewayID @ '': DDL execution failed (credentials redacted)''))
             (kcall E (SqlExec ''ALTER ROLE'' pgName) (sqlAlterRole pgName password))) (\<lambda>_. ret True)
       else ret False)"

definition reconcileGatewayDatabaseDDL ::
  "'a site cluster environ \<Rightarrow> nat \<Rightarrow> string \<Rightarrow> string \<Rightarrow> string \<Rightarrow> string \<Rightarrow> bool \<Rightarrow> ('a, bool) dbProg" where
  "reconcileGatewayDatabaseDDL E budget adminUser pgName gatewayID password freshPassword =
     andThen (ensureRole E pgName gatewayID password freshPassword) (\<lambda>changed.
     andThen (if \<not> strings_EqualFold adminUser pgName
              then mapErr (errorfW (''GRANT gateway role to admin for gateway '' @ gatewayID @ '': ''))
                (kcall E (SqlExec ''GRANT'' pgName) (sqlGrantRole pgName adminUser))
              else ret ()) (\<lambda>_.
     andThen (mapErr (errorfW (''check database existence for gateway '' @ gatewayID @ '': ''))
         (kread E (SqlQuery ''database'' pgName) (sqlExists (\<lambda>p. pgDatabases p pgName \<noteq> None)))) (\<lambda>dbExists.
     andThen (if \<not> dbExists then execCreateGatewayDatabase E budget gatewayID pgName else ret ()) (\<lambda>_.
     andThen (mapErr (errorfW (''REVOKE CONNECT for gateway '' @ gatewayID @ '': ''))
         (kcall E (SqlExec ''REVOKE CONNECT'' pgName) (sqlConnect (\<lambda>A. A - {None}) pgName))) (\<lambda>_.
     andThen (mapErr (errorfW (''GRANT CONNECT for gateway '' @ gatewayID @ '': ''))
         (kcall E (SqlExec ''GRANT CONNECT'' pgName) (sqlConnect (insert (Some pgName)) pgName))) (\<lambda>_.
     ret (changed \<or> \<not> dbExists)))))))"

section \<open>The probe and the tenant's Secret\<close>

text \<open>
  The surroundings of an operation: the directory (as it is at a tick), the test for certificates, what
  is kept of a driver's error, the random source, how many waits the context allows, and the URI that
  holds the credentials.
\<close>

record dbEnv =
  deDir :: string
  deMount :: "nat \<Rightarrow> mount"
  deValidPEM :: "string \<Rightarrow> bool"
  deRedact :: "chain \<Rightarrow> string"
  deRandom :: "nat \<Rightarrow> string option"
  deBudget :: nat
  deUri :: "adminCredentials \<Rightarrow> string \<Rightarrow> string \<Rightarrow> string"

definition readCredentials :: "dbEnv \<Rightarrow> ('a, adminCredentials) dbProg" where
  "readCredentials D w = (readAdminCredentials (deValidPEM D) (deDir D) (deMount D (kwTick w)), w)"

definition randomPassword :: "dbEnv \<Rightarrow> ('a, string) dbProg" where
  "randomPassword D w =
     (case deRandom D (kwTick w) of
        None \<Rightarrow> (Inl (PlainErr ''generate database password''), w\<lparr>kwTick := Suc (kwTick w)\<rparr>)
      | Some pw \<Rightarrow> (Inr pw, w\<lparr>kwTick := Suc (kwTick w)\<rparr>))"

abbreviation tenantProbeMaxAttempts :: nat where "tenantProbeMaxAttempts \<equiv> 6"
abbreviation tenantProbeMaxWait :: int where "tenantProbeMaxWait \<equiv> 30 * Second"

definition tenantProbeDelay :: "nat \<Rightarrow> int" where
  "tenantProbeDelay i = 200000000 * 2 ^ i"

definition pingTenant :: "'a site cluster environ \<Rightarrow> string \<Rightarrow> string \<Rightarrow> ('a, unit) dbProg" where
  "pingTenant E pgName password = kread E (SqlQuery ''ping'' pgName) (sqlLogin pgName password)"

fun probeTenant ::
  "'a site cluster environ \<Rightarrow> string \<Rightarrow> string \<Rightarrow> string \<Rightarrow> int \<Rightarrow> nat \<Rightarrow> nat \<Rightarrow> chain \<Rightarrow> ('a, unit) dbProg" where
  "probeTenant E gatewayID pgName password deadline i 0 lastErr =
     fail (PlainErr (''verify tenant connection for gateway '' @ gatewayID @ '': '' @ connErrorCategory lastErr @
       '' (driver error redacted, '' @ natText tenantProbeMaxAttempts @ '' attempts)''))"
| "probeTenant E gatewayID pgName password deadline i (Suc left) lastErr =
     andThen (if i = 0 then ret ()
              else andThen (readClock E) (\<lambda>now.
                if deadline \<le> now + tenantProbeDelay (i - 1)
                then fail (errorfW (''verify tenant connection for gateway '' @ gatewayID @ '': '') (PlainErr ''context deadline exceeded''))
                else ret ())) (\<lambda>_.
     andThen (attempt (pingTenant E pgName password)) (\<lambda>res.
       case res of
         Inr _ \<Rightarrow> ret ()
       | Inl err \<Rightarrow>
           andThen (readClock E) (\<lambda>now.
             if deadline \<le> now
             then fail (errorfW (''verify tenant connection for gateway '' @ gatewayID @ '': '') (PlainErr ''context deadline exceeded''))
             else probeTenant E gatewayID pgName password deadline (Suc i) left err)))"

definition verifyTenantConn :: "'a site cluster environ \<Rightarrow> string \<Rightarrow> string \<Rightarrow> string \<Rightarrow> ('a, unit) dbProg" where
  "verifyTenantConn E gatewayID pgName password =
     andThen (readClock E) (\<lambda>now.
       probeTenant E gatewayID pgName password (now + tenantProbeMaxWait) 0 tenantProbeMaxAttempts (PlainErr []))"

abbreviation tenantGatewayDBSecretName :: string where "tenantGatewayDBSecretName \<equiv> ''openshell-gateway-db-credentials''"

definition tenantSecretData :: "dbEnv \<Rightarrow> adminCredentials \<Rightarrow> string \<Rightarrow> string \<Rightarrow> (string \<times> string) list" where
  "tenantSecretData D creds pgName password =
     [(''dbname'', pgName), (''host'', acHost creds), (''password'', password), (''port'', acPort creds),
      (''sslmode'', ''require''), (''uri'', deUri D creds pgName password), (''user'', pgName)]"

definition tenantSecretLabels :: "(string \<times> string) list" where
  "tenantSecretLabels =
     [(''app.kubernetes.io/name'', ''openshell''), (''app.kubernetes.io/component'', ''database''),
      (''app.kubernetes.io/managed-by'', ''hypershell-control-plane''), (''hypershell.redhat.io/managed'', ''true'')]"

definition writeTenantSecret ::
  "dbEnv \<Rightarrow> 'a site cluster environ \<Rightarrow> adminCredentials \<Rightarrow> string \<Rightarrow> string \<Rightarrow> string \<Rightarrow> kObject option \<Rightarrow> ('a, unit) dbProg" where
  "writeTenantSecret D E creds ns pgName password existing =
     (let data = tenantSecretData D creds pgName password; name = tenantGatewayDBSecretName
      in case existing of
        None \<Rightarrow>
          mapErr (errorfW (''create gateway credentials secret '' @ ns @ ''/'' @ name @ '': ''))
            (kcall E (CreateObject ''secrets'' ns name)
              (objCreate \<lparr>koResource = ''secrets'', koNamespace = ns, koName = name, koLabels = map_of tenantSecretLabels, koData = data\<rparr>))
      | Some s \<Rightarrow>
          if koData s = data \<and> list_all (\<lambda>(k, v). koLabels s k = Some v) tenantSecretLabels then ret ()
          else mapErr (errorfW (''update gateway credentials secret '' @ ns @ ''/'' @ name @ '': ''))
            (kcall E (UpdateObject ''secrets'' ns name)
              (objUpdate (s\<lparr>koLabels := koLabels s ++ map_of tenantSecretLabels, koData := data\<rparr>))))"

text \<open>What the read of the Secret found: nothing there, the Secret, or an error.\<close>

definition secretFound :: "chain + kObject \<Rightarrow> chain + kObject option" where
  "secretFound got =
     (case got of Inr s \<Rightarrow> Inr (Some s) | Inl err \<Rightarrow> if k8s_IsNotFound err then Inr None else Inl err)"

definition provisionWith ::
  "dbEnv \<Rightarrow> 'a site cluster environ \<Rightarrow> string \<Rightarrow> string \<Rightarrow> adminCredentials \<Rightarrow> kObject option \<Rightarrow> ('a, unit) dbProg" where
  "provisionWith D E ns gatewayID creds existing =
     (let pgName = gatewayDBName gatewayID;
          stored = (case existing of None \<Rightarrow> [] | Some s \<Rightarrow> map_get (map_of (koData s)) ''password'')
      in andThen (if stored = [] then randomPassword D else ret stored) (\<lambda>password.
         andThen (mapErr (wrapAdminConnError (deRedact D)) (openAdminConn E)) (\<lambda>_.
         andThen (mapErr (errorfW (''prepare admin session for gateway '' @ gatewayID @ '': '')) (enableCreateRoleSelfGrant E)) (\<lambda>_.
         andThen (reconcileGatewayDatabaseDDL E (deBudget D) (acUser creds) pgName gatewayID password (stored = [])) (\<lambda>provisioned.
         andThen (if provisioned then verifyTenantConn E gatewayID pgName password else ret ()) (\<lambda>_.
         writeTenantSecret D E creds ns pgName password existing))))))"

definition ReconcileGatewayDatabase :: "dbEnv \<Rightarrow> 'a site cluster environ \<Rightarrow> string \<Rightarrow> string \<Rightarrow> ('a, unit) dbProg" where
  "ReconcileGatewayDatabase D E ns gatewayID =
     andThen (mapErr (errorfW ''read admin credentials: '') (readCredentials D)) (\<lambda>creds.
     andThen (attempt (kread E (GetObject ''secrets'' ns tenantGatewayDBSecretName) (objGet ''secrets'' ns tenantGatewayDBSecretName))) (\<lambda>got.
       case secretFound got of
         Inl err \<Rightarrow> fail (errorfW (''get gateway credentials secret '' @ ns @ ''/'' @ tenantGatewayDBSecretName @ '': '') err)
       | Inr existing \<Rightarrow> provisionWith D E ns gatewayID creds existing))"

definition dbReconcile :: "dbEnv \<Rightarrow> 'a site cluster environ \<Rightarrow> string \<Rightarrow> string \<Rightarrow> ('a, unit) dbProg" where
  "dbReconcile D E ns gatewayID =
     mapErr (errorfW (''reconcile gateway database for namespace '' @ ns @ '': '')) (ReconcileGatewayDatabase D E ns gatewayID)"

section \<open>Removal\<close>

definition dropGatewayDatabase :: "'a site cluster environ \<Rightarrow> string \<Rightarrow> ('a, unit) dbProg" where
  "dropGatewayDatabase E gatewayID =
     (let pgName = gatewayDBName gatewayID
      in andThen (attempt (kcall E (SqlExec ''pg_terminate_backend'' pgName) (stmt accepted (\<lambda>p. p)))) (\<lambda>_.
         andThen (mapErr (errorfW ''check database existence before cleanup: '')
             (kread E (SqlQuery ''database'' pgName) (sqlExists (\<lambda>p. pgDatabases p pgName \<noteq> None)))) (\<lambda>dbExists.
         andThen (if dbExists then mapErr (errorfW ''DROP DATABASE failed: '') (kcall E (SqlExec ''DROP DATABASE'' pgName) (sqlDropDatabase pgName)) else ret ()) (\<lambda>_.
         andThen (mapErr (errorfW ''check role existence before cleanup: '')
             (kread E (SqlQuery ''role'' pgName) (sqlExists (\<lambda>p. pgRoles p pgName \<noteq> None)))) (\<lambda>roleExists.
         if roleExists then mapErr (errorfW ''DROP ROLE failed: '') (kcall E (SqlExec ''DROP ROLE'' pgName) (sqlDropRole pgName)) else ret ())))))"

definition DeleteGatewayDatabase :: "dbEnv \<Rightarrow> 'a site cluster environ \<Rightarrow> string \<Rightarrow> ('a, unit) dbProg" where
  "DeleteGatewayDatabase D E gatewayID =
     (if gatewayID = [] then ret ()
      else andThen (mapErr (errorfW ''read admin credentials: '') (readCredentials D)) (\<lambda>_.
        andThen (mapErr (wrapAdminConnError (deRedact D)) (openAdminConn E)) (\<lambda>_.
        dropGatewayDatabase E gatewayID)))"

definition dbDelete :: "dbEnv \<Rightarrow> 'a site cluster environ \<Rightarrow> string \<Rightarrow> ('a, unit) dbProg" where
  "dbDelete D E gatewayID =
     (if gatewayID = [] then ret ()
      else mapErr (errorfW (''drop database and role '' @ gatewayDBName gatewayID @ '': '')) (DeleteGatewayDatabase D E gatewayID))"

section \<open>The gateway's part of the state\<close>

definition secretOf :: "string \<Rightarrow> 'a site cluster \<Rightarrow> kObject option" where
  "secretOf ns k = objLookup ''secrets'' ns tenantGatewayDBSecretName k"

definition roleOf :: "string \<Rightarrow> 'a site cluster \<Rightarrow> string option" where
  "roleOf n k = pgRoles (pgOf k) n"

definition databaseOf :: "string \<Rightarrow> 'a site cluster \<Rightarrow> pgDatabase option" where
  "databaseOf n k = pgDatabases (pgOf k) n"

definition storedPassword :: "kObject \<Rightarrow> string" where
  "storedPassword s = map_get (map_of (koData s)) ''password''"

text \<open>A password in the Secret is the password of the role, unless the role is not there.\<close>

definition agrees :: "string \<Rightarrow> string \<Rightarrow> 'a site cluster \<Rightarrow> bool" where
  "agrees ns n k \<longleftrightarrow>
     (\<forall>s. secretOf ns k = Some s \<longrightarrow> storedPassword s \<noteq> [] \<longrightarrow> roleOf n k = None \<or> roleOf n k = Some (storedPassword s))"

text \<open>The database is there, closed to the public and open to the role, whose password the Secret has.\<close>

definition closedTo :: "pgDatabase option \<Rightarrow> bool" where
  "closedTo d \<longleftrightarrow> (case d of None \<Rightarrow> False | Some x \<Rightarrow> None \<notin> pgConnect x)"

definition openTo :: "string \<Rightarrow> pgDatabase option \<Rightarrow> bool" where
  "openTo n d \<longleftrightarrow> (case d of None \<Rightarrow> False | Some x \<Rightarrow> None \<notin> pgConnect x \<and> Some n \<in> pgConnect x)"

definition ready :: "string \<Rightarrow> string \<Rightarrow> 'a site cluster \<Rightarrow> bool" where
  "ready ns n k \<longleftrightarrow> openTo n (databaseOf n k) \<and>
     (\<exists>s. secretOf ns k = Some s \<and> map_of (koData s) ''user'' = Some n \<and> map_of (koData s) ''dbname'' = Some n \<and>
        storedPassword s \<noteq> [] \<and> roleOf n k = Some (storedPassword s))"

text \<open>Others leave the gateway's Secret, role and database alone, and no fault says that an object is missing.\<close>

definition leavesDatabase :: "string \<Rightarrow> string \<Rightarrow> 'a site cluster environ \<Rightarrow> bool" where
  "leavesDatabase ns n E \<longleftrightarrow>
     (\<forall>i k. secretOf ns (envOthers E i k) = secretOf ns k \<and> roleOf n (envOthers E i k) = roleOf n k \<and>
        databaseOf n (envOthers E i k) = databaseOf n k)"

definition honestFaults :: "'c environ \<Rightarrow> bool" where
  "honestFaults E \<longleftrightarrow> (\<forall>e. faultOf E e \<longrightarrow> \<not> k8s_IsNotFound e)"

text \<open>Everything else: other objects, other roles with their members, other databases, the rest of the world.\<close>

definition elsewhere :: "string \<Rightarrow> string \<Rightarrow> 'a site cluster \<Rightarrow> 'a site cluster" where
  "elsewhere ns n k =
     k\<lparr>kObjects := filter (\<lambda>x. \<not> objIs ''secrets'' ns tenantGatewayDBSecretName x) (kObjects k),
       kServer := (kServer k)\<lparr>siPg :=
         \<lparr>pgRoles = (pgRoles (pgOf k))(n := None), pgMembers = {x \<in> pgMembers (pgOf k). fst x \<noteq> n \<and> snd x \<noteq> n},
          pgDatabases = (pgDatabases (pgOf k))(n := None)\<rparr>\<rparr>\<rparr>"

lemmas view_defs = secretOf_def roleOf_def databaseOf_def pgOf_def

lemma onPg_view [simp]:
  "secretOf ns (onPg f k) = secretOf ns k"
  "roleOf n (onPg f k) = pgRoles (f (pgOf k)) n" "databaseOf n (onPg f k) = pgDatabases (f (pgOf k)) n"
  "pgOf (onPg f k) = f (pgOf k)"
  by (simp_all add: view_defs onPg_def objLookup_def)

lemma onPg_elsewhere:
  "elsewhere ns n (onPg f k) = elsewhere ns n k" if
  "(pgRoles (f (pgOf k)))(n := None) = (pgRoles (pgOf k))(n := None)"
  "{x \<in> pgMembers (f (pgOf k)). fst x \<noteq> n \<and> snd x \<noteq> n} = {x \<in> pgMembers (pgOf k). fst x \<noteq> n \<and> snd x \<noteq> n}"
  "(pgDatabases (f (pgOf k)))(n := None) = (pgDatabases (pgOf k))(n := None)"
  using that by (simp add: elsewhere_def onPg_def pgOf_def)

text \<open>What a statement answers and leaves.\<close>

lemma sql_snd:
  "snd (stmt refused f k) = (case refused (pgOf k) of None \<Rightarrow> onPg f k | Some _ \<Rightarrow> k)"
  by (simp add: stmt_def split: option.split prod.split)

lemma sql_ok:
  "fst (stmt refused f k) = Inr x \<longleftrightarrow> refused (pgOf k) = None"
  by (simp add: stmt_def split: option.split prod.split)

lemma find_filtered: "find P (filter (\<lambda>x. \<not> P x) xs) = None"
  by (induction xs) auto

lemma find_replaced: "P y \<Longrightarrow> find P (map (\<lambda>x. if P x then y else x) xs) = map_option (\<lambda>_. y) (find P xs)"
  by (induction xs) auto

lemma find_snoc: "find P (xs @ ys) = (case find P xs of None \<Rightarrow> find P ys | Some x \<Rightarrow> Some x)"
  by (induction xs) auto

lemma filter_replaced: "P y \<Longrightarrow> filter (\<lambda>x. \<not> P x) (map (\<lambda>x. if P x then y else x) xs) = filter (\<lambda>x. \<not> P x) xs"
  by (induction xs) auto

lemma create_secret:
  assumes "koResource x = ''secrets''" "koNamespace x = ns" "koName x = tenantGatewayDBSecretName"
  shows "secretOf ns (snd (objCreate x k)) = (case secretOf ns k of None \<Rightarrow> Some x | Some y \<Rightarrow> Some y)"
    and "fst (objCreate x k) = Inr r \<longleftrightarrow> secretOf ns k = None"
    and "roleOf n (snd (objCreate x k)) = roleOf n k" "databaseOf n (snd (objCreate x k)) = databaseOf n k"
    and "elsewhere ns n (snd (objCreate x k)) = elsewhere ns n k"
  using assms
  by (simp_all add: objCreate_def view_defs objLookup_def find_snoc objIs_def elsewhere_def split: option.split)

lemma update_secret:
  assumes "koResource x = ''secrets''" "koNamespace x = ns" "koName x = tenantGatewayDBSecretName"
  shows "secretOf ns (snd (objUpdate x k)) = map_option (\<lambda>_. x) (secretOf ns k)"
    and "fst (objUpdate x k) = Inr r \<longleftrightarrow> secretOf ns k \<noteq> None"
    and "roleOf n (snd (objUpdate x k)) = roleOf n k" "databaseOf n (snd (objUpdate x k)) = databaseOf n k"
    and "elsewhere ns n (snd (objUpdate x k)) = elsewhere ns n k"
proof -
  let ?P = "objIs ''secrets'' ns tenantGatewayDBSecretName"
  have p: "?P x" using assms by (simp add: objIs_def)
  show "secretOf ns (snd (objUpdate x k)) = map_option (\<lambda>_. x) (secretOf ns k)"
    using find_replaced [where P = ?P, OF p, of "kObjects k"] assms
    by (simp add: objUpdate_def secretOf_def objLookup_def split: option.split)
  show "elsewhere ns n (snd (objUpdate x k)) = elsewhere ns n k"
    using filter_replaced [where P = ?P, OF p, of "kObjects k"] assms
    by (simp add: objUpdate_def elsewhere_def pgOf_def split: option.split)
qed (use assms in \<open>simp_all add: objUpdate_def view_defs objLookup_def split: option.split\<close>)

section \<open>Provisioning on every path\<close>

text \<open>An assertion about the gateway's Secret, role and database; others keep it.\<close>

definition view ::
  "string \<Rightarrow> string \<Rightarrow> (kObject option \<Rightarrow> string option \<Rightarrow> pgDatabase option \<Rightarrow> bool) \<Rightarrow> ('a site cluster, rcall) assertion" where
  "view ns n F c ls \<longleftrightarrow> F (secretOf ns c) (roleOf n c) (databaseOf n c)"

lemma view_stable: "leavesDatabase ns n E \<Longrightarrow> stable E (view ns n F)"
  by (simp add: stable_def view_def leavesDatabase_def)

lemma triple_sql:
  fixes E :: "'a site cluster environ"
  assumes "leavesDatabase ns n E"
    and "\<And>(k :: 'a site cluster) ls. view ns n F k ls \<Longrightarrow> refused (pgOf k) = None \<Longrightarrow> view ns n G (onPg f k) ls"
    and "\<And>(k :: 'a site cluster) ls. view ns n F k ls \<Longrightarrow> view ns n H k ls"
    and "\<And>(k :: 'a site cluster) ls. view ns n F k ls \<Longrightarrow> refused (pgOf k) = None \<Longrightarrow> view ns n H (onPg f k) ls"
  shows "triple (view ns n F) (kcall E l (stmt refused f)) (\<lambda>_. view ns n G) (\<lambda>_. view ns n H)"
proof (rule triple_kcall [OF view_stable [OF assms(1)]])
  fix c :: "'a site cluster" and ls x
  assume "view ns n F c ls" "fst (stmt refused f c) = Inr x"
  then show "view ns n G (snd (stmt refused f c)) (ls @ [l])"
    using assms(2) [of c ls] by (simp add: sql_ok sql_snd view_def)
next
  fix c :: "'a site cluster" and ls e
  assume "view ns n F c ls"
  then show "view ns n H (snd (stmt refused f c)) (ls @ [l]) \<and> view ns n H c (ls @ [l])"
    using assms(3,4) [of c ls] by (simp add: sql_snd view_def split: option.split)
qed

lemma triple_exists:
  fixes E :: "'a site cluster environ"
  assumes "leavesDatabase ns n E" "\<And>k :: 'a site cluster. f (pgOf k) = g (roleOf n k) (databaseOf n k)"
  shows "triple (view ns n F) (kread E l (sqlExists f)) (\<lambda>b. view ns n (\<lambda>s r d. F s r d \<and> b = g r d)) (\<lambda>_. view ns n F)"
  by (rule triple_kread [OF view_stable [OF assms(1)]]) (auto simp: sqlExists_def view_def assms(2))

lemma triple_view: "(\<And>s r d. F s r d \<Longrightarrow> G s r d) \<Longrightarrow> triple (view ns n G) m Q X \<Longrightarrow> triple (view ns n F) m Q X"
  by (erule triple_weaken) (auto simp: view_def)

lemma triple_return: "(\<And>s r d. F s r d \<Longrightarrow> G s r d) \<Longrightarrow> triple (view ns n F) (ret x) (\<lambda>_. view ns n G) X"
  by (rule triple_ret) (simp add: view_def)

text \<open>While the role is made: the Secret is the one read, and its password, if any, that of the role.\<close>

definition before :: "kObject option \<Rightarrow> string \<Rightarrow> bool \<Rightarrow> kObject option \<Rightarrow> string option \<Rightarrow> pgDatabase option \<Rightarrow> bool" where
  "before ex pw fresh s r d \<longleftrightarrow> s = ex \<and> (fresh \<or> r = None \<or> r = Some pw)"

definition during :: "kObject option \<Rightarrow> string \<Rightarrow> kObject option \<Rightarrow> string option \<Rightarrow> pgDatabase option \<Rightarrow> bool" where
  "during ex pw s r d \<longleftrightarrow> s = ex \<and> r = Some pw"

lemma ensureRole_triple:
  assumes "leavesDatabase ns n E"
  shows "triple (view ns n (before ex pw fresh)) (ensureRole E n gid pw fresh)
     (\<lambda>_. view ns n (during ex pw)) (\<lambda>_. view ns n (before ex pw fresh))"
  unfolding ensureRole_def
proof (rule triple_andThen [where R = "\<lambda>b. view ns n (\<lambda>s r d. before ex pw fresh s r d \<and> b = (r \<noteq> None))"])
  show "triple (view ns n (before ex pw fresh)) (mapErr g (kread E l (sqlExists (\<lambda>p. pgRoles p n \<noteq> None))))
      (\<lambda>b. view ns n (\<lambda>s r d. before ex pw fresh s r d \<and> b = (r \<noteq> None))) (\<lambda>_. view ns n (before ex pw fresh))" for g l
    by (rule triple_mapErr, rule triple_exists [OF assms, where g = "\<lambda>r d. r \<noteq> None"]) (simp add: roleOf_def)
next
  fix b
  let ?F = "\<lambda>s r d. before ex pw fresh s r d \<and> b = (r \<noteq> None)"
  have create: "triple (view ns n ?F) (kcall E l (sqlCreateRole n pw)) (\<lambda>_. view ns n (during ex pw)) (\<lambda>_. view ns n (before ex pw fresh))" for l
    unfolding sqlCreateRole_def by (rule triple_sql [OF assms]) (auto simp: view_def before_def during_def)
  have alter: "triple (view ns n ?F) (kcall E l (sqlAlterRole n pw)) (\<lambda>_. view ns n (during ex pw)) (\<lambda>_. view ns n (before ex pw fresh))" for l
    unfolding sqlAlterRole_def by (rule triple_sql [OF assms]) (auto simp: view_def before_def during_def)
  have kept: "b \<Longrightarrow> \<not> fresh \<Longrightarrow> ?F s r d \<Longrightarrow> during ex pw s r d" for s r d
    by (auto simp: before_def during_def)
  show "triple (view ns n ?F)
      (if \<not> b then andThen (mapErr g (kcall E l (sqlCreateRole n pw))) (\<lambda>_. ret True)
       else if fresh then andThen (mapErr h (kcall E l' (sqlAlterRole n pw))) (\<lambda>_. ret True) else ret False)
      (\<lambda>_. view ns n (during ex pw)) (\<lambda>_. view ns n (before ex pw fresh))" for g h l l'
    by (intro triple_if triple_andThen [OF triple_mapErr [OF create]] triple_andThen [OF triple_mapErr [OF alter]] triple_return)
      (auto intro: kept)
qed

lemma during_before: "during ex pw s r d \<Longrightarrow> before ex pw fresh s r d"
  by (simp add: during_def before_def)

text \<open>A call that keeps the gateway's part, whatever comes of it.\<close>

lemma triple_elsewhere:
  assumes "leavesDatabase ns n E" "\<And>k. secretOf ns (snd (op k)) = secretOf ns k"
    "\<And>k. roleOf n (snd (op k)) = roleOf n k" "\<And>k. databaseOf n (snd (op k)) = databaseOf n k"
  shows "triple (view ns n F) (kcall E l op) (\<lambda>_. view ns n F) (\<lambda>_. view ns n F)"
  by (rule triple_keep [OF view_stable [OF assms(1)]]) (simp add: view_def assms(2-4))

lemma triple_look:
  assumes "leavesDatabase ns n E"
  shows "triple (view ns n F) (kread E l f) (\<lambda>_. view ns n F) (\<lambda>_. view ns n F)"
  unfolding kread_def by (rule triple_elsewhere [OF assms]) simp_all

definition there :: "pgDatabase option \<Rightarrow> bool" where
  "there d \<longleftrightarrow> d \<noteq> None"

lemma execCreate_triple:
  assumes "leavesDatabase ns n E"
  shows "triple (view ns n (during ex pw)) (execCreate E budget gid n tries lastErr)
     (\<lambda>_. view ns n (\<lambda>s r d. during ex pw s r d \<and> there d)) (\<lambda>_. view ns n (during ex pw))"
proof (induction tries arbitrary: budget lastErr)
  case 0
  show ?case unfolding execCreate.simps by (rule triple_fail)
next
  case (Suc tries)
  have call: "triple (view ns n (during ex pw)) (kcall E l (sqlCreateDatabase n))
      (\<lambda>_. view ns n (\<lambda>s r d. during ex pw s r d \<and> there d)) (\<lambda>_. view ns n (during ex pw))" for l
    unfolding sqlCreateDatabase_def
    by (rule triple_sql [OF assms]) (auto simp: view_def there_def during_def roleOf_def databaseOf_def split: if_splits)
  show ?case
    unfolding execCreate.simps
    by (rule triple_andThen [where R = "\<lambda>res. case res of Inr _ \<Rightarrow> view ns n (\<lambda>s r d. during ex pw s r d \<and> there d)
          | Inl _ \<Rightarrow> view ns n (during ex pw)"])
      (auto intro!: triple_attempt call triple_ret triple_fail Suc.IH simp: One_nat_def [symmetric] simp del: One_nat_def split: sum.split)
qed

lemma ddl_triple:
  assumes "leavesDatabase ns n E"
  shows "triple (view ns n (before ex pw fresh)) (reconcileGatewayDatabaseDDL E budget adminUser n gid pw fresh)
     (\<lambda>_. view ns n (\<lambda>s r d. during ex pw s r d \<and> openTo n d)) (\<lambda>_. view ns n (before ex pw fresh))"
proof -
  let ?D = "during ex pw"
  let ?err = "\<lambda>_::chain. view ns n (before ex pw fresh)"
  have weak: "triple P m Q (\<lambda>_. view ns n ?D) \<Longrightarrow> triple P m Q ?err" for P :: "('a site cluster, rcall) assertion" and m :: "('a, 'b) dbProg" and Q
    by (erule triple_weaken) (auto simp: view_def during_before)
  have grant: "triple (view ns n ?D) (kcall E l (sqlGrantRole n adminUser)) (\<lambda>_. view ns n ?D) (\<lambda>_. view ns n ?D)" for l
    unfolding sqlGrantRole_def by (rule triple_sql [OF assms]) (auto simp: view_def roleOf_def databaseOf_def)
  have revoke: "triple (view ns n (\<lambda>s r d. ?D s r d \<and> there d)) (kcall E l (sqlConnect (\<lambda>A. A - {None}) n))
      (\<lambda>_. view ns n (\<lambda>s r d. ?D s r d \<and> closedTo d)) (\<lambda>_. view ns n ?D)" for l
    unfolding sqlConnect_def
    by (rule triple_sql [OF assms]) (auto simp: view_def during_def there_def closedTo_def roleOf_def databaseOf_def)
  have connect: "triple (view ns n (\<lambda>s r d. ?D s r d \<and> closedTo d)) (kcall E l (sqlConnect (insert (Some n)) n))
      (\<lambda>_. view ns n (\<lambda>s r d. ?D s r d \<and> openTo n d)) (\<lambda>_. view ns n ?D)" for l
    unfolding sqlConnect_def
    by (rule triple_sql [OF assms]) (auto simp: view_def during_def closedTo_def openTo_def roleOf_def databaseOf_def split: option.splits)
  have exists: "triple (view ns n ?D) (kread E l (sqlExists (\<lambda>p. pgDatabases p n \<noteq> None)))
      (\<lambda>b. view ns n (\<lambda>s r d. ?D s r d \<and> b = there d)) (\<lambda>_. view ns n ?D)" for l
    by (rule triple_exists [OF assms, where g = "\<lambda>r. there"]) (simp add: databaseOf_def there_def)
  have create: "triple (view ns n (\<lambda>s r d. ?D s r d \<and> b = there d))
      (if \<not> b then execCreateGatewayDatabase E budget gid n else ret ())
      (\<lambda>_. view ns n (\<lambda>s r d. ?D s r d \<and> there d)) (\<lambda>_. view ns n ?D)" for b
    unfolding execCreateGatewayDatabase_def
    by (intro triple_if triple_return) (auto intro!: triple_view [OF _ execCreate_triple [OF assms]])
  show ?thesis
    unfolding reconcileGatewayDatabaseDDL_def
    by (rule triple_andThen [OF ensureRole_triple [OF assms]], rule weak)
      (intro triple_andThen [where R = "\<lambda>_. view ns n ?D"] triple_if triple_return triple_mapErr [OF grant]
        triple_andThen [OF triple_mapErr [OF exists]] triple_andThen [OF create] triple_andThen [OF triple_mapErr [OF revoke]]
        triple_andThen [OF triple_mapErr [OF connect]])
qed

lemma probe_triple:
  assumes "leavesDatabase ns n E"
  shows "triple (view ns n F) (probeTenant E gid n pw deadline i left lastErr) (\<lambda>_. view ns n F) (\<lambda>_. view ns n F)"
proof (induction left arbitrary: i lastErr)
  case 0
  show ?case unfolding probeTenant.simps by (rule triple_fail)
next
  case (Suc left)
  have ping: "triple (view ns n F) (pingTenant E n pw) (\<lambda>_. view ns n F) (\<lambda>_. view ns n F)"
    unfolding pingTenant_def by (rule triple_look [OF assms])
  show ?case
    unfolding probeTenant.simps
    by (intro triple_andThen [where R = "\<lambda>_. view ns n F"])
      (auto intro!: triple_if triple_ret triple_fail triple_readClock triple_attempt ping Suc.IH
         triple_andThen [where R = "\<lambda>_. view ns n F"] split: sum.split)
qed

lemma verify_triple:
  assumes "leavesDatabase ns n E"
  shows "triple (view ns n F) (verifyTenantConn E gid n pw) (\<lambda>_. view ns n F) (\<lambda>_. view ns n F)"
  unfolding verifyTenantConn_def
  by (rule triple_andThen [where R = "\<lambda>_. view ns n F"]) (auto intro: triple_readClock probe_triple [OF assms])

text \<open>The Secret that is written has the password.\<close>

lemma tenantSecretData_fields:
  "map_of (tenantSecretData D creds n pw) ''user'' = Some n" "map_of (tenantSecretData D creds n pw) ''dbname'' = Some n"
  "map_of (tenantSecretData D creds n pw) ''password'' = Some pw"
  by (simp_all add: tenantSecretData_def)

lemma storedPassword_data: "koData s = tenantSecretData D creds n pw \<Longrightarrow> storedPassword s = pw"
  by (simp add: storedPassword_def tenantSecretData_fields map_get_def)

definition readyV :: "string \<Rightarrow> kObject option \<Rightarrow> string option \<Rightarrow> pgDatabase option \<Rightarrow> bool" where
  "readyV n s r d \<longleftrightarrow> openTo n d \<and>
     (\<exists>x. s = Some x \<and> map_of (koData x) ''user'' = Some n \<and> map_of (koData x) ''dbname'' = Some n \<and>
        storedPassword x \<noteq> [] \<and> r = Some (storedPassword x))"

definition agreesV :: "kObject option \<Rightarrow> string option \<Rightarrow> pgDatabase option \<Rightarrow> bool" where
  "agreesV s r d \<longleftrightarrow> (\<forall>x. s = Some x \<longrightarrow> storedPassword x \<noteq> [] \<longrightarrow> r = None \<or> r = Some (storedPassword x))"

lemma readyV_data:
  "koData x = tenantSecretData D creds n pw \<Longrightarrow> pw \<noteq> [] \<Longrightarrow> openTo n d \<Longrightarrow> readyV n (Some x) (Some pw) d"
  by (simp add: readyV_def storedPassword_data tenantSecretData_fields)

lemma readyV_agrees: "readyV n s r d \<Longrightarrow> agreesV s r d"
  by (auto simp: readyV_def agreesV_def)

lemma secretOf_name:
  assumes "secretOf ns k = Some x"
  shows "koResource x = ''secrets''" "koNamespace x = ns" "koName x = tenantGatewayDBSecretName"
proof -
  have "objIs ''secrets'' ns tenantGatewayDBSecretName x"
    using assms by (auto simp: secretOf_def objLookup_def find_Some_iff)
  then show "koResource x = ''secrets''" "koNamespace x = ns" "koName x = tenantGatewayDBSecretName"
    by (simp_all add: objIs_def)
qed

text \<open>What is read of the Secret before the role is made: its password is reused.\<close>

definition reuses :: "kObject option \<Rightarrow> string \<Rightarrow> bool" where
  "reuses ex pw \<longleftrightarrow> (\<forall>x. ex = Some x \<longrightarrow> storedPassword x \<noteq> [] \<longrightarrow> pw = storedPassword x)"

lemma before_agrees:
  "reuses ex pw \<Longrightarrow> (fresh \<Longrightarrow> \<forall>x. ex = Some x \<longrightarrow> storedPassword x = []) \<Longrightarrow> before ex pw fresh s r d \<Longrightarrow> agreesV s r d"
  by (auto simp: before_def reuses_def agreesV_def)

lemma during_agrees: "reuses ex pw \<Longrightarrow> during ex pw s r d \<Longrightarrow> agreesV s r d"
  by (auto simp: during_def reuses_def agreesV_def)

lemma write_triple:
  assumes "leavesDatabase ns n E" "reuses ex pw" "pw \<noteq> []"
  shows "triple (view ns n (\<lambda>s r d. during ex pw s r d \<and> openTo n d)) (writeTenantSecret D E creds ns n pw ex)
     (\<lambda>_. view ns n (readyV n)) (\<lambda>_. view ns n agreesV)"
proof (cases ex)
  case None
  let ?new = "\<lparr>koResource = ''secrets'', koNamespace = ns, koName = tenantGatewayDBSecretName,
      koLabels = map_of tenantSecretLabels, koData = tenantSecretData D creds n pw\<rparr>"
  have new: "koResource ?new = ''secrets''" "koNamespace ?new = ns" "koName ?new = tenantGatewayDBSecretName"
      "koData ?new = tenantSecretData D creds n pw" by simp_all
  have P: "readyV n (Some ?new) (Some pw) d" if "openTo n d" for d
    by (rule readyV_data [OF new(4) assms(3) that])
  have "triple (view ns n (\<lambda>s r d. during None pw s r d \<and> openTo n d)) (kcall E l (objCreate ?new))
      (\<lambda>_. view ns n (readyV n)) (\<lambda>_. view ns n agreesV)" for l
    by (rule triple_kcall [OF view_stable [OF assms(1)]])
      (auto simp: view_def during_def create_secret [OF new(1-3)] agreesV_def intro: P dest: readyV_agrees [OF P])
  then show ?thesis using None unfolding writeTenantSecret_def Let_def by (auto intro: triple_mapErr)
next
  case (Some s)
  let ?new = "s\<lparr>koLabels := koLabels s ++ map_of tenantSecretLabels, koData := tenantSecretData D creds n pw\<rparr>"
  have P: "readyV n (Some x) (Some pw) d" if "koData x = tenantSecretData D creds n pw" "openTo n d" for x d
    by (rule readyV_data [OF that(1) assms(3) that(2)])
  have same: "view ns n (\<lambda>s r d. during ex pw s r d \<and> openTo n d) c ls \<Longrightarrow>
      koResource ?new = ''secrets'' \<and> koNamespace ?new = ns \<and> koName ?new = tenantGatewayDBSecretName" for c ls
    using secretOf_name [of ns c s] Some by (simp add: view_def during_def)
  have putNew: "triple (view ns n (\<lambda>s r d. during ex pw s r d \<and> openTo n d)) (kcall E l (objUpdate ?new))
      (\<lambda>_. view ns n (readyV n)) (\<lambda>_. view ns n agreesV)" for l
  proof (rule triple_kcall [OF view_stable [OF assms(1)]])
    fix c ls x
    assume v: "view ns n (\<lambda>s r d. during ex pw s r d \<and> openTo n d) c ls"
    note up = update_secret [of ?new ns, OF conjunct1 [OF same [OF v]] conjunct1 [OF conjunct2 [OF same [OF v]]] conjunct2 [OF conjunct2 [OF same [OF v]]]]
    have o: "openTo n (databaseOf n c)" and d: "secretOf ns c = Some s" "roleOf n c = Some pw"
      using v Some by (simp_all add: view_def during_def)
    have after: "readyV n (secretOf ns (snd (objUpdate ?new c))) (roleOf n (snd (objUpdate ?new c))) (databaseOf n (snd (objUpdate ?new c)))"
      unfolding up(1,3,4) d using P [of ?new, OF _ o] by simp
    then show "view ns n (readyV n) (snd (objUpdate ?new c)) (ls @ [l])" by (simp add: view_def)
    fix e
    show "view ns n agreesV (snd (objUpdate ?new c)) (ls @ [l]) \<and> view ns n agreesV c (ls @ [l])"
      using readyV_agrees [OF after] during_agrees [OF assms(2)] v by (simp add: view_def)
  qed
  have keep: "triple (view ns n (\<lambda>s r d. during ex pw s r d \<and> openTo n d)) (ret ()) (\<lambda>_. view ns n (readyV n)) (\<lambda>_. view ns n agreesV)"
    if "koData s = tenantSecretData D creds n pw"
    by (rule triple_return) (use Some that P in \<open>simp add: during_def\<close>)
  show ?thesis using Some keep putNew
    unfolding writeTenantSecret_def Let_def by (auto intro!: triple_if triple_mapErr)
qed

lemma agrees_view: "at (view ns n agreesV) w \<longleftrightarrow> agrees ns n (kwState w)"
  by (simp add: at_def view_def agreesV_def agrees_def)

lemma ready_view: "at (view ns n (readyV n)) w \<longleftrightarrow> ready ns n (kwState w)"
  by (simp add: at_def view_def readyV_def ready_def)

lemma credentials_triple: "triple P (readCredentials D) (\<lambda>_. P) (\<lambda>_. P)"
  by (auto simp: triple_def at_def readCredentials_def split: sum.split)

lemma random_triple:
  assumes "\<And>i. deRandom D i \<noteq> Some []"
  shows "triple P (randomPassword D) (\<lambda>pw c ls. pw \<noteq> [] \<and> P c ls) (\<lambda>_. P)"
  using assms by (auto simp: triple_def at_def randomPassword_def split: option.split)

lemma enableGrant_triple:
  assumes "leavesDatabase ns n E"
  shows "triple (view ns n F) (enableCreateRoleSelfGrant E) (\<lambda>_. view ns n F) (\<lambda>_. view ns n F)"
proof -
  have call: "triple (view ns n F) (kcall E l (stmt accepted (\<lambda>p. p))) (\<lambda>_. view ns n F) (\<lambda>_. view ns n F)" for l
    by (rule triple_elsewhere [OF assms]) (simp_all add: sql_snd accepted_def roleOf_def databaseOf_def)
  show ?thesis
    unfolding enableCreateRoleSelfGrant_def
    by (rule triple_andThen [where R = "\<lambda>_. view ns n F"])
      (auto intro!: triple_attempt call triple_ret triple_fail split: sum.split)
qed

text \<open>The Secret as it is read, or that there is none.\<close>

lemma readSecret_triple:
  assumes "leavesDatabase ns n E" "honestFaults E"
  shows "triple (view ns n agreesV) (attempt (kread E l (objGet ''secrets'' ns tenantGatewayDBSecretName)))
     (\<lambda>got. case secretFound got of Inl err \<Rightarrow> view ns n agreesV | Inr ex \<Rightarrow> view ns n (\<lambda>s r d. agreesV s r d \<and> s = ex)) X"
  by (rule triple_attempt, rule triple_kread_faults [OF view_stable [OF assms(1)]])
    (use assms(2) in \<open>auto simp: view_def objGet_def secretOf_def secretFound_def objNotFound_def k8s_IsNotFound_def
       honestFaults_def split: option.splits\<close>)

lemma provision_triple:
  assumes "leavesDatabase ns n E" "n = gatewayDBName gid" "reuses ex pw" "pw \<noteq> []"
    and "fresh \<Longrightarrow> \<forall>x. ex = Some x \<longrightarrow> storedPassword x = []"
  shows "triple (view ns n (before ex pw fresh))
     (andThen (mapErr g1 (openAdminConn E)) (\<lambda>_.
      andThen (mapErr g2 (enableCreateRoleSelfGrant E)) (\<lambda>_.
      andThen (reconcileGatewayDatabaseDDL E budget admin n gid pw fresh) (\<lambda>provisioned.
      andThen (if provisioned then verifyTenantConn E gid n pw else ret ()) (\<lambda>_.
      writeTenantSecret D E creds ns n pw ex)))))
     (\<lambda>_. view ns n (readyV n)) (\<lambda>_. view ns n agreesV)"
proof -
  let ?B = "view ns n (before ex pw fresh)" and ?O = "view ns n (\<lambda>s r d. during ex pw s r d \<and> openTo n d)"
  let ?A = "view ns n agreesV"
  have A: "?B c ls \<Longrightarrow> ?A c ls" "?O c ls \<Longrightarrow> ?A c ls" for c ls
    using before_agrees [OF assms(3,5)] during_agrees [OF assms(3)] by (auto simp: view_def)
  have conn: "triple ?B (mapErr g1 (openAdminConn E)) (\<lambda>_. ?B) (\<lambda>_. ?A)"
    unfolding openAdminConn_def
    by (rule triple_mapErr, rule triple_weaken [OF triple_look [OF assms(1), of "before ex pw fresh"]]) (auto intro: A)
  have session: "triple ?B (mapErr g2 (enableCreateRoleSelfGrant E)) (\<lambda>_. ?B) (\<lambda>_. ?A)"
    by (rule triple_mapErr, rule triple_weaken [OF enableGrant_triple [OF assms(1), of "before ex pw fresh"]]) (auto intro: A)
  have ddl: "triple ?B (reconcileGatewayDatabaseDDL E budget admin n gid pw fresh) (\<lambda>_. ?O) (\<lambda>_. ?A)"
    by (rule triple_weaken [OF ddl_triple [OF assms(1)]]) (auto intro: A)
  have verify: "triple ?O (if b then verifyTenantConn E gid n pw else ret ()) (\<lambda>_. ?O) (\<lambda>_. ?A)" for b
    by (rule triple_if, rule triple_weaken [OF verify_triple [OF assms(1), of "\<lambda>s r d. during ex pw s r d \<and> openTo n d"]])
      (auto intro: A triple_ret)
  show ?thesis
    by (intro triple_andThen [OF conn] triple_andThen [OF session] triple_andThen [OF ddl] triple_andThen [OF verify]
        write_triple [OF assms(1,3,4)])
qed

lemma ReconcileGatewayDatabase_triple:
  assumes "leavesDatabase ns (gatewayDBName gid) E" "honestFaults E" "\<And>i. deRandom D i \<noteq> Some []"
  shows "triple (view ns (gatewayDBName gid) agreesV) (ReconcileGatewayDatabase D E ns gid)
     (\<lambda>_. view ns (gatewayDBName gid) (readyV (gatewayDBName gid))) (\<lambda>_. view ns (gatewayDBName gid) agreesV)"
proof -
  let ?n = "gatewayDBName gid"
  let ?A = "view ns ?n agreesV"
  have body: "triple (view ns ?n (\<lambda>s r d. agreesV s r d \<and> s = ex)) (provisionWith D E ns gid creds ex)
      (\<lambda>_. view ns ?n (readyV ?n)) (\<lambda>_. ?A)" for ex creds
  proof -
    define stored where "stored = (case ex of None \<Rightarrow> [] | Some s \<Rightarrow> map_get (map_of (koData s)) ''password'')"
    let ?F = "\<lambda>s r d. agreesV s r d \<and> s = ex"
    let ?ok = "\<lambda>pw. pw \<noteq> [] \<and> reuses ex pw"
    have none: "stored = [] \<Longrightarrow> \<forall>x. ex = Some x \<longrightarrow> storedPassword x = []"
      by (auto simp: stored_def storedPassword_def split: option.splits)
    have password: "triple (view ns ?n ?F) (if stored = [] then randomPassword D else ret stored)
        (\<lambda>pw c ls. ?ok pw \<and> view ns ?n (before ex pw (stored = [])) c ls) (\<lambda>_. ?A)"
    proof (rule triple_if)
      assume s: "stored = []"
      show "triple (view ns ?n ?F) (randomPassword D) (\<lambda>pw c ls. ?ok pw \<and> view ns ?n (before ex pw (stored = [])) c ls) (\<lambda>_. ?A)"
        by (rule triple_weaken [OF random_triple [where P = "view ns ?n ?F", OF assms(3)]])
          (use none [OF s] s in \<open>auto simp: view_def before_def reuses_def\<close>)
    next
      assume s: "stored \<noteq> []"
      then obtain x where x: "ex = Some x" "stored = storedPassword x"
        by (auto simp: stored_def storedPassword_def split: option.splits)
      show "triple (view ns ?n ?F) (ret stored) (\<lambda>pw c ls. ?ok pw \<and> view ns ?n (before ex pw (stored = [])) c ls) (\<lambda>_. ?A)"
        by (rule triple_ret) (use s x in \<open>auto simp: view_def before_def reuses_def agreesV_def\<close>)
    qed
    show ?thesis
      unfolding provisionWith_def Let_def stored_def [symmetric]
      by (rule triple_andThen [OF password], rule triple_pure, rule provision_triple [OF assms(1) refl])
        (auto intro: none [rule_format])
  qed
  show ?thesis
    unfolding ReconcileGatewayDatabase_def
  proof (rule triple_andThen [OF triple_mapErr [OF credentials_triple]], rule triple_andThen [OF readSecret_triple [OF assms(1,2)]])
    fix creds got
    show "triple (case secretFound got of Inl err \<Rightarrow> ?A | Inr ex \<Rightarrow> view ns ?n (\<lambda>s r d. agreesV s r d \<and> s = ex))
        (case secretFound got of Inl err \<Rightarrow> fail (g err) | Inr ex \<Rightarrow> provisionWith D E ns gid creds ex)
        (\<lambda>_. view ns ?n (readyV ?n)) (\<lambda>_. ?A)" for g
      by (cases "secretFound got") (auto intro: triple_fail body)
  qed
qed

section \<open>What provisioning and removal leave alone\<close>

definition keepsElsewhere :: "string \<Rightarrow> string \<Rightarrow> ('a site cluster, rcall) kworld \<Rightarrow> ('a site cluster, rcall) kworld \<Rightarrow> bool" where
  "keepsElsewhere ns n w w' \<longleftrightarrow> elsewhere ns n (kwState w') = elsewhere ns n (kwState w)"

interpretation elsewhere: step_order "keepsElsewhere ns n"
  by unfold_locales (simp_all add: keepsElsewhere_def)

text \<open>Nobody else acts on what is not the gateway's.\<close>

definition leavesRest :: "string \<Rightarrow> string \<Rightarrow> 'a site cluster environ \<Rightarrow> bool" where
  "leavesRest ns n E \<longleftrightarrow> (\<forall>i k. elsewhere ns n (envOthers E i k) = elsewhere ns n k)"

lemma kcall_elsewhere:
  assumes "leavesRest ns n E" "\<And>k. elsewhere ns n (snd (op k)) = elsewhere ns n k"
  shows "steps (keepsElsewhere ns n) (kcall E l op)"
  using assms by (auto simp: steps_def keepsElsewhere_def kcall_def Let_def leavesRest_def split: option.split)

lemma kread_elsewhere: "leavesRest ns n E \<Longrightarrow> steps (keepsElsewhere ns n) (kread E l f)"
  unfolding kread_def by (rule kcall_elsewhere) simp_all

lemma readClock_elsewhere: "steps (keepsElsewhere ns n) (readClock E)"
  by (simp add: steps_def keepsElsewhere_def readClock_def)

lemma sql_elsewhere:
  "elsewhere ns n (snd (sqlCreateRole n pw k)) = elsewhere ns n k"
  "elsewhere ns n (snd (sqlAlterRole n pw k)) = elsewhere ns n k"
  "elsewhere ns n (snd (sqlGrantRole n m k)) = elsewhere ns n k"
  "elsewhere ns n (snd (sqlCreateDatabase n k)) = elsewhere ns n k"
  "elsewhere ns n (snd (sqlConnect h n k)) = elsewhere ns n k"
  "elsewhere ns n (snd (sqlDropDatabase n k)) = elsewhere ns n k"
  "elsewhere ns n (snd (sqlDropRole n k)) = elsewhere ns n k"
  "elsewhere ns n (snd (stmt accepted (\<lambda>p. p) k)) = elsewhere ns n k"
  by (auto simp: sqlCreateRole_def sqlAlterRole_def sqlGrantRole_def sqlCreateDatabase_def sqlConnect_def
      sqlDropDatabase_def sqlDropRole_def sql_snd intro!: onPg_elsewhere split: option.split)

lemmas elsewhere_rules = elsewhere.steps_andThen elsewhere.steps_mapErr elsewhere.steps_attempt elsewhere.steps_if
  elsewhere.steps_ret elsewhere.steps_fail kcall_elsewhere kread_elsewhere readClock_elsewhere sql_elsewhere

lemma steps_sum: "(\<And>e. r = Inl e \<Longrightarrow> steps R (f e)) \<Longrightarrow> (\<And>x. r = Inr x \<Longrightarrow> steps R (g x)) \<Longrightarrow> steps R (case r of Inl e \<Rightarrow> f e | Inr x \<Rightarrow> g x)"
  by (cases r) simp_all

lemma execCreate_elsewhere: "leavesRest ns n E \<Longrightarrow> steps (keepsElsewhere ns n) (execCreate E budget gid n tries lastErr)"
proof (induction tries arbitrary: budget lastErr)
  case (Suc tries)
  then show ?case unfolding execCreate.simps by (intro elsewhere_rules steps_sum) auto
qed simp

lemma probe_elsewhere: "leavesRest ns n E \<Longrightarrow> steps (keepsElsewhere ns n) (probeTenant E gid n pw deadline i left lastErr)"
proof (induction left arbitrary: i lastErr)
  case (Suc left)
  then show ?case unfolding probeTenant.simps pingTenant_def by (intro elsewhere_rules steps_sum) auto
qed simp

lemma readCredentials_elsewhere: "steps (keepsElsewhere ns n) (readCredentials D)"
  by (simp add: steps_def keepsElsewhere_def readCredentials_def)

lemma randomPassword_elsewhere: "steps (keepsElsewhere ns n) (randomPassword D)"
  by (simp add: steps_def keepsElsewhere_def randomPassword_def split: option.split)

lemma write_elsewhere:
  fixes E :: "'a site cluster environ"
  assumes "leavesRest ns n E" "\<And>s. ex = Some s \<Longrightarrow> objIs ''secrets'' ns tenantGatewayDBSecretName s"
  shows "steps (keepsElsewhere ns n) (writeTenantSecret D E creds ns m pw ex)"
proof (cases ex)
  case None
  then show ?thesis
    unfolding writeTenantSecret_def Let_def
    by (auto intro!: elsewhere_rules assms(1) create_secret(5))
next
  case (Some s)
  then have "koResource s = ''secrets''" "koNamespace s = ns" "koName s = tenantGatewayDBSecretName"
    using assms(2) by (simp_all add: objIs_def)
  then have "elsewhere ns n (snd (objUpdate (s\<lparr>koLabels := ls, koData := data\<rparr>) k)) = elsewhere ns n k" for ls data and k :: "'a site cluster"
    by (intro update_secret(5)) simp_all
  then show ?thesis
    unfolding writeTenantSecret_def Let_def Some option.case
    by (intro elsewhere_rules assms(1))
qed

lemma ddl_elsewhere: "leavesRest ns n E \<Longrightarrow> steps (keepsElsewhere ns n) (reconcileGatewayDatabaseDDL E budget admin n gid pw fresh)"
  unfolding reconcileGatewayDatabaseDDL_def ensureRole_def execCreateGatewayDatabase_def
  by (intro elsewhere_rules execCreate_elsewhere)

text \<open>The Secret that is read is the gateway's.\<close>

lemma read_is_secret:
  fixes E :: "'a site cluster environ"
  assumes "kread E l (objGet ''secrets'' ns tenantGatewayDBSecretName) w = (Inr s, w1)"
  shows "objIs ''secrets'' ns tenantGatewayDBSecretName s"
proof -
  from assms obtain c :: "'a site cluster" where "objGet ''secrets'' ns tenantGatewayDBSecretName c = Inr s"
    by (rule kread_success)
  then have "secretOf ns c = Some s" by (simp add: objGet_def secretOf_def split: option.splits)
  from secretOf_name [OF this] show ?thesis by (simp add: objIs_def)
qed

lemma provision_elsewhere:
  assumes "leavesRest ns (gatewayDBName gid) E" "\<And>s. ex = Some s \<Longrightarrow> objIs ''secrets'' ns tenantGatewayDBSecretName s"
  shows "steps (keepsElsewhere ns (gatewayDBName gid)) (provisionWith D E ns gid creds ex)"
  unfolding provisionWith_def Let_def openAdminConn_def enableCreateRoleSelfGrant_def verifyTenantConn_def
  by (intro steps_sum elsewhere_rules randomPassword_elsewhere ddl_elsewhere probe_elsewhere write_elsewhere assms)

lemma ReconcileGatewayDatabase_elsewhere:
  fixes E :: "'a site cluster environ"
  assumes "leavesRest ns (gatewayDBName gid) E"
  shows "keepsElsewhere ns (gatewayDBName gid) w (snd (ReconcileGatewayDatabase D E ns gid w))"
  unfolding ReconcileGatewayDatabase_def
proof (rule elsewhere.run_andThen)
  show "keepsElsewhere ns (gatewayDBName gid) w (snd (mapErr (errorfW ''read admin credentials: '') (readCredentials D) w))"
    by (simp add: keepsElsewhere_def readCredentials_def)
next
  fix creds w1
  let ?n = "gatewayDBName gid"
  let ?read = "kread E (GetObject ''secrets'' ns tenantGatewayDBSecretName) (objGet ''secrets'' ns tenantGatewayDBSecretName)"
  show "keepsElsewhere ns ?n w1 (snd (andThen (attempt ?read) (\<lambda>got. case secretFound got of
      Inl err \<Rightarrow> fail (g err) | Inr ex \<Rightarrow> provisionWith D E ns gid creds ex) w1))" for g
  proof (rule elsewhere.run_andThen)
    show "keepsElsewhere ns ?n w1 (snd (attempt ?read w1))"
      using kread_elsewhere [OF assms, of "GetObject ''secrets'' ns tenantGatewayDBSecretName"
        "objGet ''secrets'' ns tenantGatewayDBSecretName"] by (simp add: steps_def)
  next
    fix got w2
    assume "attempt ?read w1 = (Inr got, w2)"
    then have "got = Inr s \<Longrightarrow> objIs ''secrets'' ns tenantGatewayDBSecretName s" for s
      using read_is_secret [of E "GetObject ''secrets'' ns tenantGatewayDBSecretName" ns w1 s w2] by (simp only: attempt_result)
    then have sec: "secretFound got = Inr (Some s) \<Longrightarrow> objIs ''secrets'' ns tenantGatewayDBSecretName s" for s
      by (auto simp: secretFound_def split: sum.splits if_splits)
    have "steps (keepsElsewhere ns ?n) (case secretFound got of Inl err \<Rightarrow> fail (g err) | Inr ex \<Rightarrow> provisionWith D E ns gid creds ex)"
      by (intro steps_sum elsewhere.steps_fail provision_elsewhere assms) (auto intro: sec)
    then show "keepsElsewhere ns ?n w2 (snd ((case secretFound got of Inl err \<Rightarrow> fail (g err) | Inr ex \<Rightarrow> provisionWith D E ns gid creds ex) w2))"
      by (simp add: steps_def)
  qed
qed

section \<open>Removal on every path\<close>

text \<open>Others do not make the gateway's role and database.\<close>

definition doesNotRecreate :: "string \<Rightarrow> 'a site cluster environ \<Rightarrow> bool" where
  "doesNotRecreate n E \<longleftrightarrow>
     (\<forall>i k. (databaseOf n k = None \<longrightarrow> databaseOf n (envOthers E i k) = None) \<and> (roleOf n k = None \<longrightarrow> roleOf n (envOthers E i k) = None))"

definition noDatabase :: "string \<Rightarrow> ('a site cluster, rcall) assertion" where
  "noDatabase n c ls \<longleftrightarrow> databaseOf n c = None"

definition noRole :: "string \<Rightarrow> ('a site cluster, rcall) assertion" where
  "noRole n c ls \<longleftrightarrow> databaseOf n c = None \<and> roleOf n c = None"

lemma gone_stable: "doesNotRecreate n E \<Longrightarrow> stable E (noDatabase n)" "doesNotRecreate n E \<Longrightarrow> stable E (noRole n)"
  by (simp_all add: stable_def doesNotRecreate_def noDatabase_def noRole_def)

lemma any_stable: "stable E (\<lambda>_ _. True)"
  by (simp add: stable_def)

lemma dropped_database: "fst (sqlDropDatabase n k) = Inr x \<Longrightarrow> noDatabase n (snd (sqlDropDatabase n k)) ls"
  by (simp add: sqlDropDatabase_def sql_ok sql_snd noDatabase_def databaseOf_def)

lemma dropped_role: "fst (sqlDropRole n k) = Inr x \<Longrightarrow> noDatabase n k ls' \<Longrightarrow> noRole n (snd (sqlDropRole n k)) ls"
  by (simp add: sqlDropRole_def sql_ok sql_snd noDatabase_def noRole_def databaseOf_def roleOf_def split: if_splits)

lemma any_triple: "triple (\<lambda>_ _. True) m (\<lambda>_ _ _. True) (\<lambda>_ _ _. True)"
  by (auto simp: triple_def at_def split: prod.split sum.split)

lemma drop_triple:
  assumes "doesNotRecreate (gatewayDBName gid) E"
  shows "triple (\<lambda>_ _. True) (dropGatewayDatabase E gid) (\<lambda>_. noRole (gatewayDBName gid)) (\<lambda>_ _ _. True)"
proof -
  let ?n = "gatewayDBName gid"
  have look: "triple (\<lambda>_ _. True) (kread E l (sqlExists (\<lambda>p. pgDatabases p ?n \<noteq> None)))
      (\<lambda>b c ls. \<not> b \<longrightarrow> noDatabase ?n c ls) (\<lambda>_ _ _. True)" for l
    by (rule triple_kread [OF any_stable]) (auto simp: sqlExists_def noDatabase_def databaseOf_def)
  have db: "triple (\<lambda>c ls. \<not> b \<longrightarrow> noDatabase ?n c ls)
      (if b then mapErr g (kcall E l (sqlDropDatabase ?n)) else ret ()) (\<lambda>_. noDatabase ?n) (\<lambda>_ _ _. True)" for b g l
  proof (rule triple_if)
    have "triple (\<lambda>_ _. True) (kcall E l (sqlDropDatabase ?n)) (\<lambda>_. noDatabase ?n) (\<lambda>_ _ _. True)"
      by (rule triple_kcall [OF any_stable]) (auto intro: dropped_database)
    then show "triple (\<lambda>c ls. \<not> b \<longrightarrow> noDatabase ?n c ls) (mapErr g (kcall E l (sqlDropDatabase ?n))) (\<lambda>_. noDatabase ?n) (\<lambda>_ _ _. True)"
      by (intro triple_mapErr) (erule triple_weaken, auto)
  qed (simp add: triple_ret)
  have lookRole: "triple (noDatabase ?n) (kread E l (sqlExists (\<lambda>p. pgRoles p ?n \<noteq> None)))
      (\<lambda>b c ls. noDatabase ?n c ls \<and> (\<not> b \<longrightarrow> noRole ?n c ls)) (\<lambda>_ _ _. True)" for l
    by (rule triple_kread [OF gone_stable(1) [OF assms]]) (auto simp: sqlExists_def noDatabase_def noRole_def roleOf_def)
  have role: "triple (\<lambda>c ls. noDatabase ?n c ls \<and> (\<not> b \<longrightarrow> noRole ?n c ls))
      (if b then mapErr g (kcall E l (sqlDropRole ?n)) else ret ()) (\<lambda>_. noRole ?n) (\<lambda>_ _ _. True)" for b g l
  proof (rule triple_if)
    have "triple (noDatabase ?n) (kcall E l (sqlDropRole ?n)) (\<lambda>_. noRole ?n) (\<lambda>_ _ _. True)"
      by (rule triple_kcall [OF gone_stable(1) [OF assms]]) (auto intro: dropped_role)
    then show "triple (\<lambda>c ls. noDatabase ?n c ls \<and> (\<not> b \<longrightarrow> noRole ?n c ls)) (mapErr g (kcall E l (sqlDropRole ?n)))
        (\<lambda>_. noRole ?n) (\<lambda>_ _ _. True)"
      by (intro triple_mapErr) (erule triple_weaken, auto)
  qed (auto intro: triple_ret)
  show ?thesis
    unfolding dropGatewayDatabase_def Let_def
    by (rule triple_andThen [OF any_triple])
      (intro triple_andThen [OF triple_mapErr [OF look]] triple_andThen [OF db] triple_andThen [OF triple_mapErr [OF lookRole]] role)
qed

lemma DeleteGatewayDatabase_triple:
  assumes "doesNotRecreate (gatewayDBName gid) E" "gid \<noteq> []"
  shows "triple (\<lambda>_ _. True) (dbDelete D E gid) (\<lambda>_. noRole (gatewayDBName gid)) (\<lambda>_ _ _. True)"
  using assms(2) unfolding dbDelete_def DeleteGatewayDatabase_def
  by (simp, intro triple_mapErr triple_andThen [OF any_triple] drop_triple assms(1))

lemma dbDelete_elsewhere: "leavesRest ns (gatewayDBName gid) E \<Longrightarrow> steps (keepsElsewhere ns (gatewayDBName gid)) (dbDelete D E gid)"
  unfolding dbDelete_def DeleteGatewayDatabase_def dropGatewayDatabase_def openAdminConn_def Let_def
  by (intro elsewhere_rules readCredentials_elsewhere)

section \<open>Provisioning and removal\<close>

text \<open>
  C9: Whatever calls fail and however, a run of provisioning leaves the password in the gateway's Secret
  the one of the role (or the role not there), and a successful one leaves the gateway served: the Secret
  names role and database, the role has its password, the database is closed to the public and open to the
  role. Where only this gateway's objects are touched by the run, nothing else is: no other Secret, role,
  membership, database or grant changes. Others may do anything but to the gateway's own objects, and no
  fault is taken for a missing Secret.
\<close>

theorem database_ready:
  assumes "dbReconcile D E ns gid w = (r, w')"
    and "leavesDatabase ns (gatewayDBName gid) E" "honestFaults E" "\<And>i. deRandom D i \<noteq> Some []"
    and "agrees ns (gatewayDBName gid) (kwState w)"
  shows "agrees ns (gatewayDBName gid) (kwState w') \<and> (r = Inr () \<longrightarrow> ready ns (gatewayDBName gid) (kwState w')) \<and>
    (leavesRest ns (gatewayDBName gid) E \<longrightarrow>
       elsewhere ns (gatewayDBName gid) (kwState w') = elsewhere ns (gatewayDBName gid) (kwState w))"
proof -
  have "triple (view ns (gatewayDBName gid) agreesV) (dbReconcile D E ns gid)
      (\<lambda>_. view ns (gatewayDBName gid) (readyV (gatewayDBName gid))) (\<lambda>_. view ns (gatewayDBName gid) agreesV)"
    unfolding dbReconcile_def by (rule triple_mapErr [OF ReconcileGatewayDatabase_triple [OF assms(2-4)]])
  from triple_run [OF this _ assms(1)] assms(5)
  have run: "case r of Inr _ \<Rightarrow> at (view ns (gatewayDBName gid) (readyV (gatewayDBName gid))) w' | Inl _ \<Rightarrow> at (view ns (gatewayDBName gid) agreesV) w'"
    by (simp add: agrees_view)
  moreover have "at (view ns (gatewayDBName gid) (readyV (gatewayDBName gid))) w' \<Longrightarrow> at (view ns (gatewayDBName gid) agreesV) w'"
    by (auto simp: at_def view_def intro: readyV_agrees)
  moreover have "leavesRest ns (gatewayDBName gid) E \<Longrightarrow> keepsElsewhere ns (gatewayDBName gid) w w'"
    using ReconcileGatewayDatabase_elsewhere [of ns gid E w D] arg_cong [OF assms(1), of snd] by (simp add: dbReconcile_def)
  ultimately show ?thesis
    by (cases r) (auto simp: agrees_view ready_view keepsElsewhere_def)
qed

text \<open>
  C10: A removal that reports success leaves neither the gateway's database nor its role, whatever failed
  on the way and whatever others do, as long as they do not make the two again; an unreachable server,
  unreadable credentials or a refused statement are never taken for success. Nothing else changes.
\<close>

theorem database_removed:
  assumes "dbDelete D E gid w = (r, w')" "gid \<noteq> []" "doesNotRecreate (gatewayDBName gid) E"
  shows "(r = Inr () \<longrightarrow> databaseOf (gatewayDBName gid) (kwState w') = None \<and> roleOf (gatewayDBName gid) (kwState w') = None) \<and>
    (leavesRest ns (gatewayDBName gid) E \<longrightarrow>
       elsewhere ns (gatewayDBName gid) (kwState w') = elsewhere ns (gatewayDBName gid) (kwState w))"
proof -
  have "r = Inr () \<Longrightarrow> at (noRole (gatewayDBName gid)) w'"
    using triple_run [OF DeleteGatewayDatabase_triple [OF assms(3,2)] _ assms(1)] by (simp add: at_def)
  moreover have "leavesRest ns (gatewayDBName gid) E \<Longrightarrow> keepsElsewhere ns (gatewayDBName gid) w w'"
    using dbDelete_elsewhere [of ns gid E D] arg_cong [OF assms(1), of snd] by (auto simp: steps_def)
  ultimately show ?thesis by (auto simp: at_def noRole_def keepsElsewhere_def)
qed

section \<open>Concrete runs\<close>

definition sampleMount :: mount where
  "sampleMount = Directory (\<lambda>name.
     case map_of [(''host'', '' db ''), (''port'', ''5432''), (''user'', ''admin''), (''password'', ''pw'' @ [CHR 0x0A]), (''sslrootcert'', ''PEM'')] name of
       None \<Rightarrow> Missing | Some v \<Rightarrow> Content v)"

definition sampleCredentials :: adminCredentials where
  "sampleCredentials = \<lparr>acHost = ''db'', acPort = ''5432'', acUser = ''admin'', acPassword = ''pw'', acDbname = ''postgres'', acSslrootcert = ''PEM''\<rparr>"

definition sampleDbEnv :: dbEnv where
  "sampleDbEnv = \<lparr>deDir = ''/mnt'', deMount = (\<lambda>_. sampleMount), deValidPEM = (\<lambda>_. True), deRedact = (\<lambda>_. []),
     deRandom = (\<lambda>_. Some ''00ff''), deBudget = 0, deUri = (\<lambda>_ _ _. ''uri'')\<rparr>"

definition emptyServer :: "unit site" where
  "emptyServer = \<lparr>siPg = \<lparr>pgRoles = (\<lambda>_. None), pgMembers = {}, pgDatabases = (\<lambda>_. None)\<rparr>, siReleases = {}, siMounts = {}, siOrphans = [], siApi = ()\<rparr>"

definition emptyCluster :: "unit site cluster" where
  "emptyCluster = \<lparr>rmClients = [], rmUsers = [], rmGrants = {}, rmIdps = [], rmPolicies = [], rmPermissions = [], rmExchange = False,
     kNamespaces = [], kPods = [], kEvents = [], kObjects = [], kServer = emptyServer\<rparr>"

lemma sampleCredentials_read: "readAdminCredentials (\<lambda>_. True) ''/mnt'' sampleMount = Inr sampleCredentials"
  by code_simp

lemma probe_first:
  assumes "pingTenant E n pw w = (Inr u, w1)"
  shows "probeTenant E gid n pw deadline 0 tenantProbeMaxAttempts err w = (Inr (), w1)"
proof -
  have "probeTenant E gid n pw deadline 0 (Suc 5) err w = (Inr (), w1)"
    unfolding probeTenant.simps using assms by (simp add: runs)
  then show ?thesis by simp
qed

lemma create_first:
  assumes "kcall E (SqlExec ''CREATE DATABASE'' n) (sqlCreateDatabase n) w = (Inr u, w1)"
  shows "execCreateGatewayDatabase E budget gid n w = (Inr (), w1)"
proof -
  have "execCreate E budget gid n (Suc 7) (PlainErr []) w = (Inr (), w1)"
    unfolding execCreate.simps using assms by (simp add: runs)
  then show ?thesis by (simp add: execCreateGatewayDatabase_def)
qed

lemmas sql_defs = sqlCreateRole_def sqlAlterRole_def sqlGrantRole_def sqlCreateDatabase_def sqlConnect_def
  sqlDropDatabase_def sqlDropRole_def sqlExists_def sqlLogin_def stmt_def accepted_def pgOf_def onPg_def

lemma sample_provisioning:
  "\<exists>w'. dbReconcile sampleDbEnv (quiet 0) ''ns'' ''a'' (freshWorld emptyCluster) = (Inr (), w')"
proof -
  have n: "gatewayDBName ''a'' = ''gw_a''" by code_simp
  have fold: "strings_EqualFold ''admin'' ''gw_a'' = False" by code_simp
  show ?thesis
    unfolding dbReconcile_def ReconcileGatewayDatabase_def
    by (simp add: runs kread_quiet kcall_quiet readCredentials_def sampleDbEnv_def sampleCredentials_read sampleCredentials_def
        objGet_def objLookup_def freshWorld_def emptyCluster_def emptyServer_def secretFound_def objNotFound_def k8s_IsNotFound_def
        provisionWith_def randomPassword_def openAdminConn_def enableCreateRoleSelfGrant_def reconcileGatewayDatabaseDDL_def
        ensureRole_def n fold sql_defs create_first verifyTenantConn_def readClock_run probe_first pingTenant_def
        writeTenantSecret_def objCreate_def Let_def cong: bindK_cong mapK_cong)
qed

theorem database_ready_witness:
  "\<exists>w'. dbReconcile sampleDbEnv (quiet 0) ''ns'' ''a'' (freshWorld emptyCluster) = (Inr (), w') \<and>
     ready ''ns'' ''gw_a'' (kwState w') \<and> elsewhere ''ns'' ''gw_a'' (kwState w') = elsewhere ''ns'' ''gw_a'' emptyCluster"
proof -
  have n: "gatewayDBName ''a'' = ''gw_a''" by code_simp
  obtain w' where w': "dbReconcile sampleDbEnv (quiet 0) ''ns'' ''a'' (freshWorld emptyCluster) = (Inr (), w')"
    using sample_provisioning by blast
  have "leavesDatabase ''ns'' (gatewayDBName ''a'') (quiet 0 :: unit site cluster environ)" "honestFaults (quiet 0 :: unit site cluster environ)"
    "leavesRest ''ns'' (gatewayDBName ''a'') (quiet 0 :: unit site cluster environ)"
    by (simp_all add: leavesDatabase_def honestFaults_def faultOf_def leavesRest_def)
  moreover have "deRandom sampleDbEnv i \<noteq> Some []" for i by (simp add: sampleDbEnv_def)
  moreover have "agrees ''ns'' (gatewayDBName ''a'') (kwState (freshWorld emptyCluster))"
    by (simp add: agrees_def secretOf_def objLookup_def freshWorld_def emptyCluster_def)
  ultimately show ?thesis
    using database_ready [OF w'] w' by (simp add: n freshWorld_def)
qed

text \<open>A server that refuses nothing removes what was provisioned; the failure of the first statement is no obstacle.\<close>

definition servedCluster :: "unit site cluster" where
  "servedCluster = emptyCluster\<lparr>kServer := emptyServer\<lparr>siPg :=
     \<lparr>pgRoles = [''gw_a'' \<mapsto> ''00ff''], pgMembers = {(''gw_a'', ''admin'')}, pgDatabases = [''gw_a'' \<mapsto> \<lparr>pgOwner = ''gw_a'', pgConnect = {Some ''gw_a''}\<rparr>]\<rparr>\<rparr>\<rparr>"

definition terminateFails :: "'c environ" where
  "terminateFails = (quiet 0)\<lparr>envFails := (\<lambda>n. if n = 1 then Some (PlainErr ''permission denied'', False) else None)\<rparr>"

theorem database_removed_witness:
  "\<exists>w'. dbDelete sampleDbEnv terminateFails ''a'' (freshWorld servedCluster) = (Inr (), w') \<and>
     databaseOf ''gw_a'' (kwState w') = None \<and> roleOf ''gw_a'' (kwState w') = None"
proof -
  have n: "gatewayDBName ''a'' = ''gw_a''" by code_simp
  have "\<exists>w'. dbDelete sampleDbEnv terminateFails ''a'' (freshWorld servedCluster) = (Inr (), w')"
    unfolding dbDelete_def DeleteGatewayDatabase_def dropGatewayDatabase_def
    by (simp add: runs kread_def kcall_def terminateFails_def readCredentials_def sampleDbEnv_def sampleCredentials_read
        openAdminConn_def n sql_defs freshWorld_def servedCluster_def emptyServer_def emptyCluster_def Let_def
        cong: bindK_cong mapK_cong)
  then obtain w' where w': "dbDelete sampleDbEnv terminateFails ''a'' (freshWorld servedCluster) = (Inr (), w')" by blast
  have "doesNotRecreate (gatewayDBName ''a'') (terminateFails :: unit site cluster environ)"
    by (simp add: doesNotRecreate_def terminateFails_def)
  then show ?thesis using database_removed [OF w'] w' by (simp add: n)
qed

section \<open>Quoting and credentials\<close>

text \<open>
  The server's reading of a quoted text from behind its opening quote: a doubled quote stands for one, a
  single one ends it (\<^verbatim>\<open>standard_conforming_strings\<close> on, as by default). Then the statement that makes a
  database: the two names and what follows them.
\<close>

fun quotedBody :: "char \<Rightarrow> string \<Rightarrow> (string \<times> string) option" where
  "quotedBody q [] = None"
| "quotedBody q (c # cs) =
     (if c \<noteq> q then map_option (apfst (Cons c)) (quotedBody q cs)
      else case cs of
        [] \<Rightarrow> Some ([], [])
      | d # ds \<Rightarrow> if d = q then map_option (apfst (Cons q)) (quotedBody q ds) else Some ([], d # ds))"

definition afterText :: "string \<Rightarrow> string \<Rightarrow> string option" where
  "afterText t s = (if take (length t) s = t then Some (drop (length t) s) else None)"

definition createdNames :: "string \<Rightarrow> (string \<times> string \<times> string) option" where
  "createdNames sql =
     Option.bind (afterText ''CREATE DATABASE \"'' sql) (\<lambda>s1.
     Option.bind (quotedBody CHR ''\"'' s1) (\<lambda>(name, s2).
     Option.bind (afterText '' OWNER \"'' s2) (\<lambda>s3.
     Option.bind (quotedBody CHR ''\"'' s3) (\<lambda>(owner, s4). Some (name, owner, s4)))))"

lemma quotedBody_quote:
  assumes "rest = [] \<or> hd rest \<noteq> q"
  shows "quotedBody q (concat (map (\<lambda>c. if c = q then [c, c] else [c]) s) @ q # rest) = Some (s, rest)"
proof (induction s)
  case Nil
  show ?case using assms by (cases rest) auto
next
  case (Cons c s)
  then show ?case by simp
qed

lemma afterText_append: "afterText t (t @ s) = Some s"
  by (simp add: afterText_def)

text \<open>
  C39: A name or a password cannot break out of the statement it is put into: whatever characters it has,
  the server reads back the two names of the statement that makes a database as the name that was given,
  followed by nothing but the template clause, and a quoted password as the password.
\<close>

theorem quoting_roundtrip:
  "createdNames (createGatewayDatabaseSQL name) = Some (name, name, '' TEMPLATE template0'') \<and>
   quotedBody CHR 0x27 (pgQuoteLiteral password @ [CHR 0x27]) = Some (password, [])"
proof -
  let ?body = "concat (map (\<lambda>c. if c = CHR ''\"'' then [c, c] else [c]) name)"
  have "createGatewayDatabaseSQL name =
      ''CREATE DATABASE \"'' @ ?body @ CHR ''\"'' # '' OWNER \"'' @ ?body @ CHR ''\"'' # '' TEMPLATE template0''"
    by (simp add: createGatewayDatabaseSQL_def pgQuoteIdent_def)
  moreover have "quotedBody CHR ''\"'' (?body @ CHR ''\"'' # '' OWNER \"'' @ s) = Some (name, '' OWNER \"'' @ s)" for s
    by (rule quotedBody_quote) simp
  moreover have "quotedBody CHR ''\"'' (?body @ CHR ''\"'' # '' TEMPLATE template0'') = Some (name, '' TEMPLATE template0'')"
    by (rule quotedBody_quote) simp
  ultimately have "createdNames (createGatewayDatabaseSQL name) = Some (name, name, '' TEMPLATE template0'')"
    unfolding createdNames_def by (simp only: afterText_append Option.bind.bind_lunit prod.case)
  moreover have "quotedBody CHR 0x27 (pgQuoteLiteral password @ [CHR 0x27]) = Some (password, [])"
    unfolding pgQuoteLiteral_def by (rule quotedBody_quote) simp
  ultimately show ?thesis by blast
qed

lemma andGet_success: "andGet r f = Inr y \<longleftrightarrow> (\<exists>x. r = Inr x \<and> f x = Inr y)"
  by (cases r) (simp_all add: andGet_def)

lemma require_success: "require ok m f = Inr y \<longleftrightarrow> ok \<and> f () = Inr y"
  by (simp add: require_def)

lemma readTrimmed_nonempty: "readTrimmed files name True = Inr v \<Longrightarrow> v \<noteq> []"
  by (auto simp: readTrimmed_def Let_def split: sum.splits if_splits)

lemma trimNewlines_last: "trimNewlines s \<noteq> [] \<Longrightarrow> last (trimNewlines s) \<noteq> CHR 0x0D \<and> last (trimNewlines s) \<noteq> CHR 0x0A"
proof -
  assume ne: "trimNewlines s \<noteq> []"
  then have "dropWhile (\<lambda>c. c = CHR 0x0D \<or> c = CHR 0x0A) (rev s) \<noteq> []" by (simp add: trimNewlines_def)
  from hd_dropWhile [OF this] show ?thesis by (simp add: trimNewlines_def last_rev)
qed

text \<open>
  C40: Admin credentials that were read are usable: host, user, password and database are not empty, the
  port is a number of a TCP port, the password does not end in a line break, the certificates were
  accepted, and the mode of the connection, where the mount sets one, is the one that verifies the server.
\<close>

theorem admin_credentials_valid:
  assumes "readAdminCredentials validPEM dir mnt = Inr c"
  shows "acHost c \<noteq> [] \<and> acUser c \<noteq> [] \<and> acPassword c \<noteq> [] \<and> acDbname c \<noteq> [] \<and> validPEM (acSslrootcert c) \<and>
    (\<exists>p. portNumber (acPort c) = Some p \<and> 1 \<le> p \<and> p \<le> 65535) \<and> last (acPassword c) \<notin> {CHR 0x0D, CHR 0x0A} \<and>
    (\<exists>files. mnt = Directory files \<and> readTrimmed files ''sslmode'' False \<in> {Inr [], Inr requiredSSLMode})"
proof -
  obtain files where m: "mnt = Directory files"
    using assms by (cases mnt) (auto simp: readAdminCredentials_def split: if_splits)
  from assms m show ?thesis
    unfolding readAdminCredentials_def
    by (auto simp: andGet_success require_success Let_def split: if_splits option.splits
        dest: readTrimmed_nonempty trimNewlines_last)
qed

theorem admin_credentials_valid_witness:
  "\<exists>c. readAdminCredentials (\<lambda>_. True) ''/mnt'' sampleMount = Inr c \<and> acPassword c = ''pw'' \<and> acDbname c \<noteq> [] \<and>
     (\<exists>p. portNumber (acPort c) = Some p \<and> p \<le> 65535)"
  using admin_credentials_valid [OF sampleCredentials_read] sampleCredentials_read
  by (auto simp: sampleCredentials_def)

text \<open>Two gateways whose identifiers differ in case only share one database and role.\<close>

lemma names_collide: "gatewayDBName ''2AbC'' = gatewayDBName ''2aBc''"
  by code_simp

end
