(* ===== verification/Spec2Isabelle.thy ===== *)
theory Spec2Isabelle
  imports Rbac_Authorizer Gateway_Access Reconcile_Queue Watch_Streams Gateways Namespace_GC Keycloak_Console Role_Bridge Gateway_Database
begin

text \<open>
  A verification development for HyperShell, a platform that runs OpenShell gateways for its users.

  \<^bold>\<open>The program.\<close> An API server (\<^verbatim>\<open>src/components/api-server\<close>) keeps users, roles, role bindings and
  gateways in a database and serves them over REST and gRPC. Every managed cluster runs a control
  plane (\<^verbatim>\<open>src/components/control-plane\<close>) that watches the API server and makes the cluster follow:
  Kubernetes namespaces and Keycloak clients and roles. Both decide on people's access, both run many
  steps that fail one by one, and the second does so while others act on the same objects.

  \<^bold>\<open>Theories and code.\<close> Every definition that models code keeps the name of the function it models; a
  method is prefixed with its receiver where two would clash (\<^verbatim>\<open>rbDao_\<close>, \<^verbatim>\<open>gwService_\<close>).

  \<^item> \<open>Go_Prelude\<close>: Go strings and the functions of \<^verbatim>\<open>strings\<close> the code calls, error values.
  \<^item> \<open>Rbac_Policy\<close>: \<^verbatim>\<open>pkg/rbac/authorization.go\<close> with the roles of \<^verbatim>\<open>plugins/roles/model.go\<close>; the
    REST policy as functions of the bindings. Lemmas: isolation of gateways, paths and their parser.
  \<^item> \<open>Rbac_Identity\<close>: \<^verbatim>\<open>jwt_roles.go\<close>, \<^verbatim>\<open>cluster_binding.go\<close>, \<^verbatim>\<open>import_binding.go\<close>,
    \<^verbatim>\<open>control_plane_identity.go\<close>, \<^verbatim>\<open>user_provisioning.go\<close>; who a token speaks for.
  \<^item> \<open>Rbac_Grpc\<close>: \<^verbatim>\<open>grpc_authorization.go\<close>, \<^verbatim>\<open>grpc_interceptor.go\<close>, \<^verbatim>\<open>gateway_writer_kind.go\<close>; the gRPC
    policy, its confinement of control planes and its agreement with the REST policy.
  \<^item> \<open>Rbac_Authorizer\<close>: \<^verbatim>\<open>authorizer.go\<close>, \<^verbatim>\<open>enforcement.go\<close>; the chain of checks before a handler.
  \<^item> \<open>Go_Effects\<close>: programs that thread a state and may fail, with the rules by which a relation
    between states is shown to hold on every path (\<open>step_order\<close>).
  \<^item> \<open>Role_Bindings\<close>, \<open>Users\<close>, \<open>Gateway_Access\<close>: the plugins \<^verbatim>\<open>roleBindings\<close>, \<^verbatim>\<open>users\<close> and
    \<^verbatim>\<open>gatewayAccess\<close> over one database record with a schedule of faults, one entry per statement; grant,
    change and revocation of roles, the last-owner guard, paging.
  \<^item> \<open>Gateways\<close>: the plugin \<^verbatim>\<open>gateways\<close>; the write policy, generations and conditions, deletion with
    its cleaners, placement and late binding.
  \<^item> \<open>Reconcile_Queue\<close>: \<^verbatim>\<open>control-plane/internal/watcher/requeue.go\<close> as a step relation of enqueuers,
    workers, timers and prunes over any work queue that keeps the laws of client-go's (\<open>workqueue_ops\<close>).
  \<^item> \<open>Watch_Streams\<close>: \<^verbatim>\<open>watcher.go\<close>; the seed of the queue, the join of receiver and seed, retries.
  \<^item> \<open>Control_Effects\<close>: programs that call remote systems in an environment that may do anything
    between two calls and may make any call fail, before or after it took effect; histories of calls.
  \<^item> \<open>Namespace_GC\<close>: \<^verbatim>\<open>control-plane/internal/reconciler/namespace.go\<close>, \<^verbatim>\<open>gateway/namespace.go\<close>,
    \<^verbatim>\<open>gateway/sandbox.go\<close>; ownership of namespaces and the collection of orphaned ones.
  \<^item> \<open>Keycloak_Client\<close>: \<^verbatim>\<open>control-plane/internal/keycloak/client.go\<close> over the record of a realm; roles of
    users, provisioning with roll-back, the clients of service accounts, the directory of users.
  \<^item> \<open>Role_Bridge\<close>: \<^verbatim>\<open>control-plane/internal/reconciler/role_binding_reconciler.go\<close>; the reconciler that
    makes Keycloak roles follow role bindings.
  \<^item> \<open>Control_World\<close>: the records of a realm, a cluster and a database server, and the one type of the
    calls made to them; no code of its own.
  \<^item> \<open>Keycloak_Console\<close>: the rest of \<^verbatim>\<open>keycloak/client.go\<close>; the clients of web consoles, the repair of
    their drift, the check of a gateway's client.
  \<^item> \<open>Gateway_Database\<close>: \<^verbatim>\<open>control-plane/internal/gateway/database.go\<close>; admin credentials, provisioning
    and removal of a gateway's role, database and Secret.
  \<^item> This theory: properties that span components.

  \<^bold>\<open>How the parts meet.\<close> The bindings that \<open>Role_Bindings\<close> writes are what \<open>Rbac_Policy\<close> decides on:
  \<open>granted_role_is_enforced\<close> and \<open>deleted_gateway_unreachable\<close> follow a grant and a deletion from the
  tables to the decisions. \<open>Gateway_Access\<close> calls the services of \<open>Role_Bindings\<close> and \<open>Users\<close>; \<open>Gateways\<close>
  calls the binding service as its cleaner. \<open>Watch_Streams\<close> drives \<open>Reconcile_Queue\<close>, whose workers run the
  reconcilers; the errors of these (\<open>chain\<close>) decide what the queue retries.

  \<^bold>\<open>Parameters.\<close> What is not in the repository is an argument: the parser of tokens, the resolvers of
  clusters and imports, client-go's work queue, the JSON codec of conditions, the order in which Go
  ranges over a map, \<^verbatim>\<open>time.Format\<close> and \<^verbatim>\<open>time.Parse\<close> (\<open>timeCodec\<close>), the server's answers to list calls
  and the fault schedules. A property that needs a law of one of them names it as a hypothesis and its
  witness meets it with a concrete function. The Vault cleaner of an orphan and the cleaners of a
  gateway's service accounts are arguments as well, one call each.

  \<^bold>\<open>Bounds and fuel.\<close> Nothing runs on fuel except where the code has a bound of its own: the five
  list passes of a seed, the pages a list reads before its deadline (\<open>budget\<close>), the tries of a loop. Loops
  without a bound are relations (the queue) or \<^verbatim>\<open>partial_function\<close> (the pages of a seed), and what is said
  of them says that they end where they do. Integers are \<open>int\<close> where the code cannot overflow them and words
  where it can (page numbers, versions, offsets); durations saturate as Go's do.

  \<^bold>\<open>Not modelled.\<close> Logs, metrics and traces; request decoding and presentation; schema migrations; the
  generated API; wiring of \<^verbatim>\<open>main\<close>; the delivery automation under \<^verbatim>\<open>.hypershell\<close>, which is tooling; the
  HTTP clients of Keycloak and Vault below the operations named above; Helm rendering and the
  Kubernetes objects of a gateway's workload; service accounts; the terminal and web clients.
\<close>

section \<open>Authority across the components\<close>

text \<open>What a role on a gateway lets its holder do there, and whom the tables give it to.\<close>

definition roleAdmits :: "string \<Rightarrow> string \<Rightarrow> bool" where
  "roleAdmits role m \<longleftrightarrow> role = RoleGatewayOwner \<or> role = RoleGatewayAdmin \<and> m \<noteq> MethodDelete \<or>
     role = RoleGatewayViewer \<and> m = MethodGet"

definition adminMay :: "string \<Rightarrow> bool" where
  "adminMay m \<longleftrightarrow> m = MethodGet \<or> m = MethodDelete"

definition admitted :: "db \<Rightarrow> string \<Rightarrow> string \<Rightarrow> string \<Rightarrow> bool" where
  "admitted d u m g \<longleftrightarrow> (\<exists>b\<in>set (userOn d u g). roleAdmits (the (roleNameOf d b)) m)"

lemma tier_chain:
  assumes "x \<noteq> y" "x \<noteq> z" "y \<noteq> z"
  shows "(if \<not> on then False else if r = x then True else if r = y then p else if r = z then q else False) \<longleftrightarrow>
    on \<and> (r = x \<or> r = y \<and> p \<or> r = z \<and> q)"
  using assms by auto

lemma gatewayDecision_iff:
  "isGatewayAuthorized m g bs \<longleftrightarrow> hasPlatformAdmin bs \<and> adminMay m \<or>
     (\<exists>b\<in>set bs. onGateway g b \<and> roleAdmits (bsRoleName b) m)"
proof -
  have d: "RoleGatewayOwner \<noteq> RoleGatewayAdmin" "RoleGatewayOwner \<noteq> RoleGatewayViewer" "RoleGatewayAdmin \<noteq> RoleGatewayViewer"
    by simp_all
  show ?thesis
    unfolding isGatewayAuthorized_def tier_chain [OF d] list_ex_iff roleAdmits_def adminMay_def by (simp only: if_True if_False split: if_split) blast
qed

lemma hasPlatformAdmin_summaries:
  "hasPlatformAdmin (summariesOf d u) \<longleftrightarrow>
     (\<exists>b\<in>set (liveBindings d). bUserID b = Some u \<and> the (roleNameOf d b) = RolePlatformAdmin)"
  by (auto simp: hasPlatformAdmin_def summariesOf_def summaryOf_def list_ex_iff)

text \<open>The decision on a gateway, from the tables.\<close>

lemma decision_from_tables:
  assumes "wf_db d" "rb_FindBindingsByUserID u d = (Inr bs, d1)"
  shows "isGatewayAuthorized m g bs \<longleftrightarrow> hasPlatformAdmin bs \<and> adminMay m \<or> admitted d u m g"
proof -
  from FindBindings_success [OF assms] have "bs = summariesOf d u" by blast
  then show ?thesis
    by (auto simp: gatewayDecision_iff admitted_def userOn_def onUserGateway_def onGateway_def summariesOf_def summaryOf_def)
qed

text \<open>A change of the bindings of one user on one gateway leaves every other decision as it was.\<close>

lemma other_decisions:
  assumes "wf_db d" "wf_db d1" "dRoles d1 = dRoles d" "others d1 u g = others d u g"
    and "rb_FindBindingsByUserID v d = (Inr bs0, x0)" "rb_FindBindingsByUserID v d1 = (Inr bs1, x1)"
    and plain: "\<forall>b\<in>set (userOn d u g) \<union> set (userOn d1 u g). the (roleNameOf d b) \<noteq> RolePlatformAdmin"
  shows "hasPlatformAdmin bs1 = hasPlatformAdmin bs0 \<and>
    (v \<noteq> u \<or> h \<noteq> g \<longrightarrow> isGatewayAuthorized m h bs1 = isGatewayAuthorized m h bs0)"
proof -
  have names: "roleNameOf d1 = roleNameOf d"
    using assms(3) by (simp add: roleNameOf_def liveRoles_def fun_eq_iff)
  have split: "set (liveBindings e) = set (userOn e u g) \<union> set (others e u g)" for e
    by (auto simp: userOn_def others_def)
  have bs: "bs0 = summariesOf d v" "bs1 = summariesOf d1 v"
    using FindBindings_success [OF assms(1,5)] FindBindings_success [OF assms(2,6)] by blast+
  have admin: "hasPlatformAdmin bs1 = hasPlatformAdmin bs0"
    unfolding bs hasPlatformAdmin_summaries names split assms(4) using plain by auto
  have "userOn d1 v h = userOn d v h" if "v \<noteq> u \<or> h \<noteq> g"
  proof -
    have "userOn e v h = filter (\<lambda>b. bUserID b = Some v \<and> onUserGateway h b) (others e u g)" for e
      using that by (auto simp: userOn_def others_def onUserGateway_def intro!: filter_cong)
    with assms(4) show ?thesis by simp
  qed
  with admin names show ?thesis
    using decision_from_tables [OF assms(1,5)] decision_from_tables [OF assms(2,6)] by (auto simp: admitted_def)
qed

lemma SetGatewayRole_tables:
  assumes "wf_db d" "fresh newID" "SetGatewayRole newID u g role d = (Inr rb, d1)"
  shows "wf_db d1 \<and> dRoles d1 = dRoles d"
proof -
  have "steps wf_step (SetGatewayRole newID u g role)"
    using rb_service_wf [OF assms(2), of "newBinding [] [] None None"] by (simp add: newBinding_def)
  with assms(1,3) show ?thesis by (auto simp: steps_def wf_step_def dest!: spec [of _ d])
qed

lemma ran: "\<not> isl (fst p) \<Longrightarrow> \<exists>x w. p = (Inr x, w)"
  by (cases p; cases "fst p") auto

text \<open>
  C3: what is granted is what is enforced. After a successful \<open>SetGatewayRole\<close>, the bindings the
  authorizer loads for that user let the user do on that gateway exactly what the granted role
  allows, and what a platform admin may; and for every other user, and for this user on every other
  gateway, each decision is the one made before the grant.
\<close>

theorem granted_role_is_enforced:
  assumes wf: "wf_db d" and new: "fresh newID" and run: "SetGatewayRole newID u g role d = (Inr rb, d1)"
    and load: "rb_FindBindingsByUserID v d = (Inr bs0, x0)" "rb_FindBindingsByUserID v d1 = (Inr bs1, x1)"
    and plain: "role \<noteq> RolePlatformAdmin" "\<forall>b\<in>set (userOn d u g). the (roleNameOf d b) \<noteq> RolePlatformAdmin"
  shows "isGatewayAuthorized m h bs1 \<longleftrightarrow>
    (if v = u \<and> h = g then hasPlatformAdmin bs0 \<and> adminMay m \<or> roleAdmits role m
     else isGatewayAuthorized m h bs0)"
proof -
  note e = SetGatewayRole_effect [OF wf new run]
  from SetGatewayRole_tables [OF wf new run] have t: "wf_db d1" "dRoles d1 = dRoles d" by simp_all
  then have names: "roleNameOf d1 = roleNameOf d" by (simp add: roleNameOf_def liveRoles_def fun_eq_iff)
  have "\<forall>b\<in>set (userOn d u g) \<union> set (userOn d1 u g). the (roleNameOf d b) \<noteq> RolePlatformAdmin"
    using plain e names by auto
  note o = other_decisions [OF wf t(1,2) _ load this, of h m]
  have "admitted d1 u m g \<longleftrightarrow> roleAdmits role m" using e by (simp add: admitted_def)
  with o e decision_from_tables [OF t(1) load(2), of m h] show ?thesis by (cases "v = u \<and> h = g") auto
qed

theorem granted_role_is_enforced_witness:
  "\<exists>rb d1 bs. SetGatewayRole freshID ''u2'' ''g1'' RoleGatewayAdmin twoOwners = (Inr rb, d1) \<and>
    fst (rb_FindBindingsByUserID ''u2'' d1) = Inr bs \<and>
    isGatewayAuthorized MethodPatch ''g1'' bs \<and> \<not> isGatewayAuthorized MethodDelete ''g1'' bs"
proof -
  have s: "\<not> isl (fst (SetGatewayRole freshID ''u2'' ''g1'' RoleGatewayAdmin twoOwners))"
      "\<not> isl (fst (rb_FindBindingsByUserID ''u2'' twoOwners))"
      "\<not> isl (fst (rb_FindBindingsByUserID ''u2'' (snd (SetGatewayRole freshID ''u2'' ''g1'' RoleGatewayAdmin twoOwners))))"
    by code_simp+
  from ran [OF s(1)] obtain rb d1 where run: "SetGatewayRole freshID ''u2'' ''g1'' RoleGatewayAdmin twoOwners = (Inr rb, d1)"
    by blast
  from ran [OF s(2)] ran [OF s(3)] obtain bs0 x0 bs1 x1 where
    load: "rb_FindBindingsByUserID ''u2'' twoOwners = (Inr bs0, x0)" "rb_FindBindingsByUserID ''u2'' d1 = (Inr bs1, x1)"
    unfolding run snd_conv by blast
  have plain: "RoleGatewayAdmin \<noteq> RolePlatformAdmin"
    "\<forall>b\<in>set (userOn twoOwners ''u2'' ''g1''). the (roleNameOf twoOwners b) \<noteq> RolePlatformAdmin" by code_simp+
  note g = granted_role_is_enforced [OF wf_twoOwners fresh_freshID run load plain]
  have "bs0 = summariesOf twoOwners ''u2''" using FindBindings_success [OF wf_twoOwners load(1)] by blast
  moreover have "\<not> hasPlatformAdmin (summariesOf twoOwners ''u2'')" by code_simp
  ultimately have "isGatewayAuthorized MethodPatch ''g1'' bs1 \<and> \<not> isGatewayAuthorized MethodDelete ''g1'' bs1"
    using g [of MethodPatch "''g1''"] g [of MethodDelete "''g1''"] by (simp add: roleAdmits_def)
  with run load show ?thesis by (metis fst_conv)
qed

text \<open>
  C4: no authority survives its gateway. After a successful deletion, with the cleaners as they are
  wired, the bindings the authorizer loads for any user decide on that gateway by \<open>platform:admin\<close>
  alone.
\<close>

theorem deleted_gateway_unreachable:
  assumes wired: "svcBindingCleaner s = Some bindingCleaner"
    and cleaner: "\<And>f m w w'. svcDeletionCleaner s = Some f \<Longrightarrow> f i m w = (Inr (), w') \<Longrightarrow>
      \<exists>w1 w2. sameTables w w1 \<and> m w1 = (Inr (), w2) \<and> sameTables w2 w'"
    and wf: "wf_db (gtDb w)" and run: "gwService_Delete s i w = (Inr (), w')"
    and after: "wf_db (gtDb w')" "rb_FindBindingsByUserID u (gtDb w') = (Inr bs, x)"
  shows "isGatewayAuthorized m i bs \<longleftrightarrow> hasPlatformAdmin bs \<and> adminMay m"
proof -
  have "liveBindings (gtDb w') = filter (\<lambda>b. bGatewayID b \<noteq> Some i) (liveBindings (gtDb w))"
    using Delete_leaves_nothing [where s = s, OF wired _ wf run] cleaner by blast
  then have "userOn (gtDb w') u i = []" by (auto simp: userOn_def onUserGateway_def filter_empty_conv)
  with decision_from_tables [OF after] show ?thesis by (simp add: admitted_def)
qed

theorem deleted_gateway_unreachable_witness:
  "\<exists>w' bs. gwService_Delete sampleService ''g1'' sampleWorld = (Inr (), w') \<and>
    fst (rb_FindBindingsByUserID ''u1'' (gtDb w')) = Inr bs \<and> \<not> isGatewayAuthorized MethodGet ''g1'' bs"
proof -
  let ?w = "snd (gwService_Delete sampleService ''g1'' sampleWorld)"
  have "\<not> isl (fst (gwService_Delete sampleService ''g1'' sampleWorld)) \<and>
      \<not> isl (fst (rb_FindBindingsByUserID ''u1'' (gtDb ?w)))" by code_simp
  then obtain bs x where run: "gwService_Delete sampleService ''g1'' sampleWorld = (Inr (), ?w)"
    and load: "rb_FindBindingsByUserID ''u1'' (gtDb ?w) = (Inr bs, x)"
    by (metis snd_conv ran old.unit.exhaust)
  have w: "svcBindingCleaner sampleService = Some bindingCleaner" by (simp add: sampleService_def)
  have c: "svcDeletionCleaner sampleService = Some f \<Longrightarrow> f ''g1'' m w = (Inr (), w') \<Longrightarrow>
      \<exists>w1 w2. sameTables w w1 \<and> m w1 = (Inr (), w2) \<and> sameTables w2 w'" for f m w w'
    by (auto simp: sampleService_def intro: sameTables_refl)
  have db: "wf_db (gtDb sampleWorld)" using wf_twoOwners by (simp add: sampleWorld_def wf_db_def liveBindings_def liveRoles_def)
  have after: "wf_db (gtDb ?w)" unfolding wf_db_def by code_simp
  have "bs = summariesOf (gtDb ?w) ''u1''" using FindBindings_success [OF after load] by blast
  moreover have "\<not> hasPlatformAdmin (summariesOf (gtDb ?w) ''u1'')" by code_simp
  ultimately have "\<not> isGatewayAuthorized MethodGet ''g1'' bs"
    using deleted_gateway_unreachable [OF w c db run after load, where m = MethodGet] by simp
  with run load show ?thesis by auto
qed

end
